(* ===== verification/Prelude.thy ===== *)
theory Prelude
  imports Main "HOL-Library.Word" "HOL-Library.Monad_Syntax" "HOL-Library.Sublist"
    "HOL-Library.List_Lexorder"
begin

text \<open>
  The prelude of the Flin development: what every component shares.

  \<^item> Go's values: a byte is an \<open>8 word\<close>, a \<open>[]byte\<close> and a \<open>string\<close> are both byte
    sequences (a Go string is an immutable byte sequence, so the conversions between the two are
    the identity), \<open>int\<close>, \<open>int64\<close> and \<open>uint64\<close> are 64-bit words read with \<open>sint\<close> or
    \<open>unat\<close>.  A \<open>nil\<close> slice and an empty one are not distinguished: the sources only ask for
    their length.
  \<^item> Go's run-time panics: an operation that may panic (an index or a slice expression out of
    range) returns an \<open>option\<close>, \<open>None\<close> being the panic, and code that uses it is written in
    the \<open>option\<close> monad.  An error \<^emph>\<open>returned\<close> by the code is a value of a sum type inside it.
  \<^item> \<open>encoding/binary\<close>'s big-endian reads and writes, and the cursor over a buffer of fixed size
    with which every encoder of the repository is written.
  \<^item> The decimal formats \<open>%d\<close> and \<open>%020d\<close> of \<open>fmt.Sprintf\<close>.
  \<^item> The collections \<open>cursor_simps\<close> (running an encoder), \<open>read_simps\<close> (running a decoder) and
    \<open>key_simps\<close> (comparing storage keys) that carry the component proofs.
\<close>

unbundle bit_operations_syntax

named_theorems cursor_simps "running an encoder over a fresh buffer"
named_theorems read_simps "running a decoder over a concatenation of fields"
named_theorems key_simps "comparing storage keys"

section \<open>Go values\<close>

type_synonym byte = "8 word"
type_synonym bytes = "byte list"
type_synonym gostring = "byte list"
type_synonym uint16 = "16 word"
type_synonym uint32 = "32 word"
type_synonym uint64 = "64 word"
type_synonym int64 = "64 word"
type_synonym goint = "64 word"

text \<open>A string literal of the source as the bytes it denotes (the literals are ASCII).\<close>

definition lit :: "string \<Rightarrow> gostring" where
  "lit s = map (\<lambda>c. word_of_nat (of_char c)) s"

lemma lit_Nil [simp]: "lit [] = []"
  by (simp add: lit_def)

lemma lit_append: "lit (s @ t) = lit s @ lit t"
  by (simp add: lit_def)

lemma length_lit [simp]: "length (lit s) = length s"
  by (simp add: lit_def)

lemma char_of_lit: "char_of (unat (word_of_nat (of_char c) :: byte)) = c"
  by (simp add: unat_of_nat take_bit_eq_mod [symmetric])

lemma inj_lit: "lit s = lit t \<longleftrightarrow> s = t"
proof
  assume "lit s = lit t"
  then have "map (char_of \<circ> unat) (lit s) = map (char_of \<circ> unat) (lit t)" by simp
  then show "s = t" by (simp add: lit_def comp_def char_of_lit)
qed simp

lemma unat_bounds:
  "unat (a :: byte) < 256" "unat (b :: uint16) < 65536" "unat (c :: uint32) < 4294967296"
  "unat (d :: uint64) < 18446744073709551616"
  using unsigned_less [of a, where 'a=nat] unsigned_less [of b, where 'a=nat]
    unsigned_less [of c, where 'a=nat] unsigned_less [of d, where 'a=nat] by simp_all

lemma unat_plus1: "(i :: 'a::len word) < j \<Longrightarrow> unat (i + 1) = unat i + 1"
proof -
  assume "i < j"
  then have "unat i < unat j" by (simp add: word_less_nat_alt)
  then have "unat i + 1 < 2 ^ LENGTH('a)"
    using unsigned_less [of j, where 'a=nat] by linarith
  then show ?thesis by (cases "LENGTH('a) = 0") (simp_all add: unat_word_ariths)
qed

lemma map_sum_Inr [simp]: "map_sum f g x = Inr y \<longleftrightarrow> (\<exists>a. x = Inr a \<and> y = g a)"
  by (cases x) auto

section \<open>Indexing and slicing, with their panics\<close>

text \<open>\<open>b[i]\<close>, \<open>b[lo:hi]\<close> and \<open>b[lo:]\<close>; every slice expression of the modelled code has an
  upper bound that the code has compared with \<open>len\<close>, so the capacity plays no role.\<close>

definition goindex :: "bytes \<Rightarrow> nat \<Rightarrow> byte option" where
  "goindex b i = (if i < length b then Some (b ! i) else None)"

definition goslice :: "bytes \<Rightarrow> nat \<Rightarrow> nat \<Rightarrow> bytes option" where
  "goslice b lo hi = (if lo \<le> hi \<and> hi \<le> length b then Some (take (hi - lo) (drop lo b)) else None)"

section \<open>encoding/binary, big endian\<close>

definition be16 :: "uint16 \<Rightarrow> bytes" where
  "be16 v = [ucast (drop_bit 8 v), ucast v]"

definition be32 :: "uint32 \<Rightarrow> bytes" where
  "be32 v = [ucast (drop_bit 24 v), ucast (drop_bit 16 v), ucast (drop_bit 8 v), ucast v]"

definition be64 :: "uint64 \<Rightarrow> bytes" where
  "be64 v = [ucast (drop_bit 56 v), ucast (drop_bit 48 v), ucast (drop_bit 40 v),
     ucast (drop_bit 32 v), ucast (drop_bit 24 v), ucast (drop_bit 16 v), ucast (drop_bit 8 v),
     ucast v]"

definition rd16 :: "bytes \<Rightarrow> uint16" where
  "rd16 b = ucast (b ! 1) OR push_bit 8 (ucast (b ! 0))"

definition rd32 :: "bytes \<Rightarrow> uint32" where
  "rd32 b = ucast (b ! 3) OR push_bit 8 (ucast (b ! 2)) OR push_bit 16 (ucast (b ! 1))
     OR push_bit 24 (ucast (b ! 0))"

definition rd64 :: "bytes \<Rightarrow> uint64" where
  "rd64 b = ucast (b ! 7) OR push_bit 8 (ucast (b ! 6)) OR push_bit 16 (ucast (b ! 5))
     OR push_bit 24 (ucast (b ! 4)) OR push_bit 32 (ucast (b ! 3)) OR push_bit 40 (ucast (b ! 2))
     OR push_bit 48 (ucast (b ! 1)) OR push_bit 56 (ucast (b ! 0))"

text \<open>\<open>binary.BigEndian.Uint16(b[pos:])\<close> and its siblings: the slice panics when \<open>pos\<close> is past
  the end, the read when fewer bytes than it needs are left.\<close>

definition Uint16At :: "bytes \<Rightarrow> nat \<Rightarrow> uint16 option" where
  "Uint16At b pos = (if pos + 2 \<le> length b then Some (rd16 (take 2 (drop pos b))) else None)"

definition Uint32At :: "bytes \<Rightarrow> nat \<Rightarrow> uint32 option" where
  "Uint32At b pos = (if pos + 4 \<le> length b then Some (rd32 (take 4 (drop pos b))) else None)"

definition Uint64At :: "bytes \<Rightarrow> nat \<Rightarrow> uint64 option" where
  "Uint64At b pos = (if pos + 8 \<le> length b then Some (rd64 (take 8 (drop pos b))) else None)"

lemma length_be [simp, read_simps]:
  "length (be16 a) = 2" "length (be32 b) = 4" "length (be64 c) = 8"
  by (simp_all add: be16_def be32_def be64_def)

lemma be_not_Nil [simp]: "be16 a \<noteq> []" "be32 b \<noteq> []" "be64 c \<noteq> []"
  by (simp_all add: be16_def be32_def be64_def)

lemma bit_byte_lane:
  fixes v :: "'a::len word"
  shows "bit (push_bit k (ucast (ucast (drop_bit k v) :: byte) :: 'a word)) n \<longleftrightarrow>
    n < LENGTH('a) \<and> k \<le> n \<and> n < k + 8 \<and> bit v n"
  by (auto simp: bit_simps)

lemma bit_byte_lane_low:
  fixes v :: "'a::len word"
  shows "bit (ucast (ucast v :: byte) :: 'a word) n \<longleftrightarrow> n < LENGTH('a) \<and> n < 8 \<and> bit v n"
  by (auto simp: bit_simps)

lemma rd16_be16 [simp, read_simps]: "rd16 (be16 v) = v"
  by (rule bit_word_eqI) (auto simp: rd16_def be16_def bit_byte_lane bit_byte_lane_low bit_or_iff)

lemma rd32_be32 [simp, read_simps]: "rd32 (be32 v) = v"
proof (rule bit_word_eqI)
  fix n assume "n < LENGTH(32)"
  then show "bit (rd32 (be32 v)) n = bit v n"
    by (simp add: rd32_def be32_def bit_byte_lane bit_byte_lane_low bit_or_iff) linarith
qed

lemma rd64_be64 [simp, read_simps]: "rd64 (be64 v) = v"
proof (rule bit_word_eqI)
  fix n assume "n < LENGTH(64)"
  then show "bit (rd64 (be64 v)) n = bit v n"
    by (simp add: rd64_def be64_def bit_byte_lane bit_byte_lane_low bit_or_iff) linarith
qed

lemma unat_word_len [read_simps]:
  "n < 2 ^ 16 \<Longrightarrow> unat (word_of_nat n :: uint16) = n" "n < 2 ^ 32 \<Longrightarrow> unat (word_of_nat n :: uint32) = n"
  by (simp_all add: unat_of_nat)

lemma be_inj [simp]:
  "be16 a = be16 a' \<longleftrightarrow> a = a'" "be32 b = be32 b' \<longleftrightarrow> b = b'" "be64 c = be64 c' \<longleftrightarrow> c = c'"
  by (metis rd16_be16 rd32_be32 rd64_be64)+

text \<open>Reads never panic exactly where enough bytes are left.\<close>

lemma UintAt_None:
  "Uint16At b pos = None \<longleftrightarrow> length b < pos + 2"
  "Uint32At b pos = None \<longleftrightarrow> length b < pos + 4"
  "Uint64At b pos = None \<longleftrightarrow> length b < pos + 8"
  by (auto simp: Uint16At_def Uint32At_def Uint64At_def)

lemma goslice_None: "goslice b lo hi = None \<longleftrightarrow> hi < lo \<or> length b < hi"
  by (auto simp: goslice_def)

lemmas reads_def [read_simps] = Uint16At_def Uint32At_def Uint64At_def goslice_def goindex_def

section \<open>Steps the decoders share\<close>

text \<open>A decoder panics (\<open>None\<close>), returns an error or a value.\<close>

type_synonym 'a decoded = "(string + 'a) option"

text \<open>\<open>if len(payload) < n { return nil, err }\<close>\<close>

definition need :: "bytes \<Rightarrow> nat \<Rightarrow> string \<Rightarrow> 'a decoded \<Rightarrow> 'a decoded" where
  "need payload n err k = (if length payload < n then Some (Inl err) else k)"

text \<open>Read a length, check it, take the field, move on: with a 2-byte and with a 4-byte length.\<close>

definition readStr16 :: "bytes \<Rightarrow> nat \<Rightarrow> string \<Rightarrow> (gostring \<Rightarrow> nat \<Rightarrow> 'a decoded) \<Rightarrow> 'a decoded" where
  "readStr16 payload pos err k = do {
     len \<leftarrow> Uint16At payload pos;
     let pos = pos + 2;
     need payload (pos + unat len) err (do {
       s \<leftarrow> goslice payload pos (pos + unat len);
       k s (pos + unat len)
     })
   }"

definition readStr32 :: "bytes \<Rightarrow> nat \<Rightarrow> string \<Rightarrow> (bytes \<Rightarrow> nat \<Rightarrow> 'a decoded) \<Rightarrow> 'a decoded" where
  "readStr32 payload pos err k = do {
     len \<leftarrow> Uint32At payload pos;
     let pos = pos + 4;
     need payload (pos + unat len) err (do {
       s \<leftarrow> goslice payload pos (pos + unat len);
       k s (pos + unat len)
     })
   }"

text \<open>What a successful read tells.\<close>

lemma readStr16_Inr: "readStr16 p pos err k = Some (Inr a) \<Longrightarrow> \<exists>s. k s (pos + 2 + length s) = Some (Inr a)"
proof -
  assume *: "readStr16 p pos err k = Some (Inr a)"
  then obtain len where "Uint16At p pos = Some len"
    by (auto simp: readStr16_def split: Option.bind_splits)
  with * have "pos + 2 + unat len \<le> length p"
      "k (take (unat len) (drop (pos + 2) p)) (pos + 2 + unat len) = Some (Inr a)"
    by (auto simp: readStr16_def need_def goslice_def Let_def split: if_splits)
  then show ?thesis by (intro exI [of _ "take (unat len) (drop (pos + 2) p)"]) simp
qed

lemma readStr32_Inr: "readStr32 p pos err k = Some (Inr a) \<Longrightarrow> \<exists>s. k s (pos + 4 + length s) = Some (Inr a)"
proof -
  assume *: "readStr32 p pos err k = Some (Inr a)"
  then obtain len where "Uint32At p pos = Some len"
    by (auto simp: readStr32_def split: Option.bind_splits)
  with * have "pos + 4 + unat len \<le> length p"
      "k (take (unat len) (drop (pos + 4) p)) (pos + 4 + unat len) = Some (Inr a)"
    by (auto simp: readStr32_def need_def goslice_def Let_def split: if_splits)
  then show ?thesis by (intro exI [of _ "take (unat len) (drop (pos + 4) p)"]) simp
qed

lemma UintAt_Some:
  "Uint16At b pos = Some u \<Longrightarrow> pos + 2 \<le> length b"
  "Uint32At b pos = Some v \<Longrightarrow> pos + 4 \<le> length b"
  "Uint64At b pos = Some w \<Longrightarrow> pos + 8 \<le> length b"
  by (auto simp: Uint16At_def Uint32At_def Uint64At_def split: if_splits)

section \<open>The cursor of the encoders\<close>

text \<open>
  Every encoder allocates its buffer with \<open>make\<close>, keeps a position, and repeats
  \<open>binary.BigEndian.PutUintN(buf[pos:], v); pos += N\<close> and \<open>copy(buf[pos:], s); pos += len(s)\<close>.
  A cursor is the pair of buffer and position; each write is one step of it.  A write past the end
  panics, except that \<open>copy\<close> truncates.
\<close>

type_synonym cursor = "bytes \<times> nat"

definition makebuf :: "nat \<Rightarrow> cursor" where
  "makebuf n = (replicate n 0, 0)"

definition overwrite :: "bytes \<Rightarrow> nat \<Rightarrow> bytes \<Rightarrow> bytes" where
  "overwrite buf pos src = take pos buf @ src @ drop (pos + length src) buf"

definition put8 :: "byte \<Rightarrow> cursor \<Rightarrow> cursor option" where
  "put8 v = (\<lambda>(buf, pos). if pos < length buf then Some (buf[pos := v], pos + 1) else None)"

definition put16 :: "uint16 \<Rightarrow> cursor \<Rightarrow> cursor option" where
  "put16 v = (\<lambda>(buf, pos).
     if pos + 2 \<le> length buf then Some (overwrite buf pos (be16 v), pos + 2) else None)"

definition put32 :: "uint32 \<Rightarrow> cursor \<Rightarrow> cursor option" where
  "put32 v = (\<lambda>(buf, pos).
     if pos + 4 \<le> length buf then Some (overwrite buf pos (be32 v), pos + 4) else None)"

definition put64 :: "uint64 \<Rightarrow> cursor \<Rightarrow> cursor option" where
  "put64 v = (\<lambda>(buf, pos).
     if pos + 8 \<le> length buf then Some (overwrite buf pos (be64 v), pos + 8) else None)"

definition putbytes :: "bytes \<Rightarrow> cursor \<Rightarrow> cursor option" where
  "putbytes s = (\<lambda>(buf, pos).
     if pos \<le> length buf
     then Some (overwrite buf pos (take (length buf - pos) s), pos + length s) else None)"

text \<open>A cursor that has written \<open>d\<close> and has \<open>r\<close> untouched bytes left.\<close>

definition written :: "bytes \<Rightarrow> nat \<Rightarrow> cursor" where
  "written d r = (d @ replicate r 0, length d)"

lemma makebuf_written [cursor_simps]: "makebuf n = written [] n"
  by (simp add: makebuf_def written_def)

lemma fst_written [cursor_simps]: "fst (written d 0) = d"
  by (simp add: written_def)

lemma put8_written [cursor_simps]: "1 \<le> r \<Longrightarrow> put8 v (written d r) = Some (written (d @ [v]) (r - 1))"
  by (cases r) (simp_all add: put8_def written_def list_update_append)

lemma put16_written [cursor_simps]:
  "2 \<le> r \<Longrightarrow> put16 v (written d r) = Some (written (d @ be16 v) (r - 2))"
  by (simp add: put16_def written_def overwrite_def)

lemma put32_written [cursor_simps]:
  "4 \<le> r \<Longrightarrow> put32 v (written d r) = Some (written (d @ be32 v) (r - 4))"
  by (simp add: put32_def written_def overwrite_def)

lemma put64_written [cursor_simps]:
  "8 \<le> r \<Longrightarrow> put64 v (written d r) = Some (written (d @ be64 v) (r - 8))"
  by (simp add: put64_def written_def overwrite_def)

lemma putbytes_written [cursor_simps]:
  "length s \<le> r \<Longrightarrow> putbytes s (written d r) = Some (written (d @ s) (r - length s))"
  by (simp add: putbytes_def written_def overwrite_def)

declare Let_def [cursor_simps] add.assoc [cursor_simps]

section \<open>Decimal formats\<close>

definition digit :: "nat \<Rightarrow> char" where
  "digit d = char_of (48 + d)"

fun dec :: "nat \<Rightarrow> string" where
  "dec n = (if n < 10 then [digit n] else dec (n div 10) @ [digit (n mod 10)])"

declare dec.simps [simp del]

text \<open>\<open>fmt.Sprintf("%d", n)\<close> for a signed value, and \<open>"%020d"\<close> for an unsigned one.\<close>

definition dec_int :: "int \<Rightarrow> string" where
  "dec_int z = (if z < 0 then CHR ''-'' # dec (nat (- z)) else dec (nat z))"

definition dec020 :: "nat \<Rightarrow> string" where
  "dec020 n = replicate (20 - length (dec n)) CHR ''0'' @ dec n"

text \<open>The value a decimal numeral denotes, leading zeros included.\<close>

definition undec :: "string \<Rightarrow> nat" where
  "undec s = foldl (\<lambda>a c. a * 10 + (of_char c - 48)) 0 s"

lemma of_digit [simp]: "d < 10 \<Longrightarrow> of_char (digit d) = 48 + d"
  by (simp add: digit_def take_bit_eq_mod)

lemma undec_snoc [simp]: "d < 10 \<Longrightarrow> undec (s @ [digit d]) = undec s * 10 + d"
  by (simp add: undec_def)

lemma undec_dec [simp]: "undec (dec n) = n"
proof (induction n rule: dec.induct)
  case (1 n)
  show ?case
  proof (cases "n < 10")
    case True
    then show ?thesis using undec_snoc [of n "[]"]
      by (subst dec.simps) (simp add: undec_def)
  next
    case False
    with 1 show ?thesis by (subst dec.simps) simp
  qed
qed

lemma undec_zeros: "undec (replicate k CHR ''0'' @ s) = undec s"
  by (induction k) (simp_all add: undec_def)

lemma inj_dec [simp]: "dec m = dec n \<longleftrightarrow> m = n"
  by (metis undec_dec)

lemma inj_dec020 [simp]: "dec020 m = dec020 n \<longleftrightarrow> m = n"
  by (metis dec020_def undec_dec undec_zeros)

lemma dec_not_Nil [simp]: "dec n \<noteq> []"
  by (subst dec.simps) simp

lemma length_dec: "0 < k \<Longrightarrow> n < 10 ^ k \<Longrightarrow> length (dec n) \<le> k"
proof (induction k arbitrary: n)
  case (Suc k)
  show ?case
  proof (cases "n < 10")
    case True
    then show ?thesis by (subst dec.simps) simp
  next
    case False
    with Suc.prems have "0 < k" by (cases k) simp_all
    moreover have "n div 10 < 10 ^ k"
      using Suc.prems(2) by (simp add: div_less_iff_less_mult mult.commute)
    ultimately have "length (dec (n div 10)) \<le> k" by (rule Suc.IH)
    with False show ?thesis by (subst dec.simps) simp
  qed
qed simp

lemma length_dec020 [simp]: "n < 10 ^ 20 \<Longrightarrow> length (dec020 n) = 20"
  using length_dec [of 20 n] by (simp add: dec020_def)

lemma length_dec020_u64 [simp]: "length (dec020 (unat (w :: uint64))) = 20"
proof -
  have "unat w < 2 ^ 64" using unsigned_less [of w] by simp
  then show ?thesis by (intro length_dec020) simp
qed

end
