(* ===== verification/NetProtocol.thy ===== *)
theory NetProtocol
  imports Prelude
begin

text \<open>
  The binary wire protocol of \<open>src/internal/net/protocol.go\<close>: operation and status codes, the
  request and response structures, and every encoder.  An encoder is a run of the cursor of the
  prelude over a buffer of the size the code computes; it returns \<open>None\<close> where the Go code would
  panic.  The lemmas bundled as \<open>encoded\<close> show that none does and give each encoding as a plain
  concatenation, the reference against which the decoders are verified.
\<close>

section \<open>Codes\<close>

definition OpSet :: byte where "OpSet = 0x01"
definition OpGet :: byte where "OpGet = 0x02"
definition OpDel :: byte where "OpDel = 0x03"
definition OpExists :: byte where "OpExists = 0x04"
definition OpIncr :: byte where "OpIncr = 0x05"
definition OpDecr :: byte where "OpDecr = 0x06"
definition OpMSet :: byte where "OpMSet = 0x10"
definition OpMGet :: byte where "OpMGet = 0x11"
definition OpMDel :: byte where "OpMDel = 0x12"
definition OpQPush :: byte where "OpQPush = 0x20"
definition OpQPop :: byte where "OpQPop = 0x21"
definition OpQPeek :: byte where "OpQPeek = 0x22"
definition OpQLen :: byte where "OpQLen = 0x23"
definition OpQClear :: byte where "OpQClear = 0x24"
definition OpQPopMsg :: byte where "OpQPopMsg = 0x25"
definition OpQAck :: byte where "OpQAck = 0x26"
definition OpQNack :: byte where "OpQNack = 0x27"
definition OpSPublish :: byte where "OpSPublish = 0x30"
definition OpSConsume :: byte where "OpSConsume = 0x31"
definition OpSCommit :: byte where "OpSCommit = 0x32"
definition OpSCreateTopic :: byte where "OpSCreateTopic = 0x33"
definition OpSSubscribe :: byte where "OpSSubscribe = 0x34"
definition OpSUnsubscribe :: byte where "OpSUnsubscribe = 0x35"
definition OpSGetOffsets :: byte where "OpSGetOffsets = 0x36"
definition OpSPublishBatch :: byte where "OpSPublishBatch = 0x37"
definition OpDocInsert :: byte where "OpDocInsert = 0x40"
definition OpDocFind :: byte where "OpDocFind = 0x41"
definition OpDocUpdate :: byte where "OpDocUpdate = 0x42"
definition OpDocDelete :: byte where "OpDocDelete = 0x43"
definition OpDocIndex :: byte where "OpDocIndex = 0x44"

definition StatusOK :: byte where "StatusOK = 0x00"
definition StatusError :: byte where "StatusError = 0x01"
definition StatusNotFound :: byte where "StatusNotFound = 0x02"
definition StatusKeyExists :: byte where "StatusKeyExists = 0x03"
definition StatusMultiValue :: byte where "StatusMultiValue = 0x04"

definition MaxKeyLen :: nat where "MaxKeyLen = 65535"
definition MaxValueLen :: nat where "MaxValueLen = 2 ^ 30"
definition MaxBatchSize :: nat where "MaxBatchSize = 10000"

lemmas opcodes = OpSet_def OpGet_def OpDel_def OpExists_def OpIncr_def OpDecr_def OpMSet_def
  OpMGet_def OpMDel_def OpQPush_def OpQPop_def OpQPeek_def OpQLen_def OpQClear_def OpQPopMsg_def
  OpQAck_def OpQNack_def OpSPublish_def OpSConsume_def OpSCommit_def OpSCreateTopic_def
  OpSSubscribe_def OpSUnsubscribe_def OpSGetOffsets_def OpSPublishBatch_def OpDocInsert_def
  OpDocFind_def OpDocUpdate_def OpDocDelete_def OpDocIndex_def

lemmas statuses = StatusOK_def StatusError_def StatusNotFound_def StatusKeyExists_def
  StatusMultiValue_def

section \<open>Requests and responses\<close>

record BatchMessage =
  bmPartition :: goint
  bmKey :: gostring
  bmValue :: bytes

record Request =
  rqOpCode :: byte
  rqKey :: gostring
  rqValue :: bytes
  rqKeys :: "gostring list"
  rqValues :: "bytes list"
  rqQueueName :: gostring
  rqConsumerID :: gostring
  rqMessageID :: gostring
  rqVisibilityTimeout :: int64
  rqRequeue :: bool
  rqTopic :: gostring
  rqPartition :: goint
  rqGroup :: gostring
  rqConsumer :: gostring
  rqCount :: goint
  rqRetentionMs :: int64
  rqOffset :: int64
  rqBatchMessages :: "BatchMessage list"
  rqCollection :: gostring

text \<open>\<open>&Request{OpCode: op}\<close>: every other field has Go's zero value.\<close>

definition newRequest :: "byte \<Rightarrow> Request" where
  "newRequest op = \<lparr>rqOpCode = op, rqKey = [], rqValue = [], rqKeys = [], rqValues = [],
     rqQueueName = [], rqConsumerID = [], rqMessageID = [], rqVisibilityTimeout = 0,
     rqRequeue = False, rqTopic = [], rqPartition = 0, rqGroup = [], rqConsumer = [], rqCount = 0,
     rqRetentionMs = 0, rqOffset = 0, rqBatchMessages = [], rqCollection = []\<rparr>"

record Response =
  rsStatus :: byte
  rsValue :: bytes
  rsValues :: "bytes list"
  rsError :: gostring

definition newResponse :: "byte \<Rightarrow> Response" where
  "newResponse st = \<lparr>rsStatus = st, rsValue = [], rsValues = [], rsError = []\<rparr>"

section \<open>Encoders\<close>

definition EncodeSetRequest :: "gostring \<Rightarrow> bytes \<Rightarrow> bytes option" where
  "EncodeSetRequest key value = do {
     let keyLen = length key;
     let valueLen = length value;
     let totalSize = 1 + 4 + 2 + keyLen + 4 + valueLen;
     w \<leftarrow> put8 OpSet (makebuf totalSize);
     let payloadLen = 2 + keyLen + 4 + valueLen;
     w \<leftarrow> put32 (word_of_nat payloadLen) w;
     w \<leftarrow> put16 (word_of_nat keyLen) w;
     w \<leftarrow> putbytes key w;
     w \<leftarrow> put32 (word_of_nat valueLen) w;
     w \<leftarrow> putbytes value w;
     Some (fst w)
   }"

definition EncodeGetRequest :: "gostring \<Rightarrow> bytes option" where
  "EncodeGetRequest key = do {
     let keyLen = length key;
     let totalSize = 1 + 4 + 2 + keyLen;
     w \<leftarrow> put8 OpGet (makebuf totalSize);
     let payloadLen = 2 + keyLen;
     w \<leftarrow> put32 (word_of_nat payloadLen) w;
     w \<leftarrow> put16 (word_of_nat keyLen) w;
     w \<leftarrow> putbytes key w;
     Some (fst w)
   }"

definition encodeSimpleRequest :: "byte \<Rightarrow> gostring \<Rightarrow> bytes option" where
  "encodeSimpleRequest opCode key = do {
     let keyLen = length key;
     let totalSize = 1 + 4 + 2 + keyLen;
     w \<leftarrow> put8 opCode (makebuf totalSize);
     let payloadLen = 2 + keyLen;
     w \<leftarrow> put32 (word_of_nat payloadLen) w;
     w \<leftarrow> put16 (word_of_nat keyLen) w;
     w \<leftarrow> putbytes key w;
     Some (fst w)
   }"

definition EncodeDeleteRequest :: "gostring \<Rightarrow> bytes option" where
  "EncodeDeleteRequest key = encodeSimpleRequest OpDel key"

definition EncodeExistsRequest :: "gostring \<Rightarrow> bytes option" where
  "EncodeExistsRequest key = encodeSimpleRequest OpExists key"

definition EncodeIncrRequest :: "gostring \<Rightarrow> bytes option" where
  "EncodeIncrRequest key = encodeSimpleRequest OpIncr key"

definition EncodeDecrRequest :: "gostring \<Rightarrow> bytes option" where
  "EncodeDecrRequest key = encodeSimpleRequest OpDecr key"

text \<open>The loops over the key-value pairs and over the keys; \<open>values[i]\<close> out of range panics.\<close>

fun putPairs :: "gostring list \<Rightarrow> bytes list \<Rightarrow> cursor \<Rightarrow> cursor option" where
  "putPairs [] values w = Some w"
| "putPairs (key # keys) [] w = None"
| "putPairs (key # keys) (value # values) w = do {
     w \<leftarrow> put16 (word_of_nat (length key)) w;
     w \<leftarrow> putbytes key w;
     w \<leftarrow> put32 (word_of_nat (length value)) w;
     w \<leftarrow> putbytes value w;
     putPairs keys values w
   }"

fun putKeys :: "gostring list \<Rightarrow> cursor \<Rightarrow> cursor option" where
  "putKeys [] w = Some w"
| "putKeys (key # keys) w = do {
     w \<leftarrow> put16 (word_of_nat (length key)) w;
     w \<leftarrow> putbytes key w;
     putKeys keys w
   }"

definition EncodeMSetRequest :: "gostring list \<Rightarrow> bytes list \<Rightarrow> bytes option" where
  "EncodeMSetRequest keys values =
     (if length keys \<noteq> length values then Some []
      else do {
        let totalSize = 1 + 4 + 2 +
          sum_list (map2 (\<lambda>key value. 2 + length key + 4 + length value) keys values);
        w \<leftarrow> put8 OpMSet (makebuf totalSize);
        let payloadLen = totalSize - 5;
        w \<leftarrow> put32 (word_of_nat payloadLen) w;
        w \<leftarrow> put16 (word_of_nat (length keys)) w;
        w \<leftarrow> putPairs keys values w;
        Some (fst w)
      })"

definition EncodeMGetRequest :: "gostring list \<Rightarrow> bytes option" where
  "EncodeMGetRequest keys = do {
     let totalSize = 1 + 4 + 2 + sum_list (map (\<lambda>key. 2 + length key) keys);
     w \<leftarrow> put8 OpMGet (makebuf totalSize);
     let payloadLen = totalSize - 5;
     w \<leftarrow> put32 (word_of_nat payloadLen) w;
     w \<leftarrow> put16 (word_of_nat (length keys)) w;
     w \<leftarrow> putKeys keys w;
     Some (fst w)
   }"

definition EncodeMDeleteRequest :: "gostring list \<Rightarrow> bytes option" where
  "EncodeMDeleteRequest keys = do {
     let totalSize = 1 + 4 + 2 + sum_list (map (\<lambda>key. 2 + length key) keys);
     w \<leftarrow> put8 OpMDel (makebuf totalSize);
     let payloadLen = totalSize - 5;
     w \<leftarrow> put32 (word_of_nat payloadLen) w;
     w \<leftarrow> put16 (word_of_nat (length keys)) w;
     w \<leftarrow> putKeys keys w;
     Some (fst w)
   }"

definition EncodeQPushRequest :: "gostring \<Rightarrow> bytes \<Rightarrow> bytes option" where
  "EncodeQPushRequest queueName value = do {
     let nameLen = length queueName;
     let valueLen = length value;
     let totalSize = 1 + 4 + 2 + nameLen + 4 + valueLen;
     w \<leftarrow> put8 OpQPush (makebuf totalSize);
     let payloadLen = 2 + nameLen + 4 + valueLen;
     w \<leftarrow> put32 (word_of_nat payloadLen) w;
     w \<leftarrow> put16 (word_of_nat nameLen) w;
     w \<leftarrow> putbytes queueName w;
     w \<leftarrow> put32 (word_of_nat valueLen) w;
     w \<leftarrow> putbytes value w;
     Some (fst w)
   }"

definition EncodeQPopRequest :: "gostring \<Rightarrow> bytes option" where
  "EncodeQPopRequest queueName = encodeSimpleRequest OpQPop queueName"

definition EncodeQPeekRequest :: "gostring \<Rightarrow> bytes option" where
  "EncodeQPeekRequest queueName = encodeSimpleRequest OpQPeek queueName"

definition EncodeQLenRequest :: "gostring \<Rightarrow> bytes option" where
  "EncodeQLenRequest queueName = encodeSimpleRequest OpQLen queueName"

definition EncodeQClearRequest :: "gostring \<Rightarrow> bytes option" where
  "EncodeQClearRequest queueName = encodeSimpleRequest OpQClear queueName"

definition EncodeOKResponse :: "bytes option" where
  "EncodeOKResponse = do {
     w \<leftarrow> put8 StatusOK (makebuf 5);
     w \<leftarrow> put32 0 w;
     Some (fst w)
   }"

definition EncodeValueResponse :: "bytes \<Rightarrow> bytes option" where
  "EncodeValueResponse value = do {
     let totalSize = 5 + length value;
     w \<leftarrow> put8 StatusOK (makebuf totalSize);
     w \<leftarrow> put32 (word_of_nat (length value)) w;
     w \<leftarrow> putbytes value w;
     Some (fst w)
   }"

fun putValues :: "bytes list \<Rightarrow> cursor \<Rightarrow> cursor option" where
  "putValues [] w = Some w"
| "putValues (v # values) w = do {
     w \<leftarrow> put32 (word_of_nat (length v)) w;
     w \<leftarrow> putbytes v w;
     putValues values w
   }"

definition EncodeMultiValueResponse :: "bytes list \<Rightarrow> bytes option" where
  "EncodeMultiValueResponse values = do {
     let totalSize = 5 + 2 + sum_list (map (\<lambda>v. 4 + length v) values);
     w \<leftarrow> put8 StatusMultiValue (makebuf totalSize);
     let payloadLen = totalSize - 5;
     w \<leftarrow> put32 (word_of_nat payloadLen) w;
     w \<leftarrow> put16 (word_of_nat (length values)) w;
     w \<leftarrow> putValues values w;
     Some (fst w)
   }"

definition EncodeErrorResponse :: "gostring \<Rightarrow> bytes option" where
  "EncodeErrorResponse errMsg = do {
     let totalSize = 5 + length errMsg;
     w \<leftarrow> put8 StatusError (makebuf totalSize);
     w \<leftarrow> put32 (word_of_nat (length errMsg)) w;
     w \<leftarrow> putbytes errMsg w;
     Some (fst w)
   }"

definition EncodeSPublishRequest :: "gostring \<Rightarrow> goint \<Rightarrow> gostring \<Rightarrow> bytes \<Rightarrow> bytes option" where
  "EncodeSPublishRequest topic part key value = do {
     let topicLen = length topic;
     let keyLen = length key;
     let valueLen = length value;
     let totalSize = 1 + 4 + 2 + topicLen + 4 + 2 + keyLen + 4 + valueLen;
     w \<leftarrow> put8 OpSPublish (makebuf totalSize);
     let payloadLen = totalSize - 5;
     w \<leftarrow> put32 (word_of_nat payloadLen) w;
     w \<leftarrow> put16 (word_of_nat topicLen) w;
     w \<leftarrow> putbytes topic w;
     w \<leftarrow> put32 (ucast part) w;
     w \<leftarrow> put16 (word_of_nat keyLen) w;
     w \<leftarrow> putbytes key w;
     w \<leftarrow> put32 (word_of_nat valueLen) w;
     w \<leftarrow> putbytes value w;
     Some (fst w)
   }"

definition EncodeSConsumeRequest :: "gostring \<Rightarrow> gostring \<Rightarrow> gostring \<Rightarrow> goint \<Rightarrow> bytes option" where
  "EncodeSConsumeRequest topic grp consumer count = do {
     let topicLen = length topic;
     let groupLen = length grp;
     let consumerLen = length consumer;
     let totalSize = 1 + 4 + 2 + topicLen + 2 + groupLen + 2 + consumerLen + 4;
     w \<leftarrow> put8 OpSConsume (makebuf totalSize);
     let payloadLen = totalSize - 5;
     w \<leftarrow> put32 (word_of_nat payloadLen) w;
     w \<leftarrow> put16 (word_of_nat topicLen) w;
     w \<leftarrow> putbytes topic w;
     w \<leftarrow> put16 (word_of_nat groupLen) w;
     w \<leftarrow> putbytes grp w;
     w \<leftarrow> put16 (word_of_nat consumerLen) w;
     w \<leftarrow> putbytes consumer w;
     w \<leftarrow> put32 (ucast count) w;
     Some (fst w)
   }"

definition EncodeSCommitRequest :: "gostring \<Rightarrow> gostring \<Rightarrow> goint \<Rightarrow> uint64 \<Rightarrow> bytes option" where
  "EncodeSCommitRequest topic grp part offset = do {
     let topicLen = length topic;
     let groupLen = length grp;
     let totalSize = 1 + 4 + 2 + topicLen + 2 + groupLen + 4 + 8;
     w \<leftarrow> put8 OpSCommit (makebuf totalSize);
     let payloadLen = totalSize - 5;
     w \<leftarrow> put32 (word_of_nat payloadLen) w;
     w \<leftarrow> put16 (word_of_nat topicLen) w;
     w \<leftarrow> putbytes topic w;
     w \<leftarrow> put16 (word_of_nat groupLen) w;
     w \<leftarrow> putbytes grp w;
     w \<leftarrow> put32 (ucast part) w;
     w \<leftarrow> put64 offset w;
     Some (fst w)
   }"

definition EncodeSCreateTopicRequest :: "gostring \<Rightarrow> goint \<Rightarrow> int64 \<Rightarrow> bytes option" where
  "EncodeSCreateTopicRequest name partitions retentionMs = do {
     let nameLen = length name;
     let totalSize = 1 + 4 + 2 + nameLen + 4 + 8;
     w \<leftarrow> put8 OpSCreateTopic (makebuf totalSize);
     let payloadLen = totalSize - 5;
     w \<leftarrow> put32 (word_of_nat payloadLen) w;
     w \<leftarrow> put16 (word_of_nat nameLen) w;
     w \<leftarrow> putbytes name w;
     w \<leftarrow> put32 (ucast partitions) w;
     w \<leftarrow> put64 retentionMs w;
     Some (fst w)
   }"

definition EncodeSSubscribeRequest :: "gostring \<Rightarrow> gostring \<Rightarrow> gostring \<Rightarrow> bytes option" where
  "EncodeSSubscribeRequest topic grp consumer = do {
     let topicLen = length topic;
     let groupLen = length grp;
     let consumerLen = length consumer;
     let totalSize = 1 + 4 + 2 + topicLen + 2 + groupLen + 2 + consumerLen;
     w \<leftarrow> put8 OpSSubscribe (makebuf totalSize);
     let payloadLen = totalSize - 5;
     w \<leftarrow> put32 (word_of_nat payloadLen) w;
     w \<leftarrow> put16 (word_of_nat topicLen) w;
     w \<leftarrow> putbytes topic w;
     w \<leftarrow> put16 (word_of_nat groupLen) w;
     w \<leftarrow> putbytes grp w;
     w \<leftarrow> put16 (word_of_nat consumerLen) w;
     w \<leftarrow> putbytes consumer w;
     Some (fst w)
   }"

definition EncodeSUnsubscribeRequest :: "gostring \<Rightarrow> gostring \<Rightarrow> gostring \<Rightarrow> bytes option" where
  "EncodeSUnsubscribeRequest topic grp consumer = do {
     let topicLen = length topic;
     let groupLen = length grp;
     let consumerLen = length consumer;
     let totalSize = 1 + 4 + 2 + topicLen + 2 + groupLen + 2 + consumerLen;
     w \<leftarrow> put8 OpSUnsubscribe (makebuf totalSize);
     let payloadLen = totalSize - 5;
     w \<leftarrow> put32 (word_of_nat payloadLen) w;
     w \<leftarrow> put16 (word_of_nat topicLen) w;
     w \<leftarrow> putbytes topic w;
     w \<leftarrow> put16 (word_of_nat groupLen) w;
     w \<leftarrow> putbytes grp w;
     w \<leftarrow> put16 (word_of_nat consumerLen) w;
     w \<leftarrow> putbytes consumer w;
     Some (fst w)
   }"

definition EncodeDocInsertRequest :: "gostring \<Rightarrow> bytes \<Rightarrow> bytes option" where
  "EncodeDocInsertRequest collection doc = do {
     let collLen = length collection;
     let docLen = length doc;
     let totalSize = 1 + 4 + 2 + collLen + 4 + docLen;
     w \<leftarrow> put8 OpDocInsert (makebuf totalSize);
     let payloadLen = totalSize - 5;
     w \<leftarrow> put32 (word_of_nat payloadLen) w;
     w \<leftarrow> put16 (word_of_nat collLen) w;
     w \<leftarrow> putbytes collection w;
     w \<leftarrow> put32 (word_of_nat docLen) w;
     w \<leftarrow> putbytes doc w;
     Some (fst w)
   }"

definition EncodeDocFindRequest :: "gostring \<Rightarrow> bytes \<Rightarrow> bytes option" where
  "EncodeDocFindRequest collection query = do {
     let collLen = length collection;
     let queryLen = length query;
     let totalSize = 1 + 4 + 2 + collLen + 4 + queryLen;
     w \<leftarrow> put8 OpDocFind (makebuf totalSize);
     let payloadLen = totalSize - 5;
     w \<leftarrow> put32 (word_of_nat payloadLen) w;
     w \<leftarrow> put16 (word_of_nat collLen) w;
     w \<leftarrow> putbytes collection w;
     w \<leftarrow> put32 (word_of_nat queryLen) w;
     w \<leftarrow> putbytes query w;
     Some (fst w)
   }"

definition EncodeDocIndexRequest :: "gostring \<Rightarrow> gostring \<Rightarrow> bytes option" where
  "EncodeDocIndexRequest collection field = do {
     let collLen = length collection;
     let fieldLen = length field;
     let totalSize = 1 + 4 + 2 + collLen + 2 + fieldLen;
     w \<leftarrow> put8 OpDocIndex (makebuf totalSize);
     let payloadLen = totalSize - 5;
     w \<leftarrow> put32 (word_of_nat payloadLen) w;
     w \<leftarrow> put16 (word_of_nat collLen) w;
     w \<leftarrow> putbytes collection w;
     w \<leftarrow> put16 (word_of_nat fieldLen) w;
     w \<leftarrow> putbytes field w;
     Some (fst w)
   }"

definition EncodeDocUpdateRequest :: "gostring \<Rightarrow> bytes \<Rightarrow> bytes option" where
  "EncodeDocUpdateRequest collection updateOpts = do {
     let collLen = length collection;
     let optsLen = length updateOpts;
     let totalSize = 1 + 4 + 2 + collLen + 4 + optsLen;
     w \<leftarrow> put8 OpDocUpdate (makebuf totalSize);
     let payloadLen = totalSize - 5;
     w \<leftarrow> put32 (word_of_nat payloadLen) w;
     w \<leftarrow> put16 (word_of_nat collLen) w;
     w \<leftarrow> putbytes collection w;
     w \<leftarrow> put32 (word_of_nat optsLen) w;
     w \<leftarrow> putbytes updateOpts w;
     Some (fst w)
   }"

definition EncodeDocDeleteRequest :: "gostring \<Rightarrow> bytes \<Rightarrow> bytes option" where
  "EncodeDocDeleteRequest collection deleteOpts = do {
     let collLen = length collection;
     let optsLen = length deleteOpts;
     let totalSize = 1 + 4 + 2 + collLen + 4 + optsLen;
     w \<leftarrow> put8 OpDocDelete (makebuf totalSize);
     let payloadLen = totalSize - 5;
     w \<leftarrow> put32 (word_of_nat payloadLen) w;
     w \<leftarrow> put16 (word_of_nat collLen) w;
     w \<leftarrow> putbytes collection w;
     w \<leftarrow> put32 (word_of_nat optsLen) w;
     w \<leftarrow> putbytes deleteOpts w;
     Some (fst w)
   }"

fun putMessages :: "BatchMessage list \<Rightarrow> cursor \<Rightarrow> cursor option" where
  "putMessages [] w = Some w"
| "putMessages (msg # messages) w = do {
     w \<leftarrow> put32 (ucast (bmPartition msg)) w;
     w \<leftarrow> put16 (word_of_nat (length (bmKey msg))) w;
     w \<leftarrow> putbytes (bmKey msg) w;
     w \<leftarrow> put32 (word_of_nat (length (bmValue msg))) w;
     w \<leftarrow> putbytes (bmValue msg) w;
     putMessages messages w
   }"

text \<open>Unlike every other request, this one is encoded without the payload length after the opcode.\<close>

definition EncodeSPublishBatchRequest :: "gostring \<Rightarrow> BatchMessage list \<Rightarrow> bytes option" where
  "EncodeSPublishBatchRequest topic messages = do {
     let size = 1 + 2 + length topic + 4 +
       sum_list (map (\<lambda>msg. 4 + 2 + length (bmKey msg) + 4 + length (bmValue msg)) messages);
     w \<leftarrow> put8 OpSPublishBatch (makebuf size);
     w \<leftarrow> put16 (word_of_nat (length topic)) w;
     w \<leftarrow> putbytes topic w;
     w \<leftarrow> put32 (word_of_nat (length messages)) w;
     w \<leftarrow> putMessages messages w;
     Some (fst w)
   }"

section \<open>The encodings as concatenations\<close>

definition str16 :: "bytes \<Rightarrow> bytes" where
  "str16 s = be16 (word_of_nat (length s)) @ s"

definition str32 :: "bytes \<Rightarrow> bytes" where
  "str32 s = be32 (word_of_nat (length s)) @ s"

definition frame :: "byte \<Rightarrow> bytes \<Rightarrow> bytes" where
  "frame op payload = op # be32 (word_of_nat (length payload)) @ payload"

definition pairs :: "gostring list \<Rightarrow> bytes list \<Rightarrow> bytes" where
  "pairs keys values = concat (map2 (\<lambda>key value. str16 key @ str32 value) keys values)"

definition message :: "BatchMessage \<Rightarrow> bytes" where
  "message m = be32 (ucast (bmPartition m)) @ str16 (bmKey m) @ str32 (bmValue m)"

lemma length_str [simp, read_simps]:
  "length (str16 s) = 2 + length s" "length (str32 s) = 4 + length s"
  by (simp_all add: str16_def str32_def)

lemma length_frame [simp]: "length (frame op p) = 5 + length p"
  by (simp add: frame_def)

lemma pairs_simps [simp]:
  "pairs [] [] = []" "pairs (k # ks) (v # vs) = str16 k @ str32 v @ pairs ks vs"
  by (simp_all add: pairs_def)

lemma length_pairs: "length keys = length vs \<Longrightarrow>
  length (pairs keys vs) = sum_list (map2 (\<lambda>key value. 2 + length key + 4 + length value) keys vs)"
  by (induction keys vs rule: list_induct2) simp_all

lemma length_message [simp]: "length (message m) = 10 + length (bmKey m) + length (bmValue m)"
  by (simp add: message_def)

lemma length_concat_map: "length (concat (map f xs)) = sum_list (map (\<lambda>x. length (f x)) xs)"
  by (induction xs) simp_all

lemma putPairs_written [cursor_simps]:
  "length keys = length vs \<Longrightarrow> length (pairs keys vs) \<le> r \<Longrightarrow>
   putPairs keys vs (written d r) =
     Some (written (d @ pairs keys vs) (r - length (pairs keys vs)))"
proof (induction keys vs arbitrary: d r rule: list_induct2)
  case Nil
  then show ?case by simp
next
  case (Cons k ks v vs)
  then show ?case by (simp add: str16_def str32_def cursor_simps)
qed

lemma putKeys_written [cursor_simps]:
  "length (concat (map str16 keys)) \<le> r \<Longrightarrow>
   putKeys keys (written d r) =
     Some (written (d @ concat (map str16 keys)) (r - length (concat (map str16 keys))))"
  by (induction keys arbitrary: d r) (simp_all add: str16_def cursor_simps)

lemma putValues_written [cursor_simps]:
  "length (concat (map str32 vs)) \<le> r \<Longrightarrow>
   putValues vs (written d r) =
     Some (written (d @ concat (map str32 vs)) (r - length (concat (map str32 vs))))"
  by (induction vs arbitrary: d r) (simp_all add: str32_def cursor_simps)

lemma putMessages_written [cursor_simps]:
  "length (concat (map message ms)) \<le> r \<Longrightarrow>
   putMessages ms (written d r) =
     Some (written (d @ concat (map message ms)) (r - length (concat (map message ms))))"
  by (induction ms arbitrary: d r) (simp_all add: message_def str16_def str32_def cursor_simps)

named_theorems encoded "the encodings as concatenations"

lemma EncodeSetRequest_eq [encoded]:
  "EncodeSetRequest key value = Some (frame OpSet (str16 key @ str32 value))"
  by (simp add: EncodeSetRequest_def cursor_simps frame_def str16_def str32_def)

lemma EncodeGetRequest_eq [encoded]: "EncodeGetRequest key = Some (frame OpGet (str16 key))"
  by (simp add: EncodeGetRequest_def cursor_simps frame_def str16_def)

lemma encodeSimpleRequest_eq [encoded]: "encodeSimpleRequest op key = Some (frame op (str16 key))"
  by (simp add: encodeSimpleRequest_def cursor_simps frame_def str16_def)

lemma EncodeMSetRequest_eq [encoded]:
  "length keys = length values \<Longrightarrow> EncodeMSetRequest keys values =
     Some (frame OpMSet (be16 (word_of_nat (length keys)) @ pairs keys values))"
  by (simp add: EncodeMSetRequest_def cursor_simps frame_def length_pairs)

lemma EncodeMGetRequest_eq [encoded]:
  "EncodeMGetRequest keys =
     Some (frame OpMGet (be16 (word_of_nat (length keys)) @ concat (map str16 keys)))"
  by (simp add: EncodeMGetRequest_def cursor_simps frame_def length_concat_map)

lemma EncodeMDeleteRequest_eq [encoded]:
  "EncodeMDeleteRequest keys =
     Some (frame OpMDel (be16 (word_of_nat (length keys)) @ concat (map str16 keys)))"
  by (simp add: EncodeMDeleteRequest_def cursor_simps frame_def length_concat_map)

lemma EncodeQPushRequest_eq [encoded]:
  "EncodeQPushRequest name value = Some (frame OpQPush (str16 name @ str32 value))"
  by (simp add: EncodeQPushRequest_def cursor_simps frame_def str16_def str32_def)

lemma EncodeOKResponse_eq [encoded]: "EncodeOKResponse = Some (frame StatusOK [])"
  by (simp add: EncodeOKResponse_def cursor_simps frame_def)

lemma EncodeValueResponse_eq [encoded]: "EncodeValueResponse value = Some (frame StatusOK value)"
  by (simp add: EncodeValueResponse_def cursor_simps frame_def)

lemma EncodeErrorResponse_eq [encoded]: "EncodeErrorResponse msg = Some (frame StatusError msg)"
  by (simp add: EncodeErrorResponse_def cursor_simps frame_def)

lemma EncodeMultiValueResponse_eq [encoded]:
  "EncodeMultiValueResponse values =
     Some (frame StatusMultiValue (be16 (word_of_nat (length values)) @ concat (map str32 values)))"
  by (simp add: EncodeMultiValueResponse_def cursor_simps frame_def length_concat_map)

lemma EncodeSPublishRequest_eq [encoded]:
  "EncodeSPublishRequest topic part key value =
     Some (frame OpSPublish (str16 topic @ be32 (ucast part) @ str16 key @ str32 value))"
  by (simp add: EncodeSPublishRequest_def cursor_simps frame_def str16_def str32_def)

lemma EncodeSConsumeRequest_eq [encoded]:
  "EncodeSConsumeRequest topic grp consumer count =
     Some (frame OpSConsume (str16 topic @ str16 grp @ str16 consumer @ be32 (ucast count)))"
  by (simp add: EncodeSConsumeRequest_def cursor_simps frame_def str16_def)

lemma EncodeSCommitRequest_eq [encoded]:
  "EncodeSCommitRequest topic grp part offset =
     Some (frame OpSCommit (str16 topic @ str16 grp @ be32 (ucast part) @ be64 offset))"
  by (simp add: EncodeSCommitRequest_def cursor_simps frame_def str16_def)

lemma EncodeSCreateTopicRequest_eq [encoded]:
  "EncodeSCreateTopicRequest name partitions retentionMs =
     Some (frame OpSCreateTopic (str16 name @ be32 (ucast partitions) @ be64 retentionMs))"
  by (simp add: EncodeSCreateTopicRequest_def cursor_simps frame_def str16_def)

lemma EncodeSSubscribeRequest_eq [encoded]:
  "EncodeSSubscribeRequest topic grp consumer =
     Some (frame OpSSubscribe (str16 topic @ str16 grp @ str16 consumer))"
  by (simp add: EncodeSSubscribeRequest_def cursor_simps frame_def str16_def)

lemma EncodeSUnsubscribeRequest_eq [encoded]:
  "EncodeSUnsubscribeRequest topic grp consumer =
     Some (frame OpSUnsubscribe (str16 topic @ str16 grp @ str16 consumer))"
  by (simp add: EncodeSUnsubscribeRequest_def cursor_simps frame_def str16_def)

lemma EncodeDocInsertRequest_eq [encoded]:
  "EncodeDocInsertRequest coll doc = Some (frame OpDocInsert (str16 coll @ str32 doc))"
  by (simp add: EncodeDocInsertRequest_def cursor_simps frame_def str16_def str32_def)

lemma EncodeDocFindRequest_eq [encoded]:
  "EncodeDocFindRequest coll query = Some (frame OpDocFind (str16 coll @ str32 query))"
  by (simp add: EncodeDocFindRequest_def cursor_simps frame_def str16_def str32_def)

lemma EncodeDocIndexRequest_eq [encoded]:
  "EncodeDocIndexRequest coll field = Some (frame OpDocIndex (str16 coll @ str16 field))"
  by (simp add: EncodeDocIndexRequest_def cursor_simps frame_def str16_def)

lemma EncodeDocUpdateRequest_eq [encoded]:
  "EncodeDocUpdateRequest coll opts = Some (frame OpDocUpdate (str16 coll @ str32 opts))"
  by (simp add: EncodeDocUpdateRequest_def cursor_simps frame_def str16_def str32_def)

lemma EncodeDocDeleteRequest_eq [encoded]:
  "EncodeDocDeleteRequest coll opts = Some (frame OpDocDelete (str16 coll @ str32 opts))"
  by (simp add: EncodeDocDeleteRequest_def cursor_simps frame_def str16_def str32_def)

lemma EncodeSPublishBatchRequest_eq [encoded]:
  "EncodeSPublishBatchRequest topic ms = Some (OpSPublishBatch # str16 topic @
     be32 (word_of_nat (length ms)) @ concat (map message ms))"
  by (simp add: EncodeSPublishBatchRequest_def cursor_simps str16_def length_concat_map)

lemmas simple_encoders = EncodeDeleteRequest_def EncodeExistsRequest_def EncodeIncrRequest_def
  EncodeDecrRequest_def EncodeQPopRequest_def EncodeQPeekRequest_def EncodeQLenRequest_def
  EncodeQClearRequest_def

end
