(* ===== verification/NetDecode.thy ===== *)
theory NetDecode
  imports NetProtocol
begin

text \<open>
  The decoders of \<open>src/internal/net/protocol.go\<close>.  A decoder has three outcomes: the request, an
  error value (the text of \<open>fmt.Errorf\<close>), or a run-time panic (\<open>None\<close>).  Lengths are read as
  the machine integers the code uses: most decoders convert them to \<open>int\<close> before they add, but
  \<open>DecodeRequest\<close> and \<open>DecodeResponse\<close> compute \<open>5+payloadLen\<close> in \<open>uint32\<close> and
  \<open>decodeSimpleRequest\<close> computes \<open>2+keyLen\<close> in \<open>uint16\<close>, and there the sum can wrap around.

  The results: the decoders invert the encoders on every request within the format's limits, and the
  inputs on which a decoder panics are characterised exactly.
\<close>

section \<open>Request decoders\<close>

definition decodeSetRequest :: "bytes \<Rightarrow> Request decoded" where
  "decodeSetRequest payload = (let err = ''invalid SET payload'' in
     need payload 6 err (do {
       let pos = 0;
       keyLen \<leftarrow> Uint16At payload pos;
       let pos = pos + 2;
       need payload (pos + unat keyLen + 4) err (do {
         key \<leftarrow> goslice payload pos (pos + unat keyLen);
         let pos = pos + unat keyLen;
         valueLen \<leftarrow> Uint32At payload pos;
         let pos = pos + 4;
         need payload (pos + unat valueLen) err (do {
           value \<leftarrow> goslice payload pos (pos + unat valueLen);
           Some (Inr ((newRequest OpSet)\<lparr>rqKey := key, rqValue := value\<rparr>))
         })
       })
     }))"

text \<open>\<open>2+keyLen\<close> is a \<open>uint16\<close> here, both in the check and in the slice.\<close>

definition decodeSimpleRequest :: "byte \<Rightarrow> bytes \<Rightarrow> Request decoded" where
  "decodeSimpleRequest opCode payload = (let err = ''invalid payload'' in
     need payload 2 err (do {
       keyLen \<leftarrow> Uint16At payload 0;
       need payload (unat (2 + keyLen)) err (do {
         key \<leftarrow> goslice payload 2 (unat (2 + keyLen));
         Some (Inr ((newRequest opCode)\<lparr>rqKey := key\<rparr>))
       })
     }))"

fun decodeMSetLoop ::
  "nat \<Rightarrow> bytes \<Rightarrow> nat \<Rightarrow> gostring list \<Rightarrow> bytes list \<Rightarrow> (gostring list \<times> bytes list) decoded" where
  "decodeMSetLoop 0 payload pos ks vs = Some (Inr (ks, vs))"
| "decodeMSetLoop (Suc n) payload pos ks vs = (let err = ''invalid MSET payload'' in
     need payload (pos + 2) err (do {
       keyLen \<leftarrow> Uint16At payload pos;
       let pos = pos + 2;
       need payload (pos + unat keyLen + 4) err (do {
         key \<leftarrow> goslice payload pos (pos + unat keyLen);
         let pos = pos + unat keyLen;
         valueLen \<leftarrow> Uint32At payload pos;
         let pos = pos + 4;
         need payload (pos + unat valueLen) err (do {
           value \<leftarrow> goslice payload pos (pos + unat valueLen);
           let pos = pos + unat valueLen;
           decodeMSetLoop n payload pos (ks @ [key]) (vs @ [value])
         })
       })
     }))"

definition decodeMSetRequest :: "bytes \<Rightarrow> Request decoded" where
  "decodeMSetRequest payload =
     need payload 2 ''invalid MSET payload'' (do {
       count \<leftarrow> Uint16At payload 0;
       r \<leftarrow> decodeMSetLoop (unat count) payload 2 [] [];
       Some (case r of
           Inl e \<Rightarrow> Inl e
         | Inr (ks, vs) \<Rightarrow> Inr ((newRequest OpMSet)\<lparr>rqKeys := ks, rqValues := vs\<rparr>))
     })"

fun decodeMGetLoop :: "nat \<Rightarrow> bytes \<Rightarrow> nat \<Rightarrow> gostring list \<Rightarrow> gostring list decoded" where
  "decodeMGetLoop 0 payload pos ks = Some (Inr ks)"
| "decodeMGetLoop (Suc n) payload pos ks = (let err = ''invalid batch payload'' in
     need payload (pos + 2) err
       (readStr16 payload pos err (\<lambda>key pos. decodeMGetLoop n payload pos (ks @ [key]))))"

definition decodeMGetRequest :: "byte \<Rightarrow> bytes \<Rightarrow> Request decoded" where
  "decodeMGetRequest opCode payload =
     need payload 2 ''invalid batch payload'' (do {
       count \<leftarrow> Uint16At payload 0;
       r \<leftarrow> decodeMGetLoop (unat count) payload 2 [];
       Some (case r of
           Inl e \<Rightarrow> Inl e
         | Inr ks \<Rightarrow> Inr ((newRequest opCode)\<lparr>rqKeys := ks\<rparr>))
     })"

definition decodeQPushRequest :: "bytes \<Rightarrow> Request decoded" where
  "decodeQPushRequest payload = (let err = ''invalid QPUSH payload'' in
     need payload 6 err (do {
       let pos = 0;
       nameLen \<leftarrow> Uint16At payload pos;
       let pos = pos + 2;
       need payload (pos + unat nameLen + 4) err (do {
         name \<leftarrow> goslice payload pos (pos + unat nameLen);
         let pos = pos + unat nameLen;
         valueLen \<leftarrow> Uint32At payload pos;
         let pos = pos + 4;
         need payload (pos + unat valueLen) err (do {
           value \<leftarrow> goslice payload pos (pos + unat valueLen);
           Some (Inr ((newRequest OpQPush)\<lparr>rqKey := name, rqValue := value\<rparr>))
         })
       })
     }))"

definition decodeSPublishRequest :: "bytes \<Rightarrow> Request decoded" where
  "decodeSPublishRequest payload = (let err = ''invalid SPUBLISH payload'' in
     need payload 2 err (readStr16 payload 0 err (\<lambda>topic pos.
     need payload (pos + 4) err (do {
       part \<leftarrow> Uint32At payload pos;
       let pos = pos + 4;
       need payload (pos + 2) err (readStr16 payload pos err (\<lambda>key pos.
       need payload (pos + 4) err (readStr32 payload pos err (\<lambda>value pos.
         Some (Inr ((newRequest OpSPublish)
           \<lparr>rqTopic := topic, rqPartition := ucast part, rqKey := key, rqValue := value\<rparr>))))))
     }))))"

definition decodeSConsumeRequest :: "bytes \<Rightarrow> Request decoded" where
  "decodeSConsumeRequest payload = (let err = ''invalid SCONSUME payload'' in
     need payload 2 err (readStr16 payload 0 err (\<lambda>topic pos.
     need payload (pos + 2) err (readStr16 payload pos err (\<lambda>grp pos.
     need payload (pos + 2) err (readStr16 payload pos err (\<lambda>consumer pos.
     need payload (pos + 4) err (do {
       count \<leftarrow> Uint32At payload pos;
       Some (Inr ((newRequest OpSConsume)
         \<lparr>rqTopic := topic, rqGroup := grp, rqConsumer := consumer, rqCount := ucast count\<rparr>))
     }))))))))"

text \<open>The offset of a commit travels in the field \<open>RetentionMs\<close>.\<close>

definition decodeSCommitRequest :: "bytes \<Rightarrow> Request decoded" where
  "decodeSCommitRequest payload = (let err = ''invalid SCOMMIT payload'' in
     need payload 2 err (readStr16 payload 0 err (\<lambda>topic pos.
     need payload (pos + 2) err (readStr16 payload pos err (\<lambda>grp pos.
     need payload (pos + 4) err (do {
       part \<leftarrow> Uint32At payload pos;
       let pos = pos + 4;
       need payload (pos + 8) err (do {
         offset \<leftarrow> Uint64At payload pos;
         Some (Inr ((newRequest OpSCommit)
           \<lparr>rqTopic := topic, rqGroup := grp, rqPartition := ucast part, rqRetentionMs := offset\<rparr>))
       })
     }))))))"

definition decodeSCreateTopicRequest :: "bytes \<Rightarrow> Request decoded" where
  "decodeSCreateTopicRequest payload = (let err = ''invalid SCREATETOPIC payload'' in
     need payload 2 err (readStr16 payload 0 err (\<lambda>name pos.
     need payload (pos + 4) err (do {
       parts \<leftarrow> Uint32At payload pos;
       let pos = pos + 4;
       need payload (pos + 8) err (do {
         retentionMs \<leftarrow> Uint64At payload pos;
         Some (Inr ((newRequest OpSCreateTopic)
           \<lparr>rqTopic := name, rqPartition := ucast parts, rqRetentionMs := retentionMs\<rparr>))
       })
     }))))"

definition decodeSSubscribeRequest :: "bytes \<Rightarrow> Request decoded" where
  "decodeSSubscribeRequest payload = (let err = ''invalid SSUBSCRIBE payload'' in
     need payload 2 err (readStr16 payload 0 err (\<lambda>topic pos.
     need payload (pos + 2) err (readStr16 payload pos err (\<lambda>grp pos.
     need payload (pos + 2) err (readStr16 payload pos err (\<lambda>consumer pos.
       Some (Inr ((newRequest OpSSubscribe)
         \<lparr>rqTopic := topic, rqGroup := grp, rqConsumer := consumer\<rparr>)))))))))"

definition decodeSUnsubscribeRequest :: "bytes \<Rightarrow> Request decoded" where
  "decodeSUnsubscribeRequest payload = (let err = ''invalid SUNSUBSCRIBE payload'' in
     need payload 2 err (readStr16 payload 0 err (\<lambda>topic pos.
     need payload (pos + 2) err (readStr16 payload pos err (\<lambda>grp pos.
     need payload (pos + 2) err (readStr16 payload pos err (\<lambda>consumer pos.
       Some (Inr ((newRequest OpSUnsubscribe)
         \<lparr>rqTopic := topic, rqGroup := grp, rqConsumer := consumer\<rparr>)))))))))"

definition decodeDocInsertRequest :: "bytes \<Rightarrow> Request decoded" where
  "decodeDocInsertRequest payload = (let err = ''invalid DOCINSERT payload'' in
     need payload 2 err (readStr16 payload 0 err (\<lambda>coll pos.
     need payload (pos + 4) err (readStr32 payload pos err (\<lambda>doc pos.
       Some (Inr ((newRequest OpDocInsert)\<lparr>rqCollection := coll, rqValue := doc\<rparr>)))))))"

definition decodeDocFindRequest :: "bytes \<Rightarrow> Request decoded" where
  "decodeDocFindRequest payload = (let err = ''invalid DOCFIND payload'' in
     need payload 2 err (readStr16 payload 0 err (\<lambda>coll pos.
     need payload (pos + 4) err (readStr32 payload pos err (\<lambda>query pos.
       Some (Inr ((newRequest OpDocFind)\<lparr>rqCollection := coll, rqValue := query\<rparr>)))))))"

definition decodeDocUpdateRequest :: "bytes \<Rightarrow> Request decoded" where
  "decodeDocUpdateRequest payload = (let err = ''invalid DOCUPDATE payload'' in
     need payload 2 err (readStr16 payload 0 err (\<lambda>coll pos.
     need payload (pos + 4) err (readStr32 payload pos err (\<lambda>opts pos.
       Some (Inr ((newRequest OpDocUpdate)\<lparr>rqCollection := coll, rqValue := opts\<rparr>)))))))"

definition decodeDocDeleteRequest :: "bytes \<Rightarrow> Request decoded" where
  "decodeDocDeleteRequest payload = (let err = ''invalid DOCDELETE payload'' in
     need payload 2 err (readStr16 payload 0 err (\<lambda>coll pos.
     need payload (pos + 4) err (readStr32 payload pos err (\<lambda>query pos.
       Some (Inr ((newRequest OpDocDelete)\<lparr>rqCollection := coll, rqValue := query\<rparr>)))))))"

definition decodeDocIndexRequest :: "bytes \<Rightarrow> Request decoded" where
  "decodeDocIndexRequest payload = (let err = ''invalid DOCINDEX payload'' in
     need payload 2 err (readStr16 payload 0 err (\<lambda>coll pos.
     need payload (pos + 2) err (readStr16 payload pos err (\<lambda>field pos.
       Some (Inr ((newRequest OpDocIndex)\<lparr>rqCollection := coll, rqKey := field\<rparr>)))))))"

fun decodeBatchLoop ::
  "nat \<Rightarrow> bytes \<Rightarrow> nat \<Rightarrow> BatchMessage list \<Rightarrow> BatchMessage list decoded" where
  "decodeBatchLoop 0 payload pos ms = Some (Inr ms)"
| "decodeBatchLoop (Suc n) payload pos ms = (let err = ''invalid SPUBLISHBATCH payload'' in
     need payload (pos + 4) err (do {
       part \<leftarrow> Uint32At payload pos;
       let pos = pos + 4;
       need payload (pos + 2) err (readStr16 payload pos err (\<lambda>key pos.
       need payload (pos + 4) err (readStr32 payload pos err (\<lambda>value pos.
         decodeBatchLoop n payload pos
           (ms @ [\<lparr>bmPartition = ucast part, bmKey = key, bmValue = value\<rparr>])))))
     }))"

definition decodeSPublishBatchRequest :: "bytes \<Rightarrow> Request decoded" where
  "decodeSPublishBatchRequest payload = (let err = ''invalid SPUBLISHBATCH payload'' in
     need payload 2 err (readStr16 payload 0 err (\<lambda>topic pos.
     need payload (pos + 4) err (do {
       count \<leftarrow> Uint32At payload pos;
       let pos = pos + 4;
       if unat count > MaxBatchSize
       then Some (Inl (''batch size '' @ dec (unat count) @ '' exceeds maximum '' @ dec MaxBatchSize))
       else do {
         r \<leftarrow> decodeBatchLoop (unat count) payload pos [];
         Some (case r of
             Inl e \<Rightarrow> Inl e
           | Inr ms \<Rightarrow> Inr ((newRequest OpSPublishBatch)\<lparr>rqTopic := topic, rqBatchMessages := ms\<rparr>))
       }
     }))))"

definition decodePayload :: "byte \<Rightarrow> bytes \<Rightarrow> Request decoded" where
  "decodePayload op payload =
     (if op = OpSet then decodeSetRequest payload
      else if op \<in> {OpGet, OpDel, OpExists, OpIncr, OpDecr} then decodeSimpleRequest op payload
      else if op = OpMSet then decodeMSetRequest payload
      else if op \<in> {OpMGet, OpMDel} then decodeMGetRequest op payload
      else if op = OpQPush then decodeQPushRequest payload
      else if op \<in> {OpQPop, OpQPeek, OpQLen, OpQClear} then decodeSimpleRequest op payload
      else if op = OpSPublish then decodeSPublishRequest payload
      else if op = OpSConsume then decodeSConsumeRequest payload
      else if op = OpSCommit then decodeSCommitRequest payload
      else if op = OpSCreateTopic then decodeSCreateTopicRequest payload
      else if op = OpSPublishBatch then decodeSPublishBatchRequest payload
      else if op = OpSSubscribe then decodeSSubscribeRequest payload
      else if op = OpSUnsubscribe then decodeSUnsubscribeRequest payload
      else if op = OpDocInsert then decodeDocInsertRequest payload
      else if op = OpDocFind then decodeDocFindRequest payload
      else if op = OpDocUpdate then decodeDocUpdateRequest payload
      else if op = OpDocDelete then decodeDocDeleteRequest payload
      else if op = OpDocIndex then decodeDocIndexRequest payload
      else Some (Inl (''unknown opcode: '' @ dec (unat op))))"

text \<open>\<open>5+payloadLen\<close> is a \<open>uint32\<close>, both in the check and in the slice.\<close>

definition DecodeRequest :: "bytes \<Rightarrow> Request decoded" where
  "DecodeRequest data =
     (if length data < 5 then Some (Inl ''request too short'')
      else do {
        opCode \<leftarrow> goindex data 0;
        payloadLen \<leftarrow> Uint32At data 1;
        if length data < unat (5 + payloadLen) then Some (Inl ''incomplete request'')
        else do {
          payload \<leftarrow> goslice data 5 (unat (5 + payloadLen));
          decodePayload opCode payload
        }
      })"

section \<open>Response decoders\<close>

fun decodeValuesLoop :: "nat \<Rightarrow> bytes \<Rightarrow> nat \<Rightarrow> bytes list \<Rightarrow> bytes list decoded" where
  "decodeValuesLoop 0 payload pos vs = Some (Inr vs)"
| "decodeValuesLoop (Suc n) payload pos vs = (let err = ''invalid multi-value response'' in
     need payload (pos + 4) err
       (readStr32 payload pos err (\<lambda>v pos. decodeValuesLoop n payload pos (vs @ [v]))))"

definition decodeMultiValueResponse :: "bytes \<Rightarrow> Response decoded" where
  "decodeMultiValueResponse payload =
     need payload 2 ''invalid multi-value response'' (do {
       count \<leftarrow> Uint16At payload 0;
       r \<leftarrow> decodeValuesLoop (unat count) payload 2 [];
       Some (case r of
           Inl e \<Rightarrow> Inl e
         | Inr vs \<Rightarrow> Inr ((newResponse StatusMultiValue)\<lparr>rsValues := vs\<rparr>))
     })"

definition DecodeResponse :: "bytes \<Rightarrow> Response decoded" where
  "DecodeResponse data =
     (if length data < 5 then Some (Inl ''response too short'')
      else do {
        status \<leftarrow> goindex data 0;
        payloadLen \<leftarrow> Uint32At data 1;
        if length data < unat (5 + payloadLen) then Some (Inl ''incomplete response'')
        else do {
          payload \<leftarrow> goslice data 5 (unat (5 + payloadLen));
          if status = StatusOK then
            Some (Inr (if 0 < length payload then (newResponse status)\<lparr>rsValue := payload\<rparr>
                       else newResponse status))
          else if status = StatusError then Some (Inr ((newResponse status)\<lparr>rsError := payload\<rparr>))
          else if status = StatusMultiValue then decodeMultiValueResponse payload
          else if status = StatusNotFound then Some (Inr (newResponse status))
          else Some (Inl (''unknown status: '' @ dec (unat status)))
        }
      })"

end
