(* ===== verification/NetRoundtrip.thy ===== *)
theory NetRoundtrip
  imports NetDecode
begin

text \<open>
  The protocol's correctness: which inputs make a decoder panic, and that decoding inverts encoding.
\<close>

section \<open>Decoders that cannot panic\<close>

lemma need_total: "(n \<le> length payload \<Longrightarrow> k \<noteq> None) \<Longrightarrow> need payload n err k \<noteq> None"
  by (simp add: need_def)

lemma Uint16At_total: "pos + 2 \<le> length p \<Longrightarrow> (\<And>x. f x \<noteq> None) \<Longrightarrow> Option.bind (Uint16At p pos) f \<noteq> None"
  by (simp add: Uint16At_def)

lemma Uint32At_total: "pos + 4 \<le> length p \<Longrightarrow> (\<And>x. f x \<noteq> None) \<Longrightarrow> Option.bind (Uint32At p pos) f \<noteq> None"
  by (simp add: Uint32At_def)

lemma Uint64At_total: "pos + 8 \<le> length p \<Longrightarrow> (\<And>x. f x \<noteq> None) \<Longrightarrow> Option.bind (Uint64At p pos) f \<noteq> None"
  by (simp add: Uint64At_def)

lemma goslice_total:
  "lo \<le> hi \<Longrightarrow> hi \<le> length p \<Longrightarrow> (\<And>x. f x \<noteq> None) \<Longrightarrow> Option.bind (goslice p lo hi) f \<noteq> None"
  by (simp add: goslice_def)

lemma readStr16_total: "pos + 2 \<le> length p \<Longrightarrow> (\<And>s q. k s q \<noteq> None) \<Longrightarrow> readStr16 p pos err k \<noteq> None"
  unfolding readStr16_def Let_def by (intro Uint16At_total need_total goslice_total) auto

lemma readStr32_total: "pos + 4 \<le> length p \<Longrightarrow> (\<And>s q. k s q \<noteq> None) \<Longrightarrow> readStr32 p pos err k \<noteq> None"
  unfolding readStr32_def Let_def by (intro Uint32At_total need_total goslice_total) auto

lemmas total_intros = need_total Uint16At_total Uint32At_total Uint64At_total goslice_total
  readStr16_total readStr32_total

lemma decodeSetRequest_total: "decodeSetRequest p \<noteq> None"
  unfolding decodeSetRequest_def Let_def by (intro total_intros) simp_all

lemma decodeQPushRequest_total: "decodeQPushRequest p \<noteq> None"
  unfolding decodeQPushRequest_def Let_def by (intro total_intros) simp_all

lemma decodeMSetLoop_total: "decodeMSetLoop n p pos ks vs \<noteq> None"
  by (induction n arbitrary: pos ks vs) (simp, simp only: decodeMSetLoop.simps Let_def, intro total_intros, simp_all)

lemma decodeMGetLoop_total: "decodeMGetLoop n p pos ks \<noteq> None"
  by (induction n arbitrary: pos ks) (simp, simp only: decodeMGetLoop.simps Let_def, intro total_intros, simp_all)

lemma decodeBatchLoop_total: "decodeBatchLoop n p pos ms \<noteq> None"
  by (induction n arbitrary: pos ms) (simp, simp only: decodeBatchLoop.simps Let_def, intro total_intros, simp_all)

lemma decodeValuesLoop_total: "decodeValuesLoop n p pos vs \<noteq> None"
  by (induction n arbitrary: pos vs) (simp, simp only: decodeValuesLoop.simps Let_def, intro total_intros, simp_all)

lemma bind_total: "m \<noteq> None \<Longrightarrow> (\<And>x. f x \<noteq> None) \<Longrightarrow> Option.bind m f \<noteq> None"
  by (cases m) simp_all

lemmas loop_total = decodeMSetLoop_total decodeMGetLoop_total decodeBatchLoop_total
  decodeValuesLoop_total

lemma decode_total:
  "decodeMSetRequest p \<noteq> None" "decodeMGetRequest op p \<noteq> None" "decodeMultiValueResponse p \<noteq> None"
  "decodeSPublishRequest p \<noteq> None" "decodeSConsumeRequest p \<noteq> None" "decodeSCommitRequest p \<noteq> None"
  "decodeSCreateTopicRequest p \<noteq> None" "decodeSSubscribeRequest p \<noteq> None"
  "decodeSUnsubscribeRequest p \<noteq> None" "decodeDocInsertRequest p \<noteq> None"
  "decodeDocFindRequest p \<noteq> None" "decodeDocUpdateRequest p \<noteq> None"
  "decodeDocDeleteRequest p \<noteq> None" "decodeDocIndexRequest p \<noteq> None"
  unfolding decodeMSetRequest_def decodeMGetRequest_def decodeMultiValueResponse_def
    decodeSPublishRequest_def decodeSConsumeRequest_def decodeSCommitRequest_def
    decodeSCreateTopicRequest_def decodeSSubscribeRequest_def decodeSUnsubscribeRequest_def
    decodeDocInsertRequest_def decodeDocFindRequest_def decodeDocUpdateRequest_def
    decodeDocDeleteRequest_def decodeDocIndexRequest_def Let_def
  by (intro total_intros bind_total loop_total; simp)+

lemma if_total: "(c \<Longrightarrow> a \<noteq> None) \<Longrightarrow> (\<not> c \<Longrightarrow> b \<noteq> None) \<Longrightarrow> (if c then a else b) \<noteq> None"
  by simp

lemma decodeSPublishBatchRequest_total: "decodeSPublishBatchRequest p \<noteq> None"
  unfolding decodeSPublishBatchRequest_def Let_def
  by (intro total_intros if_total bind_total loop_total) simp_all

section \<open>Where decoding panics\<close>

definition simpleOps :: "byte set" where
  "simpleOps = {OpGet, OpDel, OpExists, OpIncr, OpDecr, OpQPop, OpQPeek, OpQLen, OpQClear}"

lemma unat_2_plus: "unat (2 + k :: uint16) = (if unat k < 65534 then 2 + unat k else unat k - 65534)"
proof -
  have "unat k < 65536" by (rule unat_bounds)
  then show ?thesis by (auto simp: unat_word_ariths mod_if)
qed

lemma unat_5_plus:
  "unat (5 + n :: uint32) = (if unat n < 2 ^ 32 - 5 then 5 + unat n else unat n - (2 ^ 32 - 5))"
proof -
  have "unat n < 2 ^ 32" using unat_bounds(3) [of n] by simp
  then show ?thesis by (auto simp: unat_word_ariths mod_if)
qed

lemma decodeSimpleRequest_panics:
  "decodeSimpleRequest op p = None \<longleftrightarrow> 2 \<le> length p \<and> 65534 \<le> unat (rd16 (take 2 p))"
  using unat_bounds(2) [of "rd16 (take 2 p)"]
  by (auto simp: decodeSimpleRequest_def Let_def need_def reads_def unat_2_plus)

lemma decodePayload_panics:
  "decodePayload op p = None \<longleftrightarrow> op \<in> simpleOps \<and> 2 \<le> length p \<and> 65534 \<le> unat (rd16 (take 2 p))"
  unfolding decodePayload_def
  by (auto simp: decodeSimpleRequest_panics decode_total [simplified] decodeSetRequest_total [simplified]
      decodeQPushRequest_total [simplified] decodeSPublishBatchRequest_total [simplified]
      simpleOps_def opcodes)

section \<open>Round trips\<close>

lemma decodeSetRequest_enc:
  "length key < 2 ^ 16 \<Longrightarrow> length val < 2 ^ 32 \<Longrightarrow> decodeSetRequest (str16 key @ str32 val) =
     Some (Inr ((newRequest OpSet)\<lparr>rqKey := key, rqValue := val\<rparr>))"
  by (simp add: decodeSetRequest_def need_def str16_def str32_def read_simps)

lemma decodeQPushRequest_enc:
  "length name < 2 ^ 16 \<Longrightarrow> length val < 2 ^ 32 \<Longrightarrow> decodeQPushRequest (str16 name @ str32 val) =
     Some (Inr ((newRequest OpQPush)\<lparr>rqKey := name, rqValue := val\<rparr>))"
  by (simp add: decodeQPushRequest_def need_def str16_def str32_def read_simps)

lemma decodeSimpleRequest_enc:
  "length key < 65534 \<Longrightarrow>
   decodeSimpleRequest op (str16 key) = Some (Inr ((newRequest op)\<lparr>rqKey := key\<rparr>))"
  by (simp add: decodeSimpleRequest_def need_def str16_def read_simps unat_2_plus)

lemma decodeMSetLoop_enc:
  "length ks = length vs \<Longrightarrow> \<forall>k\<in>set ks. length k < 2 ^ 16 \<Longrightarrow> \<forall>v\<in>set vs. length v < 2 ^ 32 \<Longrightarrow>
   decodeMSetLoop (length ks) (pre @ pairs ks vs @ rest) (length pre) aks avs =
     Some (Inr (aks @ ks, avs @ vs))"
proof (induction ks vs arbitrary: pre aks avs rule: list_induct2)
  case Nil
  show ?case by simp
next
  case (Cons k ks v vs)
  then show ?case
    using Cons.IH [of "pre @ str16 k @ str32 v" "aks @ [k]" "avs @ [v]"]
    by (simp add: need_def str16_def str32_def read_simps ac_simps)
qed

lemma decodeMGetLoop_enc:
  "\<forall>k\<in>set ks. length k < 2 ^ 16 \<Longrightarrow>
   decodeMGetLoop (length ks) (pre @ concat (map str16 ks) @ rest) (length pre) aks = Some (Inr (aks @ ks))"
proof (induction ks arbitrary: pre aks)
  case (Cons k ks)
  then show ?case
    using Cons.IH [of "pre @ str16 k" "aks @ [k]"]
    by (simp add: need_def readStr16_def str16_def read_simps ac_simps)
qed simp

lemma decodeValuesLoop_enc:
  "\<forall>v\<in>set vs. length v < 2 ^ 32 \<Longrightarrow>
   decodeValuesLoop (length vs) (pre @ concat (map str32 vs) @ rest) (length pre) avs = Some (Inr (avs @ vs))"
proof (induction vs arbitrary: pre avs)
  case (Cons v vs)
  then show ?case
    using Cons.IH [of "pre @ str32 v" "avs @ [v]"]
    by (simp add: need_def readStr32_def str32_def read_simps ac_simps)
qed simp

lemma decodeMSetRequest_enc:
  "length ks = length vs \<Longrightarrow> length ks < 2 ^ 16 \<Longrightarrow> \<forall>k\<in>set ks. length k < 2 ^ 16 \<Longrightarrow>
   \<forall>v\<in>set vs. length v < 2 ^ 32 \<Longrightarrow>
   decodeMSetRequest (be16 (word_of_nat (length ks)) @ pairs ks vs) =
     Some (Inr ((newRequest OpMSet)\<lparr>rqKeys := ks, rqValues := vs\<rparr>))"
  using decodeMSetLoop_enc [of ks vs "be16 (word_of_nat (length ks))" "[]" "[]" "[]"]
  by (simp add: decodeMSetRequest_def need_def read_simps)

lemma decodeMGetRequest_enc:
  "length ks < 2 ^ 16 \<Longrightarrow> \<forall>k\<in>set ks. length k < 2 ^ 16 \<Longrightarrow>
   decodeMGetRequest op (be16 (word_of_nat (length ks)) @ concat (map str16 ks)) =
     Some (Inr ((newRequest op)\<lparr>rqKeys := ks\<rparr>))"
  using decodeMGetLoop_enc [of ks "be16 (word_of_nat (length ks))" "[]" "[]"]
  by (simp add: decodeMGetRequest_def need_def read_simps)

lemma decodeMultiValueResponse_enc:
  "length vs < 2 ^ 16 \<Longrightarrow> \<forall>v\<in>set vs. length v < 2 ^ 32 \<Longrightarrow>
   decodeMultiValueResponse (be16 (word_of_nat (length vs)) @ concat (map str32 vs)) =
     Some (Inr ((newResponse StatusMultiValue)\<lparr>rsValues := vs\<rparr>))"
  using decodeValuesLoop_enc [of vs "be16 (word_of_nat (length vs))" "[]" "[]"]
  by (simp add: decodeMultiValueResponse_def need_def read_simps)

lemma decodeSPublishRequest_enc:
  "length topic < 2 ^ 16 \<Longrightarrow> length key < 2 ^ 16 \<Longrightarrow> length val < 2 ^ 32 \<Longrightarrow>
   decodeSPublishRequest (str16 topic @ be32 part @ str16 key @ str32 val) =
     Some (Inr ((newRequest OpSPublish)\<lparr>rqTopic := topic, rqPartition := ucast part, rqKey := key,
       rqValue := val\<rparr>))"
  by (simp add: decodeSPublishRequest_def need_def readStr16_def readStr32_def str16_def str32_def
      read_simps)

lemma decodeSConsumeRequest_enc:
  "length topic < 2 ^ 16 \<Longrightarrow> length grp < 2 ^ 16 \<Longrightarrow> length consumer < 2 ^ 16 \<Longrightarrow>
   decodeSConsumeRequest (str16 topic @ str16 grp @ str16 consumer @ be32 count) =
     Some (Inr ((newRequest OpSConsume)\<lparr>rqTopic := topic, rqGroup := grp, rqConsumer := consumer,
       rqCount := ucast count\<rparr>))"
  by (simp add: decodeSConsumeRequest_def need_def readStr16_def str16_def read_simps)

lemma decodeSCommitRequest_enc:
  "length topic < 2 ^ 16 \<Longrightarrow> length grp < 2 ^ 16 \<Longrightarrow>
   decodeSCommitRequest (str16 topic @ str16 grp @ be32 part @ be64 offset) =
     Some (Inr ((newRequest OpSCommit)\<lparr>rqTopic := topic, rqGroup := grp, rqPartition := ucast part,
       rqRetentionMs := offset\<rparr>))"
  by (simp add: decodeSCommitRequest_def need_def readStr16_def str16_def read_simps)

lemma decodeSCreateTopicRequest_enc:
  "length name < 2 ^ 16 \<Longrightarrow>
   decodeSCreateTopicRequest (str16 name @ be32 parts @ be64 retention) =
     Some (Inr ((newRequest OpSCreateTopic)\<lparr>rqTopic := name, rqPartition := ucast parts,
       rqRetentionMs := retention\<rparr>))"
  by (simp add: decodeSCreateTopicRequest_def need_def readStr16_def str16_def read_simps)

lemma decodeSSubscribeRequest_enc:
  "length topic < 2 ^ 16 \<Longrightarrow> length grp < 2 ^ 16 \<Longrightarrow> length consumer < 2 ^ 16 \<Longrightarrow>
   decodeSSubscribeRequest (str16 topic @ str16 grp @ str16 consumer) =
     Some (Inr ((newRequest OpSSubscribe)\<lparr>rqTopic := topic, rqGroup := grp, rqConsumer := consumer\<rparr>))"
  by (simp add: decodeSSubscribeRequest_def need_def readStr16_def str16_def read_simps)

lemma decodeSUnsubscribeRequest_enc:
  "length topic < 2 ^ 16 \<Longrightarrow> length grp < 2 ^ 16 \<Longrightarrow> length consumer < 2 ^ 16 \<Longrightarrow>
   decodeSUnsubscribeRequest (str16 topic @ str16 grp @ str16 consumer) =
     Some (Inr ((newRequest OpSUnsubscribe)\<lparr>rqTopic := topic, rqGroup := grp, rqConsumer := consumer\<rparr>))"
  by (simp add: decodeSUnsubscribeRequest_def need_def readStr16_def str16_def read_simps)

lemma decodeDoc_enc:
  assumes "length coll < 2 ^ 16" and "length doc < 2 ^ 32"
  shows "decodeDocInsertRequest (str16 coll @ str32 doc) =
      Some (Inr ((newRequest OpDocInsert)\<lparr>rqCollection := coll, rqValue := doc\<rparr>))"
    and "decodeDocFindRequest (str16 coll @ str32 doc) =
      Some (Inr ((newRequest OpDocFind)\<lparr>rqCollection := coll, rqValue := doc\<rparr>))"
    and "decodeDocUpdateRequest (str16 coll @ str32 doc) =
      Some (Inr ((newRequest OpDocUpdate)\<lparr>rqCollection := coll, rqValue := doc\<rparr>))"
    and "decodeDocDeleteRequest (str16 coll @ str32 doc) =
      Some (Inr ((newRequest OpDocDelete)\<lparr>rqCollection := coll, rqValue := doc\<rparr>))"
  using assms
  by (simp_all add: decodeDocInsertRequest_def decodeDocFindRequest_def decodeDocUpdateRequest_def
      decodeDocDeleteRequest_def need_def readStr16_def readStr32_def str16_def str32_def read_simps)

lemma decodeDocIndexRequest_enc:
  "length coll < 2 ^ 16 \<Longrightarrow> length field < 2 ^ 16 \<Longrightarrow>
   decodeDocIndexRequest (str16 coll @ str16 field) =
     Some (Inr ((newRequest OpDocIndex)\<lparr>rqCollection := coll, rqKey := field\<rparr>))"
  by (simp add: decodeDocIndexRequest_def need_def readStr16_def str16_def read_simps)

lemmas decoded = decodeSetRequest_enc decodeQPushRequest_enc decodeSimpleRequest_enc
  decodeMSetRequest_enc decodeMGetRequest_enc decodeSPublishRequest_enc decodeSConsumeRequest_enc
  decodeSCommitRequest_enc decodeSCreateTopicRequest_enc decodeSSubscribeRequest_enc
  decodeSUnsubscribeRequest_enc decodeDoc_enc decodeDocIndexRequest_enc

text \<open>A frame is taken apart into opcode and payload, whatever bytes follow it.\<close>

lemma DecodeRequest_frame:
  assumes "length p < 2 ^ 32 - 5"
  shows "DecodeRequest (frame op p @ rest) = decodePayload op p"
  using assms
  by (simp add: DecodeRequest_def frame_def read_simps unat_5_plus)

lemma decodePayload_op:
  "decodePayload OpSet p = decodeSetRequest p"
  "op \<in> simpleOps \<Longrightarrow> decodePayload op p = decodeSimpleRequest op p"
  "decodePayload OpMSet p = decodeMSetRequest p"
  "decodePayload OpMGet p = decodeMGetRequest OpMGet p"
  "decodePayload OpMDel p = decodeMGetRequest OpMDel p"
  "decodePayload OpQPush p = decodeQPushRequest p"
  "decodePayload OpSPublish p = decodeSPublishRequest p"
  "decodePayload OpSConsume p = decodeSConsumeRequest p"
  "decodePayload OpSCommit p = decodeSCommitRequest p"
  "decodePayload OpSCreateTopic p = decodeSCreateTopicRequest p"
  "decodePayload OpSSubscribe p = decodeSSubscribeRequest p"
  "decodePayload OpSUnsubscribe p = decodeSUnsubscribeRequest p"
  "decodePayload OpDocInsert p = decodeDocInsertRequest p"
  "decodePayload OpDocFind p = decodeDocFindRequest p"
  "decodePayload OpDocUpdate p = decodeDocUpdateRequest p"
  "decodePayload OpDocDelete p = decodeDocDeleteRequest p"
  "decodePayload OpDocIndex p = decodeDocIndexRequest p"
  by (auto simp: decodePayload_def simpleOps_def opcodes)

lemma DecodeRequest_frame_nil: "length p < 2 ^ 32 - 5 \<Longrightarrow> DecodeRequest (frame op p) = decodePayload op p"
  using DecodeRequest_frame [of p op "[]"] by simp

lemma ucast_ucast_goint: "unat (p :: goint) < 2 ^ 32 \<Longrightarrow> ucast (ucast p :: uint32) = p"
  by (simp add: word_unat_eq_iff unsigned_ucast_eq unsigned_take_bit_eq take_bit_nat_eq_self)

lemmas wire_simps = encoded simple_encoders DecodeRequest_frame_nil decodePayload_op decoded

lemma DecodeResponse_frame:
  assumes "length p < 2 ^ 32 - 5"
  shows "DecodeResponse (frame st p) =
    (if st = StatusOK then Some (Inr ((newResponse st)\<lparr>rsValue := p\<rparr>))
     else if st = StatusError then Some (Inr ((newResponse st)\<lparr>rsError := p\<rparr>))
     else if st = StatusMultiValue then decodeMultiValueResponse p
     else if st = StatusNotFound then Some (Inr (newResponse st))
     else Some (Inl (''unknown status: '' @ dec (unat st))))"
  using assms
  by (simp add: DecodeResponse_def frame_def read_simps unat_5_plus newResponse_def)

text \<open>The high half of a 4-byte read.\<close>

lemma rd32_high: "unat (rd32 (be16 x @ [c, d])) div 65536 = unat x"
proof -
  have "drop_bit 16 (rd32 (be16 x @ [c, d])) = (ucast x :: uint32)"
  proof (rule bit_word_eqI)
    fix n assume "n < LENGTH(32)"
    then show "bit (drop_bit 16 (rd32 (be16 x @ [c, d]))) n = bit (ucast x :: uint32) n"
      by (auto simp: rd32_def be16_def bit_simps dest: bit_imp_le_length)
  qed
  then have "unat (drop_bit 16 (rd32 (be16 x @ [c, d]))) = unat (ucast x :: uint32)" by (simp only:)
  moreover have "unat (ucast x :: uint32) = unat x"
    using unat_bounds(2) [of x] by (simp add: unsigned_ucast_eq take_bit_nat_eq_self)
  moreover have "unat (drop_bit 16 w) = unat w div 65536" for w :: uint32
    by (simp only: unat_drop_bit_eq) (simp add: drop_bit_eq_div)
  ultimately show ?thesis by simp
qed

section \<open>The properties\<close>

text \<open>C8: a SET or QPUSH request with a key (queue name) of at most \<open>MaxKeyLen\<close> and a value of at
  most \<open>MaxValueLen\<close> bytes is encoded without panic and decoded to exactly the request encoded.\<close>

theorem set_push_roundtrip:
  assumes "length key \<le> MaxKeyLen" and "length val \<le> MaxValueLen"
  shows "(\<exists>data. EncodeSetRequest key val = Some data \<and> DecodeRequest data =
      Some (Inr ((newRequest OpSet)\<lparr>rqKey := key, rqValue := val\<rparr>))) \<and>
    (\<exists>data. EncodeQPushRequest key val = Some data \<and> DecodeRequest data =
      Some (Inr ((newRequest OpQPush)\<lparr>rqKey := key, rqValue := val\<rparr>)))"
  using assms by (simp add: wire_simps MaxKeyLen_def MaxValueLen_def)

theorem set_push_roundtrip_witness:
  "(\<exists>data. EncodeSetRequest (lit ''k'') [7] = Some data \<and> DecodeRequest data =
      Some (Inr ((newRequest OpSet)\<lparr>rqKey := lit ''k'', rqValue := [7]\<rparr>))) \<and>
    (\<exists>data. EncodeQPushRequest (lit ''k'') [7] = Some data \<and> DecodeRequest data =
      Some (Inr ((newRequest OpQPush)\<lparr>rqKey := lit ''k'', rqValue := [7]\<rparr>)))"
  by (rule set_push_roundtrip) (simp_all add: MaxKeyLen_def MaxValueLen_def)

text \<open>The requests that carry one key (GET, DEL, EXISTS, INCR, DECR, QPOP, QPEEK, QLEN, QCLEAR)
  survive encoding and decoding as long as the key is shorter than 65534 bytes.\<close>

theorem simple_roundtrip:
  assumes "length key < 65534"
  shows "\<forall>(enc, op) \<in> {(EncodeGetRequest, OpGet), (EncodeDeleteRequest, OpDel),
      (EncodeExistsRequest, OpExists), (EncodeIncrRequest, OpIncr), (EncodeDecrRequest, OpDecr),
      (EncodeQPopRequest, OpQPop), (EncodeQPeekRequest, OpQPeek), (EncodeQLenRequest, OpQLen),
      (EncodeQClearRequest, OpQClear)}.
    \<exists>data. enc key = Some data \<and> DecodeRequest data = Some (Inr ((newRequest op)\<lparr>rqKey := key\<rparr>))"
proof -
  have "DecodeRequest (frame op (str16 key)) = Some (Inr ((newRequest op)\<lparr>rqKey := key\<rparr>))"
    if "op \<in> simpleOps" for op
    using assms that by (simp add: wire_simps)
  then show ?thesis
    by (simp add: encoded simple_encoders simpleOps_def)
qed

theorem simple_roundtrip_witness:
  "(\<exists>data. EncodeGetRequest (lit ''a'') = Some data \<and>
      DecodeRequest data = Some (Inr ((newRequest OpGet)\<lparr>rqKey := lit ''a''\<rparr>))) \<and>
   (\<exists>data. EncodeQPopRequest (lit ''a'') = Some data \<and>
      DecodeRequest data = Some (Inr ((newRequest OpQPop)\<lparr>rqKey := lit ''a''\<rparr>)))"
  using simple_roundtrip [of "lit ''a''"] by simp

text \<open>The batch requests MSET, MGET and MDEL survive encoding and decoding: at most 65535 keys,
  each within \<open>MaxKeyLen\<close> and each value within \<open>MaxValueLen\<close>, and a payload that fits the
  frame's length field.\<close>

theorem batch_roundtrip:
  assumes "length ks = length vs" and "length ks < 2 ^ 16"
    and "\<forall>k\<in>set ks. length k \<le> MaxKeyLen" and "\<forall>v\<in>set vs. length v \<le> MaxValueLen"
    and "2 + length (pairs ks vs) < 2 ^ 32 - 5" and "2 + length (concat (map str16 ks)) < 2 ^ 32 - 5"
  shows "(\<exists>data. EncodeMSetRequest ks vs = Some data \<and> DecodeRequest data =
      Some (Inr ((newRequest OpMSet)\<lparr>rqKeys := ks, rqValues := vs\<rparr>))) \<and>
    (\<exists>data. EncodeMGetRequest ks = Some data \<and> DecodeRequest data =
      Some (Inr ((newRequest OpMGet)\<lparr>rqKeys := ks\<rparr>))) \<and>
    (\<exists>data. EncodeMDeleteRequest ks = Some data \<and> DecodeRequest data =
      Some (Inr ((newRequest OpMDel)\<lparr>rqKeys := ks\<rparr>)))"
proof -
  have "\<forall>k\<in>set ks. length k < 2 ^ 16" and "\<forall>v\<in>set vs. length v < 2 ^ 32"
    using assms(3,4) by (auto simp: MaxKeyLen_def MaxValueLen_def)
  with assms(2,5,6) assms(1) [symmetric] show ?thesis
    by (simp add: wire_simps del: length_concat)
qed

theorem batch_roundtrip_witness:
  "(\<exists>data. EncodeMSetRequest [lit ''a'', lit ''b''] [[1], []] = Some data \<and> DecodeRequest data =
      Some (Inr ((newRequest OpMSet)\<lparr>rqKeys := [lit ''a'', lit ''b''], rqValues := [[1], []]\<rparr>))) \<and>
    (\<exists>data. EncodeMGetRequest [lit ''a'', lit ''b''] = Some data \<and> DecodeRequest data =
      Some (Inr ((newRequest OpMGet)\<lparr>rqKeys := [lit ''a'', lit ''b'']\<rparr>))) \<and>
    (\<exists>data. EncodeMDeleteRequest [lit ''a'', lit ''b''] = Some data \<and> DecodeRequest data =
      Some (Inr ((newRequest OpMDel)\<lparr>rqKeys := [lit ''a'', lit ''b'']\<rparr>)))"
  by (rule batch_roundtrip) (simp_all add: MaxKeyLen_def MaxValueLen_def)

text \<open>The stream requests SPUBLISH, SCONSUME, SCOMMIT, SCREATETOPIC, SSUBSCRIBE and SUNSUBSCRIBE
  survive encoding and decoding, for partitions and counts below \<open>2 ^ 32\<close> and every offset and
  retention.\<close>

theorem stream_roundtrip:
  assumes "length topic \<le> MaxKeyLen" and "length grp \<le> MaxKeyLen" and "length key \<le> MaxKeyLen"
    and "length val \<le> MaxValueLen" and "unat (n :: goint) < 2 ^ 32"
  shows "(\<exists>data. EncodeSPublishRequest topic n key val = Some data \<and> DecodeRequest data =
      Some (Inr ((newRequest OpSPublish)
        \<lparr>rqTopic := topic, rqPartition := n, rqKey := key, rqValue := val\<rparr>))) \<and>
    (\<exists>data. EncodeSConsumeRequest topic grp key n = Some data \<and> DecodeRequest data =
      Some (Inr ((newRequest OpSConsume)
        \<lparr>rqTopic := topic, rqGroup := grp, rqConsumer := key, rqCount := n\<rparr>))) \<and>
    (\<exists>data. EncodeSCommitRequest topic grp n off = Some data \<and> DecodeRequest data =
      Some (Inr ((newRequest OpSCommit)
        \<lparr>rqTopic := topic, rqGroup := grp, rqPartition := n, rqRetentionMs := off\<rparr>))) \<and>
    (\<exists>data. EncodeSCreateTopicRequest topic n off = Some data \<and> DecodeRequest data =
      Some (Inr ((newRequest OpSCreateTopic)
        \<lparr>rqTopic := topic, rqPartition := n, rqRetentionMs := off\<rparr>))) \<and>
    (\<exists>data. EncodeSSubscribeRequest topic grp key = Some data \<and> DecodeRequest data =
      Some (Inr ((newRequest OpSSubscribe)
        \<lparr>rqTopic := topic, rqGroup := grp, rqConsumer := key\<rparr>))) \<and>
    (\<exists>data. EncodeSUnsubscribeRequest topic grp key = Some data \<and> DecodeRequest data =
      Some (Inr ((newRequest OpSUnsubscribe)
        \<lparr>rqTopic := topic, rqGroup := grp, rqConsumer := key\<rparr>)))"
proof -
  have "ucast (ucast n :: uint32) = n" using assms(5) by (rule ucast_ucast_goint)
  with assms(1-4) show ?thesis
    by (simp add: wire_simps MaxKeyLen_def MaxValueLen_def)
qed

theorem stream_roundtrip_witness:
  "length (lit ''t'') \<le> MaxKeyLen \<and> unat (3 :: goint) < 2 ^ 32 \<and>
   (\<exists>data. EncodeSPublishRequest (lit ''t'') 3 (lit ''k'') [9] = Some data \<and> DecodeRequest data =
      Some (Inr ((newRequest OpSPublish)
        \<lparr>rqTopic := lit ''t'', rqPartition := 3, rqKey := lit ''k'', rqValue := [9]\<rparr>)))"
proof -
  have "length (lit ''t'') \<le> MaxKeyLen" "length (lit ''g'') \<le> MaxKeyLen"
    "length (lit ''k'') \<le> MaxKeyLen" "length [9 :: byte] \<le> MaxValueLen" "unat (3 :: goint) < 2 ^ 32"
    by (simp_all add: MaxKeyLen_def MaxValueLen_def)
  from stream_roundtrip [OF this, of 5] this(1,5) show ?thesis by simp
qed

text \<open>The document requests DOCINSERT, DOCFIND, DOCUPDATE, DOCDELETE and DOCINDEX survive encoding
  and decoding.\<close>

theorem doc_roundtrip:
  assumes "length coll \<le> MaxKeyLen" and "length field \<le> MaxKeyLen" and "length doc \<le> MaxValueLen"
  shows "(\<forall>(enc, op) \<in> {(EncodeDocInsertRequest, OpDocInsert), (EncodeDocFindRequest, OpDocFind),
      (EncodeDocUpdateRequest, OpDocUpdate), (EncodeDocDeleteRequest, OpDocDelete)}.
      \<exists>data. enc coll doc = Some data \<and>
        DecodeRequest data = Some (Inr ((newRequest op)\<lparr>rqCollection := coll, rqValue := doc\<rparr>))) \<and>
    (\<exists>data. EncodeDocIndexRequest coll field = Some data \<and>
      DecodeRequest data = Some (Inr ((newRequest OpDocIndex)\<lparr>rqCollection := coll, rqKey := field\<rparr>)))"
  using assms by (simp add: wire_simps MaxKeyLen_def MaxValueLen_def)

theorem doc_roundtrip_witness:
  "(\<exists>data. EncodeDocInsertRequest (lit ''users'') (lit ''{}'') = Some data \<and> DecodeRequest data =
      Some (Inr ((newRequest OpDocInsert)\<lparr>rqCollection := lit ''users'', rqValue := lit ''{}''\<rparr>))) \<and>
    (\<exists>data. EncodeDocIndexRequest (lit ''users'') (lit ''age'') = Some data \<and> DecodeRequest data =
      Some (Inr ((newRequest OpDocIndex)\<lparr>rqCollection := lit ''users'', rqKey := lit ''age''\<rparr>)))"
  using doc_roundtrip [of "lit ''users''" "lit ''age''" "lit ''{}''"] by (simp add: MaxKeyLen_def MaxValueLen_def)

text \<open>Responses survive encoding and decoding: the empty OK response, a value, an error message,
  and a list of up to 65535 values.\<close>

theorem response_roundtrip:
  assumes "length val \<le> MaxValueLen" and "length vs < 2 ^ 16" and "\<forall>v\<in>set vs. length v \<le> MaxValueLen"
    and "2 + length (concat (map str32 vs)) < 2 ^ 32 - 5"
  shows "(\<exists>data. EncodeOKResponse = Some data \<and>
      DecodeResponse data = Some (Inr (newResponse StatusOK))) \<and>
    (\<exists>data. EncodeValueResponse val = Some data \<and>
      DecodeResponse data = Some (Inr ((newResponse StatusOK)\<lparr>rsValue := val\<rparr>))) \<and>
    (\<exists>data. EncodeErrorResponse val = Some data \<and>
      DecodeResponse data = Some (Inr ((newResponse StatusError)\<lparr>rsError := val\<rparr>))) \<and>
    (\<exists>data. EncodeMultiValueResponse vs = Some data \<and>
      DecodeResponse data = Some (Inr ((newResponse StatusMultiValue)\<lparr>rsValues := vs\<rparr>)))"
proof -
  have "\<forall>v\<in>set vs. length v < 2 ^ 32"
    using assms(3) by (auto simp: MaxValueLen_def)
  then have "decodeMultiValueResponse (be16 (word_of_nat (length vs)) @ concat (map str32 vs)) =
      Some (Inr ((newResponse StatusMultiValue)\<lparr>rsValues := vs\<rparr>))"
    using assms(2) by (simp add: decodeMultiValueResponse_enc)
  with assms(1,4) show ?thesis
    by (simp add: encoded DecodeResponse_frame statuses MaxValueLen_def newResponse_def del: length_concat)
qed

theorem response_roundtrip_witness:
  "(\<exists>data. EncodeOKResponse = Some data \<and>
      DecodeResponse data = Some (Inr (newResponse StatusOK))) \<and>
    (\<exists>data. EncodeValueResponse [1, 2] = Some data \<and>
      DecodeResponse data = Some (Inr ((newResponse StatusOK)\<lparr>rsValue := [1, 2]\<rparr>))) \<and>
    (\<exists>data. EncodeErrorResponse [1, 2] = Some data \<and>
      DecodeResponse data = Some (Inr ((newResponse StatusError)\<lparr>rsError := [1, 2]\<rparr>))) \<and>
    (\<exists>data. EncodeMultiValueResponse [[1], [], [2, 3]] = Some data \<and>
      DecodeResponse data = Some (Inr ((newResponse StatusMultiValue)\<lparr>rsValues := [[1], [], [2, 3]]\<rparr>)))"
  by (rule response_roundtrip) (simp_all add: MaxValueLen_def)

text \<open>C24: the inputs on which \<open>DecodeRequest\<close> panics, exactly: a payload length of at least
  \<open>2 ^ 32 - 5\<close> (the \<open>uint32\<close> sum \<open>5+payloadLen\<close> wraps around), or a complete single-key
  request whose key length field is 65534 or 65535 (the \<open>uint16\<close> sum \<open>2+keyLen\<close> wraps).  On
  every other input it returns a request or an error.\<close>

theorem DecodeRequest_panics_iff:
  "DecodeRequest data = None \<longleftrightarrow>
     5 \<le> length data \<and>
     (2 ^ 32 - 5 \<le> unat (rd32 (take 4 (drop 1 data))) \<or>
      (unat (rd32 (take 4 (drop 1 data))) + 5 \<le> length data \<and>
       data ! 0 \<in> simpleOps \<and> 2 \<le> unat (rd32 (take 4 (drop 1 data))) \<and>
       65534 \<le> unat (rd16 (take 2 (drop 5 data)))))"
proof -
  let ?n = "rd32 (take 4 (drop 1 data))"
  have n: "unat ?n < 4294967296" by (rule unat_bounds)
  show ?thesis
  proof (cases "5 \<le> length data \<and> unat ?n < 2 ^ 32 - 5 \<and> unat ?n + 5 \<le> length data")
    case True
    then have "DecodeRequest data = decodePayload (data ! 0) (take (unat ?n) (drop 5 data))"
      by (auto simp: DecodeRequest_def reads_def unat_5_plus)
    then show ?thesis using True
      by (auto simp: decodePayload_panics min_def)
  next
    case False
    then show ?thesis using n
      by (auto simp: DecodeRequest_def reads_def unat_5_plus)
  qed
qed

text \<open>A legal key can crash the server: a GET whose key has 65534 or 65535 bytes, within the
  declared \<open>MaxKeyLen\<close>, is encoded without complaint and makes \<open>DecodeRequest\<close> panic.\<close>

theorem long_key_panics:
  assumes "65534 \<le> length key" and "length key \<le> MaxKeyLen"
  shows "\<exists>data. EncodeGetRequest key = Some data \<and> DecodeRequest data = None"
  using assms
  by (simp add: wire_simps decodeSimpleRequest_panics simpleOps_def MaxKeyLen_def str16_def read_simps)

theorem long_key_panics_witness:
  "65534 \<le> length (replicate 65534 (0 :: byte)) \<and> length (replicate 65534 (0 :: byte)) \<le> MaxKeyLen \<and>
   (\<exists>data. EncodeGetRequest (replicate 65534 0) = Some data \<and> DecodeRequest data = None)"
proof -
  have "65534 \<le> length (replicate 65534 (0 :: byte))" "length (replicate 65534 (0 :: byte)) \<le> MaxKeyLen"
    by (simp_all add: MaxKeyLen_def)
  with long_key_panics [OF this] show ?thesis by blast
qed

text \<open>Requests cannot be pipelined: whatever follows the first frame in the bytes read from a
  connection has no influence on what is decoded.\<close>

theorem pipelined_bytes_ignored:
  assumes "length p < 2 ^ 32 - 5"
  shows "DecodeRequest (frame op p @ rest) = DecodeRequest (frame op p)"
  using assms by (simp only: DecodeRequest_frame DecodeRequest_frame_nil)

theorem pipelined_bytes_ignored_witness:
  "DecodeRequest (frame OpGet (str16 (lit ''a'')) @ frame OpDel (str16 (lit ''b''))) =
   DecodeRequest (frame OpGet (str16 (lit ''a'')))"
  by (rule pipelined_bytes_ignored) simp

text \<open>A batch publish never reaches its decoder: \<open>EncodeSPublishBatchRequest\<close> leaves out the
  payload length, so the topic's length is read in its place, and (unless the batch is larger than
  \<open>65536\<close> times the length of the topic) \<open>DecodeRequest\<close> waits for bytes that never come.\<close>

theorem publish_batch_undecodable:
  assumes enc: "EncodeSPublishBatchRequest topic ms = Some data"
    and topic: "0 < length topic" "length topic < MaxKeyLen"
    and short: "length data < 65536 * length topic + 5"
  shows "DecodeRequest data = Some (Inl ''incomplete request'')"
proof -
  obtain c t where t: "topic = c # t" using topic(1) by (cases topic) auto
  have "\<exists>d rest. t @ be32 (word_of_nat (length ms)) @ concat (map message ms) = d # rest"
    by (cases t) (simp_all add: be32_def)
  then obtain d rest where
    data: "data = OpSPublishBatch # be16 (word_of_nat (length topic)) @ [c, d] @ rest"
    using enc by (auto simp: encoded str16_def t)
  let ?n = "rd32 (be16 (word_of_nat (length topic)) @ [c, d])"
  have "unat ?n div 65536 = length topic"
    using topic(2) by (simp add: rd32_high read_simps MaxKeyLen_def)
  then have "65536 * length topic \<le> unat ?n" and "unat ?n < 65536 * (length topic + 1)"
    by auto
  then have "length data < unat ?n + 5" and "unat ?n < 2 ^ 32 - 5"
    using short topic(2) by (simp_all add: MaxKeyLen_def)
  then show ?thesis
    by (simp add: DecodeRequest_def data read_simps unat_5_plus)
qed

theorem publish_batch_undecodable_witness:
  "\<exists>data. EncodeSPublishBatchRequest (lit ''events'')
      [\<lparr>bmPartition = 0, bmKey = lit ''k'', bmValue = [1]\<rparr>] = Some data \<and>
    DecodeRequest data = Some (Inl ''incomplete request'')"
proof -
  let ?ms = "[\<lparr>bmPartition = 0, bmKey = lit ''k'', bmValue = [1]\<rparr>]"
  have "EncodeSPublishBatchRequest (lit ''events'') ?ms = Some (OpSPublishBatch # str16 (lit ''events'') @
      be32 (word_of_nat (length ?ms)) @ concat (map message ?ms))"
    by (rule EncodeSPublishBatchRequest_eq)
  then show ?thesis
    using publish_batch_undecodable [of "lit ''events''" ?ms] by (simp add: MaxKeyLen_def)
qed

end
