(* ===== verification/PkgProtocol.thy ===== *)
theory PkgProtocol
  imports NetRoundtrip
begin

text \<open>
  \<open>src/pkg/protocol/binary.go\<close>, an older copy of \<open>src/internal/net/protocol.go\<close> offered to
  other programs.  Most functions of the two files have the same text; the functions that differ are: the status of
  multi-value responses, the offset of SCOMMIT, the DOCUPDATE request with a separate update, and the
  dispatch, which knows neither SPUBLISHBATCH nor DOCINDEX.  The two ends must run the same copy: what
  one writes the other misreads.
\<close>

section \<open>The functions that are the same\<close>

text \<open>The text of each of these functions is that of \<open>src/internal/net/protocol.go\<close>, line for line (in
  \<open>EncodeDocDeleteRequest\<close> a parameter has another name), and so is the meaning of every name in it.\<close>

definition pkg_EncodeSetRequest where "pkg_EncodeSetRequest = EncodeSetRequest"
definition pkg_EncodeGetRequest where "pkg_EncodeGetRequest = EncodeGetRequest"
definition pkg_encodeSimpleRequest where "pkg_encodeSimpleRequest = encodeSimpleRequest"
definition pkg_EncodeDeleteRequest where "pkg_EncodeDeleteRequest = EncodeDeleteRequest"
definition pkg_EncodeExistsRequest where "pkg_EncodeExistsRequest = EncodeExistsRequest"
definition pkg_EncodeIncrRequest where "pkg_EncodeIncrRequest = EncodeIncrRequest"
definition pkg_EncodeDecrRequest where "pkg_EncodeDecrRequest = EncodeDecrRequest"
definition pkg_EncodeMSetRequest where "pkg_EncodeMSetRequest = EncodeMSetRequest"
definition pkg_EncodeMGetRequest where "pkg_EncodeMGetRequest = EncodeMGetRequest"
definition pkg_EncodeMDeleteRequest where "pkg_EncodeMDeleteRequest = EncodeMDeleteRequest"
definition pkg_EncodeQPushRequest where "pkg_EncodeQPushRequest = EncodeQPushRequest"
definition pkg_EncodeQPopRequest where "pkg_EncodeQPopRequest = EncodeQPopRequest"
definition pkg_EncodeQPeekRequest where "pkg_EncodeQPeekRequest = EncodeQPeekRequest"
definition pkg_EncodeQLenRequest where "pkg_EncodeQLenRequest = EncodeQLenRequest"
definition pkg_EncodeQClearRequest where "pkg_EncodeQClearRequest = EncodeQClearRequest"
definition pkg_EncodeOKResponse where "pkg_EncodeOKResponse = EncodeOKResponse"
definition pkg_EncodeValueResponse where "pkg_EncodeValueResponse = EncodeValueResponse"
definition pkg_EncodeErrorResponse where "pkg_EncodeErrorResponse = EncodeErrorResponse"
definition pkg_EncodeSPublishRequest where "pkg_EncodeSPublishRequest = EncodeSPublishRequest"
definition pkg_EncodeSConsumeRequest where "pkg_EncodeSConsumeRequest = EncodeSConsumeRequest"
definition pkg_EncodeSCreateTopicRequest where "pkg_EncodeSCreateTopicRequest = EncodeSCreateTopicRequest"
definition pkg_EncodeSSubscribeRequest where "pkg_EncodeSSubscribeRequest = EncodeSSubscribeRequest"
definition pkg_EncodeSUnsubscribeRequest where "pkg_EncodeSUnsubscribeRequest = EncodeSUnsubscribeRequest"
definition pkg_EncodeDocInsertRequest where "pkg_EncodeDocInsertRequest = EncodeDocInsertRequest"
definition pkg_EncodeDocFindRequest where "pkg_EncodeDocFindRequest = EncodeDocFindRequest"
definition pkg_EncodeDocDeleteRequest where "pkg_EncodeDocDeleteRequest = EncodeDocDeleteRequest"
definition pkg_decodeSetRequest where "pkg_decodeSetRequest = decodeSetRequest"
definition pkg_decodeSimpleRequest where "pkg_decodeSimpleRequest = decodeSimpleRequest"
definition pkg_decodeMSetRequest where "pkg_decodeMSetRequest = decodeMSetRequest"
definition pkg_decodeMGetRequest where "pkg_decodeMGetRequest = decodeMGetRequest"
definition pkg_decodeQPushRequest where "pkg_decodeQPushRequest = decodeQPushRequest"
definition pkg_decodeSPublishRequest where "pkg_decodeSPublishRequest = decodeSPublishRequest"
definition pkg_decodeSConsumeRequest where "pkg_decodeSConsumeRequest = decodeSConsumeRequest"
definition pkg_decodeSCommitRequest where "pkg_decodeSCommitRequest = decodeSCommitRequest"
definition pkg_decodeSCreateTopicRequest where "pkg_decodeSCreateTopicRequest = decodeSCreateTopicRequest"
definition pkg_decodeSSubscribeRequest where "pkg_decodeSSubscribeRequest = decodeSSubscribeRequest"
definition pkg_decodeSUnsubscribeRequest where "pkg_decodeSUnsubscribeRequest = decodeSUnsubscribeRequest"
definition pkg_decodeDocInsertRequest where "pkg_decodeDocInsertRequest = decodeDocInsertRequest"
definition pkg_decodeDocFindRequest where "pkg_decodeDocFindRequest = decodeDocFindRequest"
definition pkg_decodeDocDeleteRequest where "pkg_decodeDocDeleteRequest = decodeDocDeleteRequest"

section \<open>The functions that differ\<close>

definition pkg_StatusMultiValue :: byte where "pkg_StatusMultiValue = 0x03"

definition pkg_EncodeMultiValueResponse :: "bytes list \<Rightarrow> bytes option" where
  "pkg_EncodeMultiValueResponse vs = do {
     let totalSize = 5 + 2 + sum_list (map (\<lambda>v. 4 + length v) vs);
     w \<leftarrow> put8 pkg_StatusMultiValue (makebuf totalSize);
     let payloadLen = totalSize - 5;
     w \<leftarrow> put32 (word_of_nat payloadLen) w;
     w \<leftarrow> put16 (word_of_nat (length vs)) w;
     w \<leftarrow> putValues vs w;
     Some (fst w)
   }"

definition pkg_decodeMultiValueResponse :: "bytes \<Rightarrow> Response decoded" where
  "pkg_decodeMultiValueResponse payload =
     need payload 2 ''invalid multi-value response'' (do {
       count \<leftarrow> Uint16At payload 0;
       r \<leftarrow> decodeValuesLoop (unat count) payload 2 [];
       Some (case r of
           Inl e \<Rightarrow> Inl e
         | Inr vs \<Rightarrow> Inr ((newResponse pkg_StatusMultiValue)\<lparr>rsValues := vs\<rparr>))
     })"

definition pkg_DecodeResponse :: "bytes \<Rightarrow> Response decoded" where
  "pkg_DecodeResponse data =
     (if length data < 5 then Some (Inl ''response too short'')
      else do {
        status \<leftarrow> goindex data 0;
        payloadLen \<leftarrow> Uint32At data 1;
        if length data < unat (5 + payloadLen) then Some (Inl ''incomplete response'')
        else do {
          payload \<leftarrow> goslice data 5 (unat (5 + payloadLen));
          if status = StatusOK then
            Some (Inr (if 0 < length payload then (newResponse status)\<lparr>rsValue := payload\<rparr>
                       else newResponse status))
          else if status = StatusError then Some (Inr ((newResponse status)\<lparr>rsError := payload\<rparr>))
          else if status = pkg_StatusMultiValue then pkg_decodeMultiValueResponse payload
          else if status = StatusNotFound then Some (Inr (newResponse status))
          else Some (Inl (''unknown status: '' @ dec (unat status)))
        }
      })"

text \<open>The offset is an \<open>int64\<close> here and is written as its \<open>uint64\<close> image.\<close>

definition pkg_EncodeSCommitRequest :: "gostring \<Rightarrow> gostring \<Rightarrow> goint \<Rightarrow> int64 \<Rightarrow> bytes option" where
  "pkg_EncodeSCommitRequest topic grp part offset = do {
     let topicLen = length topic;
     let groupLen = length grp;
     let totalSize = 1 + 4 + 2 + topicLen + 2 + groupLen + 4 + 8;
     w \<leftarrow> put8 OpSCommit (makebuf totalSize);
     let payloadLen = totalSize - 5;
     w \<leftarrow> put32 (word_of_nat payloadLen) w;
     w \<leftarrow> put16 (word_of_nat topicLen) w;
     w \<leftarrow> putbytes topic w;
     w \<leftarrow> put16 (word_of_nat groupLen) w;
     w \<leftarrow> putbytes grp w;
     w \<leftarrow> put32 (ucast part) w;
     w \<leftarrow> put64 offset w;
     Some (fst w)
   }"

definition pkg_EncodeDocUpdateRequest :: "gostring \<Rightarrow> bytes \<Rightarrow> bytes \<Rightarrow> bytes option" where
  "pkg_EncodeDocUpdateRequest collection query update = do {
     let collLen = length collection;
     let queryLen = length query;
     let updateLen = length update;
     let totalSize = 1 + 4 + 2 + collLen + 4 + queryLen + 4 + updateLen;
     w \<leftarrow> put8 OpDocUpdate (makebuf totalSize);
     let payloadLen = totalSize - 5;
     w \<leftarrow> put32 (word_of_nat payloadLen) w;
     w \<leftarrow> put16 (word_of_nat collLen) w;
     w \<leftarrow> putbytes collection w;
     w \<leftarrow> put32 (word_of_nat queryLen) w;
     w \<leftarrow> putbytes query w;
     w \<leftarrow> put32 (word_of_nat updateLen) w;
     w \<leftarrow> putbytes update w;
     Some (fst w)
   }"

text \<open>The query is kept in \<open>Value\<close>, the update in \<open>Values[0]\<close>.\<close>

definition pkg_decodeDocUpdateRequest :: "bytes \<Rightarrow> Request decoded" where
  "pkg_decodeDocUpdateRequest payload = (let err = ''invalid DOCUPDATE payload'' in
     need payload 2 err (readStr16 payload 0 err (\<lambda>coll pos.
     need payload (pos + 4) err (readStr32 payload pos err (\<lambda>query pos.
     need payload (pos + 4) err (readStr32 payload pos err (\<lambda>update pos.
       Some (Inr ((newRequest OpDocUpdate)\<lparr>rqCollection := coll, rqValue := query, rqValues := [update]\<rparr>)))))))))"

definition pkg_decodePayload :: "byte \<Rightarrow> bytes \<Rightarrow> Request decoded" where
  "pkg_decodePayload op payload =
     (if op = OpSet then pkg_decodeSetRequest payload
      else if op \<in> {OpGet, OpDel, OpExists, OpIncr, OpDecr} then pkg_decodeSimpleRequest op payload
      else if op = OpMSet then pkg_decodeMSetRequest payload
      else if op \<in> {OpMGet, OpMDel} then pkg_decodeMGetRequest op payload
      else if op = OpQPush then pkg_decodeQPushRequest payload
      else if op \<in> {OpQPop, OpQPeek, OpQLen, OpQClear} then pkg_decodeSimpleRequest op payload
      else if op = OpSPublish then pkg_decodeSPublishRequest payload
      else if op = OpSConsume then pkg_decodeSConsumeRequest payload
      else if op = OpSCommit then pkg_decodeSCommitRequest payload
      else if op = OpSCreateTopic then pkg_decodeSCreateTopicRequest payload
      else if op = OpSSubscribe then pkg_decodeSSubscribeRequest payload
      else if op = OpSUnsubscribe then pkg_decodeSUnsubscribeRequest payload
      else if op = OpDocInsert then pkg_decodeDocInsertRequest payload
      else if op = OpDocFind then pkg_decodeDocFindRequest payload
      else if op = OpDocUpdate then pkg_decodeDocUpdateRequest payload
      else if op = OpDocDelete then pkg_decodeDocDeleteRequest payload
      else Some (Inl (''unknown opcode: '' @ dec (unat op))))"

definition pkg_DecodeRequest :: "bytes \<Rightarrow> Request decoded" where
  "pkg_DecodeRequest data =
     (if length data < 5 then Some (Inl ''request too short'')
      else do {
        opCode \<leftarrow> goindex data 0;
        payloadLen \<leftarrow> Uint32At data 1;
        if length data < unat (5 + payloadLen) then Some (Inl ''incomplete request'')
        else do {
          payload \<leftarrow> goslice data 5 (unat (5 + payloadLen));
          pkg_decodePayload opCode payload
        }
      })"

lemmas pkg_same = pkg_decodeSetRequest_def pkg_decodeSimpleRequest_def pkg_decodeMSetRequest_def pkg_decodeMGetRequest_def pkg_decodeQPushRequest_def pkg_decodeSPublishRequest_def pkg_decodeSConsumeRequest_def pkg_decodeSCommitRequest_def pkg_decodeSCreateTopicRequest_def pkg_decodeSSubscribeRequest_def pkg_decodeSUnsubscribeRequest_def pkg_decodeDocInsertRequest_def pkg_decodeDocFindRequest_def pkg_decodeDocDeleteRequest_def

section \<open>What they write and read\<close>

lemma pkg_EncodeMultiValueResponse_eq:
  "pkg_EncodeMultiValueResponse vs =
     Some (frame pkg_StatusMultiValue (be16 (word_of_nat (length vs)) @ concat (map str32 vs)))"
  by (simp add: pkg_EncodeMultiValueResponse_def cursor_simps frame_def length_concat_map)

lemma pkg_EncodeDocUpdateRequest_eq:
  "pkg_EncodeDocUpdateRequest coll query update = Some (frame OpDocUpdate (str16 coll @ str32 query @ str32 update))"
  by (simp add: pkg_EncodeDocUpdateRequest_def cursor_simps frame_def str16_def str32_def algebra_simps)

lemma pkg_EncodeSCommitRequest_eq: "pkg_EncodeSCommitRequest = EncodeSCommitRequest"
  by (intro ext) (simp only: pkg_EncodeSCommitRequest_def EncodeSCommitRequest_def)

lemma pkg_DecodeRequest_frame:
  "length p < 2 ^ 32 - 5 \<Longrightarrow> pkg_DecodeRequest (frame op p) = pkg_decodePayload op p"
  by (simp add: pkg_DecodeRequest_def frame_def read_simps unat_5_plus)

lemma pkg_DecodeResponse_frame:
  "length p < 2 ^ 32 - 5 \<Longrightarrow> pkg_DecodeResponse (frame st p) =
    (if st = StatusOK then Some (Inr ((newResponse st)\<lparr>rsValue := p\<rparr>))
     else if st = StatusError then Some (Inr ((newResponse st)\<lparr>rsError := p\<rparr>))
     else if st = pkg_StatusMultiValue then pkg_decodeMultiValueResponse p
     else if st = StatusNotFound then Some (Inr (newResponse st))
     else Some (Inl (''unknown status: '' @ dec (unat st))))"
  by (auto simp: pkg_DecodeResponse_def frame_def read_simps unat_5_plus newResponse_def)

lemma decodeDocUpdate_trailing:
  "length coll < 2 ^ 16 \<Longrightarrow> length query < 2 ^ 32 \<Longrightarrow> decodeDocUpdateRequest (str16 coll @ str32 query @ rest) =
     Some (Inr ((newRequest OpDocUpdate)\<lparr>rqCollection := coll, rqValue := query\<rparr>))"
  by (simp add: decodeDocUpdateRequest_def need_def readStr16_def readStr32_def str16_def str32_def read_simps)

lemma pkg_decodeDocUpdate_enc:
  "length coll < 2 ^ 16 \<Longrightarrow> length query < 2 ^ 32 \<Longrightarrow> length update < 2 ^ 32 \<Longrightarrow>
   pkg_decodeDocUpdateRequest (str16 coll @ str32 query @ str32 update) =
     Some (Inr ((newRequest OpDocUpdate)\<lparr>rqCollection := coll, rqValue := query, rqValues := [update]\<rparr>))"
  by (simp add: pkg_decodeDocUpdateRequest_def need_def readStr16_def readStr32_def str16_def str32_def read_simps)

lemma pkg_decodeMultiValue_enc:
  "length vs < 2 ^ 16 \<Longrightarrow> \<forall>v\<in>set vs. length v < 2 ^ 32 \<Longrightarrow>
   pkg_decodeMultiValueResponse (be16 (word_of_nat (length vs)) @ concat (map str32 vs)) =
     Some (Inr ((newResponse pkg_StatusMultiValue)\<lparr>rsValues := vs\<rparr>))"
  using decodeMultiValueResponse_enc [of vs]
  by (auto simp: pkg_decodeMultiValueResponse_def decodeMultiValueResponse_def need_def newResponse_def
      split: if_splits Option.bind_splits sum.splits)

section \<open>Properties\<close>



text \<open>The two copies of the protocol do not understand each other.  A multi-value response written by
  either copy is an unknown status to the other; a DOCUPDATE written by \<open>pkg/protocol\<close> is accepted by
  \<open>internal/net\<close>, which keeps the query and silently drops the update; each copy reads back what it
  wrote itself.\<close>

theorem pkg_net_diverge:
  assumes "length vs < 2 ^ 16" and "\<forall>v\<in>set vs. length v < 2 ^ 32"
    and "2 + length (concat (map str32 vs)) < 2 ^ 32 - 5"
    and "length coll \<le> MaxKeyLen" and "length query \<le> MaxValueLen" and "length update \<le> MaxValueLen"
  shows "(\<exists>data. pkg_EncodeMultiValueResponse vs = Some data \<and>
      pkg_DecodeResponse data = Some (Inr ((newResponse pkg_StatusMultiValue)\<lparr>rsValues := vs\<rparr>)) \<and>
      DecodeResponse data = Some (Inl (''unknown status: '' @ dec 3))) \<and>
    (\<exists>data. EncodeMultiValueResponse vs = Some data \<and>
      pkg_DecodeResponse data = Some (Inl (''unknown status: '' @ dec 4))) \<and>
    (\<exists>data. pkg_EncodeDocUpdateRequest coll query update = Some data \<and>
      pkg_DecodeRequest data =
        Some (Inr ((newRequest OpDocUpdate)\<lparr>rqCollection := coll, rqValue := query, rqValues := [update]\<rparr>)) \<and>
      DecodeRequest data = Some (Inr ((newRequest OpDocUpdate)\<lparr>rqCollection := coll, rqValue := query\<rparr>)))"
proof -
  have len: "length (str16 coll @ str32 query @ str32 update) < 2 ^ 32 - 5"
    using assms(4-6) by (simp add: str16_def str32_def MaxKeyLen_def MaxValueLen_def)
  have doc: "length coll < 2 ^ 16" "length query < 2 ^ 32" "length update < 2 ^ 32"
    using assms(4-6) by (simp_all add: MaxKeyLen_def MaxValueLen_def)
  have "pkg_decodePayload OpDocUpdate p = pkg_decodeDocUpdateRequest p" for p
    by (simp add: pkg_decodePayload_def opcodes)
  then have "pkg_DecodeRequest (frame OpDocUpdate (str16 coll @ str32 query @ str32 update)) =
      Some (Inr ((newRequest OpDocUpdate)\<lparr>rqCollection := coll, rqValue := query, rqValues := [update]\<rparr>))"
    by (simp only: pkg_DecodeRequest_frame [OF len] pkg_decodeDocUpdate_enc [OF doc])
  moreover have "DecodeRequest (frame OpDocUpdate (str16 coll @ str32 query @ str32 update)) =
      Some (Inr ((newRequest OpDocUpdate)\<lparr>rqCollection := coll, rqValue := query\<rparr>))"
    by (simp only: DecodeRequest_frame_nil [OF len] decodePayload_op decodeDocUpdate_trailing [OF doc(1,2)])
  ultimately show ?thesis
    using assms(3) pkg_decodeMultiValue_enc [OF assms(1,2)]
    by (simp add: pkg_EncodeMultiValueResponse_eq pkg_EncodeDocUpdateRequest_eq encoded pkg_DecodeResponse_frame
        DecodeResponse_frame statuses pkg_StatusMultiValue_def del: length_concat)
qed

theorem pkg_net_diverge_witness:
  "\<exists>data. pkg_EncodeDocUpdateRequest (lit ''users'') (lit ''q'') (lit ''u'') = Some data \<and>
    DecodeRequest data = Some (Inr ((newRequest OpDocUpdate)\<lparr>rqCollection := lit ''users'', rqValue := lit ''q''\<rparr>))"
  using pkg_net_diverge [of "[]" "lit ''users''" "lit ''q''" "lit ''u''"] by (auto simp: MaxKeyLen_def MaxValueLen_def)

end
