(* ===== verification/Badger.thy ===== *)
theory Badger
  imports Prelude
begin

text \<open>
  The interface to BadgerDB, the key-value engine under every store of Flin.  Badger is a third-party
  package: it is a parameter of the model, a record \<open>('db, 'txn) badger\<close> of the operations the
  repository calls, over unknown types of databases and transactions.  The locale \<open>badger_store\<close>
  states what the code relies on, Badger's documented behaviour: a transaction reads the snapshot it
  began with and its own writes; an entry without TTL stays, one with a TTL disappears once the TTL
  has elapsed (expiry is kept in whole seconds, so during the last second it may be gone already);
  iteration yields the visible keys with a prefix in byte order; a commit that succeeds installs
  exactly the writes of the transaction (all stores but the stream's open Badger with
  \<open>DetectConflicts = false\<close>, so a commit does not look at what others wrote); one that fails
  changes nothing; a flushed write batch installs its writes.  Badger may split a large batch and
  commit its parts early: what a batch that \<^emph>\<open>fails\<close> has written is not specified, and no theorem
  speaks about it.  \<open>txnGet\<close> stands for \<open>txn.Get\<close> together with the read of the item's value,
  whose error is reported as that of the \<open>Get\<close>.

  \<open>mem_badger\<close> is an executable in-memory store that meets the interface, used to evaluate the
  model at concrete inputs.
\<close>

section \<open>The operations\<close>

type_synonym time = int
type_synonym duration = int

definition second :: duration where
  "second = 1000000000"

datatype badger_err = BadgerErrKeyNotFound | BadgerErr string

text \<open>A TTL of 0 stands for an entry without expiry (\<open>txn.Set\<close>, \<open>badger.NewEntry\<close> alone).
  Iteration yields, for each item in order, its key and what \<open>item.Value\<close> returns.\<close>

record ('db, 'txn) badger =
  NewTransaction :: "'db \<Rightarrow> 'txn"
  txnGet :: "'txn \<Rightarrow> time \<Rightarrow> bytes \<Rightarrow> badger_err + bytes"
  txnSetEntry :: "'txn \<Rightarrow> time \<Rightarrow> bytes \<Rightarrow> bytes \<Rightarrow> duration \<Rightarrow> badger_err + 'txn"
  txnDelete :: "'txn \<Rightarrow> bytes \<Rightarrow> badger_err + 'txn"
  txnIterate :: "'txn \<Rightarrow> time \<Rightarrow> bytes \<Rightarrow> (bytes \<times> (badger_err + bytes)) list"
  txnCommit :: "'db \<Rightarrow> 'txn \<Rightarrow> badger_err + 'db"
  NewWriteBatch :: "'db \<Rightarrow> 'txn"
  wbSetEntry :: "'txn \<Rightarrow> time \<Rightarrow> bytes \<Rightarrow> bytes \<Rightarrow> duration \<Rightarrow> badger_err + 'txn"
  wbDelete :: "'txn \<Rightarrow> bytes \<Rightarrow> badger_err + 'txn"
  wbFlush :: "'db \<Rightarrow> 'txn \<Rightarrow> 'db \<times> badger_err option"
  dbClose :: "'db \<Rightarrow> 'db \<times> badger_err option"
  dbSync :: "'db \<Rightarrow> 'db \<times> badger_err option"
  dbRunValueLogGC :: "'db \<Rightarrow> 'db \<times> badger_err option"

text \<open>What a fresh transaction reads.\<close>

definition dbGet :: "('db, 'txn) badger \<Rightarrow> 'db \<Rightarrow> time \<Rightarrow> bytes \<Rightarrow> badger_err + bytes" where
  "dbGet B d now k = txnGet B (NewTransaction B d) now k"

text \<open>\<open>db.Update(fn)\<close> runs \<open>fn\<close> in a read-write transaction; an error of \<open>fn\<close> discards
  it, an error of the commit is returned.  \<open>wrap\<close> embeds Badger's errors into the caller's.
  \<open>db.View(fn)\<close> runs \<open>fn\<close> in a read-only transaction.\<close>

definition Update ::
  "('db, 'txn) badger \<Rightarrow> (badger_err \<Rightarrow> 'e) \<Rightarrow> 'db \<Rightarrow> ('txn \<Rightarrow> 'e + ('txn \<times> 'a)) \<Rightarrow> 'db \<times> ('e + 'a)"
where
  "Update B wrap d fn =
     (case fn (NewTransaction B d) of
        Inl e \<Rightarrow> (d, Inl e)
      | Inr (t, a) \<Rightarrow>
          (case txnCommit B d t of Inl e \<Rightarrow> (d, Inl (wrap e)) | Inr d' \<Rightarrow> (d', Inr a)))"

text \<open>The same for an \<open>fn\<close> that may panic: \<open>Update\<close> discards the transaction and the panic goes on.\<close>

definition UpdateP ::
  "('db, 'txn) badger \<Rightarrow> (badger_err \<Rightarrow> 'e) \<Rightarrow> 'db \<Rightarrow> ('txn \<Rightarrow> ('e + ('txn \<times> 'a)) option) \<Rightarrow>
   ('db \<times> ('e + 'a)) option"
where
  "UpdateP B wrap d fn = map_option (\<lambda>r. Update B wrap d (\<lambda>_. r)) (fn (NewTransaction B d))"

definition View :: "('db, 'txn) badger \<Rightarrow> 'db \<Rightarrow> ('txn \<Rightarrow> 'r) \<Rightarrow> 'r" where
  "View B d fn = fn (NewTransaction B d)"

section \<open>Its contract\<close>

datatype dbwrite = Put time bytes duration | Del

text \<open>\<open>txn_of B d ops t\<close>: \<open>t\<close> began on \<open>d\<close> and \<open>ops\<close> maps each key it wrote to its last
  write.  \<open>batch_of\<close> is the same for a write batch.\<close>

inductive txn_of :: "('db, 'txn) badger \<Rightarrow> 'db \<Rightarrow> (bytes \<rightharpoonup> dbwrite) \<Rightarrow> 'txn \<Rightarrow> bool" for B d where
  txn_begin: "txn_of B d Map.empty (NewTransaction B d)"
| txn_set: "txn_of B d ops t \<Longrightarrow> txnSetEntry B t now k v ttl = Inr t' \<Longrightarrow>
    txn_of B d (ops(k \<mapsto> Put now v ttl)) t'"
| txn_del: "txn_of B d ops t \<Longrightarrow> txnDelete B t k = Inr t' \<Longrightarrow> txn_of B d (ops(k \<mapsto> Del)) t'"

inductive batch_of :: "('db, 'txn) badger \<Rightarrow> 'db \<Rightarrow> (bytes \<rightharpoonup> dbwrite) \<Rightarrow> 'txn \<Rightarrow> bool" for B d where
  batch_new: "batch_of B d Map.empty (NewWriteBatch B d)"
| batch_set: "batch_of B d ops t \<Longrightarrow> wbSetEntry B t now k v ttl = Inr t' \<Longrightarrow>
    batch_of B d (ops(k \<mapsto> Put now v ttl)) t'"
| batch_del: "batch_of B d ops t \<Longrightarrow> wbDelete B t k = Inr t' \<Longrightarrow> batch_of B d (ops(k \<mapsto> Del)) t'"

text \<open>What reads of a key see, as a function of time, after an entry was written to it.\<close>

definition entry_reads :: "time \<Rightarrow> bytes \<Rightarrow> duration \<Rightarrow> (time \<Rightarrow> badger_err + bytes) \<Rightarrow> bool" where
  "entry_reads now v ttl g \<longleftrightarrow>
     (ttl \<le> 0 \<longrightarrow> (\<forall>u. g u = Inr v)) \<and>
     (0 < ttl \<longrightarrow> (\<forall>u. now \<le> u \<and> u + second \<le> now + ttl \<longrightarrow> g u = Inr v)) \<and>
     (0 < ttl \<longrightarrow> (\<forall>u. now + ttl \<le> u \<longrightarrow> g u = Inl BadgerErrKeyNotFound))"

definition write_reads ::
  "dbwrite option \<Rightarrow> (time \<Rightarrow> badger_err + bytes) \<Rightarrow> (time \<Rightarrow> badger_err + bytes) \<Rightarrow> bool" where
  "write_reads w old g =
     (case w of
        None \<Rightarrow> g = old
      | Some (Put now v ttl) \<Rightarrow> entry_reads now v ttl g
      | Some Del \<Rightarrow> g = (\<lambda>_. Inl BadgerErrKeyNotFound))"

definition installs :: "('db, 'txn) badger \<Rightarrow> (bytes \<rightharpoonup> dbwrite) \<Rightarrow> 'db \<Rightarrow> 'db \<Rightarrow> bool" where
  "installs B ops d d' \<longleftrightarrow>
     (\<forall>k. write_reads (ops k) (\<lambda>u. dbGet B d u k) (\<lambda>u. dbGet B d' u k))"

locale badger_store =
  fixes B :: "('db, 'txn) badger"
  assumes set_get: "txnSetEntry B t now k v ttl = Inr t' \<Longrightarrow>
      entry_reads now v ttl (\<lambda>u. txnGet B t' u k)"
    and set_get_other: "txnSetEntry B t now k v ttl = Inr t' \<Longrightarrow> j \<noteq> k \<Longrightarrow>
      txnGet B t' u j = txnGet B t u j"
    and delete_get: "txnDelete B t k = Inr t' \<Longrightarrow> txnGet B t' u k = Inl BadgerErrKeyNotFound"
    and delete_get_other: "txnDelete B t k = Inr t' \<Longrightarrow> j \<noteq> k \<Longrightarrow> txnGet B t' u j = txnGet B t u j"
    and iterate_sorted: "sorted_wrt (<) (map fst (txnIterate B t now p))"
    and iterate_set: "set (txnIterate B t now p) =
      {(k, r). prefix p k \<and> r = txnGet B t now k \<and> r \<noteq> Inl BadgerErrKeyNotFound}"
    and commit_installs: "txn_of B d ops t \<Longrightarrow> txnCommit B e t = Inr e' \<Longrightarrow> installs B ops e e'"
    and flush_installs: "batch_of B d ops t \<Longrightarrow> wbFlush B d t = (d', None) \<Longrightarrow> installs B ops d d'"
begin

text \<open>A transaction reads its own writes and, elsewhere, the snapshot it began with.\<close>

lemma txn_of_reads: "txn_of B d ops t \<Longrightarrow> write_reads (ops k) (\<lambda>u. dbGet B d u k) (\<lambda>u. txnGet B t u k)"
proof (induction rule: txn_of.induct)
  case txn_begin
  show ?case by (simp add: write_reads_def dbGet_def)
next
  case (txn_set ops t now j v ttl t')
  then show ?case
    by (cases "k = j") (auto simp: write_reads_def set_get set_get_other)
next
  case (txn_del ops t j t')
  then show ?case
    by (cases "k = j") (auto simp: write_reads_def delete_get delete_get_other)
qed

lemma txn_of_get_clean: "txn_of B d ops t \<Longrightarrow> ops k = None \<Longrightarrow> txnGet B t u k = dbGet B d u k"
  using txn_of_reads [of d ops t k] by (simp add: write_reads_def fun_eq_iff)

text \<open>The reads that follow an installed write, in the forms the clients use.\<close>

lemma installs_clean: "installs B ops d d' \<Longrightarrow> ops k = None \<Longrightarrow> dbGet B d' u k = dbGet B d u k"
  by (auto simp: installs_def write_reads_def fun_eq_iff dest: spec [of _ k])

lemma installs_put:
  "installs B ops d d' \<Longrightarrow> ops k = Some (Put now v ttl) \<Longrightarrow> ttl \<le> 0 \<Longrightarrow> dbGet B d' u k = Inr v"
  by (auto simp: installs_def write_reads_def entry_reads_def dest!: spec [of _ k])

lemma installs_del:
  "installs B ops d d' \<Longrightarrow> ops k = Some Del \<Longrightarrow> dbGet B d' u k = Inl BadgerErrKeyNotFound"
  by (auto simp: installs_def write_reads_def fun_eq_iff dest!: spec [of _ k])

lemma installs_ttl_live:
  "installs B ops d d' \<Longrightarrow> ops k = Some (Put now v ttl) \<Longrightarrow> 0 < ttl \<Longrightarrow> now \<le> u \<Longrightarrow>
   u + second \<le> now + ttl \<Longrightarrow> dbGet B d' u k = Inr v"
  by (auto simp: installs_def write_reads_def entry_reads_def dest!: spec [of _ k])

lemma installs_ttl_expired:
  "installs B ops d d' \<Longrightarrow> ops k = Some (Put now v ttl) \<Longrightarrow> 0 < ttl \<Longrightarrow> now + ttl \<le> u \<Longrightarrow>
   dbGet B d' u k = Inl BadgerErrKeyNotFound"
  by (auto simp: installs_def write_reads_def entry_reads_def dest!: spec [of _ k])

lemmas installs_reads = installs_clean installs_put installs_del

text \<open>Iteration in a fresh transaction.\<close>

lemma iterate_distinct: "distinct (map fst (txnIterate B t now p))"
  using iterate_sorted strict_sorted_iff by blast

lemma mem_iterate: "(k, r) \<in> set (txnIterate B t now p) \<longleftrightarrow>
    prefix p k \<and> r = txnGet B t now k \<and> r \<noteq> Inl BadgerErrKeyNotFound"
  by (simp add: iterate_set)

text \<open>The outcomes of \<open>Update\<close>: an error leaves the database alone, a success committed.\<close>

lemma Update_error: "Update B wrap d fn = (d', Inl e) \<Longrightarrow> d' = d"
  by (auto simp: Update_def split: sum.splits prod.splits)

lemma Update_success:
  assumes "Update B wrap d fn = (d', Inr a)"
    and "\<And>t. fn (NewTransaction B d) = Inr (t, a) \<Longrightarrow> txn_of B d ops t"
  shows "installs B ops d d'"
  using assms by (auto simp: Update_def split: sum.splits prod.splits dest: commit_installs)

end

section \<open>An executable instance\<close>

text \<open>Association lists from keys to a value and an optional expiry second; a transaction carries its
  own view and the list of its writes, which the commit replays.\<close>

type_synonym mem_entry = "bytes \<times> int option"
type_synonym mem_db = "(bytes \<times> mem_entry) list"
type_synonym mem_write = "bytes \<times> mem_entry option"
type_synonym mem_txn = "mem_db \<times> mem_write list"

definition mem_expiry :: "time \<Rightarrow> duration \<Rightarrow> int option" where
  "mem_expiry now ttl = (if 0 < ttl then Some ((now + ttl) div second) else None)"

definition mem_read :: "time \<Rightarrow> mem_entry option \<Rightarrow> badger_err + bytes" where
  "mem_read now e =
     (case e of
        None \<Rightarrow> Inl BadgerErrKeyNotFound
      | Some (v, None) \<Rightarrow> Inr v
      | Some (v, Some x) \<Rightarrow> (if x \<le> now div second then Inl BadgerErrKeyNotFound else Inr v))"

definition mem_apply :: "mem_write \<Rightarrow> mem_db \<Rightarrow> mem_db" where
  "mem_apply w db =
     (case w of
        (k, None) \<Rightarrow> filter (\<lambda>p. fst p \<noteq> k) db
      | (k, Some e) \<Rightarrow> (k, e) # filter (\<lambda>p. fst p \<noteq> k) db)"

definition mem_write :: "mem_txn \<Rightarrow> mem_write \<Rightarrow> badger_err + mem_txn" where
  "mem_write t w =
     (if fst w = [] then Inl (BadgerErr ''Key cannot be empty'')
      else Inr (mem_apply w (fst t), snd t @ [w]))"

definition mem_get :: "mem_txn \<Rightarrow> time \<Rightarrow> bytes \<Rightarrow> badger_err + bytes" where
  "mem_get t now k = mem_read now (map_of (fst t) k)"

definition mem_iterate :: "mem_txn \<Rightarrow> time \<Rightarrow> bytes \<Rightarrow> (bytes \<times> (badger_err + bytes)) list" where
  "mem_iterate t now p =
     map (\<lambda>k. (k, mem_get t now k))
       (filter (\<lambda>k. prefix p k \<and> mem_get t now k \<noteq> Inl BadgerErrKeyNotFound)
         (sort (remdups (map fst (fst t)))))"

definition mem_badger :: "(mem_db, mem_txn) badger" where
  "mem_badger = \<lparr>
     NewTransaction = (\<lambda>d. (d, [])),
     txnGet = mem_get,
     txnSetEntry = (\<lambda>t now k v ttl. mem_write t (k, Some (v, mem_expiry now ttl))),
     txnDelete = (\<lambda>t k. mem_write t (k, None)),
     txnIterate = mem_iterate,
     txnCommit = (\<lambda>d t. Inr (fold mem_apply (snd t) d)),
     NewWriteBatch = (\<lambda>d. (d, [])),
     wbSetEntry = (\<lambda>t now k v ttl. mem_write t (k, Some (v, mem_expiry now ttl))),
     wbDelete = (\<lambda>t k. mem_write t (k, None)),
     wbFlush = (\<lambda>d t. (fold mem_apply (snd t) d, None)),
     dbClose = (\<lambda>d. (d, None)),
     dbSync = (\<lambda>d. (d, None)),
     dbRunValueLogGC = (\<lambda>d. (d, None))\<rparr>"

lemma map_of_mem_apply: "map_of (mem_apply (k, e) db) j = (if j = k then e else map_of db j)"
  by (auto simp: mem_apply_def split: option.splits) (induction db; auto)+

lemma map_of_replay_snoc:
  "map_of (fold mem_apply (ws @ [(k, e)]) db) j =
     (if j = k then e else map_of (fold mem_apply ws db) j)"
  by (simp add: map_of_mem_apply)

definition mem_effect :: "dbwrite option \<Rightarrow> mem_entry option \<Rightarrow> mem_entry option" where
  "mem_effect w old =
     (case w of None \<Rightarrow> old | Some (Put now v ttl) \<Rightarrow> Some (v, mem_expiry now ttl) | Some Del \<Rightarrow> None)"

lemma mem_txn_replay:
  "txn_of mem_badger d ops t \<Longrightarrow> map_of (fold mem_apply (snd t) e) k = mem_effect (ops k) (map_of e k)"
proof (induction rule: txn_of.induct)
  case txn_begin
  show ?case by (simp add: mem_badger_def mem_effect_def)
qed (auto simp: mem_badger_def mem_write_def mem_effect_def map_of_replay_snoc split: if_splits
    simp del: fold_append)

lemma mem_batch_replay:
  "batch_of mem_badger d ops t \<Longrightarrow> map_of (fold mem_apply (snd t) e) k = mem_effect (ops k) (map_of e k)"
proof (induction rule: batch_of.induct)
  case batch_new
  show ?case by (simp add: mem_badger_def mem_effect_def)
qed (auto simp: mem_badger_def mem_write_def mem_effect_def map_of_replay_snoc split: if_splits
    simp del: fold_append)

lemma mem_read_none [simp]: "mem_read now None = Inl BadgerErrKeyNotFound"
  by (simp add: mem_read_def)

lemma entry_reads_mem: "entry_reads now v ttl (\<lambda>u. mem_read u (Some (v, mem_expiry now ttl)))"
proof -
  have live: "(now + ttl) div second \<le> u div second \<Longrightarrow> \<not> u + second \<le> now + ttl" for u
    by (auto simp: second_def)
  have gone: "now + ttl \<le> u \<Longrightarrow> (now + ttl) div second \<le> u div second" for u
    by (simp add: second_def zdiv_mono1)
  show ?thesis
    by (auto simp: entry_reads_def mem_read_def mem_expiry_def dest: live gone)
qed

lemma write_reads_mem: "write_reads w (\<lambda>u. mem_read u e) (\<lambda>u. mem_read u (mem_effect w e))"
  using entry_reads_mem
  by (auto simp: write_reads_def mem_effect_def fun_eq_iff mem_read_none
      split: option.splits dbwrite.splits)

lemma mem_get_visible: "mem_get t now k \<noteq> Inl BadgerErrKeyNotFound \<Longrightarrow> k \<in> fst ` set (fst t)"
  by (cases "map_of (fst t) k") (auto simp: mem_get_def dest: map_of_SomeD intro: rev_image_eqI)

interpretation mem: badger_store mem_badger
proof unfold_locales
  fix t :: mem_txn and now k v ttl t'
  assume "txnSetEntry mem_badger t now k v ttl = Inr t'"
  then have "fst t' = mem_apply (k, Some (v, mem_expiry now ttl)) (fst t)"
    by (auto simp: mem_badger_def mem_write_def split: if_splits)
  then have eq: "txnGet mem_badger t' u j =
      (if j = k then mem_read u (Some (v, mem_expiry now ttl)) else txnGet mem_badger t u j)" for u j
    by (simp add: mem_badger_def mem_get_def map_of_mem_apply)
  show "entry_reads now v ttl (\<lambda>u. txnGet mem_badger t' u k)"
    by (simp add: eq entry_reads_mem)
  fix u j assume "j \<noteq> k"
  then show "txnGet mem_badger t' u j = txnGet mem_badger t u j"
    by (simp add: eq)
next
  fix t :: mem_txn and k t' u j
  assume "txnDelete mem_badger t k = Inr t'"
  then have "fst t' = mem_apply (k, None) (fst t)"
    by (auto simp: mem_badger_def mem_write_def split: if_splits)
  then have eq: "txnGet mem_badger t' u j =
      (if j = k then Inl BadgerErrKeyNotFound else txnGet mem_badger t u j)" for u j
    by (simp add: mem_badger_def mem_get_def map_of_mem_apply mem_read_def)
  show "txnGet mem_badger t' u k = Inl BadgerErrKeyNotFound"
    by (simp add: eq)
  assume "j \<noteq> k"
  then show "txnGet mem_badger t' u j = txnGet mem_badger t u j"
    by (simp add: eq)
next
  fix t :: mem_txn and now p
  show "sorted_wrt (<) (map fst (txnIterate mem_badger t now p))"
    by (simp add: mem_badger_def mem_iterate_def comp_def strict_sorted_iff sorted_wrt_filter)
  show "set (txnIterate mem_badger t now p) = {(k, r). prefix p k \<and> r = txnGet mem_badger t now k \<and>
      r \<noteq> Inl BadgerErrKeyNotFound}"
    by (auto simp: mem_badger_def mem_iterate_def dest: mem_get_visible)
next
  fix d e e' :: mem_db and ops t
  assume "txn_of mem_badger d ops t" and "txnCommit mem_badger e t = Inr e'"
  then show "installs mem_badger ops e e'"
    using write_reads_mem
    by (auto simp: installs_def dbGet_def mem_badger_def mem_get_def mem_txn_replay [unfolded mem_badger_def])
next
  fix d d' :: mem_db and ops t
  assume "batch_of mem_badger d ops t" and "wbFlush mem_badger d t = (d', None)"
  then show "installs mem_badger ops d d'"
    using write_reads_mem
    by (auto simp: installs_def dbGet_def mem_badger_def mem_get_def mem_batch_replay [unfolded mem_badger_def])
qed

lemmas mem_eval = mem_badger_def mem_get_def mem_read_def mem_apply_def mem_write_def mem_iterate_def
  mem_expiry_def Update_def UpdateP_def View_def dbGet_def

end
