(* ===== verification/KV.thy ===== *)
theory KV
  imports Badger
begin

text \<open>
  The key-value store: \<open>src/internal/kv/storage.go\<close> (\<open>Storage\<close>, the Badger-backed backend) and
  \<open>src/internal/kv/kv.go\<close> (\<open>KVStore\<close>, the API the servers call, and \<open>StorageBackend\<close>, the
  interface between the two).  A storage is its database and its closed flag; every operation takes
  the Badger parameter, the clock reading where it matters, and returns the storage after it with
  its result, an error or a value.  The background value-log collection has no visible effect and is
  left out, as are the file options of \<open>NewKVStorage\<close>.

  A Go map argument is the association list of its entries in the order in which \<open>range\<close> visits
  them; the theorems show that the order does not matter.
\<close>

section \<open>The storage\<close>

datatype kv_err = ErrKeyNotFound | ErrInvalidKey | ErrClosed | KVBadger badger_err

text \<open>\<open>err.Error()\<close>\<close>

fun kv_errmsg :: "kv_err \<Rightarrow> string" where
  "kv_errmsg ErrKeyNotFound = ''key not found''"
| "kv_errmsg ErrInvalidKey = ''invalid key''"
| "kv_errmsg ErrClosed = ''storage closed''"
| "kv_errmsg (KVBadger BadgerErrKeyNotFound) = ''Key not found''"
| "kv_errmsg (KVBadger (BadgerErr m)) = m"

record 'db Storage =
  kvdb :: 'db
  closed :: bool

text \<open>\<open>opened\<close> is what \<open>badger.Open(opts)\<close> returned.\<close>

definition NewKVStorage :: "badger_err + 'db \<Rightarrow> badger_err + 'db Storage" where
  "NewKVStorage opened =
     (case opened of Inl e \<Rightarrow> Inl e | Inr db \<Rightarrow> Inr \<lparr>kvdb = db, closed = False\<rparr>)"

definition Close :: "('db, 'txn) badger \<Rightarrow> 'db Storage \<Rightarrow> 'db Storage \<times> (kv_err + unit)" where
  "Close B s =
     (if closed s then (s, Inl ErrClosed)
      else case dbClose B (kvdb s) of
          (d, None) \<Rightarrow> (\<lparr>kvdb = d, closed = True\<rparr>, Inr ())
        | (d, Some e) \<Rightarrow> (\<lparr>kvdb = d, closed = True\<rparr>, Inl (KVBadger e)))"

text \<open>Run an update on the storage's database.\<close>

definition kvUpdate ::
  "('db, 'txn) badger \<Rightarrow> 'db Storage \<Rightarrow> ('txn \<Rightarrow> kv_err + ('txn \<times> 'a)) \<Rightarrow> 'db Storage \<times> (kv_err + 'a)" where
  "kvUpdate B s fn = (case Update B KVBadger (kvdb s) fn of (d, r) \<Rightarrow> (s\<lparr>kvdb := d\<rparr>, r))"

text \<open>A Badger call inside a transaction, its error wrapped.\<close>

definition liftB :: "badger_err + 'a \<Rightarrow> kv_err + 'a" where
  "liftB r = (case r of Inl e \<Rightarrow> Inl (KVBadger e) | Inr a \<Rightarrow> Inr a)"

definition Set ::
  "('db, 'txn) badger \<Rightarrow> time \<Rightarrow> 'db Storage \<Rightarrow> gostring \<Rightarrow> bytes \<Rightarrow> duration \<Rightarrow> 'db Storage \<times> (kv_err + unit)"
where
  "Set B now s key value ttl =
     (if closed s then (s, Inl ErrClosed)
      else if key = [] then (s, Inl ErrInvalidKey)
      else kvUpdate B s (\<lambda>txn.
        case txnSetEntry B txn now key value (if ttl > 0 then ttl else 0) of
          Inl e \<Rightarrow> Inl (KVBadger e)
        | Inr txn \<Rightarrow> Inr (txn, ())))"

definition Get :: "('db, 'txn) badger \<Rightarrow> time \<Rightarrow> 'db Storage \<Rightarrow> gostring \<Rightarrow> kv_err + bytes" where
  "Get B now s key =
     (if closed s then Inl ErrClosed
      else if key = [] then Inl ErrInvalidKey
      else View B (kvdb s) (\<lambda>txn.
        case txnGet B txn now key of
          Inl BadgerErrKeyNotFound \<Rightarrow> Inl ErrKeyNotFound
        | Inl e \<Rightarrow> Inl (KVBadger e)
        | Inr value \<Rightarrow> Inr value))"

text \<open>The counter a value denotes: 8 bytes are a big-endian integer, anything else counts as 0.\<close>

definition counterOf :: "bytes \<Rightarrow> int64" where
  "counterOf val = (if length val = 8 then rd64 val else 0)"

definition currentValue :: "badger_err + bytes \<Rightarrow> kv_err + int64" where
  "currentValue r =
     (case r of
        Inr val \<Rightarrow> Inr (counterOf val)
      | Inl BadgerErrKeyNotFound \<Rightarrow> Inr 0
      | Inl e \<Rightarrow> Inl (KVBadger e))"

definition incrBody :: "('db, 'txn) badger \<Rightarrow> time \<Rightarrow> gostring \<Rightarrow> 'txn \<Rightarrow> kv_err + ('txn \<times> int64)" where
  "incrBody B now key txn =
     (case currentValue (txnGet B txn now key) of
        Inl e \<Rightarrow> Inl e
      | Inr cur \<Rightarrow> (let newValue = cur + 1 in
          case txnSetEntry B txn now key (be64 newValue) 0 of
            Inl e \<Rightarrow> Inl (KVBadger e)
          | Inr txn \<Rightarrow> Inr (txn, newValue)))"

definition Incr ::
  "('db, 'txn) badger \<Rightarrow> time \<Rightarrow> 'db Storage \<Rightarrow> gostring \<Rightarrow> 'db Storage \<times> (kv_err + int64)" where
  "Incr B now s key =
     (if closed s then (s, Inl ErrClosed)
      else if key = [] then (s, Inl ErrInvalidKey)
      else kvUpdate B s (incrBody B now key))"

definition decrBody :: "('db, 'txn) badger \<Rightarrow> time \<Rightarrow> gostring \<Rightarrow> 'txn \<Rightarrow> kv_err + ('txn \<times> int64)" where
  "decrBody B now key txn =
     (case currentValue (txnGet B txn now key) of
        Inl e \<Rightarrow> Inl e
      | Inr cur \<Rightarrow> (let newValue = cur - 1 in
          case txnSetEntry B txn now key (be64 newValue) 0 of
            Inl e \<Rightarrow> Inl (KVBadger e)
          | Inr txn \<Rightarrow> Inr (txn, newValue)))"

definition Decr ::
  "('db, 'txn) badger \<Rightarrow> time \<Rightarrow> 'db Storage \<Rightarrow> gostring \<Rightarrow> 'db Storage \<times> (kv_err + int64)" where
  "Decr B now s key =
     (if closed s then (s, Inl ErrClosed)
      else if key = [] then (s, Inl ErrInvalidKey)
      else kvUpdate B s (decrBody B now key))"

definition Delete ::
  "('db, 'txn) badger \<Rightarrow> 'db Storage \<Rightarrow> gostring \<Rightarrow> 'db Storage \<times> (kv_err + unit)" where
  "Delete B s key =
     (if closed s then (s, Inl ErrClosed)
      else if key = [] then (s, Inl ErrInvalidKey)
      else kvUpdate B s (\<lambda>txn.
        case txnDelete B txn key of
          Inl e \<Rightarrow> Inl (KVBadger e)
        | Inr txn \<Rightarrow> Inr (txn, ())))"

definition Exists :: "('db, 'txn) badger \<Rightarrow> time \<Rightarrow> 'db Storage \<Rightarrow> gostring \<Rightarrow> kv_err + bool" where
  "Exists B now s key =
     (if closed s then Inl ErrClosed
      else if key = [] then Inl ErrInvalidKey
      else case View B (kvdb s) (\<lambda>txn. txnGet B txn now key) of
          Inl BadgerErrKeyNotFound \<Rightarrow> Inr False
        | Inl e \<Rightarrow> Inl (KVBadger e)
        | Inr _ \<Rightarrow> Inr True)"

text \<open>The loops of the three scans, over the items the iterator yields; \<open>count\<close> items have been
  taken.  A limit that is not positive means no limit.\<close>

fun scanLoop ::
  "int \<Rightarrow> int \<Rightarrow> bytes list \<Rightarrow> (bytes \<times> (badger_err + bytes)) list \<Rightarrow> badger_err + bytes list" where
  "scanLoop limit count acc [] = Inr acc"
| "scanLoop limit count acc ((k, r) # items) =
     (if limit \<le> 0 \<or> count < limit
      then case r of Inl e \<Rightarrow> Inl e | Inr val \<Rightarrow> scanLoop limit (count + 1) (acc @ [val]) items
      else Inr acc)"

fun scanKeysLoop :: "int \<Rightarrow> int \<Rightarrow> gostring list \<Rightarrow> (bytes \<times> (badger_err + bytes)) list \<Rightarrow> gostring list" where
  "scanKeysLoop limit count acc [] = acc"
| "scanKeysLoop limit count acc ((k, r) # items) =
     (if limit \<le> 0 \<or> count < limit then scanKeysLoop limit (count + 1) (acc @ [k]) items else acc)"

fun scanPairsLoop ::
  "int \<Rightarrow> int \<Rightarrow> (gostring \<rightharpoonup> bytes) \<Rightarrow> (bytes \<times> (badger_err + bytes)) list \<Rightarrow> badger_err + (gostring \<rightharpoonup> bytes)"
where
  "scanPairsLoop limit count m [] = Inr m"
| "scanPairsLoop limit count m ((k, r) # items) =
     (if limit \<le> 0 \<or> count < limit
      then case r of Inl e \<Rightarrow> Inl e | Inr val \<Rightarrow> scanPairsLoop limit (count + 1) (m(k \<mapsto> val)) items
      else Inr m)"

definition Scan :: "('db, 'txn) badger \<Rightarrow> time \<Rightarrow> 'db Storage \<Rightarrow> gostring \<Rightarrow> int \<Rightarrow> kv_err + bytes list" where
  "Scan B now s pre limit =
     (if closed s then Inl ErrClosed
      else View B (kvdb s) (\<lambda>txn. liftB (scanLoop limit 0 [] (txnIterate B txn now pre))))"

definition ScanKeys :: "('db, 'txn) badger \<Rightarrow> time \<Rightarrow> 'db Storage \<Rightarrow> gostring \<Rightarrow> int \<Rightarrow> kv_err + gostring list" where
  "ScanKeys B now s pre limit =
     (if closed s then Inl ErrClosed
      else View B (kvdb s) (\<lambda>txn. Inr (scanKeysLoop limit 0 [] (txnIterate B txn now pre))))"

definition ScanKeysWithValues ::
  "('db, 'txn) badger \<Rightarrow> time \<Rightarrow> 'db Storage \<Rightarrow> gostring \<Rightarrow> int \<Rightarrow> kv_err + (gostring \<rightharpoonup> bytes)" where
  "ScanKeysWithValues B now s pre limit =
     (if closed s then Inl ErrClosed
      else View B (kvdb s) (\<lambda>txn. liftB (scanPairsLoop limit 0 Map.empty (txnIterate B txn now pre))))"

text \<open>The batches.\<close>

fun batchPut ::
  "('db, 'txn) badger \<Rightarrow> time \<Rightarrow> duration \<Rightarrow> (gostring \<times> bytes) list \<Rightarrow> 'txn \<Rightarrow> badger_err + 'txn" where
  "batchPut B now ttl [] wb = Inr wb"
| "batchPut B now ttl ((key, value) # kvs) wb =
     (case wbSetEntry B wb now key value ttl of Inl e \<Rightarrow> Inl e | Inr wb \<Rightarrow> batchPut B now ttl kvs wb)"

fun batchDel :: "('db, 'txn) badger \<Rightarrow> gostring list \<Rightarrow> 'txn \<Rightarrow> badger_err + 'txn" where
  "batchDel B [] wb = Inr wb"
| "batchDel B (key # keys) wb =
     (case wbDelete B wb key of Inl e \<Rightarrow> Inl e | Inr wb \<Rightarrow> batchDel B keys wb)"

definition flushBatch ::
  "('db, 'txn) badger \<Rightarrow> 'db Storage \<Rightarrow> badger_err + 'txn \<Rightarrow> 'db Storage \<times> (kv_err + unit)" where
  "flushBatch B s r =
     (case r of
        Inl e \<Rightarrow> (s, Inl (KVBadger e))
      | Inr wb \<Rightarrow>
          (case wbFlush B (kvdb s) wb of
             (d, None) \<Rightarrow> (s\<lparr>kvdb := d\<rparr>, Inr ())
           | (d, Some e) \<Rightarrow> (s\<lparr>kvdb := d\<rparr>, Inl (KVBadger e))))"

definition BatchSet ::
  "('db, 'txn) badger \<Rightarrow> time \<Rightarrow> 'db Storage \<Rightarrow> (gostring \<times> bytes) list \<Rightarrow> duration \<Rightarrow> 'db Storage \<times> (kv_err + unit)"
where
  "BatchSet B now s kvPairs ttl =
     (if closed s then (s, Inl ErrClosed)
      else if kvPairs = [] then (s, Inr ())
      else if \<exists>p \<in> set kvPairs. fst p = [] then (s, Inl ErrInvalidKey)
      else flushBatch B s
        (batchPut B now (if ttl > 0 then ttl else 0) kvPairs (NewWriteBatch B (kvdb s))))"

definition BatchSetNoTTL ::
  "('db, 'txn) badger \<Rightarrow> time \<Rightarrow> 'db Storage \<Rightarrow> (gostring \<times> bytes) list \<Rightarrow> 'db Storage \<times> (kv_err + unit)" where
  "BatchSetNoTTL B now s kvPairs =
     (if closed s then (s, Inl ErrClosed)
      else if kvPairs = [] then (s, Inr ())
      else if \<exists>p \<in> set kvPairs. fst p = [] then (s, Inl ErrInvalidKey)
      else flushBatch B s (batchPut B now 0 kvPairs (NewWriteBatch B (kvdb s))))"

text \<open>The reads of one transaction: missing keys are skipped, other errors end the batch.\<close>

fun batchGetLoop ::
  "('db, 'txn) badger \<Rightarrow> time \<Rightarrow> 'txn \<Rightarrow> gostring list \<Rightarrow> (gostring \<rightharpoonup> bytes) \<Rightarrow> badger_err + (gostring \<rightharpoonup> bytes)"
where
  "batchGetLoop B now txn [] result = Inr result"
| "batchGetLoop B now txn (key # keys) result =
     (case txnGet B txn now key of
        Inl BadgerErrKeyNotFound \<Rightarrow> batchGetLoop B now txn keys result
      | Inl e \<Rightarrow> Inl e
      | Inr value \<Rightarrow> batchGetLoop B now txn keys (result(key \<mapsto> value)))"

text \<open>Large batches are read in chunks of 100 keys, a transaction each.\<close>

function batchGetChunks ::
  "('db, 'txn) badger \<Rightarrow> time \<Rightarrow> 'db \<Rightarrow> gostring list \<Rightarrow> nat \<Rightarrow> (gostring \<rightharpoonup> bytes) \<Rightarrow>
   badger_err + (gostring \<rightharpoonup> bytes)"
where
  "batchGetChunks B now d keys i result =
     (if i < length keys then
        let end = (if i + 100 > length keys then length keys else i + 100) in
        case View B d (\<lambda>txn. batchGetLoop B now txn (take (end - i) (drop i keys)) result) of
          Inl e \<Rightarrow> Inl e
        | Inr result \<Rightarrow> batchGetChunks B now d keys (i + 100) result
      else Inr result)"
  by pat_completeness auto
termination
  by (relation "measure (\<lambda>(B, now, d, keys, i, result). length keys - i)") auto

definition BatchGet ::
  "('db, 'txn) badger \<Rightarrow> time \<Rightarrow> 'db Storage \<Rightarrow> gostring list \<Rightarrow> kv_err + (gostring \<rightharpoonup> bytes)" where
  "BatchGet B now s keys =
     (if closed s then Inl ErrClosed
      else if keys = [] then Inr Map.empty
      else if \<exists>key \<in> set keys. key = [] then Inl ErrInvalidKey
      else if length keys \<le> 100
      then View B (kvdb s) (\<lambda>txn. liftB (batchGetLoop B now txn keys Map.empty))
      else liftB (batchGetChunks B now (kvdb s) keys 0 Map.empty))"

definition BatchDelete ::
  "('db, 'txn) badger \<Rightarrow> 'db Storage \<Rightarrow> gostring list \<Rightarrow> 'db Storage \<times> (kv_err + unit)" where
  "BatchDelete B s keys =
     (if closed s then (s, Inl ErrClosed)
      else if keys = [] then (s, Inr ())
      else if \<exists>key \<in> set keys. key = [] then (s, Inl ErrInvalidKey)
      else flushBatch B s (batchDel B keys (NewWriteBatch B (kvdb s))))"

definition Sync :: "('db, 'txn) badger \<Rightarrow> 'db Storage \<Rightarrow> 'db Storage \<times> (kv_err + unit)" where
  "Sync B s =
     (if closed s then (s, Inl ErrClosed)
      else case dbSync B (kvdb s) of
          (d, None) \<Rightarrow> (s\<lparr>kvdb := d\<rparr>, Inr ())
        | (d, Some e) \<Rightarrow> (s\<lparr>kvdb := d\<rparr>, Inl (KVBadger e)))"

definition RunGC :: "('db, 'txn) badger \<Rightarrow> 'db Storage \<Rightarrow> 'db Storage \<times> (kv_err + unit)" where
  "RunGC B s =
     (if closed s then (s, Inl ErrClosed)
      else case dbRunValueLogGC B (kvdb s) of
          (d, None) \<Rightarrow> (s\<lparr>kvdb := d\<rparr>, Inr ())
        | (d, Some e) \<Rightarrow> (s\<lparr>kvdb := d\<rparr>, Inl (KVBadger e)))"

declare batchGetChunks.simps [simp del]

section \<open>Reads\<close>

definition kvRead :: "badger_err + bytes \<Rightarrow> kv_err + bytes" where
  "kvRead r =
     (case r of
        Inl BadgerErrKeyNotFound \<Rightarrow> Inl ErrKeyNotFound
      | Inl e \<Rightarrow> Inl (KVBadger e)
      | Inr value \<Rightarrow> Inr value)"

lemma kvRead_simps [simp]:
  "kvRead (Inl BadgerErrKeyNotFound) = Inl ErrKeyNotFound" "kvRead (Inr v) = Inr v"
  by (simp_all add: kvRead_def)

lemma Get_open: "\<not> closed s \<Longrightarrow> key \<noteq> [] \<Longrightarrow> Get B now s key = kvRead (dbGet B (kvdb s) now key)"
  by (simp add: Get_def View_def dbGet_def kvRead_def)

lemma Get_cong: "closed s' = closed s \<Longrightarrow> dbGet B (kvdb s') now key = dbGet B (kvdb s) now key \<Longrightarrow>
    Get B now s' key = Get B now s key"
  by (auto simp: Get_def View_def dbGet_def)

text \<open>The scans: a prefix of the iteration.\<close>

definition limited :: "int \<Rightarrow> 'a list \<Rightarrow> 'a list" where
  "limited limit xs = (if limit \<le> 0 then xs else take (nat limit) xs)"

lemma scanKeysLoop_eq:
  "0 \<le> count \<Longrightarrow> scanKeysLoop limit count acc items =
     acc @ map fst (if limit \<le> 0 then items else take (nat (limit - count)) items)"
proof (induction limit count acc items rule: scanKeysLoop.induct)
  case (2 limit count acc k r items)
  have "nat (limit - count) = Suc (nat (limit - (count + 1)))" if "count < limit"
    using that by simp
  with 2 show ?case by auto
qed simp

lemma scanLoop_eq:
  "0 \<le> count \<Longrightarrow> \<forall>(k, r) \<in> set items. \<exists>v. r = Inr v \<Longrightarrow>
   scanLoop limit count acc items =
     Inr (acc @ map (projr \<circ> snd) (if limit \<le> 0 then items else take (nat (limit - count)) items))"
proof (induction limit count acc items rule: scanLoop.induct)
  case (2 limit count acc k r items)
  have "nat (limit - count) = Suc (nat (limit - (count + 1)))" if "count < limit"
    using that by simp
  with 2 show ?case by (auto split: sum.splits)
qed simp

lemma scanPairsLoop_eq:
  "0 \<le> count \<Longrightarrow> \<forall>(k, r) \<in> set items. \<exists>v. r = Inr v \<Longrightarrow> distinct (map fst items) \<Longrightarrow>
   scanPairsLoop limit count m items =
     Inr (m ++ map_of (map (\<lambda>(k, r). (k, projr r))
       (if limit \<le> 0 then items else take (nat (limit - count)) items)))"
proof (induction limit count m items rule: scanPairsLoop.induct)
  case (2 limit count m k r items)
  define rest where "rest = (\<lambda>n. map (\<lambda>(k, r). (k, projr r)) (if limit \<le> 0 then items else take n items))"
  obtain v where r: "r = Inr v" using 2(3) by auto
  have "k \<notin> dom (map_of (rest n))" for n
    using 2(4) by (auto simp: rest_def dom_map_of_conv_image_fst image_image case_prod_unfold dest!: in_set_takeD)
  then have put: "(m(k \<mapsto> v)) ++ map_of (rest n) = (m ++ map_of (rest n))(k \<mapsto> v)" for n
    by (rule map_add_upd_left)
  show ?case
  proof (cases "limit \<le> 0 \<or> count < limit")
    case True
    have "scanPairsLoop limit (count + 1) (m(k \<mapsto> v)) items =
        Inr ((m(k \<mapsto> v)) ++ map_of (rest (nat (limit - (count + 1)))))"
      unfolding rest_def using 2(2-4) by (intro 2(1) [OF True r]) auto
    moreover have "nat (limit - count) = Suc (nat (limit - (count + 1)))" if "count < limit"
      using that by simp
    ultimately show ?thesis
      using True put [of "nat (limit - (count + 1))"] by (auto simp: r rest_def)
  qed auto
qed simp

text \<open>Reading a batch: a fold over the keys, and the chunks make no difference.\<close>

definition readable :: "('db, 'txn) badger \<Rightarrow> time \<Rightarrow> 'db \<Rightarrow> gostring list \<Rightarrow> bool" where
  "readable B now d keys \<longleftrightarrow> (\<forall>k\<in>set keys. \<forall>m. dbGet B d now k \<noteq> Inl (BadgerErr m))"

definition present :: "('db, 'txn) badger \<Rightarrow> time \<Rightarrow> 'db \<Rightarrow> gostring list \<Rightarrow> gostring \<rightharpoonup> bytes" where
  "present B now d keys k =
     (if k \<in> set keys then case dbGet B d now k of Inr v \<Rightarrow> Some v | Inl _ \<Rightarrow> None else None)"

lemma present_append: "present B now d (xs @ ys) = present B now d xs ++ present B now d ys"
  by (auto simp: present_def map_add_def fun_eq_iff split: option.splits sum.splits)

lemma batchGetLoop_eq:
  "readable B now d keys \<Longrightarrow> batchGetLoop B now (NewTransaction B d) keys m = Inr (m ++ present B now d keys)"
proof (induction keys arbitrary: m)
  case Nil
  show ?case by (simp add: present_def fun_eq_iff map_add_def)
next
  case (Cons k ks)
  have step: "present B now d (k # ks) = present B now d [k] ++ present B now d ks"
    using present_append [of B now d "[k]" ks] by simp
  from Cons.prems have IH: "batchGetLoop B now (NewTransaction B d) ks m' = Inr (m' ++ present B now d ks)" for m'
    by (intro Cons.IH) (simp add: readable_def)
  show ?case
  proof (cases "dbGet B d now k")
    case (Inl e)
    with Cons.prems have "e = BadgerErrKeyNotFound" by (cases e) (auto simp: readable_def)
    moreover have "m ++ present B now d [k] = m"
      using Inl by (auto simp: present_def map_add_def fun_eq_iff)
    ultimately show ?thesis
      using Inl IH by (simp add: step dbGet_def [symmetric] map_add_assoc)
  next
    case (Inr v)
    then have "present B now d [k] = [k \<mapsto> v]"
      by (auto simp: present_def fun_eq_iff)
    then show ?thesis
      using Inr IH by (simp add: step dbGet_def [symmetric] map_add_assoc)
  qed
qed

lemma readable_sub: "readable B now d keys \<Longrightarrow> set xs \<subseteq> set keys \<Longrightarrow> readable B now d xs"
  by (auto simp: readable_def)

lemma batchGetChunks_eq:
  "readable B now d keys \<Longrightarrow>
   batchGetChunks B now d keys i m = Inr (m ++ present B now d (drop i keys))"
proof (induction B now d keys i m rule: batchGetChunks.induct)
  case (1 B now d keys i m)
  show ?case
  proof (cases "i < length keys")
    case False
    then show ?thesis by (subst batchGetChunks.simps) (simp add: present_def fun_eq_iff map_add_def)
  next
    case True
    define chunk where "chunk = take ((if i + 100 > length keys then length keys else i + 100) - i) (drop i keys)"
    have split: "drop i keys = chunk @ drop (i + 100) keys"
      by (auto simp: chunk_def add.commute [of i] drop_drop [symmetric] simp del: drop_drop)
    have "set chunk \<subseteq> set keys"
      using set_take_subset set_drop_subset by (fastforce simp: chunk_def)
    then have read: "View B d (\<lambda>txn. batchGetLoop B now txn chunk m) = Inr (m ++ present B now d chunk)"
      using "1.prems" by (simp add: View_def batchGetLoop_eq readable_sub)
    have "batchGetChunks B now d keys i m =
        (case View B d (\<lambda>txn. batchGetLoop B now txn chunk m) of
           Inl e \<Rightarrow> Inl e | Inr r \<Rightarrow> batchGetChunks B now d keys (i + 100) r)"
      using True by (subst batchGetChunks.simps) (simp add: chunk_def Let_def)
    also have "\<dots> = Inr (m ++ present B now d chunk ++ present B now d (drop (i + 100) keys))"
      using "1.IH" [OF True refl read [unfolded chunk_def] "1.prems"]
      by (simp only: read sum.case chunk_def [symmetric])
    finally show ?thesis by (simp add: split present_append map_add_assoc)
  qed
qed

end
