(* ===== verification/KVStore.thy ===== *)
theory KVStore
  imports KV
begin

text \<open>
  The interface \<open>StorageBackend\<close> of \<open>src/internal/kv/kv.go\<close> as a locale, the API \<open>KVStore\<close>
  over it, and the properties of the key-value store.  The laws of the locale are discharged for the
  Badger-backed storage of \<^typ>\<open>'db Storage\<close> over every Badger that meets \<open>badger_store\<close> (a
  \<open>sublocale\<close>), and with it for the executable one.
\<close>

section \<open>What each operation installs\<close>

context badger_store
begin

lemma kvUpdate_success:
  assumes "kvUpdate B s fn = (s', Inr a)"
    and "\<And>t. fn (NewTransaction B (kvdb s)) = Inr (t, a) \<Longrightarrow> txn_of B (kvdb s) ops t"
  shows "closed s' = closed s \<and> installs B ops (kvdb s) (kvdb s')"
  using assms Update_success [of KVBadger "kvdb s" fn "kvdb s'" a ops]
  by (auto simp: kvUpdate_def split: prod.splits)

lemma kvUpdate_error: "kvUpdate B s fn = (s', Inl e) \<Longrightarrow> s' = s"
  by (auto simp: kvUpdate_def split: prod.splits dest: Update_error)

lemma Set_success:
  assumes "Set B now s key val ttl = (s', Inr ())"
  shows "\<not> closed s \<and> key \<noteq> [] \<and> closed s' = closed s \<and>
    installs B [key \<mapsto> Put now val (if ttl > 0 then ttl else 0)] (kvdb s) (kvdb s')"
proof -
  have ok: "\<not> closed s" "key \<noteq> []" using assms by (auto simp: Set_def split: if_splits)
  have "closed s' = closed s \<and>
      installs B [key \<mapsto> Put now val (if ttl > 0 then ttl else 0)] (kvdb s) (kvdb s')"
    by (rule kvUpdate_success [OF assms [unfolded Set_def if_not_P [OF ok(1)] if_not_P [OF ok(2)]]])
      (rule txn_set [OF txn_begin], simp split: sum.splits if_splits)
  with ok show ?thesis by blast
qed

lemma Delete_success:
  assumes "Delete B s key = (s', Inr ())"
  shows "\<not> closed s \<and> key \<noteq> [] \<and> closed s' = closed s \<and> installs B [key \<mapsto> Del] (kvdb s) (kvdb s')"
proof -
  have ok: "\<not> closed s" "key \<noteq> []" using assms by (auto simp: Delete_def split: if_splits)
  have "closed s' = closed s \<and> installs B [key \<mapsto> Del] (kvdb s) (kvdb s')"
    by (rule kvUpdate_success [OF assms [unfolded Delete_def if_not_P [OF ok(1)] if_not_P [OF ok(2)]]])
      (rule txn_del [OF txn_begin], simp split: sum.splits)
  with ok show ?thesis by blast
qed

lemma incrBody_txn:
  "incrBody B now key t = Inr (t', n) \<Longrightarrow> txn_of B d ops t \<Longrightarrow> txn_of B d (ops(key \<mapsto> Put now (be64 n) 0)) t'"
  by (auto simp: incrBody_def Let_def split: sum.splits intro: txn_set)

lemma decrBody_txn:
  "decrBody B now key t = Inr (t', n) \<Longrightarrow> txn_of B d ops t \<Longrightarrow> txn_of B d (ops(key \<mapsto> Put now (be64 n) 0)) t'"
  by (auto simp: decrBody_def Let_def split: sum.splits intro: txn_set)

lemma kvUpdate_ran: "kvUpdate B s fn = (s', Inr a) \<Longrightarrow> \<exists>t. fn (NewTransaction B (kvdb s)) = Inr (t, a)"
  by (auto simp: kvUpdate_def Update_def split: sum.splits prod.splits)

lemma Incr_success:
  assumes "Incr B now s key = (s', Inr n)"
  shows "\<not> closed s \<and> key \<noteq> [] \<and> closed s' = closed s \<and>
    currentValue (dbGet B (kvdb s) now key) = Inr (n - 1) \<and>
    installs B [key \<mapsto> Put now (be64 n) 0] (kvdb s) (kvdb s')"
proof -
  have ok: "\<not> closed s" "key \<noteq> []" using assms by (auto simp: Incr_def split: if_splits)
  note upd = assms [unfolded Incr_def if_not_P [OF ok(1)] if_not_P [OF ok(2)]]
  have "closed s' = closed s \<and> installs B [key \<mapsto> Put now (be64 n) 0] (kvdb s) (kvdb s')"
    by (rule kvUpdate_success [OF upd]) (rule incrBody_txn [OF _ txn_begin])
  moreover have "currentValue (dbGet B (kvdb s) now key) = Inr (n - 1)"
    using kvUpdate_ran [OF upd] by (auto simp: incrBody_def dbGet_def Let_def split: sum.splits)
  ultimately show ?thesis using ok by blast
qed

lemma Decr_success:
  assumes "Decr B now s key = (s', Inr n)"
  shows "\<not> closed s \<and> key \<noteq> [] \<and> closed s' = closed s \<and>
    currentValue (dbGet B (kvdb s) now key) = Inr (n + 1) \<and>
    installs B [key \<mapsto> Put now (be64 n) 0] (kvdb s) (kvdb s')"
proof -
  have ok: "\<not> closed s" "key \<noteq> []" using assms by (auto simp: Decr_def split: if_splits)
  note upd = assms [unfolded Decr_def if_not_P [OF ok(1)] if_not_P [OF ok(2)]]
  have "closed s' = closed s \<and> installs B [key \<mapsto> Put now (be64 n) 0] (kvdb s) (kvdb s')"
    by (rule kvUpdate_success [OF upd]) (rule decrBody_txn [OF _ txn_begin])
  moreover have "currentValue (dbGet B (kvdb s) now key) = Inr (n + 1)"
    using kvUpdate_ran [OF upd] by (auto simp: decrBody_def dbGet_def Let_def split: sum.splits)
  ultimately show ?thesis using ok by blast
qed

text \<open>An error of a single-key operation leaves the storage as it was.\<close>

lemma single_key_errors:
  "Set B now s key val ttl = (s', Inl e) \<Longrightarrow> s' = s"
  "Delete B s key = (s', Inl e) \<Longrightarrow> s' = s"
  "Incr B now s key = (s', Inl e) \<Longrightarrow> s' = s"
  "Decr B now s key = (s', Inl e) \<Longrightarrow> s' = s"
  by (auto simp: Set_def Delete_def Incr_def Decr_def split: if_splits dest: kvUpdate_error)

text \<open>Batches.\<close>

lemma batchPut_batch:
  "batchPut B now ttl kvs wb = Inr wb' \<Longrightarrow> batch_of B d ops wb \<Longrightarrow>
   batch_of B d (fold (\<lambda>(k, v) m. m(k \<mapsto> Put now v ttl)) kvs ops) wb'"
  by (induction B now ttl kvs wb arbitrary: ops rule: batchPut.induct)
    (auto split: sum.splits dest: batch_set)

lemma batchDel_batch:
  "batchDel B keys wb = Inr wb' \<Longrightarrow> batch_of B d ops wb \<Longrightarrow>
   batch_of B d (fold (\<lambda>k m. m(k \<mapsto> Del)) keys ops) wb'"
  by (induction B keys wb arbitrary: ops rule: batchDel.induct)
    (auto split: sum.splits dest: batch_del)

lemma flushBatch_success:
  assumes "flushBatch B s r = (s', Inr ())" and "\<And>wb. r = Inr wb \<Longrightarrow> batch_of B (kvdb s) ops wb"
  shows "closed s' = closed s \<and> installs B ops (kvdb s) (kvdb s')"
  using assms by (auto simp: flushBatch_def split: sum.splits prod.splits option.splits dest: flush_installs)

end

lemma fold_put_distinct:
  "distinct (map fst kvs) \<Longrightarrow> fold (\<lambda>(k, v) m. m(k \<mapsto> f v)) kvs ops k =
     (case map_of kvs k of Some v \<Rightarrow> Some (f v) | None \<Rightarrow> ops k)"
proof (induction kvs arbitrary: ops)
  case (Cons p kvs)
  then have "map_of kvs (fst p) = None" by (simp add: map_of_eq_None_iff)
  with Cons show ?case by (cases p) auto
qed simp

lemma fold_del: "fold (\<lambda>k m. m(k \<mapsto> Del)) keys ops k = (if k \<in> set keys then Some Del else ops k)"
  by (induction keys arbitrary: ops) auto

section \<open>The interface between store and storage\<close>

text \<open>\<open>StorageBackend\<close>: the single-key operations the servers use, with what they promise.  The counter
  of a key is what its value denotes, 0 if it has none.\<close>

definition counter :: "kv_err + bytes \<Rightarrow> int64" where
  "counter r = (case r of Inr val \<Rightarrow> counterOf val | Inl _ \<Rightarrow> 0)"

lemma counter_be64 [simp]: "counter (Inr (be64 n)) = n"
  by (simp add: counter_def counterOf_def)

locale StorageBackend =
  fixes set :: "time \<Rightarrow> 's \<Rightarrow> gostring \<Rightarrow> bytes \<Rightarrow> duration \<Rightarrow> 's \<times> (kv_err + unit)"
    and get :: "time \<Rightarrow> 's \<Rightarrow> gostring \<Rightarrow> kv_err + bytes"
    and delete :: "'s \<Rightarrow> gostring \<Rightarrow> 's \<times> (kv_err + unit)"
    and exist :: "time \<Rightarrow> 's \<Rightarrow> gostring \<Rightarrow> kv_err + bool"
    and incr :: "time \<Rightarrow> 's \<Rightarrow> gostring \<Rightarrow> 's \<times> (kv_err + int64)"
    and decr :: "time \<Rightarrow> 's \<Rightarrow> gostring \<Rightarrow> 's \<times> (kv_err + int64)"
  assumes get_set: "set now s k v ttl = (s', Inr ()) \<Longrightarrow> ttl \<le> 0 \<Longrightarrow> get u s' k = Inr v"
    and get_set_live: "set now s k v ttl = (s', Inr ()) \<Longrightarrow> 0 < ttl \<Longrightarrow> now \<le> u \<Longrightarrow>
      u + second \<le> now + ttl \<Longrightarrow> get u s' k = Inr v"
    and get_set_expired: "set now s k v ttl = (s', Inr ()) \<Longrightarrow> 0 < ttl \<Longrightarrow> now + ttl \<le> u \<Longrightarrow>
      get u s' k = Inl ErrKeyNotFound"
    and get_set_other: "set now s k v ttl = (s', Inr ()) \<Longrightarrow> j \<noteq> k \<Longrightarrow> get u s' j = get u s j"
    and get_delete: "delete s k = (s', Inr ()) \<Longrightarrow> get u s' k = Inl ErrKeyNotFound"
    and get_delete_other: "delete s k = (s', Inr ()) \<Longrightarrow> j \<noteq> k \<Longrightarrow> get u s' j = get u s j"
    and exist_get: "exist u s k =
      (case get u s k of Inr _ \<Rightarrow> Inr True | Inl e \<Rightarrow> if e = ErrKeyNotFound then Inr False else Inl e)"
    and incr_get: "incr now s k = (s', Inr n) \<Longrightarrow> n = counter (get now s k) + 1 \<and> get u s' k = Inr (be64 n)"
    and decr_get: "decr now s k = (s', Inr n) \<Longrightarrow> n = counter (get now s k) - 1 \<and> get u s' k = Inr (be64 n)"
    and incr_other: "incr now s k = (s', Inr n) \<Longrightarrow> j \<noteq> k \<Longrightarrow> get u s' j = get u s j"
    and decr_other: "decr now s k = (s', Inr n) \<Longrightarrow> j \<noteq> k \<Longrightarrow> get u s' j = get u s j"
begin

text \<open>What a client can conclude from the interface alone.\<close>

lemma last_set_wins:
  "set now s k v ttl = (s1, Inr ()) \<Longrightarrow> set now' s1 k w 0 = (s2, Inr ()) \<Longrightarrow> get u s2 k = Inr w"
  by (rule get_set [where ttl = 0, OF _ order_refl])

lemma delete_then_exist: "delete s k = (s', Inr ()) \<Longrightarrow> exist u s' k = Inr False"
  by (simp add: exist_get get_delete)

lemma incr_then_decr:
  assumes "incr now s k = (s1, Inr m)" and "decr now' s1 k = (s2, Inr n)"
  shows "n = counter (get now s k) \<and> counter (get u s2 k) = counter (get now s k)"
  using incr_get [OF assms(1)] decr_get [OF assms(2)] by simp

lemma incr_runs:
  assumes "incr now s k = (s1, Inr m)" and "incr now' s1 k = (s2, Inr n)"
  shows "n = m + 1 \<and> get u s2 k = Inr (be64 (counter (get now s k) + 2))"
  using incr_get [OF assms(1)] incr_get [OF assms(2)] by (simp add: add.assoc)

end

lemma currentValue_counter:
  "\<not> closed s \<Longrightarrow> key \<noteq> [] \<Longrightarrow> currentValue (dbGet B (kvdb s) now key) = Inr c \<Longrightarrow>
   c = counter (Get B now s key)"
  by (auto simp: currentValue_def counter_def Get_open kvRead_def split: sum.splits badger_err.splits)

lemma Exists_Get:
  "Exists B u s k = (case Get B u s k of Inr _ \<Rightarrow> Inr True
     | Inl e \<Rightarrow> if e = ErrKeyNotFound then Inr False else Inl e)"
  by (auto simp: Exists_def Get_def View_def split: sum.splits badger_err.splits)

sublocale badger_store \<subseteq> kv: StorageBackend "Set B" "Get B" "Delete B" "Exists B" "Incr B" "Decr B"
proof unfold_locales
  fix now u ttl :: int and s s' :: "'db Storage" and k j v
  assume "Set B now s k v ttl = (s', Inr ())"
  note S = Set_success [OF this]
  then have ins: "installs B [k \<mapsto> Put now v (if ttl > 0 then ttl else 0)] (kvdb s) (kvdb s')" by blast
  show "Get B u s' k = Inr v" if "ttl \<le> 0"
    using installs_put [OF ins] S that by (simp add: Get_open)
  show "Get B u s' k = Inr v" if "0 < ttl" "now \<le> u" "u + second \<le> now + ttl"
    using installs_ttl_live [OF ins] S that by (simp add: Get_open)
  show "Get B u s' k = Inl ErrKeyNotFound" if "0 < ttl" "now + ttl \<le> u"
    using installs_ttl_expired [OF ins] S that by (simp add: Get_open)
  show "Get B u s' j = Get B u s j" if "j \<noteq> k"
    using installs_clean [OF ins] S that by (intro Get_cong) simp_all
next
  fix u :: int and s s' :: "'db Storage" and k j
  assume "Delete B s k = (s', Inr ())"
  note S = Delete_success [OF this]
  then show "Get B u s' k = Inl ErrKeyNotFound"
    using installs_del [of "[k \<mapsto> Del]" "kvdb s" "kvdb s'" k] by (simp add: Get_open)
  show "Get B u s' j = Get B u s j" if "j \<noteq> k"
    using installs_clean [of "[k \<mapsto> Del]" "kvdb s" "kvdb s'" j] S that by (intro Get_cong) simp_all
next
  fix now u :: int and s s' :: "'db Storage" and k j n
  assume "Incr B now s k = (s', Inr n)"
  note S = Incr_success [OF this]
  then have "n - 1 = counter (Get B now s k)" by (intro currentValue_counter) auto
  moreover have "dbGet B (kvdb s') u k = Inr (be64 n)" using S by (auto intro: installs_put)
  ultimately show "n = counter (Get B now s k) + 1 \<and> Get B u s' k = Inr (be64 n)"
    using S by (simp add: Get_open diff_eq_eq)
  show "Get B u s' j = Get B u s j" if "j \<noteq> k"
    using installs_clean [of "[k \<mapsto> Put now (be64 n) 0]" "kvdb s" "kvdb s'" j] S that
    by (intro Get_cong) simp_all
next
  fix now u :: int and s s' :: "'db Storage" and k j n
  assume "Decr B now s k = (s', Inr n)"
  note S = Decr_success [OF this]
  then have "n + 1 = counter (Get B now s k)" by (intro currentValue_counter) auto
  moreover have "dbGet B (kvdb s') u k = Inr (be64 n)" using S by (auto intro: installs_put)
  ultimately show "n = counter (Get B now s k) - 1 \<and> Get B u s' k = Inr (be64 n)"
    using S by (simp add: Get_open eq_diff_eq)
  show "Get B u s' j = Get B u s j" if "j \<noteq> k"
    using installs_clean [of "[k \<mapsto> Put now (be64 n) 0]" "kvdb s" "kvdb s'" j] S that
    by (intro Get_cong) simp_all
qed (rule Exists_Get)

section \<open>The API\<close>

text \<open>\<open>KVStore\<close> holds a backend and hands every call to it.\<close>

record 'db KVStore =
  storage :: "'db Storage"

definition onStorage :: "'db KVStore \<Rightarrow> 'db Storage \<times> 'r \<Rightarrow> 'db KVStore \<times> 'r" where
  "onStorage k sr = (k\<lparr>storage := fst sr\<rparr>, snd sr)"

definition KVStore_New :: "badger_err + 'db \<Rightarrow> badger_err + 'db KVStore" where
  "KVStore_New opened =
     (case NewKVStorage opened of Inl e \<Rightarrow> Inl e | Inr store \<Rightarrow> Inr \<lparr>storage = store\<rparr>)"

definition KVStore_NewWithShards :: "badger_err + 'db \<Rightarrow> int \<Rightarrow> badger_err + 'db KVStore" where
  "KVStore_NewWithShards opened shardCount = KVStore_New opened"

definition KVStore_Close :: "('db, 'txn) badger \<Rightarrow> 'db KVStore \<Rightarrow> 'db KVStore \<times> (kv_err + unit)" where
  "KVStore_Close B k = onStorage k (Close B (storage k))"

definition KVStore_Set ::
  "('db, 'txn) badger \<Rightarrow> time \<Rightarrow> 'db KVStore \<Rightarrow> gostring \<Rightarrow> bytes \<Rightarrow> duration \<Rightarrow> 'db KVStore \<times> (kv_err + unit)"
where
  "KVStore_Set B now k key value ttl = onStorage k (Set B now (storage k) key value ttl)"

definition KVStore_Get :: "('db, 'txn) badger \<Rightarrow> time \<Rightarrow> 'db KVStore \<Rightarrow> gostring \<Rightarrow> kv_err + bytes" where
  "KVStore_Get B now k key = Get B now (storage k) key"

definition KVStore_Incr ::
  "('db, 'txn) badger \<Rightarrow> time \<Rightarrow> 'db KVStore \<Rightarrow> gostring \<Rightarrow> 'db KVStore \<times> (kv_err + int64)" where
  "KVStore_Incr B now k key = onStorage k (Incr B now (storage k) key)"

definition KVStore_Decr ::
  "('db, 'txn) badger \<Rightarrow> time \<Rightarrow> 'db KVStore \<Rightarrow> gostring \<Rightarrow> 'db KVStore \<times> (kv_err + int64)" where
  "KVStore_Decr B now k key = onStorage k (Decr B now (storage k) key)"

definition KVStore_Delete ::
  "('db, 'txn) badger \<Rightarrow> 'db KVStore \<Rightarrow> gostring \<Rightarrow> 'db KVStore \<times> (kv_err + unit)" where
  "KVStore_Delete B k key = onStorage k (Delete B (storage k) key)"

definition KVStore_Exists :: "('db, 'txn) badger \<Rightarrow> time \<Rightarrow> 'db KVStore \<Rightarrow> gostring \<Rightarrow> kv_err + bool" where
  "KVStore_Exists B now k key = Exists B now (storage k) key"

definition KVStore_Scan ::
  "('db, 'txn) badger \<Rightarrow> time \<Rightarrow> 'db KVStore \<Rightarrow> gostring \<Rightarrow> int \<Rightarrow> kv_err + bytes list" where
  "KVStore_Scan B now k pre limit = Scan B now (storage k) pre limit"

definition KVStore_ScanKeys ::
  "('db, 'txn) badger \<Rightarrow> time \<Rightarrow> 'db KVStore \<Rightarrow> gostring \<Rightarrow> int \<Rightarrow> kv_err + gostring list" where
  "KVStore_ScanKeys B now k pre limit = ScanKeys B now (storage k) pre limit"

definition KVStore_ScanKeysWithValues ::
  "('db, 'txn) badger \<Rightarrow> time \<Rightarrow> 'db KVStore \<Rightarrow> gostring \<Rightarrow> int \<Rightarrow> kv_err + (gostring \<rightharpoonup> bytes)" where
  "KVStore_ScanKeysWithValues B now k pre limit = ScanKeysWithValues B now (storage k) pre limit"

definition KVStore_BatchSet ::
  "('db, 'txn) badger \<Rightarrow> time \<Rightarrow> 'db KVStore \<Rightarrow> (gostring \<times> bytes) list \<Rightarrow> duration \<Rightarrow> 'db KVStore \<times> (kv_err + unit)"
where
  "KVStore_BatchSet B now k kvPairs ttl = onStorage k (BatchSet B now (storage k) kvPairs ttl)"

definition KVStore_BatchSetNoTTL ::
  "('db, 'txn) badger \<Rightarrow> time \<Rightarrow> 'db KVStore \<Rightarrow> (gostring \<times> bytes) list \<Rightarrow> 'db KVStore \<times> (kv_err + unit)"
where
  "KVStore_BatchSetNoTTL B now k kvPairs = onStorage k (BatchSetNoTTL B now (storage k) kvPairs)"

definition KVStore_BatchGet ::
  "('db, 'txn) badger \<Rightarrow> time \<Rightarrow> 'db KVStore \<Rightarrow> gostring list \<Rightarrow> kv_err + (gostring \<rightharpoonup> bytes)" where
  "KVStore_BatchGet B now k keys = BatchGet B now (storage k) keys"

definition KVStore_BatchDelete ::
  "('db, 'txn) badger \<Rightarrow> 'db KVStore \<Rightarrow> gostring list \<Rightarrow> 'db KVStore \<times> (kv_err + unit)" where
  "KVStore_BatchDelete B k keys = onStorage k (BatchDelete B (storage k) keys)"

end
