(* ===== verification/KVProps.thy ===== *)
theory KVProps
  imports KVStore
begin

text \<open>
  The properties of the key-value store, over every Badger that meets \<open>badger_store\<close>; each is
  applied once to the executable store.
\<close>

section \<open>The facts the properties rest on\<close>

lemma kvRead_found:
  "r \<noteq> Inl BadgerErrKeyNotFound \<Longrightarrow> (\<And>e. kvRead r \<noteq> Inl (KVBadger e)) \<Longrightarrow> \<exists>v. r = Inr v"
  by (cases r rule: sum.exhaust; (cases "projl r" rule: badger_err.exhaust)?) (auto simp: kvRead_def)

context badger_store
begin

lemma set_reads:
  assumes "Set B now s key val ttl = (s', Inr ())"
  shows "(ttl \<le> 0 \<longrightarrow> Get B u s' key = Inr val) \<and>
    (0 < ttl \<and> now \<le> u \<and> u + second \<le> now + ttl \<longrightarrow> Get B u s' key = Inr val) \<and>
    (0 < ttl \<and> now + ttl \<le> u \<longrightarrow> Get B u s' key = Inl ErrKeyNotFound) \<and>
    (j \<noteq> key \<longrightarrow> Get B u s' j = Get B u s j)"
  using kv.get_set [OF assms] kv.get_set_live [OF assms] kv.get_set_expired [OF assms]
    kv.get_set_other [OF assms]
  by blast

lemma delete_reads:
  assumes "Delete B s key = (s', Inr ())"
  shows "Get B u s' key = Inl ErrKeyNotFound \<and> Exists B u s' key = Inr False \<and>
    (j \<noteq> key \<longrightarrow> Get B u s' j = Get B u s j)"
  using kv.get_delete [OF assms] kv.delete_then_exist [OF assms] kv.get_delete_other [OF assms] by blast

lemma incr_reads:
  assumes "Incr B now s key = (s', Inr n)"
  shows "n = counter (Get B now s key) + 1 \<and> Get B u s' key = Inr (be64 n) \<and>
    (j \<noteq> key \<longrightarrow> Get B u s' j = Get B u s j)"
  using kv.incr_get [OF assms] kv.incr_other [OF assms] by blast

lemmas incr_decr_cancel = kv.incr_then_decr

lemma ScanKeys_eq:
  "\<not> closed s \<Longrightarrow> ScanKeys B now s pre limit =
     Inr (limited limit (map fst (txnIterate B (NewTransaction B (kvdb s)) now pre)))"
  by (simp add: ScanKeys_def View_def scanKeysLoop_eq limited_def take_map)

lemma iterated_keys:
  "\<not> closed s \<Longrightarrow> pre \<noteq> [] \<Longrightarrow>
   set (map fst (txnIterate B (NewTransaction B (kvdb s)) now pre)) =
     {k. prefix pre k \<and> Get B now s k \<noteq> Inl ErrKeyNotFound}"
proof -
  assume *: "\<not> closed s" "pre \<noteq> []"
  have "Get B now s k \<noteq> Inl ErrKeyNotFound \<longleftrightarrow> dbGet B (kvdb s) now k \<noteq> Inl BadgerErrKeyNotFound"
    if "prefix pre k" for k
    using * that by (cases "k = []") (auto simp: Get_open kvRead_def split: sum.splits badger_err.splits)
  then show ?thesis
    by (auto simp: iterate_set dbGet_def image_iff)
qed

lemma scans_agree:
  assumes "\<not> closed s" and "pre \<noteq> []" and "\<And>k e. prefix pre k \<Longrightarrow> Get B now s k \<noteq> Inl (KVBadger e)"
  shows "\<exists>ks. ScanKeys B now s pre limit = Inr ks \<and>
    (\<exists>vs. Scan B now s pre limit = Inr vs \<and> map Inr vs = map (Get B now s) ks) \<and>
    (\<exists>m. ScanKeysWithValues B now s pre limit = Inr m \<and>
      (\<forall>k. (case m k of Some v \<Rightarrow> k \<in> set ks \<and> Get B now s k = Inr v | None \<Rightarrow> k \<notin> set ks)))"
proof -
  define items where "items = txnIterate B (NewTransaction B (kvdb s)) now pre"
  have get: "\<exists>v. r = Inr v \<and> Get B now s k = Inr v" if "(k, r) \<in> set items" for k r
  proof -
    have "prefix pre k" and r: "r = dbGet B (kvdb s) now k" "r \<noteq> Inl BadgerErrKeyNotFound"
      using that by (auto simp: items_def mem_iterate dbGet_def)
    moreover from this(1) assms(2) have "k \<noteq> []" by auto
    ultimately show ?thesis
      using assms(3) [of k] assms(1) kvRead_found [of r] by (auto simp: Get_open)
  qed
  have vals: "\<forall>(k, r)\<in>set items. \<exists>v. r = Inr v" using get by fastforce
  let ?sel = "limited limit items"
  have sel: "set ?sel \<subseteq> set items" by (auto simp: limited_def dest: in_set_takeD)
  have dist: "distinct (map fst items)" unfolding items_def by (rule iterate_distinct)
  then have dsel: "distinct (map fst ?sel)" by (auto simp: limited_def take_map [symmetric])
  let ?m = "map_of (map (\<lambda>(k, r). (k, projr r)) ?sel)"
  have "ScanKeys B now s pre limit = Inr (map fst ?sel)"
    using ScanKeys_eq [OF assms(1), of now pre limit] by (simp add: items_def [symmetric] limited_def take_map)
  moreover have "Scan B now s pre limit = Inr (map (projr \<circ> snd) ?sel)"
    using scanLoop_eq [OF order_refl vals, of limit "[]"] assms(1)
    by (simp add: Scan_def View_def liftB_def items_def limited_def)
  moreover have "map Inr (map (projr \<circ> snd) ?sel) = map (Get B now s) (map fst ?sel)"
    using get sel by fastforce
  moreover have "ScanKeysWithValues B now s pre limit = Inr ?m"
    using scanPairsLoop_eq [OF order_refl vals dist, of limit Map.empty] assms(1)
    by (simp add: ScanKeysWithValues_def View_def liftB_def items_def limited_def)
  moreover have "case ?m k of Some v \<Rightarrow> k \<in> set (map fst ?sel) \<and> Get B now s k = Inr v
      | None \<Rightarrow> k \<notin> set (map fst ?sel)" for k
    using get sel
    by (auto split: option.splits simp: map_of_eq_None_iff image_image case_prod_unfold dest!: map_of_SomeD)
      (fastforce intro: rev_image_eqI)+
  ultimately show ?thesis by blast
qed

lemma BatchSet_success:
  assumes "BatchSet B now s kvs ttl = (s', Inr ())" and "distinct (map fst kvs)"
  shows "closed s' = closed s \<and> installs B
    (\<lambda>k. map_option (\<lambda>v. Put now v (if ttl > 0 then ttl else 0)) (map_of kvs k)) (kvdb s) (kvdb s')"
proof (cases "kvs = []")
  case True
  with assms show ?thesis
    by (auto simp: BatchSet_def installs_def write_reads_def split: if_splits)
next
  case False
  have fb: "flushBatch B s
      (batchPut B now (if ttl > 0 then ttl else 0) kvs (NewWriteBatch B (kvdb s))) = (s', Inr ())"
    using assms(1) False by (auto simp: BatchSet_def split: if_splits)
  have "(\<lambda>k. map_option (\<lambda>v. Put now v T) (map_of kvs k)) =
      fold (\<lambda>(k, v) m. m(k \<mapsto> Put now v T)) kvs Map.empty" for T
    by (auto simp: fun_eq_iff fold_put_distinct [OF assms(2)] split: option.splits)
  then show ?thesis
    by (simp only:) (rule flushBatch_success [OF fb batchPut_batch [OF _ batch_new]])
qed

lemma BatchDelete_success:
  assumes "BatchDelete B s keys = (s', Inr ())"
  shows "closed s' = closed s \<and> installs B (\<lambda>k. if k \<in> set keys then Some Del else None) (kvdb s) (kvdb s')"
proof (cases "keys = []")
  case True
  with assms show ?thesis
    by (auto simp: BatchDelete_def installs_def write_reads_def split: if_splits)
next
  case False
  have fb: "flushBatch B s (batchDel B keys (NewWriteBatch B (kvdb s))) = (s', Inr ())"
    using assms False by (auto simp: BatchDelete_def split: if_splits)
  have "(\<lambda>k. if k \<in> set keys then Some Del else None) = fold (\<lambda>k m. m(k \<mapsto> Del)) keys Map.empty"
    by (auto simp: fun_eq_iff fold_del)
  then show ?thesis
    by (simp only:) (rule flushBatch_success [OF fb batchDel_batch [OF _ batch_new]])
qed

lemma incr_race:
  assumes "incrBody B now key (NewTransaction B d) = Inr (t1, m)" and "txnCommit B d t1 = Inr d1"
    and "incrBody B now key (NewTransaction B d) = Inr (t2, n)" and "txnCommit B d1 t2 = Inr d2"
  shows "m = n \<and> currentValue (dbGet B d now key) = Inr (n - 1) \<and> dbGet B d2 u key = Inr (be64 n)"
proof -
  have "installs B [key \<mapsto> Put now (be64 n) 0] d1 d2"
    using incrBody_txn [OF assms(3) txn_begin] assms(4) by (rule commit_installs)
  then have "dbGet B d2 u key = Inr (be64 n)" by (rule installs_put [OF _ fun_upd_same]) simp
  with assms(1,3) show ?thesis
    by (auto simp: incrBody_def dbGet_def Let_def split: sum.splits)
qed

end

text \<open>An open, empty storage for the witnesses.\<close>

definition mem_open :: "mem_db Storage" where
  "mem_open = \<lparr>kvdb = [], closed = False\<rparr>"

lemmas kv_eval = mem_eval mem_open_def kvUpdate_def Set_def Get_def Delete_def incrBody_def Incr_def
  decrBody_def Decr_def currentValue_def counterOf_def

section \<open>Single keys\<close>

text \<open>C1: after a successful \<open>Set\<close>, \<open>Get\<close> returns the value at every later time when no TTL was
  given; with a TTL it returns the value until one second before the TTL ends and reports the key as
  not found once it has elapsed; no other key is affected.\<close>

theorem kv_set_get:
  assumes "badger_store B" and "Set B now s key val ttl = (s', Inr ())"
  shows "(ttl \<le> 0 \<longrightarrow> Get B u s' key = Inr val) \<and>
    (0 < ttl \<and> now \<le> u \<and> u + second \<le> now + ttl \<longrightarrow> Get B u s' key = Inr val) \<and>
    (0 < ttl \<and> now + ttl \<le> u \<longrightarrow> Get B u s' key = Inl ErrKeyNotFound) \<and>
    (j \<noteq> key \<longrightarrow> Get B u s' j = Get B u s j)"
  using assms by (rule badger_store.set_reads)

theorem kv_set_get_witness:
  "Set mem_badger 0 mem_open [107] [7, 8] (5 * second) = (\<lparr>kvdb = [([107], [7, 8], Some 5)], closed = False\<rparr>, Inr ()) \<and>
   Get mem_badger (4 * second) \<lparr>kvdb = [([107], [7, 8], Some 5)], closed = False\<rparr> [107] = Inr [7, 8] \<and>
   Get mem_badger (5 * second) \<lparr>kvdb = [([107], [7, 8], Some 5)], closed = False\<rparr> [107] = Inl ErrKeyNotFound"
proof -
  have s: "Set mem_badger 0 mem_open [107] [7, 8] (5 * second) =
      (\<lparr>kvdb = [([107], [7, 8], Some 5)], closed = False\<rparr>, Inr ())"
    by (simp add: kv_eval second_def)
  from kv_set_get [OF mem.badger_store_axioms s, of "4 * second"]
    kv_set_get [OF mem.badger_store_axioms s, of "5 * second"] s
  show ?thesis by (simp add: second_def)
qed

text \<open>After a successful \<open>Delete\<close> the key is not found and \<open>Exists\<close> answers false; no other
  key is affected.\<close>

theorem kv_delete_get:
  assumes "badger_store B" and "Delete B s key = (s', Inr ())"
  shows "Get B u s' key = Inl ErrKeyNotFound \<and> Exists B u s' key = Inr False \<and>
    (j \<noteq> key \<longrightarrow> Get B u s' j = Get B u s j)"
  using assms by (rule badger_store.delete_reads)

theorem kv_delete_get_witness:
  "Delete mem_badger \<lparr>kvdb = [([1], [2], None)], closed = False\<rparr> [1] = (mem_open, Inr ()) \<and>
   Exists mem_badger 0 mem_open [1] = Inr False"
proof -
  have s: "Delete mem_badger \<lparr>kvdb = [([1], [2], None)], closed = False\<rparr> [1] = (mem_open, Inr ())"
    by (simp add: kv_eval)
  from kv_delete_get [OF mem.badger_store_axioms s] s show ?thesis by simp
qed

text \<open>C11: a successful \<open>Incr\<close> returns the key's counter plus one, wrapping at 64 bits, where a
  missing key and a value that is not 8 bytes long count as 0; the key then holds the result in
  big-endian form, and no other key is affected.\<close>

theorem kv_incr:
  assumes "badger_store B" and "Incr B now s key = (s', Inr n)"
  shows "n = counter (Get B now s key) + 1 \<and> Get B u s' key = Inr (be64 n) \<and>
    (j \<noteq> key \<longrightarrow> Get B u s' j = Get B u s j)"
  using assms by (rule badger_store.incr_reads)

theorem kv_incr_witness:
  "Incr mem_badger 0 \<lparr>kvdb = [([1], be64 (2 ^ 63 - 1), None)], closed = False\<rparr> [1] =
     (\<lparr>kvdb = [([1], be64 (2 ^ 63), None)], closed = False\<rparr>, Inr (2 ^ 63)) \<and>
   Get mem_badger 0 \<lparr>kvdb = [([1], be64 (2 ^ 63), None)], closed = False\<rparr> [1] = Inr (be64 (2 ^ 63)) \<and>
   sint (2 ^ 63 :: int64) = - (2 ^ 63)"
proof -
  have s: "Incr mem_badger 0 \<lparr>kvdb = [([1], be64 (2 ^ 63 - 1), None)], closed = False\<rparr> [1] =
     (\<lparr>kvdb = [([1], be64 (2 ^ 63), None)], closed = False\<rparr>, Inr (2 ^ 63))"
    by (simp add: kv_eval)
  from kv_incr [OF mem.badger_store_axioms s] s show ?thesis by simp
qed

text \<open>An \<open>Incr\<close> followed by a \<open>Decr\<close> gives back the counter the key had, also at the ends of
  the range.\<close>

theorem kv_incr_decr:
  assumes "badger_store B" and "Incr B now s key = (s1, Inr m)" and "Decr B now' s1 key = (s2, Inr n)"
  shows "n = counter (Get B now s key) \<and> counter (Get B u s2 key) = counter (Get B now s key)"
  using assms by (rule badger_store.incr_decr_cancel)

theorem kv_incr_decr_witness:
  "counter (Get mem_badger 0 (fst (Decr mem_badger 0 (fst (Incr mem_badger 0 mem_open [1])) [1])) [1]) = 0"
proof -
  have i: "Incr mem_badger 0 mem_open [1] = (\<lparr>kvdb = [([1], be64 1, None)], closed = False\<rparr>, Inr 1)"
    by (simp add: kv_eval)
  have d: "Decr mem_badger 0 \<lparr>kvdb = [([1], be64 1, None)], closed = False\<rparr> [1] =
      (\<lparr>kvdb = [([1], be64 0, None)], closed = False\<rparr>, Inr 0)"
    by (simp add: kv_eval)
  from kv_incr_decr [OF mem.badger_store_axioms i d] show ?thesis
    by (simp add: i d)
qed

text \<open>Two \<open>Incr\<close> transactions that begin on the same state and commit one after the other
  return the same number, and one of the two increments is lost: the store opens Badger with conflict
  detection switched off.\<close>

theorem kv_incr_lost_update:
  assumes "badger_store B"
    and "incrBody B now key (NewTransaction B d) = Inr (t1, m)" and "txnCommit B d t1 = Inr d1"
    and "incrBody B now key (NewTransaction B d) = Inr (t2, n)" and "txnCommit B d1 t2 = Inr d2"
  shows "m = n \<and> currentValue (dbGet B d now key) = Inr (n - 1) \<and> dbGet B d2 u key = Inr (be64 n)"
  using assms by (rule badger_store.incr_race)

theorem kv_incr_lost_update_witness:
  "\<exists>t1 t2. incrBody mem_badger 0 [1] (NewTransaction mem_badger []) = Inr (t1, 1) \<and>
     incrBody mem_badger 0 [1] (NewTransaction mem_badger []) = Inr (t2, 1) \<and>
     dbGet mem_badger [([1], be64 1, None)] 9 [1] = Inr (be64 1)"
proof -
  have b: "incrBody mem_badger 0 [1] (NewTransaction mem_badger []) =
      Inr (([([1], be64 1, None)], [([1], Some (be64 1, None))]), 1)"
    by (simp add: kv_eval)
  have c: "txnCommit mem_badger [] ([([1], be64 1, None)], [([1], Some (be64 1, None))]) = Inr [([1], be64 1, None)]"
    "txnCommit mem_badger [([1], be64 1, None)] ([([1], be64 1, None)], [([1], Some (be64 1, None))]) =
       Inr [([1], be64 1, None)]"
    by (simp_all add: kv_eval)
  from kv_incr_lost_update [OF mem.badger_store_axioms b c(1) b c(2), of 9] b show ?thesis by blast
qed

section \<open>Errors\<close>

text \<open>A single-key operation that returns an error leaves the storage as it was.\<close>

theorem kv_error_unchanged:
  assumes "badger_store B"
    and "Set B now s key val ttl = (s', Inl e) \<or> Delete B s key = (s', Inl e) \<or>
      Incr B now s key = (s', Inl e) \<or> Decr B now s key = (s', Inl e)"
  shows "s' = s"
  using assms(2) by (elim disjE) (auto dest: badger_store.single_key_errors [OF assms(1)])

theorem kv_error_unchanged_witness:
  "Set mem_badger 0 mem_open [] [1] 0 = (mem_open, Inl ErrInvalidKey)"
proof -
  obtain s' where s: "Set mem_badger 0 mem_open [] [1] 0 = (s', Inl ErrInvalidKey)"
    by (simp add: kv_eval)
  then have "s' = mem_open"
    by (intro kv_error_unchanged [OF mem.badger_store_axioms, where s = mem_open and e = ErrInvalidKey]) blast
  with s show ?thesis by simp
qed

text \<open>\<open>Close\<close> closes the storage for good: once it has been called, whatever it returned, every
  operation (a second \<open>Close\<close> included) returns \<open>ErrClosed\<close> and changes nothing.\<close>

theorem kv_closed:
  assumes "Close B s = (s', r)"
  shows "closed s' \<and> Close B s' = (s', Inl ErrClosed) \<and>
    Set B now s' key val ttl = (s', Inl ErrClosed) \<and> Get B now s' key = Inl ErrClosed \<and>
    Delete B s' key = (s', Inl ErrClosed) \<and> Exists B now s' key = Inl ErrClosed \<and>
    Incr B now s' key = (s', Inl ErrClosed) \<and> Decr B now s' key = (s', Inl ErrClosed) \<and>
    Scan B now s' pre limit = Inl ErrClosed \<and> ScanKeys B now s' pre limit = Inl ErrClosed \<and>
    ScanKeysWithValues B now s' pre limit = Inl ErrClosed \<and>
    BatchSet B now s' kvs ttl = (s', Inl ErrClosed) \<and> BatchSetNoTTL B now s' kvs = (s', Inl ErrClosed) \<and>
    BatchGet B now s' keys = Inl ErrClosed \<and> BatchDelete B s' keys = (s', Inl ErrClosed) \<and>
    Sync B s' = (s', Inl ErrClosed) \<and> RunGC B s' = (s', Inl ErrClosed)"
proof -
  have "closed s'" using assms by (auto simp: Close_def split: if_splits prod.splits option.splits)
  then show ?thesis
    by (simp add: Close_def Set_def Get_def Delete_def Exists_def Incr_def Decr_def Scan_def ScanKeys_def
        ScanKeysWithValues_def BatchSet_def BatchSetNoTTL_def BatchGet_def BatchDelete_def Sync_def RunGC_def)
qed

theorem kv_closed_witness:
  "Close mem_badger mem_open = (\<lparr>kvdb = [], closed = True\<rparr>, Inr ()) \<and>
   Get mem_badger 0 \<lparr>kvdb = [], closed = True\<rparr> [1] = Inl ErrClosed"
proof -
  have s: "Close mem_badger mem_open = (\<lparr>kvdb = [], closed = True\<rparr>, Inr ())"
    by (simp add: Close_def mem_open_def mem_badger_def)
  from kv_closed [OF s] s show ?thesis by blast
qed

section \<open>Scans\<close>

text \<open>\<open>ScanKeys\<close> lists exactly the keys with the prefix that \<open>Get\<close> finds, in byte order and
  once each; a positive limit keeps the first \<open>limit\<close> of them.\<close>

theorem kv_scan_keys:
  assumes "badger_store B" and "\<not> closed s" and "pre \<noteq> []"
  shows "\<exists>ks. ScanKeys B now s pre 0 = Inr ks \<and> sorted_wrt (<) ks \<and>
    set ks = {k. prefix pre k \<and> Get B now s k \<noteq> Inl ErrKeyNotFound} \<and>
    (\<forall>limit > 0. ScanKeys B now s pre limit = Inr (take (nat limit) ks))"
proof (intro exI conjI allI impI)
  let ?ks = "map fst (txnIterate B (NewTransaction B (kvdb s)) now pre)"
  note keys = badger_store.ScanKeys_eq [OF assms(1,2)]
  show "ScanKeys B now s pre 0 = Inr ?ks" by (simp add: keys limited_def)
  show "sorted_wrt (<) ?ks" by (rule badger_store.iterate_sorted [OF assms(1)])
  show "set ?ks = {k. prefix pre k \<and> Get B now s k \<noteq> Inl ErrKeyNotFound}"
    by (rule badger_store.iterated_keys [OF assms])
  show "ScanKeys B now s pre limit = Inr (take (nat limit) ?ks)" if "0 < limit" for limit
    using that by (simp add: keys limited_def)
qed

theorem kv_scan_keys_witness:
  "ScanKeys mem_badger 0 \<lparr>kvdb = [([1, 9], [], None), ([2], [], None), ([1, 3], [], None)], closed = False\<rparr> [1] 1 =
     Inr [[1, 3]]"
proof -
  let ?s = "\<lparr>kvdb = [([1, 9], [], None), ([2], [], None), ([1, 3], [], None)], closed = False\<rparr>"
  have all: "ScanKeys mem_badger 0 ?s [1] 0 = Inr [[1, 3], [1, 9]]"
    by (simp add: ScanKeys_def mem_eval)
  with kv_scan_keys [OF mem.badger_store_axioms, of ?s "[1]" 0] show ?thesis by auto
qed

text \<open>\<open>Scan\<close> and \<open>ScanKeysWithValues\<close> agree with \<open>ScanKeys\<close> and \<open>Get\<close>: when the values
  under the prefix can be read, \<open>Scan\<close> returns the values of the keys that \<open>ScanKeys\<close> lists for the
  same prefix and limit, in that order, and \<open>ScanKeysWithValues\<close> maps exactly those keys to their
  values.\<close>

theorem kv_scan_values:
  assumes "badger_store B" and "\<not> closed s" and "pre \<noteq> []"
    and "\<And>k e. prefix pre k \<Longrightarrow> Get B now s k \<noteq> Inl (KVBadger e)"
  shows "\<exists>ks. ScanKeys B now s pre limit = Inr ks \<and>
    (\<exists>vs. Scan B now s pre limit = Inr vs \<and> map Inr vs = map (Get B now s) ks) \<and>
    (\<exists>m. ScanKeysWithValues B now s pre limit = Inr m \<and>
      (\<forall>k. (case m k of Some v \<Rightarrow> k \<in> set ks \<and> Get B now s k = Inr v | None \<Rightarrow> k \<notin> set ks)))"
  using badger_store.scans_agree [OF assms] .

theorem kv_scan_values_witness:
  "Scan mem_badger 0 \<lparr>kvdb = [([1, 9], [5], None), ([2], [], None), ([1, 3], [6], None)], closed = False\<rparr> [1] 0 =
     Inr [[6], [5]]"
proof -
  let ?s = "\<lparr>kvdb = [([1, 9], [5], None), ([2], [], None), ([1, 3], [6], None)], closed = False\<rparr>"
  have "Get mem_badger 0 ?s k \<noteq> Inl (KVBadger e)" for k e
    by (simp add: Get_def mem_eval split: option.splits)
  moreover have "ScanKeys mem_badger 0 ?s [1] 0 = Inr [[1, 3], [1, 9]]"
    by (simp add: ScanKeys_def mem_eval)
  moreover have "Get mem_badger 0 ?s [1, 3] = Inr [6]" "Get mem_badger 0 ?s [1, 9] = Inr [5]"
    by (simp_all add: Get_def mem_eval)
  ultimately show ?thesis
    using kv_scan_values [OF mem.badger_store_axioms, of ?s "[1]" 0 0] by auto
qed

section \<open>Batches\<close>

text \<open>A successful \<open>BatchSet\<close> without TTL stores every pair of the map and leaves every other key
  alone; so the order in which Go visits the map does not matter, and \<open>BatchSetNoTTL\<close> is the same
  operation.\<close>

theorem kv_batch_set:
  assumes "badger_store B" and "distinct (map fst kvs)" and "ttl \<le> 0"
    and "BatchSet B now s kvs ttl = (s', Inr ())"
  shows "Get B u s' k = (case map_of kvs k of Some v \<Rightarrow> Inr v | None \<Rightarrow> Get B u s k) \<and>
    BatchSetNoTTL B now s kvs = (s', Inr ())"
proof
  have ok: "\<not> closed s" "k \<in> set (map fst kvs) \<Longrightarrow> k \<noteq> []"
    using assms(4) by (auto simp: BatchSet_def split: if_splits)
  have ins: "closed s' = closed s" "installs B (\<lambda>k. map_option (\<lambda>v. Put now v 0) (map_of kvs k)) (kvdb s) (kvdb s')"
    using badger_store.BatchSet_success [OF assms(1,4,2)] assms(3) by auto
  show "Get B u s' k = (case map_of kvs k of Some v \<Rightarrow> Inr v | None \<Rightarrow> Get B u s k)"
  proof (cases "map_of kvs k")
    case None
    with ins show ?thesis
      by (auto intro: Get_cong badger_store.installs_clean [OF assms(1) ins(2)])
  next
    case (Some v)
    then have "k \<in> set (map fst kvs)" by (auto dest: map_of_SomeD intro: rev_image_eqI)
    with Some ins ok show ?thesis
      using badger_store.installs_put [OF assms(1) ins(2), of k now v 0 u] by (simp add: Get_open)
  qed
  show "BatchSetNoTTL B now s kvs = (s', Inr ())"
    using assms(3,4) by (auto simp: BatchSet_def BatchSetNoTTL_def split: if_splits)
qed

theorem kv_batch_set_witness:
  "Get mem_badger 0 (fst (BatchSet mem_badger 0 mem_open [([1], [5]), ([2], [6])] 0)) [1] = Inr [5]"
proof -
  have b: "BatchSet mem_badger 0 mem_open [([1], [5]), ([2], [6])] 0 =
      (\<lparr>kvdb = [([2], [6], None), ([1], [5], None)], closed = False\<rparr>, Inr ())"
    by (simp add: BatchSet_def flushBatch_def kv_eval)
  from kv_batch_set [OF mem.badger_store_axioms _ _ b, of 0 "[1]"] show ?thesis by (simp add: b)
qed

text \<open>After a successful \<open>BatchDelete\<close> none of its keys is found and every other key reads as
  before.\<close>

theorem kv_batch_delete:
  assumes "badger_store B" and "BatchDelete B s keys = (s', Inr ())"
  shows "Get B u s' k = (if k \<in> set keys then Inl ErrKeyNotFound else Get B u s k)"
proof -
  have ok: "\<not> closed s" "[] \<notin> set keys" using assms(2) by (auto simp: BatchDelete_def split: if_splits)
  have ins: "closed s' = closed s" "installs B (\<lambda>k. if k \<in> set keys then Some Del else None) (kvdb s) (kvdb s')"
    using badger_store.BatchDelete_success [OF assms] by auto
  show ?thesis
  proof (cases "k \<in> set keys")
    case True
    then have "dbGet B (kvdb s') u k = Inl BadgerErrKeyNotFound"
      by (intro badger_store.installs_del [OF assms(1) ins(2)]) simp
    moreover from True ok have "k \<noteq> []" by auto
    ultimately show ?thesis using True ins ok by (simp add: Get_open)
  next
    case False
    then have "dbGet B (kvdb s') u k = dbGet B (kvdb s) u k"
      by (intro badger_store.installs_clean [OF assms(1) ins(2)]) simp
    with False Get_cong [OF ins(1)] show ?thesis by simp
  qed
qed

theorem kv_batch_delete_witness:
  "Get mem_badger 0 (fst (BatchDelete mem_badger
     \<lparr>kvdb = [([2], [6], None), ([1], [5], None)], closed = False\<rparr> [[1]])) [1] = Inl ErrKeyNotFound"
proof -
  have b: "BatchDelete mem_badger \<lparr>kvdb = [([2], [6], None), ([1], [5], None)], closed = False\<rparr> [[1]] =
      (\<lparr>kvdb = [([2], [6], None)], closed = False\<rparr>, Inr ())"
    by (simp add: BatchDelete_def flushBatch_def kv_eval)
  from kv_batch_delete [OF mem.badger_store_axioms b, of 0 "[1]"] show ?thesis by (simp add: b)
qed

text \<open>\<open>BatchGet\<close> of any number of non-empty keys, read in one transaction or in chunks of 100,
  returns exactly what single \<open>Get\<close>s return for the keys that are found.\<close>

theorem kv_batch_get:
  assumes "\<not> closed s" and "[] \<notin> set keys"
    and "\<And>k e. k \<in> set keys \<Longrightarrow> Get B now s k \<noteq> Inl (KVBadger e)"
  shows "BatchGet B now s keys =
    Inr (\<lambda>k. if k \<in> set keys then case Get B now s k of Inr v \<Rightarrow> Some v | Inl _ \<Rightarrow> None else None)"
proof -
  have "readable B now (kvdb s) keys"
    unfolding readable_def
  proof (intro ballI allI notI)
    fix k m assume "k \<in> set keys" and "dbGet B (kvdb s) now k = Inl (BadgerErr m)"
    moreover from this assms(2) have "k \<noteq> []" by auto
    ultimately have "Get B now s k = Inl (KVBadger (BadgerErr m))"
      using assms(1) by (simp add: Get_open kvRead_def)
    with assms(3) [OF \<open>k \<in> set keys\<close>] show False by blast
  qed
  moreover have "present B now (kvdb s) keys =
      (\<lambda>k. if k \<in> set keys then case Get B now s k of Inr v \<Rightarrow> Some v | Inl _ \<Rightarrow> None else None)"
  proof
    fix k
    show "present B now (kvdb s) keys k =
        (if k \<in> set keys then case Get B now s k of Inr v \<Rightarrow> Some v | Inl _ \<Rightarrow> None else None)"
      using assms(1,2) by (cases "k = []")
        (auto simp: present_def Get_open kvRead_def split: sum.splits badger_err.splits)
  qed
  ultimately show ?thesis
    using assms(1,2)
    by (auto simp: BatchGet_def View_def liftB_def batchGetLoop_eq batchGetChunks_eq)
qed

theorem kv_batch_get_witness:
  "BatchGet mem_badger 0 mem_open (replicate 250 [1]) = Inr Map.empty"
  by (subst kv_batch_get) (auto simp: kv_eval fun_eq_iff)

end
