(* ===== verification/Queue.thy ===== *)
theory Queue
  imports Badger
begin

text \<open>
  The queues: \<open>src/internal/queue/storage.go\<close> (the legacy queue of a head and a tail pointer, the
  keys, the byte formats), \<open>storage_ack.go\<close> (messages with acknowledgement, retries, a dead-letter
  queue and visibility timeouts), \<open>queue.go\<close> (the API over both) and \<open>worker.go\<close> (the
  background worker that requeues expired messages).

  An operation that decodes stored bytes may panic: its result is an \<open>option\<close>, \<open>None\<close> being the
  panic.  The clock is read once per operation (\<open>now\<close>, in nanoseconds); \<open>uuid.New().String()\<close> is
  an argument.
\<close>

section \<open>Errors, states and records\<close>

datatype queue_err =
  ErrQueueEmpty | ErrInvalidQueue | ErrMessageNotFound | ErrMessageExpired
  | QBadger badger_err | QFormat string

fun queue_errmsg :: "queue_err \<Rightarrow> string" where
  "queue_errmsg ErrQueueEmpty = ''queue is empty''"
| "queue_errmsg ErrInvalidQueue = ''invalid queue name''"
| "queue_errmsg ErrMessageNotFound = ''message not found''"
| "queue_errmsg ErrMessageExpired = ''message visibility timeout expired''"
| "queue_errmsg (QBadger BadgerErrKeyNotFound) = ''Key not found''"
| "queue_errmsg (QBadger (BadgerErr m)) = m"
| "queue_errmsg (QFormat m) = m"

type_synonym MessageState = goint

definition StatePending :: MessageState where "StatePending = 0"
definition StateInFlight :: MessageState where "StateInFlight = 1"
definition StateAcked :: MessageState where "StateAcked = 2"
definition StateNacked :: MessageState where "StateNacked = 3"
definition StateDeadLetter :: MessageState where "StateDeadLetter = 4"

record 'db QueueStorage =
  qdb :: 'db

record QueueMetadata =
  Head :: uint64
  Tail :: uint64

record QueueMessage =
  msgID :: gostring
  msgValue :: bytes
  State :: MessageState
  DeliveryCount :: goint
  ConsumerID :: gostring
  EnqueuedAt :: int64
  InFlightAt :: int64
  VisibilityTimeout :: int64
  msgMaxRetries :: goint

record QueueConfig =
  cfgName :: gostring
  DeadLetterQueue :: gostring
  MaxRetries :: goint
  DefaultVisibilityTimeout :: int64

text \<open>\<open>opened\<close> is what \<open>badger.Open(opts)\<close> returned.\<close>

definition NewStorage :: "badger_err + 'db \<Rightarrow> badger_err + 'db QueueStorage" where
  "NewStorage opened = (case opened of Inl e \<Rightarrow> Inl e | Inr db \<Rightarrow> Inr \<lparr>qdb = db\<rparr>)"

definition QueueStorage_Close ::
  "('db, 'txn) badger \<Rightarrow> 'db QueueStorage \<Rightarrow> 'db QueueStorage \<times> (queue_err + unit)" where
  "QueueStorage_Close B q =
     (case dbClose B (qdb q) of
        (d, None) \<Rightarrow> (\<lparr>qdb = d\<rparr>, Inr ())
      | (d, Some e) \<Rightarrow> (\<lparr>qdb = d\<rparr>, Inl (QBadger e)))"

section \<open>Keys\<close>

definition metadataKey :: "gostring \<Rightarrow> bytes" where
  "metadataKey queueName = lit ''queue:meta:'' @ queueName"

definition dataKey :: "gostring \<Rightarrow> uint64 \<Rightarrow> bytes" where
  "dataKey queueName seqID = lit ''queue:data:'' @ queueName @ lit '':'' @ lit (dec020 (unat seqID))"

definition messageKey :: "gostring \<Rightarrow> gostring \<Rightarrow> bytes" where
  "messageKey queueName messageID = lit ''queue:msg:'' @ queueName @ lit '':'' @ messageID"

text \<open>The prefix under which \<open>PopMessage\<close> and \<open>RequeueExpiredMessages\<close> scan the index.\<close>

definition indexPrefix :: "gostring \<Rightarrow> MessageState \<Rightarrow> bytes" where
  "indexPrefix queueName state =
     lit ''queue:idx:'' @ queueName @ lit '':'' @ lit (dec_int (sint state)) @ lit '':''"

definition messageIndexKey :: "gostring \<Rightarrow> MessageState \<Rightarrow> gostring \<Rightarrow> bytes" where
  "messageIndexKey queueName state messageID =
     lit ''queue:idx:'' @ queueName @ lit '':'' @ lit (dec_int (sint state)) @ lit '':'' @ messageID"

definition queueConfigKey :: "gostring \<Rightarrow> bytes" where
  "queueConfigKey queueName = lit ''queue:config:'' @ queueName"

section \<open>The legacy queue\<close>

definition metadataOf :: "bytes \<Rightarrow> QueueMetadata" where
  "metadataOf val =
     (if length val \<noteq> 16 then \<lparr>Head = 0, Tail = 0\<rparr>
      else \<lparr>Head = rd64 (take 8 val), Tail = rd64 (take 8 (drop 8 val))\<rparr>)"

definition getMetadata ::
  "('db, 'txn) badger \<Rightarrow> time \<Rightarrow> 'txn \<Rightarrow> gostring \<Rightarrow> queue_err + QueueMetadata" where
  "getMetadata B now txn queueName =
     (case txnGet B txn now (metadataKey queueName) of
        Inl BadgerErrKeyNotFound \<Rightarrow> Inr \<lparr>Head = 0, Tail = 0\<rparr>
      | Inl e \<Rightarrow> Inl (QBadger e)
      | Inr val \<Rightarrow> Inr (metadataOf val))"

definition setMetadata ::
  "('db, 'txn) badger \<Rightarrow> time \<Rightarrow> 'txn \<Rightarrow> gostring \<Rightarrow> QueueMetadata \<Rightarrow> queue_err + 'txn" where
  "setMetadata B now txn queueName meta =
     (case txnSetEntry B txn now (metadataKey queueName) (be64 (Head meta) @ be64 (Tail meta)) 0 of
        Inl e \<Rightarrow> Inl (QBadger e)
      | Inr txn \<Rightarrow> Inr txn)"

definition qUpdate ::
  "('db, 'txn) badger \<Rightarrow> 'db QueueStorage \<Rightarrow> ('txn \<Rightarrow> queue_err + ('txn \<times> 'a)) \<Rightarrow>
   'db QueueStorage \<times> (queue_err + 'a)" where
  "qUpdate B q fn = (case Update B QBadger (qdb q) fn of (d, r) \<Rightarrow> (q\<lparr>qdb := d\<rparr>, r))"

definition pushBody ::
  "('db, 'txn) badger \<Rightarrow> time \<Rightarrow> gostring \<Rightarrow> bytes \<Rightarrow> 'txn \<Rightarrow> queue_err + ('txn \<times> unit)" where
  "pushBody B now queueName value txn =
     (case getMetadata B now txn queueName of
        Inl e \<Rightarrow> Inl e
      | Inr meta \<Rightarrow>
          (case txnSetEntry B txn now (dataKey queueName (Tail meta)) value 0 of
             Inl e \<Rightarrow> Inl (QBadger e)
           | Inr txn \<Rightarrow>
               (case setMetadata B now txn queueName (meta\<lparr>Tail := Tail meta + 1\<rparr>) of
                  Inl e \<Rightarrow> Inl e
                | Inr txn \<Rightarrow> Inr (txn, ()))))"

definition Push ::
  "('db, 'txn) badger \<Rightarrow> time \<Rightarrow> 'db QueueStorage \<Rightarrow> gostring \<Rightarrow> bytes \<Rightarrow> 'db QueueStorage \<times> (queue_err + unit)"
where
  "Push B now q queueName value =
     (if queueName = [] then (q, Inl ErrInvalidQueue) else qUpdate B q (pushBody B now queueName value))"

definition popBody ::
  "('db, 'txn) badger \<Rightarrow> time \<Rightarrow> gostring \<Rightarrow> 'txn \<Rightarrow> queue_err + ('txn \<times> bytes)" where
  "popBody B now queueName txn =
     (case getMetadata B now txn queueName of
        Inl e \<Rightarrow> Inl e
      | Inr meta \<Rightarrow>
          if Head meta \<ge> Tail meta then Inl ErrQueueEmpty
          else let itemKey = dataKey queueName (Head meta) in
            case txnGet B txn now itemKey of
              Inl e \<Rightarrow> Inl (QBadger e)
            | Inr value \<Rightarrow>
                (case txnDelete B txn itemKey of
                   Inl e \<Rightarrow> Inl (QBadger e)
                 | Inr txn \<Rightarrow>
                     (case setMetadata B now txn queueName (meta\<lparr>Head := Head meta + 1\<rparr>) of
                        Inl e \<Rightarrow> Inl e
                      | Inr txn \<Rightarrow> Inr (txn, value))))"

definition Pop ::
  "('db, 'txn) badger \<Rightarrow> time \<Rightarrow> 'db QueueStorage \<Rightarrow> gostring \<Rightarrow> 'db QueueStorage \<times> (queue_err + bytes)" where
  "Pop B now q queueName =
     (if queueName = [] then (q, Inl ErrInvalidQueue) else qUpdate B q (popBody B now queueName))"

definition Peek :: "('db, 'txn) badger \<Rightarrow> time \<Rightarrow> 'db QueueStorage \<Rightarrow> gostring \<Rightarrow> queue_err + bytes" where
  "Peek B now q queueName =
     (if queueName = [] then Inl ErrInvalidQueue
      else View B (qdb q) (\<lambda>txn.
        case getMetadata B now txn queueName of
          Inl e \<Rightarrow> Inl e
        | Inr meta \<Rightarrow>
            if Head meta \<ge> Tail meta then Inl ErrQueueEmpty
            else case txnGet B txn now (dataKey queueName (Head meta)) of
                Inl e \<Rightarrow> Inl (QBadger e)
              | Inr value \<Rightarrow> Inr value))"

definition Len :: "('db, 'txn) badger \<Rightarrow> time \<Rightarrow> 'db QueueStorage \<Rightarrow> gostring \<Rightarrow> queue_err + uint64" where
  "Len B now q queueName =
     (if queueName = [] then Inl ErrInvalidQueue
      else View B (qdb q) (\<lambda>txn.
        case getMetadata B now txn queueName of
          Inl e \<Rightarrow> Inl e
        | Inr meta \<Rightarrow> Inr (if Tail meta > Head meta then Tail meta - Head meta else 0)))"

text \<open>A delete that fails is skipped.\<close>

function clearLoop ::
  "('db, 'txn) badger \<Rightarrow> gostring \<Rightarrow> uint64 \<Rightarrow> uint64 \<Rightarrow> 'txn \<Rightarrow> 'txn" where
  "clearLoop B queueName i tail txn =
     (if i < tail then
        clearLoop B queueName (i + 1) tail
          (case txnDelete B txn (dataKey queueName i) of Inl e \<Rightarrow> txn | Inr txn' \<Rightarrow> txn')
      else txn)"
  by pat_completeness auto
termination
proof (relation "measure (\<lambda>(B, q, i, tail, txn). unat tail - unat i)")
  fix i tail :: uint64
  assume "i < tail"
  then have "unat (i + 1) = unat i + 1" by (rule unat_plus1)
  with \<open>i < tail\<close> show "((B, q, i + 1, tail, t), (B, q, i, tail, txn))
      \<in> measure (\<lambda>(B, q, i, tail, txn). unat tail - unat i)" for B q t txn
    by (simp add: word_less_nat_alt)
qed simp

declare clearLoop.simps [simp del]

definition clearBody :: "('db, 'txn) badger \<Rightarrow> time \<Rightarrow> gostring \<Rightarrow> 'txn \<Rightarrow> queue_err + ('txn \<times> unit)" where
  "clearBody B now queueName txn =
     (case getMetadata B now txn queueName of
        Inl e \<Rightarrow> Inl e
      | Inr meta \<Rightarrow>
          let txn = clearLoop B queueName (Head meta) (Tail meta) txn in
          (case setMetadata B now txn queueName (meta\<lparr>Head := 0, Tail := 0\<rparr>) of
             Inl e \<Rightarrow> Inl e
           | Inr txn \<Rightarrow> Inr (txn, ())))"

definition Clear ::
  "('db, 'txn) badger \<Rightarrow> time \<Rightarrow> 'db QueueStorage \<Rightarrow> gostring \<Rightarrow> 'db QueueStorage \<times> (queue_err + unit)" where
  "Clear B now q queueName =
     (if queueName = [] then (q, Inl ErrInvalidQueue) else qUpdate B q (clearBody B now queueName))"

section \<open>Byte formats\<close>

definition encodeQueueMessage :: "QueueMessage \<Rightarrow> bytes option" where
  "encodeQueueMessage msg = do {
     let idLen = length (msgID msg);
     let valueLen = length (msgValue msg);
     let consumerIDLen = length (ConsumerID msg);
     let size = 2 + idLen + 4 + valueLen + 1 + 4 + 2 + consumerIDLen + 8 + 8 + 8 + 4;
     w \<leftarrow> put16 (word_of_nat idLen) (makebuf size);
     w \<leftarrow> putbytes (msgID msg) w;
     w \<leftarrow> put32 (word_of_nat valueLen) w;
     w \<leftarrow> putbytes (msgValue msg) w;
     w \<leftarrow> put8 (ucast (State msg)) w;
     w \<leftarrow> put32 (ucast (DeliveryCount msg)) w;
     w \<leftarrow> put16 (word_of_nat consumerIDLen) w;
     w \<leftarrow> putbytes (ConsumerID msg) w;
     w \<leftarrow> put64 (EnqueuedAt msg) w;
     w \<leftarrow> put64 (InFlightAt msg) w;
     w \<leftarrow> put64 (VisibilityTimeout msg) w;
     w \<leftarrow> put32 (ucast (msgMaxRetries msg)) w;
     Some (fst w)
   }"

definition decodeQueueMessage :: "bytes \<Rightarrow> QueueMessage decoded" where
  "decodeQueueMessage data =
     need data 39 ''invalid message data: too short''
     (readStr16 data 0 ''invalid message data: id length overflow'' (\<lambda>ID pos.
      readStr32 data pos ''invalid message data: value length overflow'' (\<lambda>val pos. do {
        state \<leftarrow> goindex data pos;
        let pos = pos + 1;
        deliveryCount \<leftarrow> Uint32At data pos;
        let pos = pos + 4;
        readStr16 data pos ''invalid message data: consumerID length overflow'' (\<lambda>consumerID pos. do {
          enqueuedAt \<leftarrow> Uint64At data pos;
          inFlightAt \<leftarrow> Uint64At data (pos + 8);
          visibilityTimeout \<leftarrow> Uint64At data (pos + 16);
          maxRetries \<leftarrow> Uint32At data (pos + 24);
          Some (Inr \<lparr>msgID = ID, msgValue = val, State = ucast state, DeliveryCount = ucast deliveryCount,
            ConsumerID = consumerID, EnqueuedAt = enqueuedAt, InFlightAt = inFlightAt,
            VisibilityTimeout = visibilityTimeout, msgMaxRetries = ucast maxRetries\<rparr>)
        })
      })))"

definition encodeQueueConfig :: "QueueConfig \<Rightarrow> bytes option" where
  "encodeQueueConfig cfg = do {
     let nameLen = length (cfgName cfg);
     let dlqLen = length (DeadLetterQueue cfg);
     let size = 2 + nameLen + 2 + dlqLen + 4 + 8;
     w \<leftarrow> put16 (word_of_nat nameLen) (makebuf size);
     w \<leftarrow> putbytes (cfgName cfg) w;
     w \<leftarrow> put16 (word_of_nat dlqLen) w;
     w \<leftarrow> putbytes (DeadLetterQueue cfg) w;
     w \<leftarrow> put32 (ucast (MaxRetries cfg)) w;
     w \<leftarrow> put64 (DefaultVisibilityTimeout cfg) w;
     Some (fst w)
   }"

definition decodeQueueConfig :: "bytes \<Rightarrow> QueueConfig decoded" where
  "decodeQueueConfig data =
     need data 16 ''invalid config data: too short''
     (readStr16 data 0 ''invalid config data: name length overflow'' (\<lambda>name pos.
      readStr16 data pos ''invalid config data: dlq length overflow'' (\<lambda>dlq pos. do {
        maxRetries \<leftarrow> Uint32At data pos;
        defaultVisibilityTimeout \<leftarrow> Uint64At data (pos + 4);
        Some (Inr \<lparr>cfgName = name, DeadLetterQueue = dlq, MaxRetries = ucast maxRetries,
          DefaultVisibilityTimeout = defaultVisibilityTimeout\<rparr>)
      })))"

section \<open>What the formats carry\<close>

text \<open>The bytes the encoders write: they never panic.\<close>

definition messageBytes :: "QueueMessage \<Rightarrow> bytes" where
  "messageBytes msg = be16 (word_of_nat (length (msgID msg))) @ msgID msg @
     be32 (word_of_nat (length (msgValue msg))) @ msgValue msg @ [ucast (State msg)] @
     be32 (ucast (DeliveryCount msg)) @ be16 (word_of_nat (length (ConsumerID msg))) @ ConsumerID msg @
     be64 (EnqueuedAt msg) @ be64 (InFlightAt msg) @ be64 (VisibilityTimeout msg) @
     be32 (ucast (msgMaxRetries msg))"

lemma encodeQueueMessage_eq: "encodeQueueMessage msg = Some (messageBytes msg)"
  unfolding encodeQueueMessage_def messageBytes_def
  by (simp add: cursor_simps algebra_simps)

definition configBytes :: "QueueConfig \<Rightarrow> bytes" where
  "configBytes cfg = be16 (word_of_nat (length (cfgName cfg))) @ cfgName cfg @
     be16 (word_of_nat (length (DeadLetterQueue cfg))) @ DeadLetterQueue cfg @
     be32 (ucast (MaxRetries cfg)) @ be64 (DefaultVisibilityTimeout cfg)"

lemma encodeQueueConfig_eq: "encodeQueueConfig cfg = Some (configBytes cfg)"
  unfolding encodeQueueConfig_def configBytes_def
  by (simp add: cursor_simps algebra_simps)

text \<open>A message and a configuration the formats can carry: lengths within their fields, counters within
  32 bits, a state within a byte.\<close>

definition wfMessage :: "QueueMessage \<Rightarrow> bool" where
  "wfMessage msg \<longleftrightarrow> length (msgID msg) < 2 ^ 16 \<and> length (msgValue msg) < 2 ^ 32 \<and>
     length (ConsumerID msg) < 2 ^ 16 \<and> unat (State msg) < 2 ^ 8 \<and>
     unat (DeliveryCount msg) < 2 ^ 32 \<and> unat (msgMaxRetries msg) < 2 ^ 32"

definition wfConfig :: "QueueConfig \<Rightarrow> bool" where
  "wfConfig cfg \<longleftrightarrow> length (cfgName cfg) < 2 ^ 16 \<and> length (DeadLetterQueue cfg) < 2 ^ 16 \<and>
     unat (MaxRetries cfg) < 2 ^ 32"

end
