(* ===== verification/QueueCodec.thy ===== *)
theory QueueCodec
  imports Queue
begin

text \<open>
  The stored formats of the queues: decoding inverts encoding on every message and configuration
  that fits the fields, and the length check of \<open>decodeQueueMessage\<close> admits inputs on which it
  panics.
\<close>

lemma ucast_narrow:
  "unat (w :: 64 word) < 2 ^ 8 \<Longrightarrow> ucast (ucast w :: byte) = w"
  "unat (w :: 64 word) < 2 ^ 32 \<Longrightarrow> ucast (ucast w :: uint32) = w"
  by (simp_all add: word_eq_iff_unsigned [where ?'a = nat] unsigned_ucast_eq unsigned_take_bit_eq
      take_bit_nat_eq_self)

lemma decode_messageBytes [simp]: "wfMessage m \<Longrightarrow> decodeQueueMessage (messageBytes m) = Some (Inr m)"
  by (cases m) (simp add: wfMessage_def messageBytes_def decodeQueueMessage_def need_def readStr16_def
      readStr32_def read_simps nth_append drop_Cons' take_Cons' ucast_narrow)

lemma decode_configBytes [simp]: "wfConfig c \<Longrightarrow> decodeQueueConfig (configBytes c) = Some (Inr c)"
  by (cases c) (simp add: wfConfig_def configBytes_def decodeQueueConfig_def need_def readStr16_def
      read_simps ucast_narrow)

lemma decode_message_length:
  assumes "decodeQueueMessage data = Some (Inr m)"
  shows "41 \<le> length data"
  using assms
  by (auto simp: decodeQueueMessage_def need_def Let_def split: if_splits Option.bind_splits
      dest!: readStr16_Inr readStr32_Inr UintAt_Some(2))

text \<open>A stored message decodes to itself, and so does a stored configuration, as long as identifiers
  are shorter than 64 KiB, the value shorter than 4 GiB, and the counters within 32 bits.\<close>

theorem queue_format_roundtrip:
  assumes "wfMessage m" and "wfConfig c"
  shows "Option.bind (encodeQueueMessage m) decodeQueueMessage = Some (Inr m) \<and>
    Option.bind (encodeQueueConfig c) decodeQueueConfig = Some (Inr c)"
  using assms by (simp add: encodeQueueMessage_eq encodeQueueConfig_eq)

theorem queue_format_roundtrip_witness:
  "Option.bind (encodeQueueMessage \<lparr>msgID = lit ''id'', msgValue = [1, 2], State = 1, DeliveryCount = 3,
     ConsumerID = lit ''c'', EnqueuedAt = 5, InFlightAt = - 1, VisibilityTimeout = 7, msgMaxRetries = 0\<rparr>)
     decodeQueueMessage = Some (Inr \<lparr>msgID = lit ''id'', msgValue = [1, 2], State = 1, DeliveryCount = 3,
     ConsumerID = lit ''c'', EnqueuedAt = 5, InFlightAt = - 1, VisibilityTimeout = 7, msgMaxRetries = 0\<rparr>)"
  by (rule queue_format_roundtrip [where c = "\<lparr>cfgName = [], DeadLetterQueue = [],
      MaxRetries = 0, DefaultVisibilityTimeout = 0\<rparr>", THEN conjunct1])
    (simp_all add: wfMessage_def wfConfig_def)

text \<open>The shortest message takes 41 bytes, but \<open>decodeQueueMessage\<close> checks for 39: whatever their
  contents, 39 or 40 bytes are never decoded, and when no length field overflows the read of the
  retries runs past the end and panics.\<close>

theorem short_message_never_decodes:
  assumes "39 \<le> length data" and "length data < 41"
  shows "(\<forall>m. decodeQueueMessage data \<noteq> Some (Inr m)) \<and> decodeQueueMessage (replicate (length data) 0) = None"
proof
  show "\<forall>m. decodeQueueMessage data \<noteq> Some (Inr m)"
    using assms(2) decode_message_length by fastforce
  have "length data = 39 \<or> length data = 40" using assms by linarith
  moreover have "rd16 [0, 0] = 0" "rd32 [0, 0, 0, 0] = 0" by (simp_all add: rd16_def rd32_def)
  ultimately show "decodeQueueMessage (replicate (length data) 0) = None"
    by (auto simp: decodeQueueMessage_def need_def readStr16_def readStr32_def reads_def Let_def
        numeral_eq_Suc)
qed

theorem short_message_never_decodes_witness:
  "decodeQueueMessage (replicate 40 0) = None"
  using short_message_never_decodes [of "replicate 40 0"] by simp

end
