(* ===== verification/QueueFifo.thy ===== *)
theory QueueFifo
  imports Queue
begin

text \<open>
  The legacy queue implements a family of FIFO queues: the specification is a list of values per
  queue name, the interface \<open>fifo_store\<close> relates a store to it, and \<open>Push\<close>, \<open>Pop\<close>,
  \<open>Peek\<close>, \<open>Len\<close> and \<open>Clear\<close> refine the list operations over every Badger that meets
  \<open>badger_store\<close>.
\<close>

section \<open>Keys\<close>

lemma metadataKey_inj [key_simps]: "metadataKey q = metadataKey q' \<longleftrightarrow> q = q'"
  by (simp add: metadataKey_def)

lemma dataKey_inj [key_simps]: "dataKey q i = dataKey q' j \<longleftrightarrow> q = q' \<and> i = j"
proof
  assume "dataKey q i = dataKey q' j"
  then have eq: "(q @ lit '':'') @ lit (dec020 (unat i)) = (q' @ lit '':'') @ lit (dec020 (unat j))"
    by (simp add: dataKey_def)
  have len: "length (lit (dec020 (unat i))) = length (lit (dec020 (unat j)))" by simp
  have "q @ lit '':'' = q' @ lit '':'' \<and> lit (dec020 (unat i)) = lit (dec020 (unat j))"
    by (rule iffD1 [OF append_eq_append_conv [OF disjI2 [OF len]] eq])
  then show "q = q' \<and> i = j" by (simp add: inj_lit word_unat_eq_iff)
qed simp

lemma meta_data_distinct [key_simps]: "metadataKey q \<noteq> dataKey q' i" "dataKey q' i \<noteq> metadataKey q"
  by (simp_all add: metadataKey_def dataKey_def lit_def)

lemma legacy_keys_nonempty [simp]: "metadataKey q \<noteq> []" "dataKey q i \<noteq> []"
  by (simp_all add: metadataKey_def dataKey_def lit_def)

section \<open>The specification\<close>

datatype qop = QPush gostring bytes | QPop gostring | QPeek gostring | QLen gostring | QClear gostring

datatype qres = Done | Val bytes | Num uint64 | Fail queue_err

type_synonym fifo = "gostring \<Rightarrow> bytes list"

fun qopName :: "qop \<Rightarrow> gostring" where
  "qopName (QPush q _) = q" | "qopName (QPop q) = q" | "qopName (QPeek q) = q"
| "qopName (QLen q) = q" | "qopName (QClear q) = q"

text \<open>One operation on the lists.  An empty name is refused.\<close>

definition fifoStep :: "fifo \<Rightarrow> qop \<Rightarrow> fifo \<times> qres" where
  "fifoStep Q op =
     (if qopName op = [] then (Q, Fail ErrInvalidQueue)
      else case op of
          QPush q v \<Rightarrow> (Q(q := Q q @ [v]), Done)
        | QPop q \<Rightarrow> (case Q q of [] \<Rightarrow> (Q, Fail ErrQueueEmpty) | x # xs \<Rightarrow> (Q(q := xs), Val x))
        | QPeek q \<Rightarrow> (case Q q of [] \<Rightarrow> (Q, Fail ErrQueueEmpty) | x # xs \<Rightarrow> (Q, Val x))
        | QLen q \<Rightarrow> (Q, Num (of_nat (length (Q q))))
        | QClear q \<Rightarrow> (Q(q := []), Done))"

text \<open>An operation that Badger made fail is skipped.\<close>

fun badgerFailed :: "qres \<Rightarrow> bool" where
  "badgerFailed (Fail (QBadger e)) = True"
| "badgerFailed r = False"

fun fifoRun :: "fifo \<Rightarrow> (qop \<times> qres) list \<Rightarrow> fifo \<times> qres list" where
  "fifoRun Q [] = (Q, [])"
| "fifoRun Q ((op, r) # ops) =
     (let (Q1, r1) = (if badgerFailed r then (Q, r) else fifoStep Q op); (Q2, rs) = fifoRun Q1 ops
      in (Q2, r1 # rs))"

text \<open>A run of a store, an operation and a clock reading at a time.\<close>

fun storeRun :: "(time \<Rightarrow> 's \<Rightarrow> qop \<Rightarrow> 's \<times> qres) \<Rightarrow> 's \<Rightarrow> (time \<times> qop) list \<Rightarrow> 's \<times> qres list" where
  "storeRun exec s [] = (s, [])"
| "storeRun exec s ((now, op) # ops) =
     (let (s1, r) = exec now s op; (s2, rs) = storeRun exec s1 ops in (s2, r # rs))"

section \<open>The interface\<close>

text \<open>\<open>rep s Q n\<close>: the store \<open>s\<close> holds the lists \<open>Q\<close> and no queue has used more than
  \<open>n\<close> positions.  Positions are 64-bit, so the law holds while \<open>n\<close> is below the limit.\<close>

locale fifo_store =
  fixes rep :: "'s \<Rightarrow> fifo \<Rightarrow> nat \<Rightarrow> bool"
    and exec :: "time \<Rightarrow> 's \<Rightarrow> qop \<Rightarrow> 's \<times> qres"
  assumes exec_fails: "exec now s op = (s', r) \<Longrightarrow> badgerFailed r \<Longrightarrow> s' = s"
    and exec_refines: "rep s Q n \<Longrightarrow> n + 1 < 2 ^ 64 \<Longrightarrow> exec now s op = (s', r) \<Longrightarrow> \<not> badgerFailed r \<Longrightarrow>
      r = snd (fifoStep Q op) \<and> rep s' (fst (fifoStep Q op)) (n + 1)"
    and rep_mono: "rep s Q n \<Longrightarrow> n \<le> m \<Longrightarrow> m < 2 ^ 64 \<Longrightarrow> rep s Q m"
begin

lemma run_refines:
  "rep s Q n \<Longrightarrow> n + length ops < 2 ^ 64 \<Longrightarrow> storeRun exec s ops = (s', rs) \<Longrightarrow>
   \<exists>Q'. fifoRun Q (zip (map snd ops) rs) = (Q', rs) \<and> rep s' Q' (n + length ops)"
proof (induction ops arbitrary: s Q n rs)
  case Nil
  then show ?case by simp
next
  case (Cons top ops)
  obtain now op where top: "top = (now, op)" by (cases top)
  obtain s1 r where e: "exec now s op = (s1, r)" by (cases "exec now s op")
  obtain rs' where rs: "storeRun exec s1 ops = (s', rs')" "rs = r # rs'"
    using Cons.prems(3) by (auto simp: top e split: prod.splits)
  define Q1 where "Q1 = (if badgerFailed r then Q else fst (fifoStep Q op))"
  have "rep s1 Q1 (n + 1)"
    using Cons.prems(1,2) e exec_fails [OF e] exec_refines [OF _ _ e] rep_mono [of s Q n "n + 1"]
    by (auto simp: Q1_def)
  then obtain Q' where "fifoRun Q1 (zip (map snd ops) rs') = (Q', rs')" "rep s' Q' (n + 1 + length ops)"
    using Cons.IH [OF _ _ rs(1)] Cons.prems(2) by fastforce
  moreover have "(if badgerFailed r then (Q, r) else fifoStep Q op) = (Q1, r)"
    using exec_refines [OF Cons.prems(1) _ e] Cons.prems(2) by (auto simp: Q1_def prod_eq_iff)
  ultimately show ?case
    by (auto simp: top rs(2) simp del: split_paired_Ex)
qed

end

section \<open>The storage as a FIFO store\<close>

definition resOf :: "('a \<Rightarrow> qres) \<Rightarrow> queue_err + 'a \<Rightarrow> qres" where
  "resOf f r = (case r of Inl e \<Rightarrow> Fail e | Inr a \<Rightarrow> f a)"

fun execQueue :: "('db, 'txn) badger \<Rightarrow> time \<Rightarrow> 'db QueueStorage \<Rightarrow> qop \<Rightarrow> 'db QueueStorage \<times> qres" where
  "execQueue B now s (QPush q v) = map_prod id (resOf (\<lambda>_. Done)) (Push B now s q v)"
| "execQueue B now s (QPop q) = map_prod id (resOf Val) (Pop B now s q)"
| "execQueue B now s (QPeek q) = (s, resOf Val (Peek B now s q))"
| "execQueue B now s (QLen q) = (s, resOf Num (Len B now s q))"
| "execQueue B now s (QClear q) = map_prod id (resOf (\<lambda>_. Done)) (Clear B now s q)"

text \<open>\<open>queued B d q h xs\<close>: in the database \<open>d\<close> the queue \<open>q\<close> has its head at position \<open>h\<close>
  and holds \<open>xs\<close>, at whatever time it is read.\<close>

definition queued :: "('db, 'txn) badger \<Rightarrow> 'db \<Rightarrow> gostring \<Rightarrow> nat \<Rightarrow> bytes list \<Rightarrow> bool" where
  "queued B d q h xs \<longleftrightarrow>
     (\<forall>u. getMetadata B u (NewTransaction B d) q =
        Inr \<lparr>Head = of_nat h, Tail = of_nat (h + length xs)\<rparr>) \<and>
     (\<forall>i < length xs. \<forall>u. dbGet B d u (dataKey q (of_nat (h + i))) = Inr (xs ! i))"

definition queueRep :: "('db, 'txn) badger \<Rightarrow> 'db QueueStorage \<Rightarrow> fifo \<Rightarrow> nat \<Rightarrow> bool" where
  "queueRep B s Q n \<longleftrightarrow> n < 2 ^ 64 \<and>
     (\<forall>q. q \<noteq> [] \<longrightarrow> (\<exists>h. h + length (Q q) \<le> n \<and> queued B (qdb s) q h (Q q)))"

lemma metadata_read:
  "dbGet B d u (metadataKey q) = Inr (be64 a @ be64 b) \<Longrightarrow>
   getMetadata B u (NewTransaction B d) q = Inr \<lparr>Head = a, Tail = b\<rparr>"
  by (simp add: getMetadata_def dbGet_def metadataOf_def)

lemma metadata_cong:
  "dbGet B d u (metadataKey q) = dbGet B d' u (metadataKey q) \<Longrightarrow>
   getMetadata B u (NewTransaction B d) q = getMetadata B u (NewTransaction B d') q"
  by (simp add: getMetadata_def dbGet_def)

lemma queued_frame:
  assumes "queued B d q h xs" and "\<And>u. dbGet B d' u (metadataKey q) = dbGet B d u (metadataKey q)"
    and "\<And>u i. dbGet B d' u (dataKey q i) = dbGet B d u (dataKey q i)"
  shows "queued B d' q h xs"
  using assms by (simp add: queued_def getMetadata_def dbGet_def)

lemma of_nat_u64:
  "n < 2 ^ 64 \<Longrightarrow> unat (of_nat n :: uint64) = n"
  "m < 2 ^ 64 \<Longrightarrow> n < 2 ^ 64 \<Longrightarrow> (of_nat m :: uint64) = of_nat n \<longleftrightarrow> m = n"
  by (simp_all add: unat_of_nat word_unat_eq_iff)

context badger_store
begin

lemma qUpdate_error: "qUpdate B s fn = (s', Inl e) \<Longrightarrow> s' = s"
  by (auto simp: qUpdate_def split: prod.splits dest: Update_error)

lemma qUpdate_success:
  assumes "qUpdate B s fn = (s', Inr a)"
    and "\<And>t. fn (NewTransaction B (qdb s)) = Inr (t, a) \<Longrightarrow> txn_of B (qdb s) ops t"
  shows "installs B ops (qdb s) (qdb s')"
  using assms Update_success [of QBadger "qdb s" fn "qdb s'" a ops]
  by (auto simp: qUpdate_def split: prod.splits)

lemma qUpdate_ran:
  "qUpdate B s fn = (s', Inr a) \<Longrightarrow> \<exists>t. fn (NewTransaction B (qdb s)) = Inr (t, a)"
  "fn (NewTransaction B (qdb s)) = Inl e \<Longrightarrow> qUpdate B s fn = (s, Inl e)"
  by (auto simp: qUpdate_def Update_def split: sum.splits prod.splits)

lemma setMetadata_txn:
  "setMetadata B now t q meta = Inr t' \<Longrightarrow> txn_of B d ops t \<Longrightarrow>
   txn_of B d (ops(metadataKey q \<mapsto> Put now (be64 (Head meta) @ be64 (Tail meta)) 0)) t'"
  by (auto simp: setMetadata_def split: sum.splits intro: txn_set)

text \<open>What the legacy operations write.\<close>

lemma Push_installs:
  assumes "Push B now s q v = (s', Inr ())" and "queued B (qdb s) q h xs"
  shows "installs B [dataKey q (of_nat (h + length xs)) \<mapsto> Put now v 0,
    metadataKey q \<mapsto> Put now (be64 (of_nat h) @ be64 (of_nat (h + length xs) + 1)) 0] (qdb s) (qdb s')"
proof -
  have q: "q \<noteq> []" using assms(1) by (auto simp: Push_def)
  show ?thesis
    by (rule qUpdate_success [OF assms(1) [unfolded Push_def if_not_P [OF q]]])
      (use assms(2) in \<open>auto simp: pushBody_def queued_def split: sum.splits
        dest!: setMetadata_txn txn_set [OF txn_begin]\<close>)
qed

lemma Pop_installs:
  assumes "Pop B now s q = (s', Inr v)" and "queued B (qdb s) q h (x # xs)" and "h + length (x # xs) < 2 ^ 64"
  shows "v = x \<and> installs B [dataKey q (of_nat h) \<mapsto> Del,
    metadataKey q \<mapsto> Put now (be64 (of_nat h + 1) @ be64 (of_nat (h + length (x # xs)))) 0] (qdb s) (qdb s')"
proof -
  have q: "q \<noteq> []" using assms(1) by (auto simp: Pop_def)
  note upd = assms(1) [unfolded Pop_def if_not_P [OF q]]
  have meta: "getMetadata B u (NewTransaction B (qdb s)) q =
      Inr \<lparr>Head = of_nat h, Tail = of_nat (h + length (x # xs))\<rparr>" for u
    using assms(2) by (simp add: queued_def)
  have item: "txnGet B (NewTransaction B (qdb s)) u (dataKey q (of_nat h)) = Inr x" for u
    using assms(2) by (auto simp: queued_def dbGet_def dest: spec [of _ 0])
  have "installs B [dataKey q (of_nat h) \<mapsto> Del,
      metadataKey q \<mapsto> Put now (be64 (of_nat h + 1) @ be64 (of_nat (h + length (x # xs)))) 0] (qdb s) (qdb s')"
    by (rule qUpdate_success [OF upd])
      (auto simp: popBody_def meta item Let_def simp del: of_nat_add split: sum.splits if_splits
        dest!: setMetadata_txn txn_del [OF txn_begin])
  moreover have "v = x"
    using qUpdate_ran(1) [OF upd]
    by (auto simp: popBody_def meta item Let_def split: sum.splits if_splits)
  ultimately show ?thesis by blast
qed

lemma clearLoop_txn:
  "txn_of B d ops t \<Longrightarrow> dom ops \<subseteq> range (dataKey q) \<Longrightarrow>
   \<exists>ops'. txn_of B d ops' (clearLoop B q i tail t) \<and> dom ops' \<subseteq> range (dataKey q)"
proof (induction B q i tail t arbitrary: ops rule: clearLoop.induct)
  case (1 B q i tail t)
  show ?case
  proof (cases "i < tail")
    case True
    have "\<exists>ops'. txn_of B d ops' (case txnDelete B t (dataKey q i) of Inl e \<Rightarrow> t | Inr t' \<Rightarrow> t') \<and>
        dom ops' \<subseteq> range (dataKey q)"
    proof (cases "txnDelete B t (dataKey q i)")
      case (Inr t')
      with "1.prems" have "txn_of B d (ops(dataKey q i \<mapsto> Del)) t'" by (auto intro: txn_del)
      moreover have "dom (ops(dataKey q i \<mapsto> Del)) \<subseteq> range (dataKey q)" using "1.prems" by auto
      ultimately show ?thesis using Inr by (intro exI [of _ "ops(dataKey q i \<mapsto> Del)"]) simp
    qed (use "1.prems" in auto)
    then obtain ops' where "txn_of B d ops' (case txnDelete B t (dataKey q i) of Inl e \<Rightarrow> t | Inr t' \<Rightarrow> t')"
        "dom ops' \<subseteq> range (dataKey q)" by blast
    from "1.IH" [OF True this] True show ?thesis by (subst clearLoop.simps) simp
  next
    case False
    with "1.prems" show ?thesis by (subst clearLoop.simps) auto
  qed
qed

lemma Clear_installs:
  assumes "Clear B now s q = (s', Inr ())"
  shows "\<exists>ops. installs B ops (qdb s) (qdb s') \<and> dom ops \<subseteq> insert (metadataKey q) (range (dataKey q)) \<and>
    ops (metadataKey q) = Some (Put now (be64 0 @ be64 0) 0)"
proof -
  have q: "q \<noteq> []" using assms by (auto simp: Clear_def)
  note upd = assms [unfolded Clear_def if_not_P [OF q]]
  obtain t where t: "clearBody B now q (NewTransaction B (qdb s)) = Inr (t, ())"
    using qUpdate_ran(1) [OF upd] by blast
  then obtain meta where "setMetadata B now (clearLoop B q (Head meta) (Tail meta) (NewTransaction B (qdb s)))
      q (meta\<lparr>Head := 0, Tail := 0\<rparr>) = Inr t"
    by (auto simp: clearBody_def Let_def split: sum.splits)
  moreover obtain ops where "txn_of B (qdb s) ops (clearLoop B q (Head meta) (Tail meta) (NewTransaction B (qdb s)))"
      and dom: "dom ops \<subseteq> range (dataKey q)"
    using clearLoop_txn [OF txn_begin] by fastforce
  ultimately have "txn_of B (qdb s) (ops(metadataKey q \<mapsto> Put now (be64 0 @ be64 0) 0)) t"
    by (auto dest: setMetadata_txn)
  with t have "installs B (ops(metadataKey q \<mapsto> Put now (be64 0 @ be64 0) 0)) (qdb s) (qdb s')"
    by (intro qUpdate_success [OF upd]) auto
  moreover have "dom (ops(metadataKey q \<mapsto> Put now (be64 0 @ be64 0) 0)) \<subseteq> insert (metadataKey q) (range (dataKey q))"
    using dom by auto
  ultimately show ?thesis by (meson fun_upd_same)
qed

text \<open>What becomes of the queue itself and of the others.\<close>

lemma Push_queued:
  assumes "Push B now s q v = (s', Inr ())" and "queued B (qdb s) q h xs" and "h + length xs + 1 < 2 ^ 64"
  shows "queued B (qdb s') q h (xs @ [v])"
proof -
  note ins = Push_installs [OF assms(1,2)]
  have "getMetadata B u (NewTransaction B (qdb s')) q =
      Inr \<lparr>Head = of_nat h, Tail = of_nat (h + length (xs @ [v]))\<rparr>" for u
    by (rule metadata_read, rule trans [OF installs_put [OF ins _ order_refl]]) (simp_all add: add_ac)
  moreover have "dbGet B (qdb s') u (dataKey q (of_nat (h + i))) = Inr ((xs @ [v]) ! i)" if "i < length (xs @ [v])" for i u
  proof (cases "i = length xs")
    case True
    then show ?thesis
      by (auto intro!: installs_put [OF ins _ order_refl] simp: key_simps)
  next
    case False
    with that assms(3) have "(of_nat (h + i) :: uint64) \<noteq> of_nat (h + length xs)"
      by (subst of_nat_u64) auto
    then have "dbGet B (qdb s') u (dataKey q (of_nat (h + i))) = dbGet B (qdb s) u (dataKey q (of_nat (h + i)))"
      by (intro installs_clean [OF ins]) (auto simp: key_simps)
    with False that assms(2) show ?thesis by (simp add: queued_def nth_append)
  qed
  ultimately show ?thesis by (simp add: queued_def)
qed

lemma Pop_queued:
  assumes "Pop B now s q = (s', Inr v)" and "queued B (qdb s) q h (x # xs)" and "h + length (x # xs) < 2 ^ 64"
  shows "v = x \<and> queued B (qdb s') q (h + 1) xs"
proof -
  note ins = Pop_installs [OF assms, THEN conjunct2]
  have "getMetadata B u (NewTransaction B (qdb s')) q =
      Inr \<lparr>Head = of_nat (h + 1), Tail = of_nat (h + 1 + length xs)\<rparr>" for u
    by (rule metadata_read, rule trans [OF installs_put [OF ins _ order_refl]]) (simp_all add: add_ac)
  moreover have "dbGet B (qdb s') u (dataKey q (of_nat (h + 1 + i))) = Inr (xs ! i)" if "i < length xs" for i u
  proof -
    from that assms(3) have "(of_nat (h + 1 + i) :: uint64) \<noteq> of_nat h"
      by (subst of_nat_u64) auto
    then have "dbGet B (qdb s') u (dataKey q (of_nat (h + 1 + i))) = dbGet B (qdb s) u (dataKey q (of_nat (h + 1 + i)))"
      by (intro installs_clean [OF ins]) (auto simp: key_simps)
    also have "\<dots> = Inr ((x # xs) ! Suc i)"
      using assms(2) that unfolding queued_def by (metis Suc_mono add.assoc add_Suc_right length_Cons plus_1_eq_Suc)
    finally show ?thesis by simp
  qed
  ultimately show ?thesis using Pop_installs [OF assms] by (simp add: queued_def)
qed

lemma Clear_queued:
  assumes "Clear B now s q = (s', Inr ())"
  shows "queued B (qdb s') q 0 []"
proof -
  obtain ops where ins: "installs B ops (qdb s) (qdb s')" and ops: "ops (metadataKey q) = Some (Put now (be64 0 @ be64 0) 0)"
    using Clear_installs [OF assms] by blast
  have "getMetadata B u (NewTransaction B (qdb s')) q = Inr \<lparr>Head = 0, Tail = 0\<rparr>" for u
    by (rule metadata_read, rule installs_put [OF ins ops order_refl])
  then show ?thesis by (simp add: queued_def)
qed

lemma installs_other_queue:
  assumes "installs B ops d d'" and "dom ops \<subseteq> insert (metadataKey q) (range (dataKey q))" and "q' \<noteq> q"
    and "queued B d q' h xs"
  shows "queued B d' q' h xs"
proof (rule queued_frame [OF assms(4)])
  have "ops (metadataKey q') = None" "ops (dataKey q' i) = None" for i
    using assms(2,3) by (auto simp: key_simps domIff dest!: subsetD)
  then show "dbGet B d' u (metadataKey q') = dbGet B d u (metadataKey q')"
    "dbGet B d' u (dataKey q' i) = dbGet B d u (dataKey q' i)" for u i
    using installs_clean [OF assms(1)] by blast+
qed

text \<open>The results that do not come from Badger.\<close>

lemma Pop_empty:
  "q \<noteq> [] \<Longrightarrow> queued B (qdb s) q h [] \<Longrightarrow> Pop B now s q = (s, Inl ErrQueueEmpty)"
  by (auto simp: Pop_def queued_def popBody_def intro!: qUpdate_ran(2))

lemma queued_meta:
  assumes "queued B d q h xs" and "h + length xs < 2 ^ 64"
  obtains m where "\<And>u. getMetadata B u (NewTransaction B d) q = Inr m" and "Tail m \<le> Head m \<longleftrightarrow> xs = []"
    and "Tail m - Head m = of_nat (length xs)" and "xs \<noteq> [] \<Longrightarrow> (\<And>u. txnGet B (NewTransaction B d) u (dataKey q (Head m)) = Inr (hd xs))"
proof
  let ?m = "\<lparr>Head = of_nat h, Tail = of_nat (h + length xs)\<rparr> :: QueueMetadata"
  show "getMetadata B u (NewTransaction B d) q = Inr ?m" for u
    using assms(1) by (simp add: queued_def)
  have "unat (of_nat h :: uint64) = h" using assms(2) by (intro of_nat_u64(1)) simp
  moreover have "unat (of_nat (h + length xs) :: uint64) = h + length xs" using assms(2) by (rule of_nat_u64(1))
  ultimately show "Tail ?m \<le> Head ?m \<longleftrightarrow> xs = []"
    by (simp del: of_nat_add add: word_le_nat_alt)
  show "Tail ?m - Head ?m = of_nat (length xs)" by simp
  show "txnGet B (NewTransaction B d) u (dataKey q (Head ?m)) = Inr (hd xs)" if "xs \<noteq> []" for u
    using assms(1) that by (auto simp: queued_def dbGet_def hd_conv_nth dest: spec [of _ 0])
qed

lemma Pop_fails:
  assumes "Pop B now s q = (s', Inl e)" and "q \<noteq> []" and "queued B (qdb s) q h xs" and "xs \<noteq> []"
    and "h + length xs < 2 ^ 64"
  shows "\<exists>b. e = QBadger b"
  using assms(1,2,4)
  by (auto simp: Pop_def qUpdate_def Update_def popBody_def setMetadata_def Let_def
      intro: queued_meta [OF assms(3,5)] split: sum.splits prod.splits if_splits)

lemma Push_fails:
  "Push B now s q v = (s', Inl e) \<Longrightarrow> q \<noteq> [] \<Longrightarrow> queued B (qdb s) q h xs \<Longrightarrow> \<exists>b. e = QBadger b"
  by (auto simp: Push_def qUpdate_def Update_def pushBody_def queued_def setMetadata_def Let_def
      split: sum.splits prod.splits if_splits)

lemma Clear_fails:
  "Clear B now s q = (s', Inl e) \<Longrightarrow> q \<noteq> [] \<Longrightarrow> queued B (qdb s) q h xs \<Longrightarrow> \<exists>b. e = QBadger b"
  by (auto simp: Clear_def qUpdate_def Update_def clearBody_def queued_def setMetadata_def Let_def
      split: sum.splits prod.splits if_splits)

lemma Peek_queued:
  assumes "q \<noteq> []" and "queued B (qdb s) q h xs" and "h + length xs < 2 ^ 64"
  shows "Peek B now s q = (case xs of [] \<Rightarrow> Inl ErrQueueEmpty | x # _ \<Rightarrow> Inr x)"
  using assms(1)
  by (rule_tac queued_meta [OF assms(2,3)]) (cases xs; simp add: Peek_def View_def)

lemma Len_queued:
  assumes "q \<noteq> []" and "queued B (qdb s) q h xs" and "h + length xs < 2 ^ 64"
  shows "Len B now s q = Inr (of_nat (length xs))"
  using assms(1)
  by (rule_tac queued_meta [OF assms(2,3)]) (cases "xs = []"; simp add: Len_def View_def not_le)

text \<open>The operations refine the lists.\<close>

lemma rep_head:
  assumes "queueRep B s Q n" and "q \<noteq> []"
  obtains h where "queued B (qdb s) q h (Q q)" and "h + length (Q q) \<le> n" and "h + length (Q q) < 2 ^ 64"
  using assms by (force simp: queueRep_def)

lemma rep_same: "queueRep B s Q n \<Longrightarrow> n + 1 < 2 ^ 64 \<Longrightarrow> queueRep B s Q (n + 1)"
  by (auto simp: queueRep_def) (metis le_SucI)

lemma rep_upd:
  assumes "queueRep B s Q n" and "n + 1 < 2 ^ 64" and "queued B (qdb s') q h xs" and "h + length xs \<le> n + 1"
    and "installs B ops (qdb s) (qdb s')" and "dom ops \<subseteq> insert (metadataKey q) (range (dataKey q))"
  shows "queueRep B s' (Q(q := xs)) (n + 1)"
  unfolding queueRep_def
proof (intro conjI allI impI)
  fix q' :: gostring assume "q' \<noteq> []"
  show "\<exists>h. h + length ((Q(q := xs)) q') \<le> n + 1 \<and> queued B (qdb s') q' h ((Q(q := xs)) q')"
  proof (cases "q' = q")
    case True
    with assms(3,4) show ?thesis by auto
  next
    case False
    obtain h' where h': "queued B (qdb s) q' h' (Q q')" "h' + length (Q q') \<le> n"
      using rep_head [OF assms(1) \<open>q' \<noteq> []\<close>] by blast
    from installs_other_queue [OF assms(5,6) False h'(1)] h'(2) False show ?thesis
      by (intro exI [of _ h']) simp
  qed
qed (fact assms(2))

lemma Push_refines:
  assumes "queueRep B s Q n" and "n + 1 < 2 ^ 64" and "q \<noteq> []" and "Push B now s q v = (s', r)"
  shows "case r of Inl e \<Rightarrow> \<exists>b. e = QBadger b | Inr _ \<Rightarrow> queueRep B s' (Q(q := Q q @ [v])) (n + 1)"
proof -
  obtain h where h: "queued B (qdb s) q h (Q q)" "h + length (Q q) \<le> n"
    using rep_head [OF assms(1,3)] by blast
  show ?thesis
  proof (cases r)
    case (Inl e)
    then show ?thesis using Push_fails [of now s q v s' e] assms(3,4) h(1) by simp
  next
    case (Inr u)
    with assms(4) have push: "Push B now s q v = (s', Inr ())" by simp
    have "queued B (qdb s') q h (Q q @ [v])" using push h assms(2) by (intro Push_queued) auto
    from rep_upd [OF assms(1,2) this _ Push_installs [OF push h(1)]] h(2) Inr show ?thesis by auto
  qed
qed

lemma Pop_refines:
  assumes "queueRep B s Q n" and "n + 1 < 2 ^ 64" and "q \<noteq> []" and "Pop B now s q = (s', r)"
  shows "case r of
      Inl e \<Rightarrow> (if Q q = [] then e = ErrQueueEmpty \<and> s' = s else \<exists>b. e = QBadger b)
    | Inr v \<Rightarrow> Q q \<noteq> [] \<and> v = hd (Q q) \<and> queueRep B s' (Q(q := tl (Q q))) (n + 1)"
proof -
  obtain h where h: "queued B (qdb s) q h (Q q)" "h + length (Q q) \<le> n" "h + length (Q q) < 2 ^ 64"
    using rep_head [OF assms(1,3)] by blast
  show ?thesis
  proof (cases "Q q")
    case Nil
    with assms(4) Pop_empty [OF assms(3), of s h now] h(1) show ?thesis by (auto simp: Nil)
  next
    case (Cons x xs)
    show ?thesis
    proof (cases r)
      case (Inl e)
      then show ?thesis using Pop_fails [OF _ assms(3) h(1) _ h(3)] assms(4) Cons by auto
    next
      case (Inr v)
      with assms(4) have pop: "Pop B now s q = (s', Inr v)" by simp
      note h' = h [unfolded Cons]
      from rep_upd [OF assms(1,2) _ _ Pop_installs [OF pop h'(1,3), THEN conjunct2]]
        Pop_queued [OF pop h'(1,3)] h(2) Inr Cons show ?thesis by auto
    qed
  qed
qed

lemma Clear_refines:
  assumes "queueRep B s Q n" and "n + 1 < 2 ^ 64" and "q \<noteq> []" and "Clear B now s q = (s', r)"
  shows "case r of Inl e \<Rightarrow> \<exists>b. e = QBadger b | Inr _ \<Rightarrow> queueRep B s' (Q(q := [])) (n + 1)"
proof -
  obtain h where h: "queued B (qdb s) q h (Q q)" using rep_head [OF assms(1,3)] by blast
  show ?thesis
  proof (cases r)
    case (Inl e)
    then show ?thesis using Clear_fails [of now s q s' e] assms(3,4) h by simp
  next
    case (Inr u)
    with assms(4) have clr: "Clear B now s q = (s', Inr ())" by simp
    then obtain ops where "installs B ops (qdb s) (qdb s')" "dom ops \<subseteq> insert (metadataKey q) (range (dataKey q))"
      using Clear_installs by blast
    from rep_upd [OF assms(1,2) Clear_queued [OF clr] _ this] Inr show ?thesis by simp
  qed
qed

lemma exec_invalid: "qopName op = [] \<Longrightarrow> execQueue B now s op = (s, Fail ErrInvalidQueue)"
  by (cases op) (simp_all add: Push_def Pop_def Peek_def Len_def Clear_def resOf_def)

lemma execQueue_refines:
  assumes rep: "queueRep B s Q n" and n: "n + 1 < 2 ^ 64" and e: "execQueue B now s op = (s', r)"
    and ok: "\<not> badgerFailed r"
  shows "r = snd (fifoStep Q op) \<and> queueRep B s' (fst (fifoStep Q op)) (n + 1)"
proof (cases "qopName op = []")
  case True
  then show ?thesis using e exec_invalid [OF True, of now s] rep_same [OF rep n] by (auto simp: fifoStep_def)
next
  case False
  obtain h where h: "queued B (qdb s) (qopName op) h (Q (qopName op))" "h + length (Q (qopName op)) < 2 ^ 64"
    using rep_head [OF rep False] by blast
  show ?thesis
  proof (cases op)
    case (QPush q v)
    then show ?thesis using False e ok Push_refines [OF rep n, of q now v]
      by (cases "Push B now s q v") (auto simp: fifoStep_def resOf_def split: sum.splits)
  next
    case (QPop q)
    then show ?thesis using False e ok Pop_refines [OF rep n, of q now] rep_same [OF rep n]
      by (cases "Pop B now s q") (auto simp: fifoStep_def resOf_def split: sum.splits list.splits if_splits)
  next
    case (QPeek q)
    then show ?thesis using False e Peek_queued [OF _ h, of now] rep_same [OF rep n]
      by (auto simp: fifoStep_def resOf_def split: list.splits)
  next
    case (QLen q)
    then show ?thesis using False e Len_queued [OF _ h, of now] rep_same [OF rep n]
      by (auto simp: fifoStep_def resOf_def)
  next
    case (QClear q)
    then show ?thesis using False e ok Clear_refines [OF rep n, of q now]
      by (cases "Clear B now s q") (auto simp: fifoStep_def resOf_def split: sum.splits)
  qed
qed

lemma queueRep_fresh:
  assumes "\<And>u q. dbGet B d u (metadataKey q) = Inl BadgerErrKeyNotFound"
  shows "queueRep B \<lparr>qdb = d\<rparr> (\<lambda>_. []) 0"
proof -
  have "queued B d q 0 []" for q
    using assms by (simp add: queued_def getMetadata_def dbGet_def)
  then show ?thesis by (auto simp: queueRep_def)
qed

end

sublocale badger_store \<subseteq> legacy: fifo_store "queueRep B" "execQueue B"
proof unfold_locales
  fix now s s' and op :: qop and r
  assume "execQueue B now s op = (s', r)" and "badgerFailed r"
  then show "s' = s"
    by (cases op) (auto simp: resOf_def Push_def Pop_def Clear_def map_prod_def split: prod.splits sum.splits
        if_splits dest: qUpdate_error)
next
  fix now s s' Q n and op :: qop and r
  assume rep: "queueRep B s Q n" and n: "n + 1 < 2 ^ 64" and e: "execQueue B now s op = (s', r)"
    and ok: "\<not> badgerFailed r"
  show "r = snd (fifoStep Q op) \<and> queueRep B s' (fst (fifoStep Q op)) (n + 1)"
    by (rule execQueue_refines [OF rep n e ok])
next
  fix s Q and n m :: nat
  assume "queueRep B s Q n" and "n \<le> m" and "m < 2 ^ 64"
  then show "queueRep B s Q m"
    by (auto simp: queueRep_def) (metis le_trans)
qed

context badger_store
begin

lemmas legacy_run_refines = legacy.run_refines

end

section \<open>Properties\<close>

text \<open>C6: any sequence of \<open>Push\<close>, \<open>Pop\<close>, \<open>Peek\<close>, \<open>Len\<close> and \<open>Clear\<close> on any number of queues
  answers as first-in-first-out lists would, one independent list per name, \<open>ErrQueueEmpty\<close> on an
  empty one and \<open>ErrInvalidQueue\<close> for the empty name; an operation that Badger makes fail has no
  effect.  Positions are 64-bit, so the total of operations stays below \<open>2 ^ 64\<close>.\<close>

theorem queue_refines_fifo:
  assumes "badger_store B" and "queueRep B s Q n" and "n + length ops < 2 ^ 64"
    and "storeRun (execQueue B) s ops = (s', rs)"
  shows "\<exists>Q'. fifoRun Q (zip (map snd ops) rs) = (Q', rs) \<and> queueRep B s' Q' (n + length ops)"
  using assms by (rule badger_store.legacy_run_refines)

theorem queue_refines_fifo_witness:
  "\<exists>s' Q'. storeRun (execQueue mem_badger) \<lparr>qdb = []\<rparr>
       [(0, QPush [113] [1]), (0, QPush [113] [2]), (0, QPop [113]), (0, QLen [113])] =
       (s', [Done, Done, Val [1], Num 1]) \<and> queueRep mem_badger s' Q' 4"
proof -
  let ?ops = "[(0 :: time, QPush [113] [1]), (0, QPush [113] [2]), (0, QPop [113]), (0, QLen [113])]"
  have r: "snd (storeRun (execQueue mem_badger) \<lparr>qdb = []\<rparr> ?ops) = [Done, Done, Val [1], Num 1]"
    by code_simp
  then obtain s' where run: "storeRun (execQueue mem_badger) \<lparr>qdb = []\<rparr> ?ops = (s', [Done, Done, Val [1], Num 1])"
    by (metis prod.collapse)
  have rep: "queueRep mem_badger \<lparr>qdb = []\<rparr> (\<lambda>_. []) 0"
    by (rule mem.queueRep_fresh) (simp add: mem_eval)
  have "0 + length ?ops < 2 ^ 64" by simp
  from queue_refines_fifo [OF mem.badger_store_axioms rep this run]
  obtain Q' where "queueRep mem_badger s' Q' (0 + length ?ops)" by blast
  then have "queueRep mem_badger s' Q' 4" by (simp add: numeral_eq_Suc)
  with run show ?thesis by blast
qed

text \<open>On a queue of \<open>n\<close> items \<open>Pop\<close> returns the oldest and removes it, unless Badger fails and
  nothing changes; it never answers \<open>ErrQueueEmpty\<close> while an item is left, and on an empty queue it
  always does.\<close>

theorem queue_pop:
  assumes "badger_store B" and "queueRep B s Q n" and "n + 1 < 2 ^ 64" and "q \<noteq> []" and "Pop B now s q = (s', r)"
  shows "case r of
      Inl e \<Rightarrow> s' = s \<and> (if Q q = [] then e = ErrQueueEmpty else \<exists>b. e = QBadger b)
    | Inr v \<Rightarrow> Q q \<noteq> [] \<and> v = hd (Q q) \<and> queueRep B s' (Q(q := tl (Q q))) (n + 1)"
  using badger_store.Pop_refines [OF assms] badger_store.qUpdate_error [OF assms(1), of s "popBody B now q" s']
    assms(4,5)
  by (auto simp: Pop_def split: sum.splits if_splits)

theorem queue_pop_witness: "Pop mem_badger 0 \<lparr>qdb = []\<rparr> [113] = (\<lparr>qdb = []\<rparr>, Inl ErrQueueEmpty)"
proof -
  have rep: "queueRep mem_badger \<lparr>qdb = []\<rparr> (\<lambda>_. []) 0"
    by (rule mem.queueRep_fresh) (simp add: mem_eval)
  obtain s' r where p: "Pop mem_badger 0 \<lparr>qdb = []\<rparr> [113] = (s', r)" by (cases "Pop mem_badger 0 \<lparr>qdb = []\<rparr> [113]")
  from queue_pop [OF mem.badger_store_axioms rep _ _ p] p show ?thesis by (cases r) auto
qed

end
