(* ===== verification/QueueAck.thy ===== *)
theory QueueAck
  imports Queue
begin

text \<open>
  The operations of \<open>src/internal/queue/storage_ack.go\<close>, the API of \<open>queue.go\<close> and the worker of
  \<open>worker.go\<close>.
\<close>

section \<open>Steps\<close>

text \<open>A step of an operation panics (\<open>None\<close>), returns an error, or goes on; \<open>checked\<close> is
  \<open>if err != nil { return err }\<close>.\<close>

type_synonym 'a step = "(queue_err + 'a) option"

definition checked :: "('e + 'a) option \<Rightarrow> ('a \<Rightarrow> ('e + 'b) option) \<Rightarrow> ('e + 'b) option" where
  "checked m k =
     (case m of
        None \<Rightarrow> None
      | Some (Inl e) \<Rightarrow> Some (Inl e)
      | Some (Inr a) \<Rightarrow> k a)"

definition badgerCall :: "badger_err + 'a \<Rightarrow> 'a step" where
  "badgerCall r = Some (case r of Inl e \<Rightarrow> Inl (QBadger e) | Inr a \<Rightarrow> Inr a)"

definition formatted :: "'a decoded \<Rightarrow> 'a step" where
  "formatted r = map_option (\<lambda>r. case r of Inl m \<Rightarrow> Inl (QFormat m) | Inr a \<Rightarrow> Inr a) r"

definition qUpdateP ::
  "('db, 'txn) badger \<Rightarrow> 'db QueueStorage \<Rightarrow> ('txn \<Rightarrow> ('txn \<times> 'a) step) \<Rightarrow>
   ('db QueueStorage \<times> (queue_err + 'a)) option" where
  "qUpdateP B q fn = map_option (\<lambda>(d, r). (q\<lparr>qdb := d\<rparr>, r)) (UpdateP B QBadger (qdb q) fn)"

text \<open>\<open>time.Now().UnixMilli()\<close> (rounds down) and \<open>Duration.Milliseconds()\<close> (rounds towards 0).\<close>

definition UnixMilli :: "time \<Rightarrow> int64" where
  "UnixMilli now = word_of_int (now div 1000000)"

definition Milliseconds :: "duration \<Rightarrow> int64" where
  "Milliseconds d = word_of_int (if d < 0 then - (- d div 1000000) else d div 1000000)"

section \<open>Configuration\<close>

definition SetQueueConfig ::
  "('db, 'txn) badger \<Rightarrow> time \<Rightarrow> 'db QueueStorage \<Rightarrow> QueueConfig \<Rightarrow>
   ('db QueueStorage \<times> (queue_err + unit)) option" where
  "SetQueueConfig B now q cfg =
     (if cfgName cfg = [] then Some (q, Inl ErrInvalidQueue)
      else qUpdateP B q (\<lambda>txn. do {
        data \<leftarrow> encodeQueueConfig cfg;
        checked (badgerCall (txnSetEntry B txn now (queueConfigKey (cfgName cfg)) data 0)) (\<lambda>txn.
        Some (Inr (txn, ())))
      }))"

definition GetQueueConfig ::
  "('db, 'txn) badger \<Rightarrow> time \<Rightarrow> 'db QueueStorage \<Rightarrow> gostring \<Rightarrow> QueueConfig step" where
  "GetQueueConfig B now q queueName =
     (if queueName = [] then Some (Inl ErrInvalidQueue)
      else View B (qdb q) (\<lambda>txn.
        case txnGet B txn now (queueConfigKey queueName) of
          Inl BadgerErrKeyNotFound \<Rightarrow>
            Some (Inr \<lparr>cfgName = queueName, DeadLetterQueue = [], MaxRetries = 3,
              DefaultVisibilityTimeout = 30000\<rparr>)
        | Inl e \<Rightarrow> Some (Inl (QBadger e))
        | Inr val \<Rightarrow> formatted (decodeQueueConfig val)))"

section \<open>Messages\<close>

definition pushMessageBody ::
  "('db, 'txn) badger \<Rightarrow> time \<Rightarrow> gostring \<Rightarrow> QueueMessage \<Rightarrow> 'txn \<Rightarrow> ('txn \<times> unit) step" where
  "pushMessageBody B now queueName msg txn = do {
     let msgKey = messageKey queueName (msgID msg);
     msgData \<leftarrow> encodeQueueMessage msg;
     checked (badgerCall (txnSetEntry B txn now msgKey msgData 0)) (\<lambda>txn.
     checked (badgerCall (txnSetEntry B txn now (messageIndexKey queueName StatePending (msgID msg)) [1] 0)) (\<lambda>txn.
     Some (Inr (txn, ()))))
   }"

definition PushMessage ::
  "('db, 'txn) badger \<Rightarrow> time \<Rightarrow> gostring \<Rightarrow> 'db QueueStorage \<Rightarrow> gostring \<Rightarrow> bytes \<Rightarrow>
   ('db QueueStorage \<times> (queue_err + gostring)) option" where
  "PushMessage B now uuid q queueName val =
     (if queueName = [] then Some (q, Inl ErrInvalidQueue)
      else
        let messageID = uuid;
            msg = \<lparr>msgID = messageID, msgValue = val, State = StatePending, DeliveryCount = 0,
              ConsumerID = [], EnqueuedAt = UnixMilli now, InFlightAt = 0, VisibilityTimeout = 0,
              msgMaxRetries = 0\<rparr>
        in map_option (\<lambda>(q, r). (q, map_sum id (\<lambda>_. messageID) r))
             (qUpdateP B q (pushMessageBody B now queueName msg)))"

definition popMessageBody ::
  "('db, 'txn) badger \<Rightarrow> time \<Rightarrow> gostring \<Rightarrow> gostring \<Rightarrow> duration \<Rightarrow> 'txn \<Rightarrow> ('txn \<times> QueueMessage) step" where
  "popMessageBody B now queueName consumerID visibilityTimeout txn =
     (let pre = indexPrefix queueName StatePending in
      case txnIterate B txn now pre of
        [] \<Rightarrow> Some (Inl ErrQueueEmpty)
      | (indexKey, _) # _ \<Rightarrow>
          let messageID = drop (length pre) indexKey;
              msgKey = messageKey queueName messageID
          in checked (badgerCall (txnGet B txn now msgKey)) (\<lambda>val.
             checked (formatted (decodeQueueMessage val)) (\<lambda>msg. do {
               let msg = msg\<lparr>State := StateInFlight, ConsumerID := consumerID,
                 InFlightAt := UnixMilli now, VisibilityTimeout := Milliseconds visibilityTimeout,
                 DeliveryCount := DeliveryCount msg + 1\<rparr>;
               msgData \<leftarrow> encodeQueueMessage msg;
               checked (badgerCall (txnSetEntry B txn now msgKey msgData 0)) (\<lambda>txn.
               checked (badgerCall (txnDelete B txn (messageIndexKey queueName StatePending messageID))) (\<lambda>txn.
               checked (badgerCall (txnSetEntry B txn now (messageIndexKey queueName StateInFlight messageID) [1] 0)) (\<lambda>txn.
               Some (Inr (txn, msg)))))
             })))"

definition PopMessage ::
  "('db, 'txn) badger \<Rightarrow> time \<Rightarrow> 'db QueueStorage \<Rightarrow> gostring \<Rightarrow> gostring \<Rightarrow> duration \<Rightarrow>
   ('db QueueStorage \<times> (queue_err + QueueMessage)) option" where
  "PopMessage B now q queueName consumerID visibilityTimeout =
     (if queueName = [] then Some (q, Inl ErrInvalidQueue)
      else qUpdateP B q (popMessageBody B now queueName consumerID visibilityTimeout))"

text \<open>Reading the message that an \<open>Ack\<close> or a \<open>Nack\<close> names.\<close>

definition readMessage :: "('db, 'txn) badger \<Rightarrow> time \<Rightarrow> bytes \<Rightarrow> 'txn \<Rightarrow> QueueMessage step" where
  "readMessage B now msgKey txn =
     (case txnGet B txn now msgKey of
        Inl BadgerErrKeyNotFound \<Rightarrow> Some (Inl ErrMessageNotFound)
      | Inl e \<Rightarrow> Some (Inl (QBadger e))
      | Inr val \<Rightarrow> formatted (decodeQueueMessage val))"

text \<open>Delete a message and its index entry.\<close>

definition dropMessage ::
  "('db, 'txn) badger \<Rightarrow> gostring \<Rightarrow> MessageState \<Rightarrow> gostring \<Rightarrow> 'txn \<Rightarrow> ('txn \<times> unit) step" where
  "dropMessage B queueName state messageID txn =
     checked (badgerCall (txnDelete B txn (messageKey queueName messageID))) (\<lambda>txn.
     checked (badgerCall (txnDelete B txn (messageIndexKey queueName state messageID))) (\<lambda>txn.
     Some (Inr (txn, ()))))"

definition ackBody ::
  "('db, 'txn) badger \<Rightarrow> time \<Rightarrow> gostring \<Rightarrow> gostring \<Rightarrow> 'txn \<Rightarrow> ('txn \<times> unit) step" where
  "ackBody B now queueName messageID txn =
     checked (readMessage B now (messageKey queueName messageID) txn) (\<lambda>msg.
     dropMessage B queueName (State msg) messageID txn)"

definition AckMessage ::
  "('db, 'txn) badger \<Rightarrow> time \<Rightarrow> 'db QueueStorage \<Rightarrow> gostring \<Rightarrow> gostring \<Rightarrow>
   ('db QueueStorage \<times> (queue_err + unit)) option" where
  "AckMessage B now q queueName messageID =
     (if queueName = [] \<or> messageID = [] then Some (q, Inl ErrInvalidQueue)
      else qUpdateP B q (ackBody B now queueName messageID))"

definition moveToDeadLetter ::
  "('db, 'txn) badger \<Rightarrow> time \<Rightarrow> gostring \<Rightarrow> 'txn \<Rightarrow> gostring \<Rightarrow> gostring \<Rightarrow> QueueMessage \<Rightarrow> ('txn \<times> unit) step"
where
  "moveToDeadLetter B now uuid txn sourceQueue dlqName msg =
     checked (badgerCall (txnDelete B txn (messageKey sourceQueue (msgID msg)))) (\<lambda>txn.
     checked (badgerCall (txnDelete B txn (messageIndexKey sourceQueue (State msg) (msgID msg)))) (\<lambda>txn.
     pushMessageBody B now dlqName
       \<lparr>msgID = uuid, msgValue = msgValue msg, State = StatePending, DeliveryCount = DeliveryCount msg,
         ConsumerID = [], EnqueuedAt = UnixMilli now, InFlightAt = 0, VisibilityTimeout = 0,
         msgMaxRetries = 0\<rparr> txn))"

text \<open>\<open>NackMessage\<close> reads the configuration through the storage, that is from the committed state, not
  through its own transaction.\<close>

definition nackBody ::
  "('db, 'txn) badger \<Rightarrow> time \<Rightarrow> gostring \<Rightarrow> 'db QueueStorage \<Rightarrow> gostring \<Rightarrow> gostring \<Rightarrow> bool \<Rightarrow> 'txn \<Rightarrow>
   ('txn \<times> unit) step" where
  "nackBody B now uuid q queueName messageID requeue txn =
     (let msgKey = messageKey queueName messageID in
      checked (readMessage B now msgKey txn) (\<lambda>msg.
      checked (GetQueueConfig B now q queueName) (\<lambda>cfg.
        if MaxRetries cfg \<le>s DeliveryCount msg \<and> 0 <s MaxRetries cfg then
          if DeadLetterQueue cfg \<noteq> [] then moveToDeadLetter B now uuid txn queueName (DeadLetterQueue cfg) msg
          else dropMessage B queueName (State msg) messageID txn
        else if \<not> requeue then dropMessage B queueName (State msg) messageID txn
        else do {
          let oldState = State msg;
          let msg = msg\<lparr>State := StatePending, ConsumerID := [], InFlightAt := 0\<rparr>;
          msgData \<leftarrow> encodeQueueMessage msg;
          checked (badgerCall (txnSetEntry B txn now msgKey msgData 0)) (\<lambda>txn.
          checked (badgerCall (txnDelete B txn (messageIndexKey queueName oldState messageID))) (\<lambda>txn.
          checked (badgerCall (txnSetEntry B txn now (messageIndexKey queueName StatePending messageID) [1] 0)) (\<lambda>txn.
          Some (Inr (txn, ())))))
        })))"

definition NackMessage ::
  "('db, 'txn) badger \<Rightarrow> time \<Rightarrow> gostring \<Rightarrow> 'db QueueStorage \<Rightarrow> gostring \<Rightarrow> gostring \<Rightarrow> bool \<Rightarrow>
   ('db QueueStorage \<times> (queue_err + unit)) option" where
  "NackMessage B now uuid q queueName messageID requeue =
     (if queueName = [] \<or> messageID = [] then Some (q, Inl ErrInvalidQueue)
      else qUpdateP B q (nackBody B now uuid q queueName messageID requeue))"

section \<open>Visibility timeouts\<close>

text \<open>\<open>continue\<close> on every error; the two loops of \<open>RequeueExpiredMessages\<close>.\<close>

definition expired :: "int64 \<Rightarrow> QueueMessage \<Rightarrow> bool" where
  "expired now msg \<longleftrightarrow> 0 <s VisibilityTimeout msg \<and> InFlightAt msg + VisibilityTimeout msg <s now"

fun expiredLoop ::
  "('db, 'txn) badger \<Rightarrow> time \<Rightarrow> gostring \<Rightarrow> 'txn \<Rightarrow> (bytes \<times> (badger_err + bytes)) list \<Rightarrow> gostring list option"
where
  "expiredLoop B now queueName txn [] = Some []"
| "expiredLoop B now queueName txn ((indexKey, r) # items) =
     (let messageID = drop (length (indexPrefix queueName StateInFlight)) indexKey in
      case txnGet B txn now (messageKey queueName messageID) of
        Inl e \<Rightarrow> expiredLoop B now queueName txn items
      | Inr val \<Rightarrow>
          (case decodeQueueMessage val of
             None \<Rightarrow> None
           | Some (Inl e) \<Rightarrow> expiredLoop B now queueName txn items
           | Some (Inr msg) \<Rightarrow>
               (if expired (UnixMilli now) msg
                then map_option ((#) messageID) (expiredLoop B now queueName txn items)
                else expiredLoop B now queueName txn items)))"

fun requeueLoop ::
  "('db, 'txn) badger \<Rightarrow> time \<Rightarrow> gostring \<Rightarrow> gostring list \<Rightarrow> 'txn \<Rightarrow> nat \<Rightarrow> ('txn \<times> nat) option" where
  "requeueLoop B now queueName [] txn count = Some (txn, count)"
| "requeueLoop B now queueName (messageID # ids) txn count =
     (let msgKey = messageKey queueName messageID in
      case txnGet B txn now msgKey of
        Inl e \<Rightarrow> requeueLoop B now queueName ids txn count
      | Inr val \<Rightarrow>
          (case decodeQueueMessage val of
             None \<Rightarrow> None
           | Some (Inl e) \<Rightarrow> requeueLoop B now queueName ids txn count
           | Some (Inr msg) \<Rightarrow>
               (case encodeQueueMessage (msg\<lparr>State := StatePending, ConsumerID := [], InFlightAt := 0\<rparr>) of
                  None \<Rightarrow> None
                | Some msgData \<Rightarrow>
                    (case txnSetEntry B txn now msgKey msgData 0 of
                       Inl e \<Rightarrow> requeueLoop B now queueName ids txn count
                     | Inr txn \<Rightarrow>
                         let txn = (case txnDelete B txn (messageIndexKey queueName StateInFlight messageID) of
                               Inl e \<Rightarrow> txn | Inr txn' \<Rightarrow> txn')
                         in case txnSetEntry B txn now (messageIndexKey queueName StatePending messageID) [1] 0 of
                             Inl e \<Rightarrow> requeueLoop B now queueName ids txn count
                           | Inr txn \<Rightarrow> requeueLoop B now queueName ids txn (count + 1)))))"

definition requeueBody :: "('db, 'txn) badger \<Rightarrow> time \<Rightarrow> gostring \<Rightarrow> 'txn \<Rightarrow> ('txn \<times> nat) step" where
  "requeueBody B now queueName txn = do {
     ids \<leftarrow> expiredLoop B now queueName txn (txnIterate B txn now (indexPrefix queueName StateInFlight));
     (txn, count) \<leftarrow> requeueLoop B now queueName ids txn 0;
     Some (Inr (txn, count))
   }"

definition RequeueExpiredMessages ::
  "('db, 'txn) badger \<Rightarrow> time \<Rightarrow> 'db QueueStorage \<Rightarrow> gostring \<Rightarrow>
   ('db QueueStorage \<times> (queue_err + nat)) option" where
  "RequeueExpiredMessages B now q queueName =
     (if queueName = [] then Some (q, Inl ErrInvalidQueue)
      else qUpdateP B q (requeueBody B now queueName))"

end
