(* ===== verification/QueueMessages.thy ===== *)
theory QueueMessages
  imports QueueAck QueueCodec
begin

text \<open>
  What the acknowledged queues store: a map from queue and message identifier to message, kept as a
  message entry and an index entry under the message's state.  \<open>msgRep\<close> relates the reads of a
  database (or of a running transaction) to such a map; the writes of the operations keep it.
  The scans by prefix are only right for queue names without a colon, the separator of the keys.
\<close>

section \<open>Keys\<close>

definition clean :: "gostring \<Rightarrow> bool" where
  "clean s \<longleftrightarrow> 58 \<notin> set s"

lemma colon: "lit '':'' = [58]"
  by (simp add: lit_def)

lemma split_colon:
  "clean a \<Longrightarrow> clean b \<Longrightarrow> a @ 58 # r = b @ 58 # r' \<longleftrightarrow> a = b \<and> r = r'"
proof (induction a arbitrary: b)
  case Nil
  then show ?case by (cases b) (auto simp: clean_def)
next
  case (Cons x a)
  then show ?case by (cases b) (auto simp: clean_def)
qed

lemma digits: "c \<in> set (dec n) \<Longrightarrow> 48 \<le> (of_char c :: nat) \<and> of_char c < (58 :: nat)"
proof (induction n rule: dec.induct)
  case (1 n)
  show ?case
  proof (cases "n < 10")
    case True
    with 1(2) show ?thesis by (subst (asm) dec.simps) auto
  next
    case False
    with 1 show ?thesis by (subst (asm) (2) dec.simps) auto
  qed
qed

lemma dec_int_chars: "c \<in> set (dec_int z) \<Longrightarrow> (of_char c :: nat) < 58"
  using digits by (fastforce simp: dec_int_def split: if_splits)

lemma clean_dec_int [simp]: "clean (lit (dec_int z))"
proof -
  have "(word_of_nat (of_char c) :: byte) \<noteq> 58" if "c \<in> set (dec_int z)" for c
  proof
    assume "(word_of_nat (of_char c) :: byte) = 58"
    then have "unat (word_of_nat (of_char c) :: byte) = unat (58 :: byte)" by simp
    with dec_int_chars [OF that] show False by (simp add: unat_of_nat)
  qed
  then show ?thesis by (auto simp: clean_def lit_def)
qed

lemma inj_dec_int [simp]: "dec_int y = dec_int z \<longleftrightarrow> y = z"
proof
  assume eq: "dec_int y = dec_int z"
  have "CHR ''-'' \<notin> set (dec n)" for n using digits [of "CHR ''-''" n] by auto
  then have "(y < 0) = (z < 0)" using eq by (auto simp: dec_int_def split: if_splits) (metis list.set_intros(1))+
  with eq show "y = z" by (auto simp: dec_int_def split: if_splits)
qed simp

lemma state_text [simp]: "lit (dec_int (sint (st :: MessageState))) = lit (dec_int (sint st')) \<longleftrightarrow> st = st'"
  by (auto simp: inj_lit intro: signed_word_eqI)

lemma messageKey_inj [key_simps]:
  "clean q \<Longrightarrow> clean q' \<Longrightarrow> messageKey q i = messageKey q' i' \<longleftrightarrow> q = q' \<and> i = i'"
  by (simp add: messageKey_def colon split_colon)

lemma messageIndexKey_inj [key_simps]:
  "clean q \<Longrightarrow> clean q' \<Longrightarrow> messageIndexKey q st i = messageIndexKey q' st' i' \<longleftrightarrow> q = q' \<and> st = st' \<and> i = i'"
  by (simp add: messageIndexKey_def colon split_colon)

lemma message_index_distinct [key_simps]:
  "messageKey q i \<noteq> messageIndexKey q' st i'" "messageIndexKey q' st i' \<noteq> messageKey q i"
  by (simp_all add: messageKey_def messageIndexKey_def lit_def)

lemma not_index_key [simp]: "\<not> prefix (lit ''queue:idx:'') (messageKey q i)"
  by (simp add: messageKey_def lit_def)

lemma index_key [simp]: "prefix (lit ''queue:idx:'') (messageIndexKey q st i)"
  by (simp add: messageIndexKey_def)

lemma index_prefix_key: "messageIndexKey q st i = indexPrefix q st @ i"
  by (simp add: messageIndexKey_def indexPrefix_def)

lemma prefix_index [key_simps]:
  "clean q \<Longrightarrow> clean q' \<Longrightarrow> prefix (indexPrefix q st) (messageIndexKey q' st' i) \<longleftrightarrow> q = q' \<and> st = st'"
  by (auto simp: prefix_def indexPrefix_def messageIndexKey_def colon split_colon)

section \<open>Messages behind a read function\<close>

type_synonym reads = "time \<Rightarrow> bytes \<Rightarrow> badger_err + bytes"
type_synonym messages = "gostring \<times> gostring \<rightharpoonup> QueueMessage"

definition indexed :: "messages \<Rightarrow> bytes \<Rightarrow> bool" where
  "indexed M k \<longleftrightarrow> (\<exists>q i m. M (q, i) = Some m \<and> k = messageIndexKey q (State m) i)"

definition msgRep :: "reads \<Rightarrow> messages \<Rightarrow> bool" where
  "msgRep g M \<longleftrightarrow>
     (\<forall>q i u. clean q \<longrightarrow> g u (messageKey q i) =
        (case M (q, i) of None \<Rightarrow> Inl BadgerErrKeyNotFound | Some m \<Rightarrow> Inr (messageBytes m))) \<and>
     (\<forall>k u. prefix (lit ''queue:idx:'') k \<longrightarrow>
        g u k = (if indexed M k then Inr [1] else Inl BadgerErrKeyNotFound)) \<and>
     (\<forall>q i m. M (q, i) = Some m \<longrightarrow> clean q \<and> msgID m = i \<and> wfMessage m)"

definition gput :: "bytes \<Rightarrow> bytes \<Rightarrow> reads \<Rightarrow> reads" where
  "gput k v g = (\<lambda>u j. if j = k then Inr v else g u j)"

definition gdel :: "bytes \<Rightarrow> reads \<Rightarrow> reads" where
  "gdel k g = (\<lambda>u j. if j = k then Inl BadgerErrKeyNotFound else g u j)"

lemma msgRep_message: "msgRep g M \<Longrightarrow> clean q \<Longrightarrow>
   g u (messageKey q i) = (case M (q, i) of None \<Rightarrow> Inl BadgerErrKeyNotFound | Some m \<Rightarrow> Inr (messageBytes m))"
  by (simp add: msgRep_def)

lemma msgRep_wf: "msgRep g M \<Longrightarrow> M (q, i) = Some m \<Longrightarrow> clean q \<and> msgID m = i \<and> wfMessage m"
  by (simp add: msgRep_def)

lemma indexed_key:
  assumes "\<And>q i m. M (q, i) = Some m \<Longrightarrow> clean q" and "clean q"
  shows "indexed M (messageIndexKey q st i) \<longleftrightarrow> (\<exists>m. M (q, i) = Some m \<and> State m = st)"
  using assms by (force simp: indexed_def key_simps)

text \<open>Writing a message with its index entry (and without the old one), and deleting both.\<close>

lemma indexed_upd:
  assumes "\<And>q i m. M (q, i) = Some m \<Longrightarrow> clean q" and "clean q"
  shows "indexed (M((q, i) := mo)) k \<longleftrightarrow>
    (if \<exists>st. k = messageIndexKey q st i then \<exists>m. mo = Some m \<and> k = messageIndexKey q (State m) i else indexed M k)"
  using assms by (auto simp: indexed_def key_simps split: if_splits) (metis key_simps)+

lemma msgRep_upd:
  assumes rep: "msgRep g M" and q: "clean q"
    and msg: "\<And>u. g' u (messageKey q i) = (case mo of None \<Rightarrow> Inl BadgerErrKeyNotFound | Some m \<Rightarrow> Inr (messageBytes m))"
    and idx: "\<And>u st. g' u (messageIndexKey q st i) =
      (if \<exists>m. mo = Some m \<and> State m = st then Inr [1] else Inl BadgerErrKeyNotFound)"
    and other: "\<And>u k. k \<noteq> messageKey q i \<Longrightarrow> (\<And>st. k \<noteq> messageIndexKey q st i) \<Longrightarrow> g' u k = g u k"
    and wf: "\<And>m. mo = Some m \<Longrightarrow> msgID m = i \<and> wfMessage m"
  shows "msgRep g' (M((q, i) := mo))"
  unfolding msgRep_def
proof (intro conjI allI impI)
  fix q' i' u assume "clean q'"
  show "g' u (messageKey q' i') = (case (M((q, i) := mo)) (q', i') of
      None \<Rightarrow> Inl BadgerErrKeyNotFound | Some m \<Rightarrow> Inr (messageBytes m))"
    using msg other [of "messageKey q' i'"] msgRep_message [OF rep \<open>clean q'\<close>] q \<open>clean q'\<close>
    by (auto simp: key_simps)
next
  fix k u assume k: "prefix (lit ''queue:idx:'') k"
  then have nk: "k \<noteq> messageKey q i" using not_index_key by metis
  have "indexed (M((q, i) := mo)) k \<longleftrightarrow>
    (if \<exists>st. k = messageIndexKey q st i then \<exists>m. mo = Some m \<and> k = messageIndexKey q (State m) i else indexed M k)"
    using msgRep_wf [OF rep] q by (intro indexed_upd) auto
  then show "g' u k = (if indexed (M((q, i) := mo)) k then Inr [1] else Inl BadgerErrKeyNotFound)"
    using idx other [OF nk] rep k q by (auto simp: msgRep_def key_simps)
next
  fix q' i' m assume "(M((q, i) := mo)) (q', i') = Some m"
  then show "clean q'" "msgID m = i'" "wfMessage m"
    using msgRep_wf [OF rep] wf q by (auto split: if_splits)
qed

lemma msgRep_index:
  assumes "msgRep g M" and "clean q"
  shows "g u (messageIndexKey q st i) =
    (if \<exists>m. M (q, i) = Some m \<and> State m = st then Inr [1] else Inl BadgerErrKeyNotFound)"
  using assms indexed_key [of M q st i] by (auto simp: msgRep_def)

text \<open>The three shapes of writes: a new message, a message whose state changes, a message that goes.\<close>

lemma msgRep_new:
  assumes "msgRep g M" and "clean q" and "M (q, msgID m) = None" and "wfMessage m"
  shows "msgRep (gput (messageIndexKey q (State m) (msgID m)) [1] (gput (messageKey q (msgID m)) (messageBytes m) g))
    (M((q, msgID m) \<mapsto> m))"
  using assms
  by (intro msgRep_upd [OF assms(1,2)]) (auto simp: gput_def key_simps msgRep_index)

lemma msgRep_change:
  assumes "msgRep g M" and "M (q, i) = Some m" and "msgID m' = i" and "wfMessage m'"
  shows "msgRep (gput (messageIndexKey q (State m') i) [1] (gdel (messageIndexKey q (State m) i)
      (gput (messageKey q i) (messageBytes m') g))) (M((q, i) \<mapsto> m'))"
proof -
  have q: "clean q" using msgRep_wf [OF assms(1,2)] by blast
  show ?thesis
    using assms q
    by (intro msgRep_upd [OF assms(1) q]) (auto simp: gput_def gdel_def key_simps msgRep_index)
qed

lemma msgRep_drop:
  assumes "msgRep g M" and "M (q, i) = Some m"
  shows "msgRep (gdel (messageIndexKey q (State m) i) (gdel (messageKey q i) g)) (M((q, i) := None))"
proof -
  have q: "clean q" using msgRep_wf [OF assms] by blast
  show ?thesis
    using assms q
    by (intro msgRep_upd [OF assms(1) q]) (auto simp: gdel_def key_simps msgRep_index)
qed

text \<open>Scanning the index of a queue for a state: the identifiers in that state.\<close>

definition inState :: "messages \<Rightarrow> gostring \<Rightarrow> MessageState \<Rightarrow> gostring set" where
  "inState M q st = {i. \<exists>m. M (q, i) = Some m \<and> State m = st}"

lemma indexed_scan:
  assumes "msgRep g M" and "clean q"
  shows "{k. prefix (indexPrefix q st) k \<and> g u k \<noteq> Inl BadgerErrKeyNotFound} = (\<lambda>i. indexPrefix q st @ i) ` inState M q st"
proof -
  have idx: "g u (indexPrefix q st @ i) = (if i \<in> inState M q st then Inr [1] else Inl BadgerErrKeyNotFound)" for i
    using msgRep_index [OF assms, of u st i] by (simp add: index_prefix_key inState_def)
  show ?thesis by (auto simp: idx prefix_def split: if_splits)
qed

section \<open>Transactions without expiry\<close>

definition txnReads :: "('db, 'txn) badger \<Rightarrow> 'txn \<Rightarrow> reads" where
  "txnReads B t = (\<lambda>u k. txnGet B t u k)"

definition dbReads :: "('db, 'txn) badger \<Rightarrow> 'db \<Rightarrow> reads" where
  "dbReads B d = (\<lambda>u k. dbGet B d u k)"

definition plain_txn :: "('db, 'txn) badger \<Rightarrow> 'db \<Rightarrow> 'txn \<Rightarrow> bool" where
  "plain_txn B d t \<longleftrightarrow>
     (\<exists>ops. txn_of B d ops t \<and> (\<forall>k now v ttl. ops k = Some (Put now v ttl) \<longrightarrow> ttl \<le> 0))"

lemma plain_begin [simp]: "plain_txn B d (NewTransaction B d)"
  using txn_begin [of B d] by (fastforce simp: plain_txn_def)

lemma reads_begin: "txnReads B (NewTransaction B d) = dbReads B d"
  by (simp add: txnReads_def dbReads_def dbGet_def)

context badger_store
begin

lemma plain_set: "plain_txn B d t \<Longrightarrow> txnSetEntry B t now k v 0 = Inr t' \<Longrightarrow> plain_txn B d t'"
  unfolding plain_txn_def
  by (elim exE conjE, rule_tac x = "ops(k \<mapsto> Put now v 0)" in exI) (auto intro: txn_set)

lemma plain_del: "plain_txn B d t \<Longrightarrow> txnDelete B t k = Inr t' \<Longrightarrow> plain_txn B d t'"
  unfolding plain_txn_def
  by (elim exE conjE, rule_tac x = "ops(k \<mapsto> Del)" in exI) (auto intro: txn_del)

lemma reads_set: "txnSetEntry B t now k v 0 = Inr t' \<Longrightarrow> txnReads B t' = gput k v (txnReads B t)"
  using set_get [of t now k v 0 t'] set_get_other [of t now k v 0 t']
  by (auto simp: txnReads_def gput_def fun_eq_iff entry_reads_def)

lemma reads_del: "txnDelete B t k = Inr t' \<Longrightarrow> txnReads B t' = gdel k (txnReads B t)"
  using delete_get [of t k t'] delete_get_other [of t k t']
  by (auto simp: txnReads_def gdel_def fun_eq_iff)

lemma reads_commit:
  assumes "plain_txn B d t" and "txnCommit B d t = Inr d'"
  shows "dbReads B d' = txnReads B t"
proof -
  obtain ops where ops: "txn_of B d ops t" "\<And>k now v ttl. ops k = Some (Put now v ttl) \<Longrightarrow> ttl \<le> 0"
    using assms(1) by (auto simp: plain_txn_def)
  have "dbGet B d' u k = txnGet B t u k" for u k
    using txn_of_reads [OF ops(1), of k] commit_installs [OF ops(1) assms(2)] ops(2) [of k]
    by (auto simp: installs_def write_reads_def entry_reads_def fun_eq_iff split: option.splits dbwrite.splits
        dest!: spec [of _ k])
  then show ?thesis by (simp add: dbReads_def txnReads_def)
qed

end

end
