(* ===== verification/QueueOps.thy ===== *)
theory QueueOps
  imports QueueMessages
begin

text \<open>
  The operations of the acknowledged queues as transitions of the map of messages.  Operations are
  run with a small calculus of outcomes: \<open>outcome m P E\<close> says that the step \<open>m\<close> does not panic,
  that its errors satisfy \<open>E\<close> and its results \<open>P\<close>.
\<close>

section \<open>Outcomes\<close>

definition outcome :: "('t \<times> 'a) step \<Rightarrow> ('t \<Rightarrow> 'a \<Rightarrow> bool) \<Rightarrow> (queue_err \<Rightarrow> bool) \<Rightarrow> bool" where
  "outcome m P E \<longleftrightarrow> (\<exists>r. m = Some r \<and> (case r of Inl e \<Rightarrow> E e | Inr (t, a) \<Rightarrow> P t a))"

lemma outcome_ret: "P t a \<Longrightarrow> outcome (Some (Inr (t, a))) P E"
  and outcome_err: "E e \<Longrightarrow> outcome (Some (Inl e)) P E"
  by (simp_all add: outcome_def)

lemma checked_simps [simp]:
  "checked (Some (Inr a)) k = k a" "checked (Some (Inl e)) k = Some (Inl e)"
  "badgerCall (Inr a) = Some (Inr a)" "badgerCall (Inl b) = Some (Inl (QBadger b))"
  "formatted (Some (Inr m)) = Some (Inr m)" "formatted (Some (Inl x)) = Some (Inl (QFormat x))"
  by (simp_all add: checked_def badgerCall_def formatted_def)

text \<open>A running transaction and what it reads.\<close>

definition running :: "('db, 'txn) badger \<Rightarrow> 'db \<Rightarrow> reads \<Rightarrow> 'txn \<Rightarrow> bool" where
  "running B d g t \<longleftrightarrow> plain_txn B d t \<and> txnReads B t = g"

lemma running_begin: "running B d (dbReads B d) (NewTransaction B d)"
  by (simp add: running_def reads_begin)

lemma running_get: "running B d g t \<Longrightarrow> txnGet B t u k = g u k"
  by (auto simp: running_def txnReads_def)

lemma append_less: "xs @ a < xs @ b \<longleftrightarrow> a < (b :: bytes)"
  by (induction xs) simp_all

text \<open>A transaction either committed with \<open>P\<close>, or Badger failed and nothing changed.\<close>

definition committed :: "'s \<Rightarrow> 's \<Rightarrow> queue_err + 'a \<Rightarrow> ('a \<Rightarrow> bool) \<Rightarrow> bool" where
  "committed s s' r P \<longleftrightarrow> (case r of Inl e \<Rightarrow> s' = s \<and> (\<exists>b. e = QBadger b) | Inr a \<Rightarrow> P a)"

definition newMessage :: "time \<Rightarrow> gostring \<Rightarrow> bytes \<Rightarrow> QueueMessage" where
  "newMessage now uuid val = \<lparr>msgID = uuid, msgValue = val, State = StatePending, DeliveryCount = 0,
     ConsumerID = [], EnqueuedAt = UnixMilli now, InFlightAt = 0, VisibilityTimeout = 0, msgMaxRetries = 0\<rparr>"

definition delivered :: "time \<Rightarrow> gostring \<Rightarrow> duration \<Rightarrow> QueueMessage \<Rightarrow> QueueMessage" where
  "delivered now consumer vt m = m\<lparr>State := StateInFlight, ConsumerID := consumer, InFlightAt := UnixMilli now,
     VisibilityTimeout := Milliseconds vt, DeliveryCount := DeliveryCount m + 1\<rparr>"

definition requeued :: "QueueMessage \<Rightarrow> QueueMessage" where
  "requeued m = m\<lparr>State := StatePending, ConsumerID := [], InFlightAt := 0\<rparr>"

definition deadLetter :: "time \<Rightarrow> gostring \<Rightarrow> QueueMessage \<Rightarrow> QueueMessage" where
  "deadLetter now uuid m = (newMessage now uuid (msgValue m))\<lparr>DeliveryCount := DeliveryCount m\<rparr>"

text \<open>What a \<open>Nack\<close> makes of the messages: a message that was delivered as often as the configuration
  allows goes to the dead-letter queue, or away if there is none; otherwise it is requeued or deleted as
  the caller asks.\<close>

definition nacked :: "time \<Rightarrow> gostring \<Rightarrow> QueueConfig \<Rightarrow> gostring \<Rightarrow> gostring \<Rightarrow> QueueMessage \<Rightarrow> bool \<Rightarrow>
  messages \<Rightarrow> messages" where
  "nacked now uuid cfg q i m requeue M =
     (if MaxRetries cfg \<le>s DeliveryCount m \<and> 0 <s MaxRetries cfg then
        if DeadLetterQueue cfg \<noteq> [] then M((q, i) := None, (DeadLetterQueue cfg, uuid) \<mapsto> deadLetter now uuid m)
        else M((q, i) := None)
      else if requeue then M((q, i) \<mapsto> requeued m) else M((q, i) := None))"

text \<open>The expired messages of a queue, and requeueing a set of messages.\<close>

definition expiredIn :: "int64 \<Rightarrow> messages \<Rightarrow> gostring \<Rightarrow> gostring set" where
  "expiredIn now M q = {i. \<exists>m. M (q, i) = Some m \<and> State m = StateInFlight \<and> expired now m}"

definition requeueAll :: "gostring \<Rightarrow> gostring set \<Rightarrow> messages \<Rightarrow> messages" where
  "requeueAll q X M = (\<lambda>(p, i). if p = q \<and> i \<in> X then map_option requeued (M (p, i)) else M (p, i))"

lemma wf_delivered:
  assumes "wfMessage m" and "length consumer < 2 ^ 16" and "unat (DeliveryCount m) + 1 < 2 ^ 32"
  shows "wfMessage (delivered now consumer vt m)"
proof -
  have "DeliveryCount m < 2 ^ 32" using assms(3) by (simp add: word_less_nat_alt)
  then have "unat (DeliveryCount m + 1) = unat (DeliveryCount m) + 1" by (rule unat_plus1)
  with assms show ?thesis by (simp add: wfMessage_def delivered_def StateInFlight_def)
qed

lemma wf_requeued: "wfMessage m \<Longrightarrow> wfMessage (requeued m)"
  by (simp add: wfMessage_def requeued_def StatePending_def)

lemma wf_deadLetter: "wfMessage m \<Longrightarrow> length uuid < 2 ^ 16 \<Longrightarrow> wfMessage (deadLetter now uuid m)"
  by (simp add: wfMessage_def deadLetter_def newMessage_def StatePending_def)

lemma changed_fields [simp]:
  "msgID (delivered now c vt m) = msgID m" "State (delivered now c vt m) = StateInFlight"
  "msgID (requeued m) = msgID m" "State (requeued m) = StatePending"
  "msgID (deadLetter now uuid m) = uuid" "State (deadLetter now uuid m) = StatePending"
  "msgValue (delivered now c vt m) = msgValue m" "msgValue (requeued m) = msgValue m"
  "msgValue (deadLetter now uuid m) = msgValue m"
  by (simp_all add: delivered_def requeued_def deadLetter_def newMessage_def)

context badger_store
begin

lemma running_set: "running B d g t \<Longrightarrow> txnSetEntry B t now k v 0 = Inr t' \<Longrightarrow> running B d (gput k v g) t'"
  and running_del: "running B d g t \<Longrightarrow> txnDelete B t k = Inr t'' \<Longrightarrow> running B d (gdel k g) t''"
  by (auto simp: running_def reads_set reads_del intro: plain_set plain_del)

lemma outcome_set:
  assumes "running B d g t" and "\<And>t'. running B d (gput k v g) t' \<Longrightarrow> outcome (f t') P E" and "\<And>b. E (QBadger b)"
  shows "outcome (checked (badgerCall (txnSetEntry B t now k v 0)) f) P E"
  using assms by (cases "txnSetEntry B t now k v 0")
    (auto intro: outcome_err dest: running_set)

lemma outcome_del:
  assumes "running B d g t" and "\<And>t'. running B d (gdel k g) t' \<Longrightarrow> outcome (f t') P E" and "\<And>b. E (QBadger b)"
  shows "outcome (checked (badgerCall (txnDelete B t k)) f) P E"
  using assms by (cases "txnDelete B t k")
    (auto intro: outcome_err dest: running_del)

lemma outcome_update:
  assumes "outcome (fn (NewTransaction B (qdb s))) (\<lambda>t a. \<exists>g. running B (qdb s) g t \<and> P g a) E"
    and "\<And>b. E (QBadger b)"
  shows "\<exists>s' r. qUpdateP B s fn = Some (s', r) \<and>
    (case r of Inl e \<Rightarrow> s' = s \<and> E e | Inr a \<Rightarrow> P (dbReads B (qdb s')) a)"
proof -
  obtain r where r: "fn (NewTransaction B (qdb s)) = Some r"
      "case r of Inl e \<Rightarrow> E e | Inr (t, a) \<Rightarrow> \<exists>g. running B (qdb s) g t \<and> P g a"
    using assms(1) by (auto simp: outcome_def)
  show ?thesis
  proof (cases r)
    case (Inl e)
    with r show ?thesis by (auto simp: qUpdateP_def UpdateP_def Update_def)
  next
    case (Inr ta)
    then obtain t a where ta: "r = Inr (t, a)" by (cases ta) auto
    show ?thesis
      using r ta assms(2) reads_commit [of "qdb s" t]
      by (cases "txnCommit B (qdb s) t") (auto simp: qUpdateP_def UpdateP_def Update_def running_def)
  qed
qed

text \<open>The parts the operations share.\<close>

lemma outcome_push:
  assumes "running B d g t" and "msgRep g M" and "clean q" and "M (q, msgID m) = None" and "wfMessage m"
    and "State m = StatePending" and "\<And>b. E (QBadger b)"
  shows "outcome (pushMessageBody B now q m t) (\<lambda>t a. \<exists>g. running B d g t \<and> msgRep g (M((q, msgID m) \<mapsto> m))) E"
  unfolding pushMessageBody_def Let_def encodeQueueMessage_eq bind.bind_lunit
  using assms msgRep_new [OF assms(2-5)]
  by (intro outcome_set outcome_ret) (auto intro: outcome_set outcome_ret)

lemma outcome_drop:
  assumes "running B d g t" and "msgRep g M" and "M (q, i) = Some m" and "\<And>b. E (QBadger b)"
  shows "outcome (dropMessage B q (State m) i t) (\<lambda>t a. \<exists>g. running B d g t \<and> msgRep g (M((q, i) := None))) E"
  unfolding dropMessage_def
  using assms msgRep_drop [OF assms(2,3)]
  by (intro outcome_del [OF assms(1)] outcome_ret) (auto intro: outcome_del outcome_ret)

lemma readMessage_rep:
  "running B d g t \<Longrightarrow> msgRep g M \<Longrightarrow> clean q \<Longrightarrow>
   readMessage B now (messageKey q i) t =
     Some (case M (q, i) of None \<Rightarrow> Inl ErrMessageNotFound | Some m \<Rightarrow> Inr m)"
  using msgRep_wf [of g M q i]
  by (auto simp: readMessage_def running_get msgRep_message split: option.splits)

text \<open>A scan of the index: the identifiers in the state, in byte order.\<close>

lemma scan_rep:
  assumes "running B d g t" and "msgRep g M" and "clean q"
  shows "\<exists>ids. map fst (txnIterate B t u (indexPrefix q st)) = map (\<lambda>i. indexPrefix q st @ i) ids \<and>
    sorted_wrt (<) ids \<and> set ids = inState M q st"
proof -
  let ?pre = "indexPrefix q st" and ?ks = "map fst (txnIterate B t u (indexPrefix q st))"
  have "set ?ks = {k. prefix ?pre k \<and> g u k \<noteq> Inl BadgerErrKeyNotFound}"
    using running_get [OF assms(1)] by (force simp: iterate_set)
  then have ks: "set ?ks = (\<lambda>i. ?pre @ i) ` inState M q st"
    by (simp only: indexed_scan [OF assms(2,3)])
  have "map ((\<lambda>i. ?pre @ i) \<circ> drop (length ?pre)) ?ks = ?ks"
    by (rule map_idI) (use ks in auto)
  then have eq: "?ks = map (\<lambda>i. ?pre @ i) (map (drop (length ?pre)) ?ks)" by (simp only: map_map o_assoc)
  have "sorted_wrt (<) (map (\<lambda>i. ?pre @ i) (map (drop (length ?pre)) ?ks))"
    using iterate_sorted [of t u ?pre] by (simp only: eq [symmetric])
  then have "sorted_wrt (<) (map (drop (length ?pre)) ?ks)"
    by (simp add: sorted_wrt_map append_less)
  moreover have "set (map (drop (length ?pre)) ?ks) = inState M q st"
    using ks by (simp only: set_map image_image) simp
  ultimately show ?thesis using eq by blast
qed

lemma qUpdateP_err: "fn (NewTransaction B (qdb s)) = Some (Inl e) \<Longrightarrow> qUpdateP B s fn = Some (s, Inl e)"
  by (simp add: qUpdateP_def UpdateP_def Update_def)

lemma outcome_committed:
  assumes "outcome (fn (NewTransaction B (qdb s))) (\<lambda>t a. \<exists>g. running B (qdb s) g t \<and> P g a) (\<lambda>e. \<exists>b. e = QBadger b)"
  shows "\<exists>s' r. qUpdateP B s fn = Some (s', r) \<and> committed s s' r (P (dbReads B (qdb s')))"
  using outcome_update [where fn = fn and s = s and P = P and E = "\<lambda>e. \<exists>b. e = QBadger b"] assms
  by (simp add: committed_def)

section \<open>The operations\<close>

lemma PushMessage_rep:
  assumes "msgRep (dbReads B (qdb s)) M" and "clean q" and "q \<noteq> []" and "M (q, uuid) = None"
    and "length uuid < 2 ^ 16" and "length val < 2 ^ 32"
  shows "\<exists>s' r. PushMessage B now uuid s q val = Some (s', r) \<and>
    committed s s' r (\<lambda>i. i = uuid \<and> msgRep (dbReads B (qdb s')) (M((q, uuid) \<mapsto> newMessage now uuid val)))"
proof -
  have m: "msgID (newMessage now uuid val) = uuid" "State (newMessage now uuid val) = StatePending"
    by (simp_all add: newMessage_def)
  have "wfMessage (newMessage now uuid val)"
    using assms(5,6) by (simp add: newMessage_def wfMessage_def StatePending_def)
  from outcome_push [OF running_begin assms(1,2) _ this, unfolded m, OF assms(4) refl, of "\<lambda>e. \<exists>b. e = QBadger b"]
  obtain s' r where "qUpdateP B s (pushMessageBody B now q (newMessage now uuid val)) = Some (s', r)"
      "committed s s' r (\<lambda>_. msgRep (dbReads B (qdb s')) (M((q, uuid) \<mapsto> newMessage now uuid val)))"
    using outcome_committed [of "pushMessageBody B now q (newMessage now uuid val)" s
        "\<lambda>g _. msgRep g (M((q, uuid) \<mapsto> newMessage now uuid val))"] by blast
  then show ?thesis
    using assms(3) by (cases r) (auto simp: PushMessage_def Let_def newMessage_def committed_def)
qed

lemma AckMessage_missing:
  assumes "msgRep (dbReads B (qdb s)) M" and "clean q" and "q \<noteq> []" and "i \<noteq> []" and "M (q, i) = None"
  shows "AckMessage B now s q i = Some (s, Inl ErrMessageNotFound)"
  using assms readMessage_rep [OF running_begin assms(1,2), of now i]
  by (simp add: AckMessage_def ackBody_def qUpdateP_err)

lemma AckMessage_rep:
  assumes "msgRep (dbReads B (qdb s)) M" and "q \<noteq> []" and "i \<noteq> []" and "M (q, i) = Some m"
  shows "\<exists>s' r. AckMessage B now s q i = Some (s', r) \<and>
    committed s s' r (\<lambda>_. msgRep (dbReads B (qdb s')) (M((q, i) := None)))"
proof -
  have q: "clean q" using msgRep_wf [OF assms(1,4)] by blast
  have "ackBody B now q i (NewTransaction B (qdb s)) = dropMessage B q (State m) i (NewTransaction B (qdb s))"
    using readMessage_rep [OF running_begin assms(1) q, of now i] assms(4) by (simp add: ackBody_def)
  with outcome_drop [OF running_begin assms(1,4)] assms(2,3) show ?thesis
    by (auto simp: AckMessage_def intro!: outcome_committed [where P = "\<lambda>g _. msgRep g (M((q, i) := None))"])
qed

text \<open>A change of state: write the message, delete its old index entry, write the new one.\<close>

lemma outcome_change:
  assumes "running B d g t" and "msgRep g M" and "M (q, i) = Some m" and "msgID m' = i" and "wfMessage m'"
    and "\<And>b. E (QBadger b)" and "\<And>t g. running B d g t \<Longrightarrow> msgRep g (M((q, i) \<mapsto> m')) \<Longrightarrow> P t a"
  shows "outcome (checked (badgerCall (txnSetEntry B t now (messageKey q i) (messageBytes m') 0)) (\<lambda>t.
      checked (badgerCall (txnDelete B t (messageIndexKey q (State m) i))) (\<lambda>t.
      checked (badgerCall (txnSetEntry B t now (messageIndexKey q (State m') i) [1] 0)) (\<lambda>t.
      Some (Inr (t, a)))))) P E"
proof (rule outcome_set [where E = E, OF assms(1) _ assms(6)])
  fix t1 assume r1: "running B d (gput (messageKey q i) (messageBytes m') g) t1"
  show "outcome (checked (badgerCall (txnDelete B t1 (messageIndexKey q (State m) i))) (\<lambda>t.
      checked (badgerCall (txnSetEntry B t now (messageIndexKey q (State m') i) [1] 0)) (\<lambda>t.
      Some (Inr (t, a))))) P E"
  proof (rule outcome_del [where E = E, OF r1 _ assms(6)])
    fix t2 assume r2: "running B d (gdel (messageIndexKey q (State m) i) (gput (messageKey q i) (messageBytes m') g)) t2"
    show "outcome (checked (badgerCall (txnSetEntry B t2 now (messageIndexKey q (State m') i) [1] 0)) (\<lambda>t.
        Some (Inr (t, a)))) P E"
      by (rule outcome_set [where E = E, OF r2 _ assms(6)], rule outcome_ret, erule assms(7), rule msgRep_change [OF assms(2-5)])
  qed
qed

lemma PopMessage_empty:
  assumes "msgRep (dbReads B (qdb s)) M" and "clean q" and "q \<noteq> []" and "inState M q StatePending = {}"
  shows "PopMessage B now s q c vt = Some (s, Inl ErrQueueEmpty)"
proof -
  have "txnIterate B (NewTransaction B (qdb s)) now (indexPrefix q StatePending) = []"
    using scan_rep [OF running_begin assms(1,2), of now StatePending] assms(4) by auto
  then have "popMessageBody B now q c vt (NewTransaction B (qdb s)) = Some (Inl ErrQueueEmpty)"
    by (simp add: popMessageBody_def)
  with assms(3) show ?thesis by (simp add: PopMessage_def qUpdateP_err)
qed

lemma popMessage_outcome:
  assumes "msgRep g M" and "running B d g t" and "M (q, i) = Some m" and "State m = StatePending"
    and first: "map fst (txnIterate B t now (indexPrefix q StatePending)) = (indexPrefix q StatePending @ i) # ks"
    and "length c < 2 ^ 16" and "unat (DeliveryCount m) + 1 < 2 ^ 32"
  shows "outcome (popMessageBody B now q c vt t)
    (\<lambda>t a. \<exists>g. running B d g t \<and> a = delivered now c vt m \<and> msgRep g (M((q, i) \<mapsto> delivered now c vt m)))
    (\<lambda>e. \<exists>b. e = QBadger b)"
proof -
  have wf: "clean q" "msgID m = i" "wfMessage m" using msgRep_wf [OF assms(1,3)] by auto
  obtain r items where items: "txnIterate B t now (indexPrefix q StatePending) = (indexPrefix q StatePending @ i, r) # items"
    using first by (cases "txnIterate B t now (indexPrefix q StatePending)") (auto intro: that)
  have get: "txnGet B t now (messageKey q i) = Inr (messageBytes m)"
    using msgRep_message [OF assms(1) wf(1)] assms(3) running_get [OF assms(2)] by simp
  have "wfMessage (delivered now c vt m)" using wf(3) assms(6,7) by (rule wf_delivered)
  let ?m' = "delivered now c vt m"
  have body: "popMessageBody B now q c vt t =
      checked (badgerCall (txnSetEntry B t now (messageKey q i) (messageBytes ?m') 0)) (\<lambda>t.
      checked (badgerCall (txnDelete B t (messageIndexKey q (State m) i))) (\<lambda>t.
      checked (badgerCall (txnSetEntry B t now (messageIndexKey q (State ?m') i) [1] 0)) (\<lambda>t.
      Some (Inr (t, ?m')))))"
    using assms(4) wf(3)
    by (simp add: popMessageBody_def items get encodeQueueMessage_eq delivered_def [symmetric] Let_def)
  show ?thesis
    unfolding body using \<open>wfMessage ?m'\<close> wf(2)
    by (intro outcome_change [OF assms(2,1,3)]) auto
qed

lemma popMessageBody_first:
  assumes "msgRep (dbReads B d) M" and "clean q" and "inState M q StatePending \<noteq> {}"
    and "popMessageBody B now q c vt (NewTransaction B d) = Some (Inr (t', m'))"
  shows "\<exists>i m. M (q, i) = Some m \<and> i \<in> inState M q StatePending \<and> (\<forall>j \<in> inState M q StatePending. i \<le> j) \<and>
    m' = delivered now c vt m"
proof -
  let ?t = "NewTransaction B d" and ?pre = "indexPrefix q StatePending"
  obtain ids where ids: "map fst (txnIterate B ?t now ?pre) = map (\<lambda>i. ?pre @ i) ids" "sorted_wrt (<) ids"
      "set ids = inState M q StatePending"
    using scan_rep [OF running_begin assms(1,2)] by blast
  with assms(3) obtain i js where i: "ids = i # js" by (cases ids) auto
  then obtain m where m: "M (q, i) = Some m" "i \<in> inState M q StatePending"
    using ids(3) by (auto simp: inState_def)
  obtain r items where items: "txnIterate B ?t now ?pre = (?pre @ i, r) # items"
    using ids(1) i by (cases "txnIterate B ?t now ?pre") (auto intro: that)
  have "txnGet B ?t now (messageKey q i) = Inr (messageBytes m)"
    using msgRep_message [OF assms(1,2), of now i] m(1) by (simp add: running_get [OF running_begin])
  moreover have "wfMessage m" using msgRep_wf [OF assms(1) m(1)] by blast
  ultimately have "m' = delivered now c vt m" using assms(4) items
    by (auto simp: popMessageBody_def encodeQueueMessage_eq delivered_def Let_def checked_def
        split: sum.splits option.splits)
  moreover have "\<forall>j \<in> inState M q StatePending. i \<le> j"
    using ids(2) by (auto simp: ids(3) [symmetric] i intro: less_imp_le)
  ultimately show ?thesis using m by blast
qed

lemma PopMessage_rep:
  assumes "msgRep (dbReads B (qdb s)) M" and "clean q" and "q \<noteq> []" and "inState M q StatePending \<noteq> {}"
    and "length c < 2 ^ 16" and "\<forall>i m. M (q, i) = Some m \<longrightarrow> unat (DeliveryCount m) + 1 < 2 ^ 32"
  shows "\<exists>i m s' r. M (q, i) = Some m \<and> State m = StatePending \<and> (\<forall>j \<in> inState M q StatePending. i \<le> j) \<and>
    PopMessage B now s q c vt = Some (s', r) \<and>
    committed s s' r (\<lambda>a. a = delivered now c vt m \<and> msgRep (dbReads B (qdb s')) (M((q, i) \<mapsto> delivered now c vt m)))"
proof -
  let ?t = "NewTransaction B (qdb s)" and ?pre = "indexPrefix q StatePending"
  obtain ids where ids: "map fst (txnIterate B ?t now ?pre) = map (\<lambda>i. ?pre @ i) ids" "sorted_wrt (<) ids"
      "set ids = inState M q StatePending"
    using scan_rep [OF running_begin assms(1,2)] by blast
  with assms(4) obtain i js where i: "ids = i # js" by (cases ids) auto
  then obtain m where m: "M (q, i) = Some m" "State m = StatePending"
    using ids(3) by (auto simp: inState_def)
  have "outcome (popMessageBody B now q c vt ?t) (\<lambda>t a. \<exists>g. running B (qdb s) g t \<and> a = delivered now c vt m \<and>
      msgRep g (M((q, i) \<mapsto> delivered now c vt m))) (\<lambda>e. \<exists>b. e = QBadger b)"
    by (rule popMessage_outcome [OF assms(1) running_begin m _ assms(5) assms(6) [rule_format, OF m(1)]]) (simp add: ids(1) i)
  from outcome_committed [where fn = "popMessageBody B now q c vt" and s = s and P = "\<lambda>g a. a = delivered now c vt m \<and> msgRep g (M((q, i) \<mapsto> delivered now c vt m))", OF this]
  have "\<exists>s' r. PopMessage B now s q c vt = Some (s', r) \<and>
    committed s s' r (\<lambda>a. a = delivered now c vt m \<and> msgRep (dbReads B (qdb s')) (M((q, i) \<mapsto> delivered now c vt m)))"
    using assms(3) by (simp add: PopMessage_def)
  moreover have "\<forall>j \<in> inState M q StatePending. i \<le> j"
    using ids(2) by (auto simp: ids(3) [symmetric] i intro: less_imp_le)
  ultimately show ?thesis using m by blast
qed

text \<open>\<open>NackMessage\<close>: what becomes of the map, given the queue's configuration.\<close>

lemma NackMessage_missing:
  assumes "msgRep (dbReads B (qdb s)) M" and "clean q" and "q \<noteq> []" and "i \<noteq> []" and "M (q, i) = None"
  shows "NackMessage B now uuid s q i requeue = Some (s, Inl ErrMessageNotFound)"
  using assms readMessage_rep [OF running_begin assms(1,2), of now i]
  by (simp add: NackMessage_def nackBody_def qUpdateP_err)

lemma outcome_deadLetter:
  assumes "running B d g t" and "msgRep g M" and "M (q, i) = Some m" and "clean dlq"
    and "(dlq, uuid) \<noteq> (q, i) \<Longrightarrow> M (dlq, uuid) = None" and "length uuid < 2 ^ 16"
  shows "outcome (moveToDeadLetter B now uuid t q dlq m)
    (\<lambda>t a. \<exists>g. running B d g t \<and> msgRep g (M((q, i) := None, (dlq, uuid) \<mapsto> deadLetter now uuid m))) (\<lambda>e. \<exists>b. e = QBadger b)"
proof -
  let ?E = "\<lambda>e. \<exists>b. e = QBadger b"
  have wf: "msgID m = i" "wfMessage m" using msgRep_wf [OF assms(2,3)] by auto
  have dl: "\<lparr>msgID = uuid, msgValue = msgValue m, State = StatePending, DeliveryCount = DeliveryCount m,
      ConsumerID = [], EnqueuedAt = UnixMilli now, InFlightAt = 0, VisibilityTimeout = 0, msgMaxRetries = 0\<rparr> =
      deadLetter now uuid m"
    by (simp add: deadLetter_def newMessage_def)
  show ?thesis
    unfolding moveToDeadLetter_def dl wf(1)
  proof (rule outcome_del [where E = ?E, OF assms(1)], rule outcome_del [where E = ?E], assumption)
    fix t assume "running B d (gdel (messageIndexKey q (State m) i) (gdel (messageKey q i) g)) t"
    from outcome_push [where E = ?E, OF this msgRep_drop [OF assms(2,3)] assms(4), of "deadLetter now uuid m" now]
    show "outcome (pushMessageBody B now dlq (deadLetter now uuid m) t)
        (\<lambda>t a. \<exists>g. running B d g t \<and> msgRep g (M((q, i) := None, (dlq, uuid) \<mapsto> deadLetter now uuid m))) ?E"
      using assms(5,6) wf(2) by (auto simp: wf_deadLetter)
  qed auto
qed

lemma NackMessage_rep:
  assumes "msgRep (dbReads B (qdb s)) M" and "q \<noteq> []" and "i \<noteq> []" and "M (q, i) = Some m"
    and cfg: "GetQueueConfig B now s q = Some (Inr cfg)"
    and dlq: "clean (DeadLetterQueue cfg)" "M (DeadLetterQueue cfg, uuid) = None" "length uuid < 2 ^ 16"
  shows "\<exists>s' r. NackMessage B now uuid s q i requeue = Some (s', r) \<and>
    committed s s' r (\<lambda>_. msgRep (dbReads B (qdb s')) (nacked now uuid cfg q i m requeue M))"
proof -
  let ?t = "NewTransaction B (qdb s)" and ?E = "\<lambda>e. \<exists>b. e = QBadger b"
  have wf: "clean q" "msgID m = i" "wfMessage m" using msgRep_wf [OF assms(1,4)] by auto
  have rq: "m\<lparr>State := StatePending, ConsumerID := [], InFlightAt := 0\<rparr> = requeued m"
    by (simp add: requeued_def)
  have chg: "outcome (checked (badgerCall (txnSetEntry B ?t now (messageKey q i) (messageBytes (requeued m)) 0)) (\<lambda>t.
      checked (badgerCall (txnDelete B t (messageIndexKey q (State m) i))) (\<lambda>t.
      checked (badgerCall (txnSetEntry B t now (messageIndexKey q (State (requeued m)) i) [1] 0)) (\<lambda>t.
      Some (Inr (t, ()))))))
      (\<lambda>t a. \<exists>g. running B (qdb s) g t \<and> msgRep g (M((q, i) \<mapsto> requeued m))) ?E"
    using wf by (intro outcome_change [OF running_begin assms(1,4)]) (auto simp: wf_requeued)
  have "outcome (nackBody B now uuid s q i requeue ?t)
      (\<lambda>t a. \<exists>g. running B (qdb s) g t \<and> msgRep g (nacked now uuid cfg q i m requeue M)) ?E"
    using readMessage_rep [OF running_begin assms(1) wf(1), of now i] assms(4) cfg
      outcome_drop [where E = ?E, OF running_begin assms(1,4)]
      outcome_deadLetter [OF running_begin assms(1,4) dlq(1) _ dlq(3), of now] dlq(2) chg
    by (auto simp: nackBody_def nacked_def Let_def encodeQueueMessage_eq rq)
  from outcome_committed [where fn = "nackBody B now uuid s q i requeue" and s = s and
      P = "\<lambda>g _. msgRep g (nacked now uuid cfg q i m requeue M)", OF this]
  show ?thesis using assms(2,3) by (simp add: NackMessage_def)
qed

text \<open>\<open>RequeueExpiredMessages\<close>.\<close>

lemma expiredLoop_rep:
  assumes "running B d g t" and "msgRep g M" and "\<And>i. i \<in> set ids \<Longrightarrow> M (q, i) \<noteq> None"
  shows "map fst items = map (\<lambda>i. indexPrefix q StateInFlight @ i) ids \<Longrightarrow>
    expiredLoop B now q t items = Some (filter (\<lambda>i. expired (UnixMilli now) (the (M (q, i)))) ids)"
  using assms(3)
proof (induction ids arbitrary: items)
  case Nil
  then show ?case by simp
next
  case (Cons i ids)
  obtain r rest where items: "items = (indexPrefix q StateInFlight @ i, r) # rest"
      "map fst rest = map (\<lambda>i. indexPrefix q StateInFlight @ i) ids"
    using Cons.prems(1) by (cases items) auto
  obtain m where m: "M (q, i) = Some m" using Cons.prems(2) by fastforce
  then have wf: "clean q" "wfMessage m" using msgRep_wf [OF assms(2)] by auto
  have "txnGet B t now (messageKey q i) = Inr (messageBytes m)"
    using msgRep_message [OF assms(2) wf(1)] m running_get [OF assms(1)] by simp
  with Cons.IH [OF items(2)] Cons.prems(2) m wf(2) show ?case
    by (simp add: items(1) Let_def)
qed

lemma requeueLoop_rep:
  assumes ok: "\<And>t k v. k \<noteq> [] \<Longrightarrow> \<exists>t'. txnSetEntry B t now k v 0 = Inr t'" "\<And>t k. k \<noteq> [] \<Longrightarrow> \<exists>t'. txnDelete B t k = Inr t'"
  shows "running B d g t \<Longrightarrow> msgRep g M \<Longrightarrow> distinct ids \<Longrightarrow> set ids \<subseteq> inState M q StateInFlight \<Longrightarrow>
    \<exists>t' g'. requeueLoop B now q ids t n = Some (t', n + length ids) \<and> running B d g' t' \<and>
      msgRep g' (requeueAll q (set ids) M)"
proof (induction ids arbitrary: g t M n)
  case Nil
  then show ?case by (auto simp: requeueAll_def)
next
  case (Cons i ids)
  obtain m where m: "M (q, i) = Some m" "State m = StateInFlight" using Cons.prems(4) by (auto simp: inState_def)
  then have wf: "clean q" "msgID m = i" "wfMessage m" using msgRep_wf [OF Cons.prems(2)] by auto
  have get: "txnGet B t now (messageKey q i) = Inr (messageBytes m)"
    using msgRep_message [OF Cons.prems(2) wf(1)] m running_get [OF Cons.prems(1)] by simp
  have ne: "messageKey q i \<noteq> []" "messageIndexKey q st i \<noteq> []" for st
    by (simp_all add: messageKey_def messageIndexKey_def lit_def)
  obtain t1 where t1: "txnSetEntry B t now (messageKey q i) (messageBytes (requeued m)) 0 = Inr t1"
    using ok(1) ne(1) by blast
  obtain t2 where t2: "txnDelete B t1 (messageIndexKey q StateInFlight i) = Inr t2" using ok(2) ne(2) by blast
  obtain t3 where t3: "txnSetEntry B t2 now (messageIndexKey q StatePending i) [1] 0 = Inr t3" using ok(1) ne(2) by blast
  let ?M = "M((q, i) \<mapsto> requeued m)"
  have run: "running B d (gput (messageIndexKey q StatePending i) [1] (gdel (messageIndexKey q StateInFlight i)
      (gput (messageKey q i) (messageBytes (requeued m)) g))) t3"
    by (rule running_set [OF running_del [OF running_set [OF Cons.prems(1) t1] t2] t3])
  have rep: "msgRep (gput (messageIndexKey q StatePending i) [1] (gdel (messageIndexKey q StateInFlight i)
      (gput (messageKey q i) (messageBytes (requeued m)) g))) ?M"
    using msgRep_change [OF Cons.prems(2) m(1), of "requeued m"] wf m(2) by (simp add: wf_requeued)
  have sub: "set ids \<subseteq> inState ?M q StateInFlight"
    using Cons.prems(3,4) by (auto simp: inState_def)
  obtain t' g' where *: "requeueLoop B now q ids t3 (n + 1) = Some (t', n + 1 + length ids)" "running B d g' t'"
      "msgRep g' (requeueAll q (set ids) ?M)"
    using Cons.IH [OF run rep _ sub, of "n + 1"] Cons.prems(3) by (metis distinct.simps(2))
  have "requeueAll q (set ids) ?M = requeueAll q (set (i # ids)) M"
    using Cons.prems(3) m(1) by (auto simp: requeueAll_def fun_eq_iff)
  moreover have "requeueLoop B now q (i # ids) t n = requeueLoop B now q ids t3 (n + 1)"
    using get wf(3) t1 t2 t3 by (simp add: Let_def encodeQueueMessage_eq requeued_def)
  ultimately show ?case using * by auto
qed

lemma RequeueExpired_rep:
  assumes "msgRep (dbReads B (qdb s)) M" and "clean q" and "q \<noteq> []"
    and ok: "\<And>t k v. k \<noteq> [] \<Longrightarrow> \<exists>t'. txnSetEntry B t now k v 0 = Inr t'" "\<And>t k. k \<noteq> [] \<Longrightarrow> \<exists>t'. txnDelete B t k = Inr t'"
  shows "\<exists>s' r. RequeueExpiredMessages B now s q = Some (s', r) \<and>
    committed s s' r (\<lambda>n. n = card (expiredIn (UnixMilli now) M q) \<and>
      msgRep (dbReads B (qdb s')) (requeueAll q (expiredIn (UnixMilli now) M q) M))"
proof -
  let ?t = "NewTransaction B (qdb s)" and ?X = "expiredIn (UnixMilli now) M q"
  obtain ids where ids: "map fst (txnIterate B ?t now (indexPrefix q StateInFlight)) = map (\<lambda>i. indexPrefix q StateInFlight @ i) ids"
      "sorted_wrt (<) ids" "set ids = inState M q StateInFlight"
    using scan_rep [OF running_begin assms(1,2)] by blast
  let ?ex = "filter (\<lambda>i. expired (UnixMilli now) (the (M (q, i)))) ids"
  have ex: "set ?ex = ?X" "distinct ?ex"
    using ids(2,3) by (auto simp: expiredIn_def inState_def strict_sorted_iff)
  have loop1: "expiredLoop B now q ?t (txnIterate B ?t now (indexPrefix q StateInFlight)) = Some ?ex"
    using ids(3) by (intro expiredLoop_rep [OF running_begin assms(1) _ ids(1)]) (auto simp: inState_def)
  have "set ?ex \<subseteq> inState M q StateInFlight" using ids(3) by auto
  from requeueLoop_rep [OF ok running_begin assms(1) ex(2) this, of 0]
  obtain t' g' where loop2: "requeueLoop B now q ?ex ?t 0 = Some (t', length ?ex)" "running B (qdb s) g' t'"
      "msgRep g' (requeueAll q ?X M)"
    unfolding ex(1) by auto
  have "length ?ex = card ?X" using distinct_card [OF ex(2)] ex(1) by simp
  with loop1 loop2 have "outcome (requeueBody B now q ?t)
      (\<lambda>t n. \<exists>g. running B (qdb s) g t \<and> n = card ?X \<and> msgRep g (requeueAll q ?X M)) (\<lambda>e. \<exists>b. e = QBadger b)"
    by (auto simp: requeueBody_def outcome_def)
  from outcome_committed [where fn = "requeueBody B now q" and s = s and
      P = "\<lambda>g n. n = card ?X \<and> msgRep g (requeueAll q ?X M)", OF this]
  show ?thesis using assms(3) by (simp add: RequeueExpiredMessages_def)
qed

end

end
