(* ===== verification/QueueRuns.thy ===== *)
theory QueueRuns
  imports QueueOps
begin

text \<open>
  Histories of the acknowledged queues.  \<open>mstep\<close> is the state machine of the messages, with a label
  for what happened to which message; \<open>qstep\<close> are the successful operations on a storage.  The
  interface \<open>message_store\<close> says that a store's steps are steps of the machine; from it alone follow
  that no message is lost and that a message in flight is not delivered again.  A Badger whose writes
  do not fail provides the interface.
\<close>

section \<open>The state machine\<close>

datatype qlabel =
  LPush gostring gostring | LPop gostring gostring | LAck gostring gostring
  | LNack gostring gostring gostring | LExpire gostring

inductive mstep :: "messages \<Rightarrow> qlabel \<Rightarrow> messages \<Rightarrow> bool" where
  m_push: "M (q, i) = None \<Longrightarrow> mstep M (LPush q i) (M((q, i) \<mapsto> newMessage now i val))"
| m_pop: "M (q, i) = Some m \<Longrightarrow> State m = StatePending \<Longrightarrow> \<forall>j \<in> inState M q StatePending. i \<le> j \<Longrightarrow>
    mstep M (LPop q i) (M((q, i) \<mapsto> delivered now c vt m))"
| m_ack: "M (q, i) = Some m \<Longrightarrow> mstep M (LAck q i) (M((q, i) := None))"
| m_nack: "M (q, i) = Some m \<Longrightarrow> M (DeadLetterQueue cfg, uuid) = None \<Longrightarrow>
    mstep M (LNack q i uuid) (nacked now uuid cfg q i m requeue M)"
| m_expire: "mstep M (LExpire q) (requeueAll q (expiredIn now M q) M)"

inductive_cases mstep_popE: "mstep M (LPop q i) M'"
inductive_cases mstep_pushE: "mstep M (LPush q i) M'"

text \<open>The labels that may take a message away, and those that make it deliverable again.\<close>

fun removes :: "gostring \<Rightarrow> gostring \<Rightarrow> qlabel \<Rightarrow> bool" where
  "removes q i (LAck q' i') = (q' = q \<and> i' = i)"
| "removes q i (LNack q' i' _) = (q' = q \<and> i' = i)"
| "removes q i _ = False"

fun releases :: "gostring \<Rightarrow> gostring \<Rightarrow> qlabel \<Rightarrow> bool" where
  "releases q i (LAck q' i') = (q' = q \<and> i' = i)"
| "releases q i (LNack q' i' _) = (q' = q \<and> i' = i)"
| "releases q i (LExpire q') = (q' = q)"
| "releases q i _ = False"

lemma mstep_keeps:
  assumes "mstep M l M'" and "M (q, i) = Some m" and "\<not> removes q i l"
  shows "\<exists>m'. M' (q, i) = Some m' \<and> msgValue m' = msgValue m"
  using assms
  by (induction rule: mstep.induct) (auto simp: nacked_def requeueAll_def)

lemma mstep_in_flight:
  assumes "mstep M l M'" and "M (q, i) = Some m" and "State m = StateInFlight" and "\<not> releases q i l"
  shows "M' (q, i) = Some m \<and> l \<noteq> LPop q i"
  using assms
  by (induction rule: mstep.induct)
    (auto simp: nacked_def requeueAll_def StatePending_def StateInFlight_def)

lemma mstep_count:
  assumes "mstep M l M'" and "\<And>p m. M p = Some m \<Longrightarrow> unat (DeliveryCount m) \<le> n" and "n + 1 < 2 ^ 32"
  shows "M' p = Some m' \<Longrightarrow> unat (DeliveryCount m') \<le> n + 1"
  using assms
proof (induction rule: mstep.induct)
  case (m_pop M q i m now c vt)
  have b: "unat (DeliveryCount m) \<le> n" using m_pop by blast
  then have "DeliveryCount m < 2 ^ 32" using \<open>n + 1 < 2 ^ 32\<close> by (simp add: word_less_nat_alt)
  then have "unat (DeliveryCount m + 1) = unat (DeliveryCount m) + 1" by (rule unat_plus1)
  with b m_pop show ?case by (fastforce simp: delivered_def split: if_splits)
next
  case (m_nack M q i m cfg uuid now requeue)
  then have "unat (DeliveryCount m) \<le> n" by blast
  with m_nack show ?case
    by (fastforce simp: nacked_def deadLetter_def newMessage_def requeued_def split: if_splits)
next
  case (m_expire M q now)
  have "unat (DeliveryCount (requeued m)) \<le> n" if "M p = Some m" for p m
    using m_expire that by (simp add: requeued_def)
  with m_expire show ?case by (cases p) (fastforce simp: requeueAll_def split: if_splits)
qed (fastforce simp: newMessage_def split: if_splits)+

section \<open>The interface\<close>

inductive runs :: "('s \<Rightarrow> qlabel \<Rightarrow> 's \<Rightarrow> bool) \<Rightarrow> 's \<Rightarrow> qlabel list \<Rightarrow> 's \<Rightarrow> bool" for step where
  runs_nil: "runs step s [] s"
| runs_cons: "step s l s' \<Longrightarrow> runs step s' ls s'' \<Longrightarrow> runs step s (l # ls) s''"

inductive_simps runs_Nil [simp]: "runs step s [] s'"
inductive_simps runs_Cons [simp]: "runs step s (l # ls) s'"

text \<open>\<open>rep s M n\<close>: the store holds the messages \<open>M\<close>, none of them delivered more than \<open>n\<close> times.\<close>

locale message_store =
  fixes rep :: "'s \<Rightarrow> messages \<Rightarrow> nat \<Rightarrow> bool"
    and step :: "'s \<Rightarrow> qlabel \<Rightarrow> 's \<Rightarrow> bool"
  assumes step_refines: "rep s M n \<Longrightarrow> n + 1 < 2 ^ 32 \<Longrightarrow> step s l s' \<Longrightarrow> \<exists>M'. mstep M l M' \<and> rep s' M' (n + 1)"
begin

lemma run_keeps:
  "runs step s ls s' \<Longrightarrow> rep s M n \<Longrightarrow> n + length ls < 2 ^ 32 \<Longrightarrow> M (q, i) = Some m \<Longrightarrow>
   \<forall>l \<in> set ls. \<not> removes q i l \<Longrightarrow>
   \<exists>M' m'. rep s' M' (n + length ls) \<and> M' (q, i) = Some m' \<and> msgValue m' = msgValue m"
proof (induction ls arbitrary: s M n m)
  case Nil
  then show ?case by auto
next
  case (Cons l ls)
  then obtain s1 where s1: "step s l s1" "runs step s1 ls s'" by auto
  obtain M1 where M1: "mstep M l M1" "rep s1 M1 (n + 1)"
    using step_refines [OF Cons.prems(2) _ s1(1)] Cons.prems(3) by auto
  obtain m1 where "M1 (q, i) = Some m1" "msgValue m1 = msgValue m"
    using mstep_keeps [OF M1(1) Cons.prems(4)] Cons.prems(5) by auto
  with Cons.IH [OF s1(2) M1(2)] Cons.prems(3,5) show ?case by fastforce
qed

lemma run_in_flight:
  "runs step s ls s' \<Longrightarrow> rep s M n \<Longrightarrow> n + length ls < 2 ^ 32 \<Longrightarrow> M (q, i) = Some m \<Longrightarrow>
   State m = StateInFlight \<Longrightarrow> \<forall>l \<in> set ls. \<not> releases q i l \<Longrightarrow> LPop q i \<notin> set ls"
proof (induction ls arbitrary: s M n)
  case (Cons l ls)
  then obtain s1 where s1: "step s l s1" "runs step s1 ls s'" by auto
  obtain M1 where M1: "mstep M l M1" "rep s1 M1 (n + 1)"
    using step_refines [OF Cons.prems(2) _ s1(1)] Cons.prems(3) by auto
  have "M1 (q, i) = Some m \<and> l \<noteq> LPop q i"
    using Cons.prems(6) by (intro mstep_in_flight [OF M1(1) Cons.prems(4,5)]) simp
  with Cons.IH [OF s1(2) M1(2) _ _ Cons.prems(5)] Cons.prems(3,6) show ?case by auto
qed simp

end

section \<open>The storage as a message store\<close>

text \<open>The successful operations.  Queue names are without a colon; an identifier that \<open>uuid\<close> returns is
  not in use in the queue it is for.\<close>

inductive qstep :: "('db, 'txn) badger \<Rightarrow> 'db QueueStorage \<Rightarrow> qlabel \<Rightarrow> 'db QueueStorage \<Rightarrow> bool" for B where
  q_push: "PushMessage B now uuid s q val = Some (s', Inr i) \<Longrightarrow> clean q \<Longrightarrow>
    dbGet B (qdb s) now (messageKey q uuid) = Inl BadgerErrKeyNotFound \<Longrightarrow>
    length uuid < 2 ^ 16 \<Longrightarrow> length val < 2 ^ 32 \<Longrightarrow> qstep B s (LPush q i) s'"
| q_pop: "PopMessage B now s q c vt = Some (s', Inr m) \<Longrightarrow> clean q \<Longrightarrow> length c < 2 ^ 16 \<Longrightarrow>
    qstep B s (LPop q (msgID m)) s'"
| q_ack: "AckMessage B now s q i = Some (s', Inr ()) \<Longrightarrow> clean q \<Longrightarrow> qstep B s (LAck q i) s'"
| q_nack: "NackMessage B now uuid s q i requeue = Some (s', Inr ()) \<Longrightarrow> clean q \<Longrightarrow>
    GetQueueConfig B now s q = Some (Inr cfg) \<Longrightarrow> clean (DeadLetterQueue cfg) \<Longrightarrow>
    dbGet B (qdb s) now (messageKey (DeadLetterQueue cfg) uuid) = Inl BadgerErrKeyNotFound \<Longrightarrow>
    length uuid < 2 ^ 16 \<Longrightarrow> qstep B s (LNack q i uuid) s'"
| q_expire: "RequeueExpiredMessages B now s q = Some (s', Inr n) \<Longrightarrow> clean q \<Longrightarrow> qstep B s (LExpire q) s'"

definition messageRep :: "('db, 'txn) badger \<Rightarrow> 'db QueueStorage \<Rightarrow> messages \<Rightarrow> nat \<Rightarrow> bool" where
  "messageRep B s M n \<longleftrightarrow> msgRep (dbReads B (qdb s)) M \<and> (\<forall>p m. M p = Some m \<longrightarrow> unat (DeliveryCount m) \<le> n)"

locale badger_reliable = badger_store +
  assumes set_ok: "k \<noteq> [] \<Longrightarrow> \<exists>t'. txnSetEntry B t now k v 0 = Inr t'"
    and delete_ok: "k \<noteq> [] \<Longrightarrow> \<exists>t'. txnDelete B t k = Inr t'"

interpretation memr: badger_reliable mem_badger
  by unfold_locales (auto simp: mem_badger_def mem_write_def)

lemma committed_Inr: "committed s s' (Inr a) P \<longleftrightarrow> P a"
  by (simp add: committed_def)

lemma msgRep_absent:
  "msgRep (dbReads B d) M \<Longrightarrow> clean q \<Longrightarrow> dbGet B d now (messageKey q i) = Inl BadgerErrKeyNotFound \<Longrightarrow> M (q, i) = None"
  using msgRep_message [of "dbReads B d" M q now i] by (auto simp: dbReads_def split: option.splits)

context badger_reliable
begin

lemma qstep_refines:
  assumes "qstep B s l s'" and "messageRep B s M n" and n: "n + 1 < 2 ^ 32"
  shows "\<exists>M'. mstep M l M' \<and> msgRep (dbReads B (qdb s')) M'"
  using assms(1)
proof cases
  case (q_push now uuid q val i)
  have rep: "msgRep (dbReads B (qdb s)) M" using assms(2) by (simp add: messageRep_def)
  have "q \<noteq> []" using q_push by (auto simp: PushMessage_def)
  moreover have "M (q, uuid) = None" using msgRep_absent [OF rep] q_push by blast
  ultimately show ?thesis
    using PushMessage_rep [OF rep, of q uuid val now] q_push by (auto simp: committed_Inr intro: m_push)
next
  case (q_pop now q c vt m)
  have rep: "msgRep (dbReads B (qdb s)) M" using assms(2) by (simp add: messageRep_def)
  have q: "q \<noteq> []" using q_pop by (auto simp: PopMessage_def)
  have some: "inState M q StatePending \<noteq> {}"
    using PopMessage_empty [OF rep _ q, of now c vt] q_pop by auto
  have "\<exists>i m s' r. M (q, i) = Some m \<and> State m = StatePending \<and> (\<forall>j \<in> inState M q StatePending. i \<le> j) \<and>
      PopMessage B now s q c vt = Some (s', r) \<and> committed s s' r (\<lambda>a. a = delivered now c vt m \<and>
        msgRep (dbReads B (qdb s')) (M((q, i) \<mapsto> delivered now c vt m)))"
  proof (rule PopMessage_rep [OF rep _ q some])
    show "\<forall>i m. M (q, i) = Some m \<longrightarrow> unat (DeliveryCount m) + 1 < 2 ^ 32"
      using assms(2) n by (force simp: messageRep_def)
  qed (use q_pop in auto)
  with q_pop obtain i m0 where "M (q, i) = Some m0" "State m0 = StatePending" "\<forall>j \<in> inState M q StatePending. i \<le> j"
      "m = delivered now c vt m0" "msgRep (dbReads B (qdb s')) (M((q, i) \<mapsto> delivered now c vt m0))"
    by (auto simp: committed_Inr)
  moreover have "msgID m0 = i" using msgRep_wf [OF rep] calculation(1) by blast
  ultimately show ?thesis using q_pop(1) by (auto intro: m_pop)
next
  case (q_ack now q i)
  have rep: "msgRep (dbReads B (qdb s)) M" using assms(2) by (simp add: messageRep_def)
  have q: "q \<noteq> []" "i \<noteq> []" using q_ack by (auto simp: AckMessage_def)
  obtain m where m: "M (q, i) = Some m"
    using AckMessage_missing [OF rep _ q, of now] q_ack by (cases "M (q, i)") auto
  from AckMessage_rep [OF rep q m, of now] q_ack m show ?thesis
    by (auto simp: committed_Inr intro: m_ack)
next
  case (q_nack now uuid q i requeue cfg)
  have rep: "msgRep (dbReads B (qdb s)) M" using assms(2) by (simp add: messageRep_def)
  have q: "q \<noteq> []" "i \<noteq> []" using q_nack by (auto simp: NackMessage_def)
  obtain m where m: "M (q, i) = Some m"
    using NackMessage_missing [OF rep _ q, of now uuid requeue] q_nack by (cases "M (q, i)") auto
  have dlq: "M (DeadLetterQueue cfg, uuid) = None" using msgRep_absent [OF rep] q_nack by blast
  from NackMessage_rep [OF rep q m _ _ dlq, of now requeue] q_nack m dlq show ?thesis
    by (auto simp: committed_Inr intro!: m_nack)
next
  case (q_expire now q k)
  have rep: "msgRep (dbReads B (qdb s)) M" using assms(2) by (simp add: messageRep_def)
  have "q \<noteq> []" using q_expire by (auto simp: RequeueExpiredMessages_def)
  from RequeueExpired_rep [where now = now, OF rep _ this set_ok delete_ok] q_expire show ?thesis
    by (auto simp: committed_Inr intro: m_expire)
qed

end

sublocale badger_reliable \<subseteq> queues: message_store "messageRep B" "qstep B"
proof
  fix s M n l s'
  assume rep: "messageRep B s M n" and n: "n + 1 < 2 ^ 32" and step: "qstep B s l s'"
  obtain M' where M': "mstep M l M'" "msgRep (dbReads B (qdb s')) M'"
    using qstep_refines [OF step rep n] by blast
  have "M' p = Some m \<Longrightarrow> unat (DeliveryCount m) \<le> n + 1" for p m
    using rep by (intro mstep_count [OF M'(1) _ n]) (auto simp: messageRep_def)
  with M' show "\<exists>M'. mstep M l M' \<and> messageRep B s' M' (n + 1)"
    by (auto simp: messageRep_def)
qed

context badger_reliable
begin

lemmas messages_kept = queues.run_keeps
lemmas in_flight_kept = queues.run_in_flight

end

end
