(* ===== verification/QueueProps.thy ===== *)
theory QueueProps
  imports QueueRuns
begin

text \<open>
  The properties of the acknowledged queues, over every Badger that meets \<open>badger_store\<close> (or
  \<open>badger_reliable\<close>, where an operation goes on after a failed write), with their witnesses on the
  executable one.
\<close>

section \<open>A queue with one message\<close>

definition mem_q0 :: "mem_db QueueStorage" where "mem_q0 = \<lparr>qdb = []\<rparr>"

definition mem_m1 :: QueueMessage where "mem_m1 = newMessage 0 [97] [1, 2]"

text \<open>One message pending, and the same message delivered to a consumer for 30 seconds.\<close>

definition mem_q1 :: "mem_db QueueStorage" where
  "mem_q1 = fst (the (PushMessage mem_badger 0 [97] mem_q0 [113] [1, 2]))"

definition mem_q2 :: "mem_db QueueStorage" where
  "mem_q2 = fst (the (PopMessage mem_badger (5 * second) mem_q1 [113] [99] (30 * second)))"

definition mem_m2 :: QueueMessage where
  "mem_m2 = delivered (5 * second) [99] (30 * second) mem_m1"

abbreviation mem_M1 :: messages where
  "mem_M1 \<equiv> [([113], [97]) \<mapsto> mem_m1]"

lemma mem_rep0: "msgRep (dbReads mem_badger (qdb mem_q0)) Map.empty"
  by (simp add: msgRep_def dbReads_def mem_eval mem_q0_def indexed_def)

lemma clean_q [simp]: "clean [113]"
  by (simp add: clean_def)

lemma mem_push: "PushMessage mem_badger 0 [97] mem_q0 [113] [1, 2] = Some (mem_q1, Inr [97])"
proof -
  have "map_option snd (PushMessage mem_badger 0 [97] mem_q0 [113] [1, 2]) = Some (Inr [97])" by code_simp
  then show ?thesis by (auto simp: mem_q1_def prod_eq_iff)
qed

lemma mem_rep1: "msgRep (dbReads mem_badger (qdb mem_q1)) mem_M1"
  using mem.PushMessage_rep [OF mem_rep0, of "[113]" "[97]" "[1, 2]" 0] mem_push
  by (auto simp: committed_def mem_m1_def)

lemma mem_pop: "PopMessage mem_badger (5 * second) mem_q1 [113] [99] (30 * second) = Some (mem_q2, Inr mem_m2)"
proof -
  have "map_option snd (PopMessage mem_badger (5 * second) mem_q1 [113] [99] (30 * second)) = Some (Inr mem_m2)"
    by code_simp
  then show ?thesis by (auto simp: mem_q2_def prod_eq_iff)
qed

lemma mem_pending1: "inState mem_M1 [113] StatePending = {[97]}"
  by (auto simp: inState_def mem_m1_def newMessage_def)

lemma mem_rep2: "msgRep (dbReads mem_badger (qdb mem_q2)) [([113], [97]) \<mapsto> mem_m2]"
proof -
  have "\<forall>i m. mem_M1 ([113], i) = Some m \<longrightarrow> unat (DeliveryCount m) + 1 < 2 ^ 32"
    by (auto simp: mem_m1_def newMessage_def split: if_splits)
  moreover have "inState mem_M1 [113] StatePending \<noteq> {}" by (simp add: mem_pending1)
  ultimately obtain i m where im: "mem_M1 ([113], i) = Some m"
      "msgRep (dbReads mem_badger (qdb mem_q2)) (mem_M1(([113], i) \<mapsto> mem_m2))"
    using mem.PopMessage_rep [where c = "[99]" and now = "5 * second" and vt = "30 * second" and q = "[113]",
      OF mem_rep1] mem_pop by (auto simp: committed_def)
  then have "i = [97]" by (simp split: if_splits)
  with im(2) show ?thesis by simp
qed

section \<open>The operations\<close>

text \<open>A pushed message is stored as pending under the identifier that is returned, nothing else
  changes, and neither the operation nor a later read of the message panics; or Badger fails and
  nothing changes.\<close>

theorem queue_push_message:
  assumes "badger_store B" and "msgRep (dbReads B (qdb s)) M" and "clean q" and "q \<noteq> []"
    and "M (q, uuid) = None" and "length uuid < 2 ^ 16" and "length val < 2 ^ 32"
  shows "\<exists>s' r. PushMessage B now uuid s q val = Some (s', r) \<and>
    committed s s' r (\<lambda>i. i = uuid \<and> msgRep (dbReads B (qdb s')) (M((q, uuid) \<mapsto> newMessage now uuid val)))"
  using assms by (rule badger_store.PushMessage_rep)

theorem queue_push_message_witness:
  "msgRep (dbReads mem_badger (qdb mem_q1)) mem_M1"
  using queue_push_message [OF mem.badger_store_axioms mem_rep0 clean_q, of "[97]" "[1, 2]" 0] mem_push
  by (auto simp: committed_def mem_m1_def)

text \<open>C9: \<open>PopMessage\<close> answers \<open>ErrQueueEmpty\<close> exactly when no message of the queue is pending;
  otherwise it delivers the pending message with the least identifier: the message is marked in flight
  for the consumer, its delivery count goes up by one, it is returned with its value, and no other
  message changes (or Badger fails and nothing changes).\<close>

theorem queue_pop_message:
  assumes "badger_store B" and "msgRep (dbReads B (qdb s)) M" and "clean q" and "q \<noteq> []"
    and "length c < 2 ^ 16" and "\<forall>i m. M (q, i) = Some m \<longrightarrow> unat (DeliveryCount m) + 1 < 2 ^ 32"
  shows "if inState M q StatePending = {} then PopMessage B now s q c vt = Some (s, Inl ErrQueueEmpty)
    else \<exists>i m s' r. M (q, i) = Some m \<and> State m = StatePending \<and> (\<forall>j \<in> inState M q StatePending. i \<le> j) \<and>
      PopMessage B now s q c vt = Some (s', r) \<and>
      committed s s' r (\<lambda>a. a = delivered now c vt m \<and>
        msgRep (dbReads B (qdb s')) (M((q, i) \<mapsto> delivered now c vt m)))"
  using badger_store.PopMessage_empty [OF assms(1-4)] badger_store.PopMessage_rep [OF assms(1-4) _ assms(5,6)]
  by simp

theorem queue_pop_message_witness:
  "PopMessage mem_badger 0 mem_q0 [113] [99] second = Some (mem_q0, Inl ErrQueueEmpty)"
  using queue_pop_message [OF mem.badger_store_axioms mem_rep0 clean_q, of "[99]" 0 second]
  by (simp add: inState_def)

text \<open>Acknowledging a stored message deletes it and its index entry, whatever its state, and nothing
  else; acknowledging an unknown one returns \<open>ErrMessageNotFound\<close>.\<close>

theorem queue_ack_message:
  assumes "badger_store B" and "msgRep (dbReads B (qdb s)) M" and "clean q" and "q \<noteq> []" and "i \<noteq> []"
  shows "if M (q, i) = None then AckMessage B now s q i = Some (s, Inl ErrMessageNotFound)
    else \<exists>s' r. AckMessage B now s q i = Some (s', r) \<and>
      committed s s' r (\<lambda>_. msgRep (dbReads B (qdb s')) (M((q, i) := None)))"
  using badger_store.AckMessage_missing [OF assms] badger_store.AckMessage_rep [OF assms(1,2,4,5)]
  by auto

theorem queue_ack_message_witness:
  "AckMessage mem_badger 0 mem_q1 [113] [98] = Some (mem_q1, Inl ErrMessageNotFound)"
  using queue_ack_message [OF mem.badger_store_axioms mem_rep1 clean_q, of "[98]" 0] by simp

text \<open>C12: a negative acknowledgement requeues the message as pending, deletes it, or, once it has been
  delivered as often as the queue's configuration allows, moves its value to the dead-letter queue under
  a new identifier (deletes it if there is none); nothing else changes.\<close>

theorem queue_nack_message:
  assumes "badger_store B" and "msgRep (dbReads B (qdb s)) M" and "q \<noteq> []" and "i \<noteq> []" and "M (q, i) = Some m"
    and "GetQueueConfig B now s q = Some (Inr cfg)" and "clean (DeadLetterQueue cfg)"
    and "M (DeadLetterQueue cfg, uuid) = None" and "length uuid < 2 ^ 16"
  shows "\<exists>s' r. NackMessage B now uuid s q i requeue = Some (s', r) \<and>
    committed s s' r (\<lambda>_. msgRep (dbReads B (qdb s')) (nacked now uuid cfg q i m requeue M))"
  using assms by (rule badger_store.NackMessage_rep)

theorem queue_nack_message_witness:
  "\<exists>s' r. NackMessage mem_badger 0 [98] mem_q2 [113] [97] True = Some (s', r) \<and>
    committed mem_q2 s' r (\<lambda>_. msgRep (dbReads mem_badger (qdb s')) [([113], [97]) \<mapsto> requeued mem_m2])"
proof -
  let ?cfg = "\<lparr>cfgName = [113], DeadLetterQueue = [], MaxRetries = 3, DefaultVisibilityTimeout = 30000\<rparr>"
  have cfg: "GetQueueConfig mem_badger 0 mem_q2 [113] = Some (Inr ?cfg)" by code_simp
  have "nacked 0 [98] ?cfg [113] [97] mem_m2 True [([113], [97]) \<mapsto> mem_m2] = [([113], [97]) \<mapsto> requeued mem_m2]"
    by (simp add: nacked_def mem_m2_def delivered_def mem_m1_def newMessage_def word_sle_eq word_sless_alt)
  with queue_nack_message [OF mem.badger_store_axioms mem_rep2 _ _ _ cfg, of "[97]" mem_m2 "[98]" True]
  show ?thesis by (simp add: clean_def)
qed



section \<open>Histories\<close>


lemma mem_messageRep1: "messageRep mem_badger mem_q1 mem_M1 0"
  using mem_rep1 by (auto simp: messageRep_def mem_m1_def newMessage_def split: if_splits)

lemma mem_run: "runs (qstep mem_badger) mem_q1 [LPop [113] [97]] mem_q2"
  using q_pop [OF mem_pop] by (simp add: mem_m2_def mem_m1_def newMessage_def)



lemma mem_messageRep2: "messageRep mem_badger mem_q2 [([113], [97]) \<mapsto> mem_m2] 1"
  using mem_rep2 by (auto simp: messageRep_def mem_m2_def delivered_def mem_m1_def newMessage_def split: if_splits)


text \<open>Two \<open>PopMessage\<close> transactions that begin on the same state deliver the same message to two
  consumers, and both commit: conflict detection is switched off.\<close>

theorem queue_concurrent_pop_duplicates:
  assumes "badger_store B" and "msgRep (dbReads B d) M" and "clean q"
    and "popMessageBody B now q c1 vt (NewTransaction B d) = Some (Inr (t1, m1))"
    and "popMessageBody B now' q c2 vt' (NewTransaction B d) = Some (Inr (t2, m2))"
  shows "msgID m1 = msgID m2 \<and> msgValue m1 = msgValue m2 \<and> DeliveryCount m1 = DeliveryCount m2"
proof -
  have some: "inState M q StatePending \<noteq> {}"
    using badger_store.scan_rep [OF assms(1) running_begin assms(2,3), of now StatePending] assms(4)
    by (auto simp: popMessageBody_def)
  have "\<exists>i m. m' = delivered u c v m \<and> M (q, i) = Some m \<and> (\<forall>j \<in> inState M q StatePending. i \<le> j) \<and> i \<in> inState M q StatePending"
    if pop: "popMessageBody B u q c v (NewTransaction B d) = Some (Inr (t', m'))" for u c v t' m'
    using badger_store.popMessageBody_first [OF assms(1,2,3) some pop] by blast
  from this [OF assms(4)] this [OF assms(5)] show ?thesis
    by (auto simp: delivered_def) (metis (no_types) antisym option.inject)+
qed

theorem queue_concurrent_pop_duplicates_witness:
  "\<exists>t1 t2 m1 m2. popMessageBody mem_badger 0 [113] [1] second (NewTransaction mem_badger (qdb mem_q1)) = Some (Inr (t1, m1)) \<and>
     popMessageBody mem_badger 0 [113] [2] second (NewTransaction mem_badger (qdb mem_q1)) = Some (Inr (t2, m2)) \<and>
     msgID m1 = msgID m2"
proof -
  let ?pop = "\<lambda>c. popMessageBody mem_badger 0 [113] c second (NewTransaction mem_badger (qdb mem_q1))"
  have "map_option isl (?pop [1]) = Some False \<and> map_option isl (?pop [2]) = Some False"
    by code_simp
  then obtain t1 m1 t2 m2 where pop: "?pop [1] = Some (Inr (t1, m1))" "?pop [2] = Some (Inr (t2, m2))"
    by (auto simp: isl_def) (metis old.sum.exhaust surj_pair)
  from queue_concurrent_pop_duplicates [OF mem.badger_store_axioms mem_rep1 clean_q pop] pop
  show ?thesis by blast
qed

end
