(* ===== verification/QueueAPI.thy ===== *)
theory QueueAPI
  imports QueueFifo QueueProps
begin

text \<open>
  The API of \<open>src/internal/queue/queue.go\<close> over the storage, and the worker of \<open>worker.go\<close>
  that requeues expired messages.  A \<open>MessageHandle\<close>'s pointer to its queue is the argument of
  \<open>Ack\<close> and \<open>Nack\<close>.
\<close>

section \<open>The API\<close>

record 'db Queue =
  qstorage :: "'db QueueStorage"

record MessageHandle =
  hQueueName :: gostring
  hMessageID :: gostring
  hValue :: bytes
  hDeliveryCount :: goint

definition onQueue :: "'db Queue \<Rightarrow> 'db QueueStorage \<times> 'r \<Rightarrow> 'db Queue \<times> 'r" where
  "onQueue q sr = (q\<lparr>qstorage := fst sr\<rparr>, snd sr)"

definition Queue_New :: "badger_err + 'db \<Rightarrow> badger_err + 'db Queue" where
  "Queue_New opened = (case NewStorage opened of Inl e \<Rightarrow> Inl e | Inr store \<Rightarrow> Inr \<lparr>qstorage = store\<rparr>)"

definition MessageHandle_Ack ::
  "('db, 'txn) badger \<Rightarrow> time \<Rightarrow> 'db Queue \<Rightarrow> MessageHandle \<Rightarrow> ('db Queue \<times> (queue_err + unit)) option" where
  "MessageHandle_Ack B now q m = map_option (onQueue q) (AckMessage B now (qstorage q) (hQueueName m) (hMessageID m))"

definition MessageHandle_Nack ::
  "('db, 'txn) badger \<Rightarrow> time \<Rightarrow> gostring \<Rightarrow> 'db Queue \<Rightarrow> MessageHandle \<Rightarrow> bool \<Rightarrow> ('db Queue \<times> (queue_err + unit)) option" where
  "MessageHandle_Nack B now uuid q m requeue =
     map_option (onQueue q) (NackMessage B now uuid (qstorage q) (hQueueName m) (hMessageID m) requeue)"

definition Queue_Push ::
  "('db, 'txn) badger \<Rightarrow> time \<Rightarrow> gostring \<Rightarrow> 'db Queue \<Rightarrow> gostring \<Rightarrow> bytes \<Rightarrow> ('db Queue \<times> (queue_err + unit)) option"
where
  "Queue_Push B now uuid q queueName val =
     map_option (\<lambda>(s, r). onQueue q (s, map_sum id (\<lambda>_. ()) r)) (PushMessage B now uuid (qstorage q) queueName val)"

definition Queue_PushMessage ::
  "('db, 'txn) badger \<Rightarrow> time \<Rightarrow> gostring \<Rightarrow> 'db Queue \<Rightarrow> gostring \<Rightarrow> bytes \<Rightarrow> ('db Queue \<times> (queue_err + gostring)) option"
where
  "Queue_PushMessage B now uuid q queueName val =
     map_option (onQueue q) (PushMessage B now uuid (qstorage q) queueName val)"

definition Queue_Pop ::
  "('db, 'txn) badger \<Rightarrow> time \<Rightarrow> 'db Queue \<Rightarrow> gostring \<Rightarrow> 'db Queue \<times> (queue_err + bytes)" where
  "Queue_Pop B now q queueName = onQueue q (Pop B now (qstorage q) queueName)"

definition Queue_PopMessage ::
  "('db, 'txn) badger \<Rightarrow> time \<Rightarrow> 'db Queue \<Rightarrow> gostring \<Rightarrow> gostring \<Rightarrow> duration \<Rightarrow>
   ('db Queue \<times> (queue_err + MessageHandle)) option" where
  "Queue_PopMessage B now q queueName consumerID visibilityTimeout =
     map_option (\<lambda>(s, r). onQueue q (s, map_sum id (\<lambda>msg. \<lparr>hQueueName = queueName, hMessageID = msgID msg,
         hValue = msgValue msg, hDeliveryCount = DeliveryCount msg\<rparr>) r))
       (PopMessage B now (qstorage q) queueName consumerID visibilityTimeout)"

text \<open>Reading the configuration and writing it back changed.\<close>

definition changeConfig ::
  "('db, 'txn) badger \<Rightarrow> time \<Rightarrow> 'db Queue \<Rightarrow> gostring \<Rightarrow> (QueueConfig \<Rightarrow> QueueConfig) \<Rightarrow>
   ('db Queue \<times> (queue_err + unit)) option" where
  "changeConfig B now q queueName f =
     (case GetQueueConfig B now (qstorage q) queueName of
        None \<Rightarrow> None
      | Some (Inl e) \<Rightarrow> Some (q, Inl e)
      | Some (Inr cfg) \<Rightarrow> map_option (onQueue q) (SetQueueConfig B now (qstorage q) (f cfg)))"

definition SetDeadLetterQueue ::
  "('db, 'txn) badger \<Rightarrow> time \<Rightarrow> 'db Queue \<Rightarrow> gostring \<Rightarrow> gostring \<Rightarrow> goint \<Rightarrow> ('db Queue \<times> (queue_err + unit)) option"
where
  "SetDeadLetterQueue B now q queueName dlqName maxRetries =
     changeConfig B now q queueName (\<lambda>cfg. cfg\<lparr>DeadLetterQueue := dlqName, MaxRetries := maxRetries\<rparr>)"

definition SetVisibilityTimeout ::
  "('db, 'txn) badger \<Rightarrow> time \<Rightarrow> 'db Queue \<Rightarrow> gostring \<Rightarrow> duration \<Rightarrow> ('db Queue \<times> (queue_err + unit)) option" where
  "SetVisibilityTimeout B now q queueName timeout =
     changeConfig B now q queueName (\<lambda>cfg. cfg\<lparr>DefaultVisibilityTimeout := Milliseconds timeout\<rparr>)"

definition Queue_RequeueExpiredMessages ::
  "('db, 'txn) badger \<Rightarrow> time \<Rightarrow> 'db Queue \<Rightarrow> gostring \<Rightarrow> ('db Queue \<times> (queue_err + nat)) option" where
  "Queue_RequeueExpiredMessages B now q queueName =
     map_option (onQueue q) (RequeueExpiredMessages B now (qstorage q) queueName)"

definition Queue_Peek :: "('db, 'txn) badger \<Rightarrow> time \<Rightarrow> 'db Queue \<Rightarrow> gostring \<Rightarrow> queue_err + bytes" where
  "Queue_Peek B now q queueName = Peek B now (qstorage q) queueName"

definition Queue_Len :: "('db, 'txn) badger \<Rightarrow> time \<Rightarrow> 'db Queue \<Rightarrow> gostring \<Rightarrow> queue_err + uint64" where
  "Queue_Len B now q queueName = Len B now (qstorage q) queueName"

definition Queue_Clear ::
  "('db, 'txn) badger \<Rightarrow> time \<Rightarrow> 'db Queue \<Rightarrow> gostring \<Rightarrow> 'db Queue \<times> (queue_err + unit)" where
  "Queue_Clear B now q queueName = onQueue q (Clear B now (qstorage q) queueName)"

definition Queue_Close :: "('db, 'txn) badger \<Rightarrow> 'db Queue \<Rightarrow> 'db Queue \<times> (queue_err + unit)" where
  "Queue_Close B q = onQueue q (QueueStorage_Close B (qstorage q))"

section \<open>The worker\<close>

text \<open>The storage is shared with the API: the worker's operations take it as an argument.  The log
  messages are left out.\<close>

record VisibilityTimeoutWorker =
  queueNames :: "gostring list"
  checkInterval :: duration

definition NewVisibilityTimeoutWorker :: "duration \<Rightarrow> VisibilityTimeoutWorker" where
  "NewVisibilityTimeoutWorker interval =
     \<lparr>queueNames = [], checkInterval = (if interval = 0 then 10 * second else interval)\<rparr>"

definition AddQueue :: "gostring \<Rightarrow> VisibilityTimeoutWorker \<Rightarrow> VisibilityTimeoutWorker" where
  "AddQueue queueName w =
     (if queueName \<in> set (queueNames w) then w else w\<lparr>queueNames := queueNames w @ [queueName]\<rparr>)"

text \<open>The first occurrence goes.\<close>

definition RemoveQueue :: "gostring \<Rightarrow> VisibilityTimeoutWorker \<Rightarrow> VisibilityTimeoutWorker" where
  "RemoveQueue queueName w = w\<lparr>queueNames := remove1 queueName (queueNames w)\<rparr>"

fun checkLoop ::
  "('db, 'txn) badger \<Rightarrow> time \<Rightarrow> gostring list \<Rightarrow> 'db QueueStorage \<Rightarrow> 'db QueueStorage option" where
  "checkLoop B now [] s = Some s"
| "checkLoop B now (queueName # names) s =
     (case RequeueExpiredMessages B now s queueName of
        None \<Rightarrow> None
      | Some (s, r) \<Rightarrow> checkLoop B now names s)"

definition checkExpiredMessages ::
  "('db, 'txn) badger \<Rightarrow> time \<Rightarrow> VisibilityTimeoutWorker \<Rightarrow> 'db QueueStorage \<Rightarrow> 'db QueueStorage option" where
  "checkExpiredMessages B now w s = checkLoop B now (queueNames w) s"

text \<open>The loop of \<open>run\<close>, over what the two channels deliver until \<open>Stop\<close> closes one of them; between
  two events the set of queues may change.\<close>

datatype workerEvent = Tick time | Watch gostring | Unwatch gostring | StopChan

fun workerRun ::
  "('db, 'txn) badger \<Rightarrow> workerEvent list \<Rightarrow> VisibilityTimeoutWorker \<Rightarrow> 'db QueueStorage \<Rightarrow> 'db QueueStorage option" where
  "workerRun B [] w s = Some s"
| "workerRun B (StopChan # evs) w s = Some s"
| "workerRun B (Tick now # evs) w s =
     (case checkExpiredMessages B now w s of None \<Rightarrow> None | Some s \<Rightarrow> workerRun B evs w s)"
| "workerRun B (Watch q # evs) w s = workerRun B evs (AddQueue q w) s"
| "workerRun B (Unwatch q # evs) w s = workerRun B evs (RemoveQueue q w) s"

section \<open>What the API's parts share\<close>

lemma legacy_message_keys [key_simps]:
  "metadataKey q \<noteq> messageKey q' i" "metadataKey q \<noteq> messageIndexKey q' st i"
  "dataKey q n \<noteq> messageKey q' i" "dataKey q n \<noteq> messageIndexKey q' st i"
  "metadataKey q \<noteq> queueConfigKey q'" "dataKey q n \<noteq> queueConfigKey q'"
  "messageKey q i \<noteq> queueConfigKey q'" "messageIndexKey q st i \<noteq> queueConfigKey q'"
  by (simp_all add: metadataKey_def dataKey_def messageKey_def messageIndexKey_def queueConfigKey_def lit_def)

lemma not_index_config [simp]: "\<not> prefix (lit ''queue:idx:'') (queueConfigKey q)"
  by (simp add: queueConfigKey_def lit_def)

lemma queueConfigKey_inj [key_simps]: "queueConfigKey q = queueConfigKey q' \<longleftrightarrow> q = q'"
  by (simp add: queueConfigKey_def)

lemma queueRep_frame:
  assumes "queueRep B s Q n" and "\<And>u q. dbReads B (qdb s') u (metadataKey q) = dbReads B (qdb s) u (metadataKey q)"
    and "\<And>u q i. dbReads B (qdb s') u (dataKey q i) = dbReads B (qdb s) u (dataKey q i)"
  shows "queueRep B s' Q n"
  using assms queued_frame [of B "qdb s" _ _ _ "qdb s'"] by (fastforce simp: queueRep_def dbReads_def)

context badger_store
begin

lemma PushMessage_reads:
  assumes "PushMessage B now uuid s q val = Some (s', Inr i)"
  shows "q \<noteq> [] \<and> dbReads B (qdb s') = gput (messageIndexKey q StatePending uuid) [1]
    (gput (messageKey q uuid) (messageBytes (newMessage now uuid val)) (dbReads B (qdb s)))"
proof -
  have q: "q \<noteq> []" using assms by (auto simp: PushMessage_def)
  let ?P = "\<lambda>g (_ :: unit). g = gput (messageIndexKey q StatePending uuid) [1]
    (gput (messageKey q uuid) (messageBytes (newMessage now uuid val)) (dbReads B (qdb s)))"
  have "outcome (pushMessageBody B now q (newMessage now uuid val) (NewTransaction B (qdb s)))
      (\<lambda>t a. \<exists>g. running B (qdb s) g t \<and> ?P g a) (\<lambda>e. \<exists>b. e = QBadger b)"
    unfolding pushMessageBody_def Let_def encodeQueueMessage_eq bind.bind_lunit
    by (intro outcome_set [OF running_begin]) (auto simp: newMessage_def intro: outcome_set outcome_ret)
  from outcome_committed [where P = ?P and fn = "pushMessageBody B now q (newMessage now uuid val)", OF this] assms q
  show ?thesis by (auto simp: PushMessage_def Let_def newMessage_def committed_def)
qed

lemma SetQueueConfig_reads:
  assumes "SetQueueConfig B now s cfg = Some (s', Inr ())"
  shows "cfgName cfg \<noteq> [] \<and> dbReads B (qdb s') = gput (queueConfigKey (cfgName cfg)) (configBytes cfg) (dbReads B (qdb s))"
proof -
  have q: "cfgName cfg \<noteq> []" using assms by (auto simp: SetQueueConfig_def)
  let ?fn = "\<lambda>txn. do { data \<leftarrow> encodeQueueConfig cfg;
      checked (badgerCall (txnSetEntry B txn now (queueConfigKey (cfgName cfg)) data 0)) (\<lambda>txn. Some (Inr (txn, ()))) }"
  let ?P = "\<lambda>g (_ :: unit). g = gput (queueConfigKey (cfgName cfg)) (configBytes cfg) (dbReads B (qdb s))"
  have "outcome (?fn (NewTransaction B (qdb s))) (\<lambda>t a. \<exists>g. running B (qdb s) g t \<and> ?P g a) (\<lambda>e. \<exists>b. e = QBadger b)"
    unfolding encodeQueueConfig_eq bind.bind_lunit
    by (intro outcome_set [OF running_begin]) (auto intro: outcome_ret)
  from outcome_committed [where P = ?P and fn = ?fn, OF this] assms q
  show ?thesis by (auto simp: SetQueueConfig_def committed_def)
qed

end

lemma GetQueueConfig_read:
  "q \<noteq> [] \<Longrightarrow> dbReads B (qdb s) now (queueConfigKey q) = Inr (configBytes cfg) \<Longrightarrow> wfConfig cfg \<Longrightarrow>
   GetQueueConfig B now s q = Some (Inr cfg)"
  by (simp add: GetQueueConfig_def View_def dbReads_def dbGet_def)

lemma GetQueueConfig_cong:
  "dbReads B (qdb s') now (queueConfigKey q) = dbReads B (qdb s) now (queueConfigKey q) \<Longrightarrow>
   GetQueueConfig B now s' q = GetQueueConfig B now s q"
  by (simp add: GetQueueConfig_def View_def dbReads_def dbGet_def)

section \<open>Properties\<close>

lemma push_invisible:
  assumes "badger_store B" and "queueRep B (qstorage k) Q n" and "Q q = []"
    and "Queue_Push B now uuid k q val = Some (k', Inr ())"
  shows "Queue_Pop B now' k' q = (k', Inl ErrQueueEmpty) \<and> Queue_Peek B now' k' q = Inl ErrQueueEmpty \<and>
    Queue_Len B now' k' q = Inr 0"
proof -
  obtain i where push: "PushMessage B now uuid (qstorage k) q val = Some (qstorage k', Inr i)"
    using assms(4) by (auto simp: Queue_Push_def onQueue_def)
  note reads = badger_store.PushMessage_reads [OF assms(1) push]
  have rep: "queueRep B (qstorage k') Q n"
    by (rule queueRep_frame [OF assms(2)]) (simp_all add: reads gput_def key_simps)
  obtain h where h: "queued B (qdb (qstorage k')) q h []" "h < 2 ^ 64"
    using badger_store.rep_head [OF assms(1) rep, of q] reads assms(3) by auto
  show ?thesis
    using badger_store.Pop_empty [OF assms(1) _ h(1), of now'] badger_store.Peek_queued [OF assms(1) _ h(1), of now']
      badger_store.Len_queued [OF assms(1) _ h(1), of now'] h(2) reads
    by (simp add: Queue_Pop_def Queue_Peek_def Queue_Len_def onQueue_def)
qed

text \<open>C25: \<open>Queue.Push\<close> does not feed \<open>Queue.Pop\<close>: \<open>Push\<close> stores an acknowledged message, while
  \<open>Pop\<close>, \<open>Peek\<close> and \<open>Len\<close> read the legacy positions, so on a queue that was empty \<open>Pop\<close>
  still answers \<open>ErrQueueEmpty\<close> and \<open>Len\<close> still answers 0 after a successful \<open>Push\<close>.\<close>

theorem queue_push_invisible_to_pop:
  assumes "badger_store B" and "queueRep B (qstorage k) Q n" and "Q q = []"
    and "Queue_Push B now uuid k q val = Some (k', Inr ())"
  shows "Queue_Pop B now' k' q = (k', Inl ErrQueueEmpty) \<and> Queue_Peek B now' k' q = Inl ErrQueueEmpty \<and>
    Queue_Len B now' k' q = Inr 0"
  using assms by (rule push_invisible)

theorem queue_push_invisible_to_pop_witness:
  "\<exists>k'. Queue_Push mem_badger 0 [97] \<lparr>qstorage = mem_q0\<rparr> [113] [1, 2] = Some (k', Inr ()) \<and>
    Queue_Pop mem_badger 0 k' [113] = (k', Inl ErrQueueEmpty)"
proof -
  have rep: "queueRep mem_badger (qstorage \<lparr>qstorage = mem_q0\<rparr>) (\<lambda>_. []) 0"
    using mem.queueRep_fresh [of "[]"] by (simp add: mem_q0_def mem_eval)
  have push: "Queue_Push mem_badger 0 [97] \<lparr>qstorage = mem_q0\<rparr> [113] [1, 2] = Some (\<lparr>qstorage = mem_q1\<rparr>, Inr ())"
    by (simp add: Queue_Push_def mem_push onQueue_def)
  from queue_push_invisible_to_pop [OF mem.badger_store_axioms rep _ push, of 0] push show ?thesis by blast
qed

text \<open>A queue configuration that is set is the one that is read back, the other queues keep theirs, and
  no message is touched; \<open>SetDeadLetterQueue\<close> changes the dead-letter queue and the retries and keeps
  the visibility timeout.\<close>

theorem queue_config_set:
  assumes "badger_store B" and "GetQueueConfig B now (qstorage k) q = Some (Inr cfg)" and "cfgName cfg = q"
    and "wfConfig (cfg\<lparr>DeadLetterQueue := dlq, MaxRetries := retries\<rparr>)"
    and "SetDeadLetterQueue B now k q dlq retries = Some (k', Inr ())"
  shows "GetQueueConfig B u (qstorage k') q = Some (Inr (cfg\<lparr>DeadLetterQueue := dlq, MaxRetries := retries\<rparr>)) \<and>
    (q' \<noteq> q \<longrightarrow> GetQueueConfig B u (qstorage k') q' = GetQueueConfig B u (qstorage k) q') \<and>
    (msgRep (dbReads B (qdb (qstorage k))) M \<longrightarrow> msgRep (dbReads B (qdb (qstorage k'))) M)"
proof -
  let ?cfg = "cfg\<lparr>DeadLetterQueue := dlq, MaxRetries := retries\<rparr>"
  have "SetQueueConfig B now (qstorage k) ?cfg = Some (qstorage k', Inr ())"
    using assms(2,5) by (auto simp: SetDeadLetterQueue_def changeConfig_def onQueue_def)
  note reads = badger_store.SetQueueConfig_reads [OF assms(1) this]
  have "GetQueueConfig B u (qstorage k') q = Some (Inr ?cfg)"
    using reads assms(3,4) by (intro GetQueueConfig_read) (auto simp: gput_def)
  moreover have "GetQueueConfig B u (qstorage k') q' = GetQueueConfig B u (qstorage k) q'" if "q' \<noteq> q"
    using reads assms(3) that by (intro GetQueueConfig_cong) (simp add: gput_def key_simps)
  moreover have "msgRep (dbReads B (qdb (qstorage k'))) M" if "msgRep (dbReads B (qdb (qstorage k))) M"
    using that reads by (auto simp: msgRep_def gput_def key_simps)
  ultimately show ?thesis by blast
qed

theorem queue_config_set_witness:
  "\<exists>k'. SetDeadLetterQueue mem_badger 0 \<lparr>qstorage = mem_q0\<rparr> [113] [100] 2 = Some (k', Inr ()) \<and>
    GetQueueConfig mem_badger 0 (qstorage k') [113] =
      Some (Inr \<lparr>cfgName = [113], DeadLetterQueue = [100], MaxRetries = 2, DefaultVisibilityTimeout = 30000\<rparr>)"
proof -
  let ?k = "\<lparr>qstorage = mem_q0\<rparr>"
    and ?cfg = "\<lparr>cfgName = [113], DeadLetterQueue = [], MaxRetries = 3, DefaultVisibilityTimeout = 30000\<rparr>"
  have get: "GetQueueConfig mem_badger 0 (qstorage ?k) [113] = Some (Inr ?cfg)" by code_simp
  have "map_option snd (SetDeadLetterQueue mem_badger 0 ?k [113] [100] 2) = Some (Inr ())" by code_simp
  then obtain k' where k': "SetDeadLetterQueue mem_badger 0 ?k [113] [100] 2 = Some (k', Inr ())" by auto
  from queue_config_set [OF mem.badger_store_axioms get _ _ k', of 0] k' show ?thesis
    by (simp add: wfConfig_def)
qed

lemma checkLoop_rep:
  assumes "badger_reliable B"
  shows "msgRep (dbReads B (qdb s)) M \<Longrightarrow> \<forall>q \<in> set names. clean q \<and> q \<noteq> [] \<Longrightarrow>
    \<exists>s' M'. checkLoop B now names s = Some s' \<and> msgRep (dbReads B (qdb s')) M' \<and>
      (\<forall>q i. M' (q, i) = M (q, i) \<or> q \<in> set names \<and> i \<in> expiredIn (UnixMilli now) M q \<and>
        M' (q, i) = map_option requeued (M (q, i)))"
proof (induction names arbitrary: s M)
  case Nil
  then show ?case by auto
next
  case (Cons n names)
  let ?X = "expiredIn (UnixMilli now) M n"
  have "badger_store B" using assms by (simp add: badger_reliable_def)
  have n: "clean n" "n \<noteq> []" using Cons.prems(2) by auto
  have ok: "\<And>t k v. k \<noteq> [] \<Longrightarrow> \<exists>t'. txnSetEntry B t now k v 0 = Inr t'" "\<And>t k. k \<noteq> [] \<Longrightarrow> \<exists>t'. txnDelete B t k = Inr t'"
    using assms by (auto simp: badger_reliable_def badger_reliable_axioms_def)
  obtain s1 r where r: "RequeueExpiredMessages B now s n = Some (s1, r)"
      "committed s s1 r (\<lambda>c. c = card ?X \<and> msgRep (dbReads B (qdb s1)) (requeueAll n ?X M))"
    using badger_store.RequeueExpired_rep [OF \<open>badger_store B\<close> Cons.prems(1) n ok] by blast
  obtain M1 where M1: "msgRep (dbReads B (qdb s1)) M1" "M1 = M \<or> M1 = requeueAll n ?X M"
    using r(2) Cons.prems(1) by (auto simp: committed_def split: sum.splits)
  obtain s' M' where s': "checkLoop B now names s1 = Some s'" "msgRep (dbReads B (qdb s')) M'"
      "\<forall>q i. M' (q, i) = M1 (q, i) \<or> q \<in> set names \<and> i \<in> expiredIn (UnixMilli now) M1 q \<and>
        M' (q, i) = map_option requeued (M1 (q, i))"
    using Cons.IH [OF M1(1)] Cons.prems(2) by auto
  have sub: "expiredIn (UnixMilli now) M1 q \<subseteq> {i \<in> expiredIn (UnixMilli now) M q. M1 (q, i) = M (q, i)}" for q
    using M1(2) by (auto simp: expiredIn_def requeueAll_def requeued_def StatePending_def StateInFlight_def split: if_splits)
  have "M' (q, i) = M (q, i) \<or> q \<in> set (n # names) \<and> i \<in> expiredIn (UnixMilli now) M q \<and>
      M' (q, i) = map_option requeued (M (q, i))" for q i
    using s'(3) [rule_format, of q i] M1(2) sub [of q] by (auto simp: requeueAll_def split: if_splits)
  with s' r(1) show ?case by auto
qed

text \<open>A tick of the worker never panics, and each message of each queue it either leaves as it was or,
  if the message had expired in a watched queue, makes pending again.\<close>

theorem worker_tick:
  assumes "badger_reliable B" and "msgRep (dbReads B (qdb s)) M" and "\<forall>q \<in> set (queueNames w). clean q \<and> q \<noteq> []"
  shows "\<exists>s' M'. checkExpiredMessages B now w s = Some s' \<and> msgRep (dbReads B (qdb s')) M' \<and>
    (\<forall>q i. M' (q, i) = M (q, i) \<or> q \<in> set (queueNames w) \<and> i \<in> expiredIn (UnixMilli now) M q \<and>
      M' (q, i) = map_option requeued (M (q, i)))"
  unfolding checkExpiredMessages_def using assms by (rule checkLoop_rep)

theorem worker_tick_witness:
  "\<exists>s' M'. checkExpiredMessages mem_badger (36 * second) (AddQueue [113] (NewVisibilityTimeoutWorker 0)) mem_q2 = Some s' \<and>
    msgRep (dbReads mem_badger (qdb s')) M'"
  using worker_tick [OF memr.badger_reliable_axioms mem_rep2, of "AddQueue [113] (NewVisibilityTimeoutWorker 0)" "36 * second"]
  by (auto simp: AddQueue_def NewVisibilityTimeoutWorker_def)

inductive workerSets :: "VisibilityTimeoutWorker \<Rightarrow> bool" where
  w_new: "workerSets (NewVisibilityTimeoutWorker interval)"
| w_add: "workerSets w \<Longrightarrow> workerSets (AddQueue q w)"
| w_remove: "workerSets w \<Longrightarrow> workerSets (RemoveQueue q w)"

lemma workerSets_distinct: "workerSets w \<Longrightarrow> distinct (queueNames w)"
  by (induction rule: workerSets.induct) (auto simp: NewVisibilityTimeoutWorker_def AddQueue_def RemoveQueue_def)

text \<open>The worker watches each queue once: whatever sequence of \<open>AddQueue\<close> and \<open>RemoveQueue\<close>
  built its list, adding a queue makes it watched and removing it ends that.\<close>

theorem worker_watches_once:
  assumes "workerSets w"
  shows "distinct (queueNames w) \<and> set (queueNames (AddQueue q w)) = insert q (set (queueNames w)) \<and>
    set (queueNames (RemoveQueue q w)) = set (queueNames w) - {q}"
  using workerSets_distinct [OF assms] by (auto simp: AddQueue_def RemoveQueue_def)

theorem worker_watches_once_witness:
  "set (queueNames (RemoveQueue [1] (AddQueue [1] (AddQueue [1] (NewVisibilityTimeoutWorker 0))))) = {}"
proof -
  have "workerSets (AddQueue [1] (AddQueue [1] (NewVisibilityTimeoutWorker 0)))" by (intro w_add w_new)
  from worker_watches_once [OF this, of "[1]"] show ?thesis
    by (simp add: AddQueue_def NewVisibilityTimeoutWorker_def)
qed

end
