(* ===== verification/Server.thy ===== *)
theory Server
  imports NetRoundtrip KVProps QueueAPI "HOL-Library.AList"
begin

text \<open>
  The request processing of \<open>src/internal/server\<close>: the dispatch of \<open>server.go\<close>, the handlers of
  \<open>kv_handlers.go\<close> and \<open>queue_handlers.go\<close>, the text protocol and the worker pool, for one
  connection.  A handler takes the state, a pair of server and connection, and returns it updated;
  \<open>None\<close> is a panic.  The handlers of the streams and documents are an argument, \<open>other\<close>.

  What the environment decides at each request is collected in an \<open>Env\<close>: Badger, the clock, the
  identifier \<open>uuid\<close> would return, the time the request took, which ready case \<open>select\<close> picks when
  both the queue has room and the connection is closing, and the moving average of the latency (Go
  computes it in floating point).
\<close>

section \<open>State\<close>

record ('db, 'txn) Env =
  envB :: "('db, 'txn) badger"
  envNow :: time
  envUUID :: gostring
  envElapsed :: duration
  envPick :: bool
  envAverage :: "int64 \<Rightarrow> duration \<Rightarrow> int64"

text \<open>A \<open>[]byte\<close> value of a text command is a slice of the connection's read buffer: its two bounds.
  Whoever uses it later reads what the buffer holds then.\<close>

type_synonym slice = "nat \<times> nat"

definition deref :: "bytes \<Rightarrow> slice \<Rightarrow> bytes" where
  "deref buf = (\<lambda>(lo, hi). take (hi - lo) (drop lo buf))"

record Job =
  jobCmd :: gostring
  jobKey :: gostring
  jobValue :: slice
  jobKeys :: "gostring list"
  jobValues :: "slice list"

record ('db, 'ext) Server =
  srvStore :: "'db KVStore"
  srvQueue :: "'db Queue"
  srvOther :: 'ext
  jobQueue :: "Job list"
  jobsClosed :: bool
  opsProcessed :: uint64
  opsFastPath :: uint64
  opsSlowPath :: uint64
  opsErrors :: uint64
  jobsProcessed :: uint64

record Connection =
  readBuf :: bytes
  outQueue :: "bytes list"
  ctxDone :: bool
  connOps :: uint64
  avgLatency :: int64

type_synonym ('db, 'ext) st = "('db, 'ext) Server \<times> Connection"

text \<open>The capacities of the two channels, and the latency above which writes take the slow path.\<close>

definition outQueueSize :: nat where "outQueueSize = 5000"
definition DefaultJobQueueSize :: nat where "DefaultJobQueueSize = 50000"
definition FastPathThreshold :: int64 where "FastPathThreshold = 100000"

section \<open>Responses\<close>

text \<open>\<open>select { case c.outQueue <- msg: sent; case <-c.ctx.Done(): gone; default: full }\<close>\<close>

definition selectSend ::
  "('db, 'txn) Env \<Rightarrow> bytes \<Rightarrow> ('db, 'ext) st \<Rightarrow> (('db, 'ext) st \<Rightarrow> ('db, 'ext) st) \<Rightarrow>
   (('db, 'ext) st \<Rightarrow> ('db, 'ext) st) \<Rightarrow> ('db, 'ext) st" where
  "selectSend E msg st sent full =
     (case st of (s, c) \<Rightarrow>
        if length (outQueue c) < outQueueSize \<and> (\<not> ctxDone c \<or> envPick E)
        then sent (s, c\<lparr>outQueue := outQueue c @ [msg]\<rparr>)
        else if ctxDone c then st
        else full st)"

definition countError :: "('db, 'ext) st \<Rightarrow> ('db, 'ext) st" where
  "countError = (\<lambda>(s, c). (s\<lparr>opsErrors := opsErrors s + 1\<rparr>, c))"

definition countFast :: "('db, 'ext) st \<Rightarrow> ('db, 'ext) st" where
  "countFast = (\<lambda>(s, c). (s\<lparr>opsProcessed := opsProcessed s + 1, opsFastPath := opsFastPath s + 1\<rparr>, c))"

definition updateAvgLatency :: "('db, 'txn) Env \<Rightarrow> ('db, 'ext) st \<Rightarrow> ('db, 'ext) st" where
  "updateAvgLatency E = (\<lambda>(s, c). (s, c\<lparr>avgLatency := envAverage E (avgLatency c) (envElapsed E)\<rparr>))"

definition countConn :: "('db, 'ext) st \<Rightarrow> ('db, 'ext) st" where
  "countConn = (\<lambda>(s, c). (s, c\<lparr>connOps := connOps c + 1\<rparr>))"

definition sendBinaryResponse :: "('db, 'txn) Env \<Rightarrow> bytes \<Rightarrow> ('db, 'ext) st \<Rightarrow> ('db, 'ext) st" where
  "sendBinaryResponse E response st =
     selectSend E response st (\<lambda>st. updateAvgLatency E (countConn (countFast st))) countError"

definition sendBinaryError :: "('db, 'txn) Env \<Rightarrow> gostring \<Rightarrow> ('db, 'ext) st \<Rightarrow> ('db, 'ext) st option" where
  "sendBinaryError E err st = do {
     response \<leftarrow> EncodeErrorResponse err;
     Some (selectSend E response st id id)
   }"

text \<open>Running a store operation of the server.\<close>

definition onStore :: "('db, 'ext) st \<Rightarrow> ('db KVStore \<Rightarrow> 'db KVStore \<times> 'r) \<Rightarrow> ('db, 'ext) st \<times> 'r" where
  "onStore st f = (case st of (s, c) \<Rightarrow>
     case f (srvStore s) of (k, r) \<Rightarrow> ((s\<lparr>srvStore := k\<rparr>, c), r))"

definition onQueues :: "('db, 'ext) st \<Rightarrow> ('db Queue \<Rightarrow> ('db Queue \<times> 'r) option) \<Rightarrow> (('db, 'ext) st \<times> 'r) option" where
  "onQueues st f = (case st of (s, c) \<Rightarrow>
     map_option (\<lambda>(q, r). ((s\<lparr>srvQueue := q\<rparr>, c), r)) (f (srvQueue s)))"

definition kvText :: "kv_err \<Rightarrow> gostring" where
  "kvText e = lit (kv_errmsg e)"

definition queueText :: "queue_err \<Rightarrow> gostring" where
  "queueText e = lit (queue_errmsg e)"

section \<open>The binary handlers of the key-value store\<close>

text \<open>\<open>if err != nil { EncodeErrorResponse(err) } else { ok }; c.sendBinaryResponse(...)\<close>\<close>

definition respondKV ::
  "('db, 'txn) Env \<Rightarrow> ('a \<Rightarrow> bytes option) \<Rightarrow> ('db, 'ext) st \<times> (kv_err + 'a) \<Rightarrow> ('db, 'ext) st option" where
  "respondKV E ok sr = (case sr of (st, r) \<Rightarrow> do {
     response \<leftarrow> (case r of Inl e \<Rightarrow> EncodeErrorResponse (kvText e) | Inr a \<Rightarrow> ok a);
     Some (sendBinaryResponse E response st)
   })"

definition processBinarySet :: "('db, 'txn) Env \<Rightarrow> Request \<Rightarrow> ('db, 'ext) st \<Rightarrow> ('db, 'ext) st option" where
  "processBinarySet E req st = respondKV E (\<lambda>_. EncodeOKResponse)
     (onStore st (\<lambda>k. KVStore_Set (envB E) (envNow E) k (rqKey req) (rqValue req) 0))"

definition processBinaryGet :: "('db, 'txn) Env \<Rightarrow> Request \<Rightarrow> ('db, 'ext) st \<Rightarrow> ('db, 'ext) st option" where
  "processBinaryGet E req st = respondKV E EncodeValueResponse
     (onStore st (\<lambda>k. (k, KVStore_Get (envB E) (envNow E) k (rqKey req))))"

definition processBinaryDel :: "('db, 'txn) Env \<Rightarrow> Request \<Rightarrow> ('db, 'ext) st \<Rightarrow> ('db, 'ext) st option" where
  "processBinaryDel E req st = respondKV E (\<lambda>_. EncodeOKResponse)
     (onStore st (\<lambda>k. KVStore_Delete (envB E) k (rqKey req)))"

text \<open>\<open>for i, key := range keys { kvPairs[key] = values[i] }\<close>: a later value of a key replaces an earlier
  one; \<open>values[i]\<close> out of range panics.\<close>

definition toPairs :: "gostring list \<Rightarrow> bytes list \<Rightarrow> (gostring \<times> bytes) list option" where
  "toPairs ks vs =
     (if length vs < length ks then None
      else Some (fold (\<lambda>(k, v) m. AList.update k v m) (zip ks vs) []))"

definition processBinaryMSet :: "('db, 'txn) Env \<Rightarrow> Request \<Rightarrow> ('db, 'ext) st \<Rightarrow> ('db, 'ext) st option" where
  "processBinaryMSet E req st = do {
     kvPairs \<leftarrow> toPairs (rqKeys req) (rqValues req);
     respondKV E (\<lambda>_. EncodeOKResponse)
       (onStore st (\<lambda>k. KVStore_BatchSet (envB E) (envNow E) k kvPairs 0))
   }"

text \<open>The results in the order of the keys, a missing one as the empty value.\<close>

definition inOrder :: "gostring list \<Rightarrow> (gostring \<rightharpoonup> bytes) \<Rightarrow> bytes list" where
  "inOrder ks results = map (\<lambda>k. case results k of Some v \<Rightarrow> v | None \<Rightarrow> []) ks"

definition processBinaryMGet :: "('db, 'txn) Env \<Rightarrow> Request \<Rightarrow> ('db, 'ext) st \<Rightarrow> ('db, 'ext) st option" where
  "processBinaryMGet E req st =
     respondKV E (\<lambda>results. EncodeMultiValueResponse (inOrder (rqKeys req) results))
       (onStore st (\<lambda>k. (k, KVStore_BatchGet (envB E) (envNow E) k (rqKeys req))))"

definition processBinaryMDel :: "('db, 'txn) Env \<Rightarrow> Request \<Rightarrow> ('db, 'ext) st \<Rightarrow> ('db, 'ext) st option" where
  "processBinaryMDel E req st = respondKV E (\<lambda>_. EncodeOKResponse)
     (onStore st (\<lambda>k. KVStore_BatchDelete (envB E) k (rqKeys req)))"

section \<open>The binary handlers of the queues\<close>

text \<open>An error is sent and counted; a success is sent and counted by \<open>sendBinaryResponse\<close> and once more
  by the handler.\<close>

definition respondQueue ::
  "('db, 'txn) Env \<Rightarrow> ('a \<Rightarrow> bytes option) \<Rightarrow> ('db, 'ext) st \<times> (queue_err + 'a) \<Rightarrow> ('db, 'ext) st option" where
  "respondQueue E ok sr = (case sr of (st, r) \<Rightarrow>
     (case r of
        Inl e \<Rightarrow> map_option countError (sendBinaryError E (queueText e) st)
      | Inr a \<Rightarrow> do {
          response \<leftarrow> ok a;
          Some (countFast (sendBinaryResponse E response st))
        }))"

definition processBinaryQPush :: "('db, 'txn) Env \<Rightarrow> Request \<Rightarrow> ('db, 'ext) st \<Rightarrow> ('db, 'ext) st option" where
  "processBinaryQPush E req st = do {
     sr \<leftarrow> onQueues st (\<lambda>q. Queue_Push (envB E) (envNow E) (envUUID E) q (rqKey req) (rqValue req));
     respondQueue E (\<lambda>_. EncodeOKResponse) sr
   }"

definition processBinaryQPop :: "('db, 'txn) Env \<Rightarrow> Request \<Rightarrow> ('db, 'ext) st \<Rightarrow> ('db, 'ext) st option" where
  "processBinaryQPop E req st = do {
     sr \<leftarrow> onQueues st (\<lambda>q. Some (Queue_Pop (envB E) (envNow E) q (rqKey req)));
     respondQueue E EncodeValueResponse sr
   }"

definition processBinaryQPeek :: "('db, 'txn) Env \<Rightarrow> Request \<Rightarrow> ('db, 'ext) st \<Rightarrow> ('db, 'ext) st option" where
  "processBinaryQPeek E req st = do {
     sr \<leftarrow> onQueues st (\<lambda>q. Some (q, Queue_Peek (envB E) (envNow E) q (rqKey req)));
     respondQueue E EncodeValueResponse sr
   }"

definition processBinaryQLen :: "('db, 'txn) Env \<Rightarrow> Request \<Rightarrow> ('db, 'ext) st \<Rightarrow> ('db, 'ext) st option" where
  "processBinaryQLen E req st = do {
     sr \<leftarrow> onQueues st (\<lambda>q. Some (q, Queue_Len (envB E) (envNow E) q (rqKey req)));
     respondQueue E (\<lambda>len. EncodeValueResponse (be64 len)) sr
   }"

definition processBinaryQClear :: "('db, 'txn) Env \<Rightarrow> Request \<Rightarrow> ('db, 'ext) st \<Rightarrow> ('db, 'ext) st option" where
  "processBinaryQClear E req st = do {
     sr \<leftarrow> onQueues st (\<lambda>q. Some (Queue_Clear (envB E) (envNow E) q (rqKey req)));
     respondQueue E (\<lambda>_. EncodeOKResponse) sr
   }"

section \<open>Dispatch\<close>

text \<open>The opcodes whose handlers belong to the streams and the documents.\<close>

definition otherOps :: "byte set" where
  "otherOps = {OpSPublish, OpSConsume, OpSCommit, OpSCreateTopic, OpSPublishBatch, OpSSubscribe, OpSUnsubscribe,
     OpDocInsert, OpDocFind, OpDocUpdate, OpDocDelete, OpDocIndex}"

definition processRequestBinary ::
  "('db, 'txn) Env \<Rightarrow> (Request \<Rightarrow> ('db, 'ext) st \<Rightarrow> ('db, 'ext) st option) \<Rightarrow> bytes \<Rightarrow> ('db, 'ext) st \<Rightarrow>
   ('db, 'ext) st option" where
  "processRequestBinary E other data st =
     (case DecodeRequest data of
        None \<Rightarrow> None
      | Some (Inl err) \<Rightarrow> map_option countError (sendBinaryError E (lit err) st)
      | Some (Inr req) \<Rightarrow>
          let op = rqOpCode req in
          if op = OpSet then processBinarySet E req st
          else if op = OpGet then processBinaryGet E req st
          else if op = OpDel then processBinaryDel E req st
          else if op = OpMSet then processBinaryMSet E req st
          else if op = OpMGet then processBinaryMGet E req st
          else if op = OpMDel then processBinaryMDel E req st
          else if op = OpQPush then processBinaryQPush E req st
          else if op = OpQPop then processBinaryQPop E req st
          else if op = OpQPeek then processBinaryQPeek E req st
          else if op = OpQLen then processBinaryQLen E req st
          else if op = OpQClear then processBinaryQClear E req st
          else if op \<in> otherOps then other req st
          else map_option countError (sendBinaryError E (lit ''unknown opcode'') st))"

definition isBinary :: "bytes \<Rightarrow> bool" where
  "isBinary data \<longleftrightarrow> data \<noteq> [] \<and>
     (0x01 \<le> data ! 0 \<and> data ! 0 \<le> 0x12 \<or> 0x20 \<le> data ! 0 \<and> data ! 0 \<le> 0x24 \<or>
      0x30 \<le> data ! 0 \<and> data ! 0 \<le> 0x36 \<or> 0x40 \<le> data ! 0 \<and> data ! 0 \<le> 0x44)"

section \<open>The text protocol\<close>

text \<open>The parts between spaces and line ends, empty parts left out, as slices of the data; \<open>start\<close> is
  where the current part begins and \<open>i\<close> the position of the byte looked at.\<close>

fun commandParts :: "nat \<Rightarrow> nat \<Rightarrow> bytes \<Rightarrow> slice list" where
  "commandParts start i [] = (if start < i then [(start, i)] else [])"
| "commandParts start i (b # bs) =
     (if b = 32 \<or> b = 13 \<or> b = 10
      then (if start < i then [(start, i)] else []) @ commandParts (i + 1) (i + 1) bs
      else commandParts start (i + 1) bs)"

fun evens :: "'a list \<Rightarrow> 'a list" and odds :: "'a list \<Rightarrow> 'a list" where
  "evens [] = []"
| "evens (x # xs) = x # odds xs"
| "odds [] = []"
| "odds (x # xs) = evens xs"

text \<open>A single command, with the empty slice for the value when there is none, or a batch.  The command
  and the keys are strings, so copies; the values stay slices.\<close>

datatype command =
  Single gostring gostring slice | Batch gostring "gostring list" "slice list"

definition parseCommandExtended :: "bytes \<Rightarrow> string + command" where
  "parseCommandExtended data = (let parts = commandParts 0 0 data; str = deref data in
     if length parts < 1 then Inl ''invalid command''
     else let cmd = str (parts ! 0) in
       if cmd = lit ''MSET'' then
         if length parts < 3 \<or> even (length parts) then Inl ''MSET requires pairs of keys and values''
         else Inr (Batch cmd (map str (evens (tl parts))) (odds (tl parts)))
       else if cmd = lit ''MGET'' \<or> cmd = lit ''MDEL'' then
         if length parts < 2
         then Inl ((if cmd = lit ''MGET'' then ''MGET'' else ''MDEL'') @ '' requires at least one key'')
         else Inr (Batch cmd (map str (tl parts)) [])
       else if length parts < 2 then Inl ''invalid command''
       else Inr (Single cmd (str (parts ! 1)) (if length parts > 2 then parts ! 2 else (0, 0))))"

definition crlf :: bytes where "crlf = [13, 10]"

definition formatBulkString :: "bytes \<Rightarrow> bytes" where
  "formatBulkString data = lit ''$'' @ lit (dec (length data)) @ crlf @ data @ crlf"

definition formatBulkStrings :: "bytes list \<Rightarrow> bytes" where
  "formatBulkStrings dataList = lit ''*'' @ lit (dec (length dataList)) @ crlf @ concat (map formatBulkString dataList)"

definition formatError :: "gostring \<Rightarrow> bytes" where
  "formatError err = lit ''-ERR '' @ err @ crlf"

definition okLine :: bytes where "okLine = lit ''+OK'' @ crlf"

definition sendError :: "('db, 'txn) Env \<Rightarrow> gostring \<Rightarrow> ('db, 'ext) st \<Rightarrow> ('db, 'ext) st" where
  "sendError E err st = selectSend E (formatError err) st id id"

definition shouldUseFastPath :: "gostring \<Rightarrow> Connection \<Rightarrow> bool" where
  "shouldUseFastPath cmd c =
     (if cmd \<in> {lit ''GET'', lit ''EXISTS'', lit ''MGET''} then True
      else if cmd \<in> {lit ''SET'', lit ''DEL''} then \<not> FastPathThreshold <s avgLatency c
      else if cmd \<in> {lit ''INCR'', lit ''DECR''} then True
      else False)"

definition textResult :: "('a \<Rightarrow> bytes) \<Rightarrow> kv_err + 'a \<Rightarrow> bytes" where
  "textResult f r = (case r of Inl e \<Rightarrow> formatError (kvText e) | Inr a \<Rightarrow> f a)"

text \<open>The single commands, as the fast path and the workers run them.\<close>

definition runSingle ::
  "('db, 'txn) Env \<Rightarrow> gostring \<Rightarrow> gostring \<Rightarrow> bytes \<Rightarrow> ('db, 'ext) st \<Rightarrow> ('db, 'ext) st \<times> bytes" where
  "runSingle E cmd key val st = (let B = envB E; now = envNow E in
     if cmd = lit ''SET'' then apsnd (textResult (\<lambda>_. okLine)) (onStore st (\<lambda>k. KVStore_Set B now k key val 0))
     else if cmd = lit ''GET'' then apsnd (textResult formatBulkString) (onStore st (\<lambda>k. (k, KVStore_Get B now k key)))
     else if cmd = lit ''DEL'' then apsnd (textResult (\<lambda>_. okLine)) (onStore st (\<lambda>k. KVStore_Delete B k key))
     else if cmd = lit ''EXISTS'' then
       apsnd (textResult (\<lambda>e. lit (if e then '':1'' else '':0'') @ crlf)) (onStore st (\<lambda>k. (k, KVStore_Exists B now k key)))
     else if cmd = lit ''INCR'' then
       apsnd (textResult (\<lambda>n. formatBulkString (be64 n))) (onStore st (\<lambda>k. KVStore_Incr B now k key))
     else if cmd = lit ''DECR'' then
       apsnd (textResult (\<lambda>n. formatBulkString (be64 n))) (onStore st (\<lambda>k. KVStore_Decr B now k key))
     else (st, lit ''-ERR unknown command'' @ crlf))"

definition processFastPath ::
  "('db, 'txn) Env \<Rightarrow> gostring \<Rightarrow> gostring \<Rightarrow> slice \<Rightarrow> ('db, 'ext) st \<Rightarrow> ('db, 'ext) st" where
  "processFastPath E cmd key val st = (case runSingle E cmd key (deref (readBuf (snd st)) val) st of (st, response) \<Rightarrow>
     selectSend E response st (\<lambda>st. updateAvgLatency E (countConn (countFast st))) countError)"

text \<open>\<open>if err != nil { c.sendError(err); return }\<close>, otherwise the response is sent.\<close>

definition finishBatch ::
  "('db, 'txn) Env \<Rightarrow> ('a \<Rightarrow> bytes) \<Rightarrow> ('db, 'ext) st \<times> (kv_err + 'a) \<Rightarrow> ('db, 'ext) st" where
  "finishBatch E f = (\<lambda>(st, r). case r of
       Inl e \<Rightarrow> sendError E (kvText e) st
     | Inr a \<Rightarrow> selectSend E (f a) st (\<lambda>st. updateAvgLatency E (countConn (countFast st)))
         (\<lambda>st. sendError E (lit ''server busy'') (countError st)))"

definition processFastPathBatch ::
  "('db, 'txn) Env \<Rightarrow> gostring \<Rightarrow> gostring list \<Rightarrow> slice list \<Rightarrow> ('db, 'ext) st \<Rightarrow> ('db, 'ext) st option" where
  "processFastPathBatch E cmd ks vs st = (let B = envB E; now = envNow E in
     if cmd = lit ''MSET'' then
       map_option (\<lambda>kvPairs. finishBatch E (\<lambda>_. okLine) (onStore st (\<lambda>k. KVStore_BatchSet B now k kvPairs 0)))
         (toPairs ks (map (deref (readBuf (snd st))) vs))
     else if cmd = lit ''MGET'' then
       Some (finishBatch E (\<lambda>results. formatBulkStrings (inOrder ks results))
         (onStore st (\<lambda>k. (k, KVStore_BatchGet B now k ks))))
     else if cmd = lit ''MDEL'' then
       Some (finishBatch E (\<lambda>_. okLine) (onStore st (\<lambda>k. KVStore_BatchDelete B k ks)))
     else Some (sendError E (lit ''unknown command'') st))"

text \<open>The slow path: a job for the workers, or \<open>server busy\<close>.  A send on the channel that \<open>Stop\<close>
  has closed panics if \<open>select\<close> picks it.\<close>

definition enqueueJob :: "('db, 'txn) Env \<Rightarrow> Job \<Rightarrow> ('db, 'ext) st \<Rightarrow> ('db, 'ext) st option" where
  "enqueueJob E job = (\<lambda>(s, c).
     if jobsClosed s \<and> (\<not> ctxDone c \<or> envPick E) then None
     else if \<not> jobsClosed s \<and> length (jobQueue s) < DefaultJobQueueSize \<and> (\<not> ctxDone c \<or> envPick E)
     then Some (s\<lparr>jobQueue := jobQueue s @ [job], opsProcessed := opsProcessed s + 1,
         opsSlowPath := opsSlowPath s + 1\<rparr>, c\<lparr>connOps := connOps c + 1\<rparr>)
     else if ctxDone c then Some (s, c)
     else Some (countError (sendError E (lit ''server busy'') (s, c))))"

definition processSlowPath ::
  "('db, 'txn) Env \<Rightarrow> gostring \<Rightarrow> gostring \<Rightarrow> slice \<Rightarrow> ('db, 'ext) st \<Rightarrow> ('db, 'ext) st option" where
  "processSlowPath E cmd key val =
     enqueueJob E \<lparr>jobCmd = cmd, jobKey = key, jobValue = val, jobKeys = [], jobValues = []\<rparr>"

definition processSlowPathBatch ::
  "('db, 'txn) Env \<Rightarrow> gostring \<Rightarrow> gostring list \<Rightarrow> slice list \<Rightarrow> ('db, 'ext) st \<Rightarrow> ('db, 'ext) st option" where
  "processSlowPathBatch E cmd ks vs =
     enqueueJob E \<lparr>jobCmd = cmd, jobKey = [], jobValue = (0, 0), jobKeys = ks, jobValues = vs\<rparr>"

definition processRequestText :: "('db, 'txn) Env \<Rightarrow> bytes \<Rightarrow> ('db, 'ext) st \<Rightarrow> ('db, 'ext) st option" where
  "processRequestText E data st =
     (case parseCommandExtended data of
        Inl err \<Rightarrow> Some (countError (sendError E (lit err) st))
      | Inr (Single cmd key val) \<Rightarrow>
          (if shouldUseFastPath cmd (snd st) then Some (processFastPath E cmd key val st)
           else processSlowPath E cmd key val st)
      | Inr (Batch cmd ks vs) \<Rightarrow>
          (if shouldUseFastPath cmd (snd st) then processFastPathBatch E cmd ks vs st
           else processSlowPathBatch E cmd ks vs st))"

definition processRequestHybrid ::
  "('db, 'txn) Env \<Rightarrow> (Request \<Rightarrow> ('db, 'ext) st \<Rightarrow> ('db, 'ext) st option) \<Rightarrow> bytes \<Rightarrow> ('db, 'ext) st \<Rightarrow>
   ('db, 'ext) st option" where
  "processRequestHybrid E other data st =
     (if isBinary data then processRequestBinary E other data st else processRequestText E data st)"

section \<open>The workers\<close>

definition processJob :: "('db, 'txn) Env \<Rightarrow> Job \<Rightarrow> ('db, 'ext) st \<Rightarrow> (('db, 'ext) st \<times> bytes) option" where
  "processJob E job st = (let B = envB E; now = envNow E; cmd = jobCmd job; ks = jobKeys job in
     if cmd = lit ''MSET'' then
       map_option (\<lambda>kvPairs. apsnd (textResult (\<lambda>_. okLine)) (onStore st (\<lambda>k. KVStore_BatchSet B now k kvPairs 0)))
         (toPairs ks (map (deref (readBuf (snd st))) (jobValues job)))
     else if cmd = lit ''MGET'' then
       Some (apsnd (textResult (\<lambda>results. formatBulkStrings (inOrder ks results)))
         (onStore st (\<lambda>k. (k, KVStore_BatchGet B now k ks))))
     else if cmd = lit ''MDEL'' then
       Some (apsnd (textResult (\<lambda>_. lit '':'' @ lit (dec (length ks)) @ crlf))
         (onStore st (\<lambda>k. KVStore_BatchDelete B k ks)))
     else Some (runSingle E cmd (jobKey job) (deref (readBuf (snd st)) (jobValue job)) st))"

text \<open>A worker takes the next job and sends its response; a full queue drops it.\<close>

definition worker :: "('db, 'txn) Env \<Rightarrow> ('db, 'ext) st \<Rightarrow> ('db, 'ext) st option" where
  "worker E = (\<lambda>(s, c).
     case jobQueue s of
       [] \<Rightarrow> Some (s, c)
     | job # jobs \<Rightarrow>
         map_option (\<lambda>(st, response). selectSend E response st
             (\<lambda>(s, c). (s\<lparr>jobsProcessed := jobsProcessed s + 1\<rparr>, c)) id)
           (processJob E job (s\<lparr>jobQueue := jobs\<rparr>, c)))"

section \<open>The loops of a connection\<close>

text \<open>One turn of \<open>readLoop\<close>: \<open>Read\<close> fails, which ends the connection, or fills the front of the buffer
  with at most as many bytes as it holds.\<close>

definition readLoop ::
  "('db, 'txn) Env \<Rightarrow> (Request \<Rightarrow> ('db, 'ext) st \<Rightarrow> ('db, 'ext) st option) \<Rightarrow> bytes option \<Rightarrow> ('db, 'ext) st \<Rightarrow>
   ('db, 'ext) st option" where
  "readLoop E other input = (\<lambda>(s, c).
     if ctxDone c then Some (s, c)
     else case input of
       None \<Rightarrow> Some (s, c\<lparr>ctxDone := True\<rparr>)
     | Some bytes \<Rightarrow>
         let data = take (length (readBuf c)) bytes in
         processRequestHybrid E other data (s, c\<lparr>readBuf := data @ drop (length data) (readBuf c)\<rparr>))"

text \<open>One turn of \<open>writeLoop\<close>, with the message it wrote; a write that fails ends the connection.\<close>

definition writeLoop :: "('db, 'txn) Env \<Rightarrow> bool \<Rightarrow> Connection \<Rightarrow> Connection \<times> bytes option" where
  "writeLoop E ok c =
     (case outQueue c of
        [] \<Rightarrow> (c, None)
      | msg # msgs \<Rightarrow>
          if ctxDone c \<and> \<not> envPick E then (c, None)
          else if ok then (c\<lparr>outQueue := msgs\<rparr>, Some msg)
          else (c\<lparr>outQueue := msgs, ctxDone := True\<rparr>, None))"

text \<open>\<open>Stop\<close>: the contexts are cancelled, the channel of the jobs is closed and the workers finish what it
  still holds.\<close>

fun drain :: "('db, 'txn) Env \<Rightarrow> Job list \<Rightarrow> ('db, 'ext) st \<Rightarrow> ('db, 'ext) st option" where
  "drain E [] st = Some st"
| "drain E (_ # jobs) st = Option.bind (worker E st) (drain E jobs)"

definition Stop :: "('db, 'txn) Env \<Rightarrow> ('db, 'ext) st \<Rightarrow> ('db, 'ext) st option" where
  "Stop E = (\<lambda>(s, c).
     if jobsClosed s then None
     else drain E (jobQueue s) (s\<lparr>jobsClosed := True\<rparr>, c\<lparr>ctxDone := True\<rparr>))"

end
