(* ===== verification/ServerProps.thy ===== *)
theory ServerProps
  imports Server
begin

text \<open>
  What a client sees of the server: requests encoded by the client's protocol, decoded and run by the
  server, and responses the client decodes; which requests panic, get an error or are misread; and the
  invariant of a connection over every interleaving of its loops and the workers.
\<close>

section \<open>Sending\<close>

text \<open>The connection is open and its queue has room for \<open>n\<close> responses.\<close>

definition ready :: "nat \<Rightarrow> Connection \<Rightarrow> bool" where
  "ready n c \<longleftrightarrow> \<not> ctxDone c \<and> length (outQueue c) + n \<le> outQueueSize"

text \<open>The state after a response was sent and counted.\<close>

definition answered :: "('db, 'txn) Env \<Rightarrow> bytes \<Rightarrow> ('db, 'ext) st \<Rightarrow> ('db, 'ext) st" where
  "answered E r = (\<lambda>(s, c). (s\<lparr>opsProcessed := opsProcessed s + 1, opsFastPath := opsFastPath s + 1\<rparr>,
     c\<lparr>outQueue := outQueue c @ [r], connOps := connOps c + 1,
       avgLatency := envAverage E (avgLatency c) (envElapsed E)\<rparr>))"

lemma selectSend_ready:
  "ready (Suc 0) c \<Longrightarrow> selectSend E msg (s, c) sent full = sent (s, c\<lparr>outQueue := outQueue c @ [msg]\<rparr>)"
  by (simp add: selectSend_def ready_def)

lemma sendBinaryResponse_ready: "ready (Suc 0) c \<Longrightarrow> sendBinaryResponse E r (s, c) = answered E r (s, c)"
  by (simp add: sendBinaryResponse_def selectSend_ready countFast_def countConn_def updateAvgLatency_def answered_def)

lemma sendBinaryError_ready:
  "ready (Suc 0) c \<Longrightarrow> sendBinaryError E err (s, c) =
     Some (s, c\<lparr>outQueue := outQueue c @ [frame StatusError err]\<rparr>)"
  by (simp add: sendBinaryError_def selectSend_ready encoded)

lemma ready_cong: "ready n c \<Longrightarrow> ready n (c\<lparr>readBuf := b\<rparr>)"
  by (simp add: ready_def)

lemma ready_le: "ready n c \<Longrightarrow> m \<le> n \<Longrightarrow> ready m c"
  by (simp add: ready_def)

lemma respondKV_ready:
  "ready (Suc 0) c \<Longrightarrow> ok a = Some r \<Longrightarrow> respondKV E ok ((s, c), Inr a) = Some (answered E r (s, c))"
  "ready (Suc 0) c \<Longrightarrow> respondKV E ok ((s, c), Inl e) = Some (answered E (frame StatusError (kvText e)) (s, c))"
  by (simp_all add: respondKV_def sendBinaryResponse_ready encoded)

section \<open>Requests that fit the buffer\<close>

lemma readLoop_fits:
  "ready n c \<Longrightarrow> length data \<le> length (readBuf c) \<Longrightarrow>
   readLoop E other (Some data) (s, c) =
     processRequestHybrid E other data (s, c\<lparr>readBuf := data @ drop (length data) (readBuf c)\<rparr>)"
  by (simp add: readLoop_def ready_def)

text \<open>A frame of an operation in the detected ranges reaches its handler.\<close>

lemma isBinary_frame:
  "isBinary (frame op p) \<longleftrightarrow>
     (0x01 \<le> op \<and> op \<le> 0x12 \<or> 0x20 \<le> op \<and> op \<le> 0x24 \<or> 0x30 \<le> op \<and> op \<le> 0x36 \<or> 0x40 \<le> op \<and> op \<le> 0x44)"
  by (simp add: isBinary_def frame_def)

lemma hybrid_frame:
  assumes "isBinary data" and "DecodeRequest data = Some (Inr req)"
  shows "rqOpCode req = OpSet \<Longrightarrow> processRequestHybrid E other data st = processBinarySet E req st"
    and "rqOpCode req = OpGet \<Longrightarrow> processRequestHybrid E other data st = processBinaryGet E req st"
    and "rqOpCode req = OpDel \<Longrightarrow> processRequestHybrid E other data st = processBinaryDel E req st"
    and "rqOpCode req = OpMSet \<Longrightarrow> processRequestHybrid E other data st = processBinaryMSet E req st"
    and "rqOpCode req = OpMGet \<Longrightarrow> processRequestHybrid E other data st = processBinaryMGet E req st"
    and "rqOpCode req \<in> {OpExists, OpIncr, OpDecr} \<Longrightarrow> processRequestHybrid E other data st =
      map_option countError (sendBinaryError E (lit ''unknown opcode'') st)"
  using assms by (auto simp: processRequestHybrid_def processRequestBinary_def opcodes otherOps_def)

lemma newRequest_op [simp]: "rqOpCode (newRequest op) = op"
  by (simp add: newRequest_def)

lemma answered_simps [simp]:
  "srvStore (fst (answered E r st)) = srvStore (fst st)"
  "srvQueue (fst (answered E r st)) = srvQueue (fst st)"
  "srvOther (fst (answered E r st)) = srvOther (fst st)"
  "jobQueue (fst (answered E r st)) = jobQueue (fst st)"
  "outQueue (snd (answered E r st)) = outQueue (snd st) @ [r]"
  "readBuf (snd (answered E r st)) = readBuf (snd st)"
  "ctxDone (snd (answered E r st)) = ctxDone (snd st)"
  by (simp_all add: answered_def split: prod.splits)

lemma ready_answered: "ready (Suc n) (snd st) \<Longrightarrow> ready n (snd (answered E r st))"
  by (simp add: ready_def)

text \<open>The handlers of single keys, on a connection with room.\<close>

lemma processBinarySet_ready:
  "ready (Suc 0) c \<Longrightarrow> processBinarySet E req (s, c) =
     (case KVStore_Set (envB E) (envNow E) (srvStore s) (rqKey req) (rqValue req) 0 of
        (k, Inl e) \<Rightarrow> Some (answered E (frame StatusError (kvText e)) (s\<lparr>srvStore := k\<rparr>, c))
      | (k, Inr _) \<Rightarrow> Some (answered E (frame StatusOK []) (s\<lparr>srvStore := k\<rparr>, c)))"
  by (auto simp: processBinarySet_def onStore_def respondKV_ready encoded split: prod.splits sum.splits)

lemma processBinaryGet_ready:
  "ready (Suc 0) c \<Longrightarrow> processBinaryGet E req (s, c) =
     (case KVStore_Get (envB E) (envNow E) (srvStore s) (rqKey req) of
        Inl e \<Rightarrow> Some (answered E (frame StatusError (kvText e)) (s, c))
      | Inr v \<Rightarrow> Some (answered E (frame StatusOK v) (s, c)))"
  by (auto simp: processBinaryGet_def onStore_def respondKV_ready encoded split: sum.splits)

lemma readLoop_set:
  assumes "EncodeSetRequest key val = Some data" and "length key \<le> MaxKeyLen" and "length val \<le> MaxValueLen"
    and "length data \<le> length (readBuf c)" and "ready (Suc 0) c"
  shows "readLoop E other (Some data) (s, c) =
    (case KVStore_Set (envB E) (envNow E) (srvStore s) key val 0 of (k, r) \<Rightarrow>
       Some (answered E (case r of Inl e \<Rightarrow> frame StatusError (kvText e) | Inr _ \<Rightarrow> frame StatusOK [])
         (s\<lparr>srvStore := k\<rparr>, c\<lparr>readBuf := data @ drop (length data) (readBuf c)\<rparr>)))"
proof -
  have data: "data = frame OpSet (str16 key @ str32 val)" using assms(1) by (simp add: encoded)
  have "DecodeRequest data = Some (Inr ((newRequest OpSet)\<lparr>rqKey := key, rqValue := val\<rparr>))"
    using assms(2,3) by (simp add: data wire_simps MaxKeyLen_def MaxValueLen_def)
  moreover have "isBinary data" by (simp add: data isBinary_frame opcodes)
  ultimately show ?thesis
    using assms(4,5)
    by (simp add: readLoop_fits hybrid_frame processBinarySet_ready ready_cong split: prod.splits sum.splits)
qed

lemma readLoop_get:
  assumes "EncodeGetRequest key = Some data" and "length key < 65534"
    and "length data \<le> length (readBuf c)" and "ready (Suc 0) c"
  shows "readLoop E other (Some data) (s, c) =
    Some (answered E (case KVStore_Get (envB E) (envNow E) (srvStore s) key of
        Inl e \<Rightarrow> frame StatusError (kvText e) | Inr v \<Rightarrow> frame StatusOK v)
      (s, c\<lparr>readBuf := data @ drop (length data) (readBuf c)\<rparr>))"
proof -
  have data: "data = frame OpGet (str16 key)" using assms(1) by (simp add: encoded simple_encoders)
  have "DecodeRequest data = Some (Inr ((newRequest OpGet)\<lparr>rqKey := key\<rparr>))"
    using assms(2) by (simp add: data wire_simps simpleOps_def)
  moreover have "isBinary data" by (simp add: data isBinary_frame opcodes)
  ultimately show ?thesis
    using assms(3,4)
    by (simp add: readLoop_fits hybrid_frame processBinaryGet_ready ready_cong split: sum.splits)
qed

section \<open>What a decoded request looks like\<close>

definition decodesTo :: "('a \<Rightarrow> bool) \<Rightarrow> 'a decoded \<Rightarrow> bool" where
  "decodesTo P m \<longleftrightarrow> (case m of Some (Inr a) \<Rightarrow> P a | _ \<Rightarrow> True)"

lemma decodesTo_value: "P a \<Longrightarrow> decodesTo P (Some (Inr a))"
  by (simp add: decodesTo_def)

lemma decodesTo_error: "decodesTo P (Some (Inl e))"
  by (simp add: decodesTo_def)

lemma decodesTo_need: "decodesTo P k \<Longrightarrow> decodesTo P (need payload n err k)"
  by (simp add: need_def decodesTo_def)

lemma decodesTo_bind: "(\<And>x. decodesTo P (f x)) \<Longrightarrow> decodesTo P (Option.bind m f)"
  by (cases m) (simp_all add: decodesTo_def)

lemma decodesTo_read:
  "(\<And>s pos. decodesTo P (k s pos)) \<Longrightarrow> decodesTo P (readStr16 payload pos err k)"
  "(\<And>s pos. decodesTo P (k s pos)) \<Longrightarrow> decodesTo P (readStr32 payload pos err k)"
  unfolding readStr16_def readStr32_def Let_def by (intro decodesTo_bind decodesTo_need; blast)+

lemma decodesTo_if: "decodesTo P a \<Longrightarrow> decodesTo P b \<Longrightarrow> decodesTo P (if c then a else b)"
  by simp

lemmas decodesTo_intros = decodesTo_value decodesTo_error decodesTo_need decodesTo_bind decodesTo_read decodesTo_if

text \<open>The request has the operation code of the frame, and an MSET as many values as keys.\<close>

definition wellDecoded :: "byte \<Rightarrow> Request \<Rightarrow> bool" where
  "wellDecoded op req \<longleftrightarrow> rqOpCode req = op \<and> (op = OpMSet \<longrightarrow> length (rqKeys req) = length (rqValues req))"

lemma decodeMSetLoop_lengths:
  "length ks = length vs \<Longrightarrow> decodesTo (\<lambda>(ks, vs). length ks = length vs) (decodeMSetLoop n payload pos ks vs)"
proof (induction n arbitrary: pos ks vs)
  case 0
  then show ?case by (simp add: decodesTo_def)
next
  case (Suc n)
  then show ?case
    unfolding decodeMSetLoop.simps Let_def by (intro decodesTo_intros) simp
qed

lemma decodeMSetRequest_wellDecoded: "decodesTo (wellDecoded OpMSet) (decodeMSetRequest payload)"
proof -
  have "decodesTo (wellDecoded OpMSet) (Option.bind (decodeMSetLoop n payload 2 [] [])
      (\<lambda>r. Some (case r of Inl e \<Rightarrow> Inl e
         | Inr (ks, vs) \<Rightarrow> Inr ((newRequest OpMSet)\<lparr>rqKeys := ks, rqValues := vs\<rparr>))))" for n
    using decodeMSetLoop_lengths [of "[]" "[]" n payload 2]
    by (auto simp: decodesTo_def wellDecoded_def split: option.splits sum.splits Option.bind_splits)
  then show ?thesis
    unfolding decodeMSetRequest_def by (rule decodesTo_need [OF decodesTo_bind])
qed

lemma decodes_wellDecoded:
  "decodesTo (wellDecoded OpSet) (decodeSetRequest p)"
  "op \<noteq> OpMSet \<Longrightarrow> decodesTo (wellDecoded op) (decodeSimpleRequest op p)"
  "decodesTo (wellDecoded OpQPush) (decodeQPushRequest p)"
  "decodesTo (wellDecoded OpSPublish) (decodeSPublishRequest p)"
  "decodesTo (wellDecoded OpSConsume) (decodeSConsumeRequest p)"
  "decodesTo (wellDecoded OpSCommit) (decodeSCommitRequest p)"
  "decodesTo (wellDecoded OpSCreateTopic) (decodeSCreateTopicRequest p)"
  "decodesTo (wellDecoded OpSSubscribe) (decodeSSubscribeRequest p)"
  "decodesTo (wellDecoded OpSUnsubscribe) (decodeSUnsubscribeRequest p)"
  "decodesTo (wellDecoded OpDocInsert) (decodeDocInsertRequest p)"
  "decodesTo (wellDecoded OpDocFind) (decodeDocFindRequest p)"
  "decodesTo (wellDecoded OpDocUpdate) (decodeDocUpdateRequest p)"
  "decodesTo (wellDecoded OpDocDelete) (decodeDocDeleteRequest p)"
  "decodesTo (wellDecoded OpDocIndex) (decodeDocIndexRequest p)"
  unfolding decodeSetRequest_def decodeSimpleRequest_def decodeQPushRequest_def decodeSPublishRequest_def
    decodeSConsumeRequest_def decodeSCommitRequest_def decodeSCreateTopicRequest_def decodeSSubscribeRequest_def
    decodeSUnsubscribeRequest_def decodeDocInsertRequest_def decodeDocFindRequest_def decodeDocUpdateRequest_def
    decodeDocDeleteRequest_def decodeDocIndexRequest_def Let_def
  by (intro decodesTo_intros; simp add: wellDecoded_def opcodes)+

lemma decodes_batches_wellDecoded:
  "op \<noteq> OpMSet \<Longrightarrow> decodesTo (wellDecoded op) (decodeMGetRequest op p)"
  "decodesTo (wellDecoded OpSPublishBatch) (decodeSPublishBatchRequest p)"
  unfolding decodeMGetRequest_def decodeSPublishBatchRequest_def Let_def
  by (intro decodesTo_intros; auto simp: decodesTo_def wellDecoded_def opcodes split: sum.splits)+

lemma decodePayload_wellDecoded: "decodesTo (wellDecoded op) (decodePayload op p)"
  unfolding decodePayload_def
  by (auto simp: decodesTo_error opcodes decodes_wellDecoded [unfolded opcodes]
      decodeMSetRequest_wellDecoded [unfolded opcodes] decodes_batches_wellDecoded [unfolded opcodes])

lemma DecodeRequest_wellDecoded:
  "DecodeRequest data = Some (Inr req) \<Longrightarrow> wellDecoded (data ! 0) req"
proof -
  assume "DecodeRequest data = Some (Inr req)"
  moreover have "decodesTo (wellDecoded (data ! 0)) (DecodeRequest data)"
    unfolding DecodeRequest_def goindex_def
    by (auto intro!: decodesTo_bind decodePayload_wellDecoded decodesTo_error)
  ultimately show ?thesis by (simp add: decodesTo_def)
qed


section \<open>Where the server panics\<close>

text \<open>C22: the type of what is decoded.  Whatever bytes arrive, a request that is decoded from them has the operation
  of the first byte, and an MSET has a value for each of its keys, as the handlers rely on.\<close>

theorem decoded_type:
  assumes "DecodeRequest data = Some (Inr req)"
  shows "rqOpCode req = data ! 0 \<and> (rqOpCode req = OpMSet \<longrightarrow> length (rqKeys req) = length (rqValues req))"
  using DecodeRequest_wellDecoded [OF assms] by (auto simp: wellDecoded_def)

theorem decoded_type_witness:
  "\<exists>data req. EncodeMSetRequest [[1], [2]] [[3], []] = Some data \<and> DecodeRequest data = Some (Inr req) \<and>
     rqOpCode req = OpMSet \<and> length (rqKeys req) = length (rqValues req)"
proof -
  obtain data where data: "EncodeMSetRequest [[1], [2]] [[3], []] = Some data" by (simp add: encoded)
  then have "data ! 0 = OpMSet" by (auto simp: encoded frame_def)
  moreover have "\<exists>req. DecodeRequest data = Some (Inr req)"
  proof -
    have "case Option.bind (EncodeMSetRequest [[1], [2]] [[3], []]) DecodeRequest of Some (Inr _) \<Rightarrow> True | _ \<Rightarrow> False" by code_simp
    then show ?thesis by (auto simp: data split: option.splits sum.splits)
  qed
  ultimately show ?thesis using data decoded_type [of data] by metis
qed


lemma PushMessage_total: "PushMessage B now uuid q name val \<noteq> None"
  by (simp add: PushMessage_def qUpdateP_def UpdateP_def pushMessageBody_def checked_def badgerCall_def
      encodeQueueMessage_eq Let_def option.map_disc_iff del: not_None_eq split: sum.splits)

lemma sendBinaryError_total: "sendBinaryError E err st \<noteq> None"
  by (simp add: sendBinaryError_def encoded)

lemma map_total: "m \<noteq> None \<Longrightarrow> map_option f m \<noteq> None"
  by simp

lemma respondKV_total: "(\<And>a. ok a \<noteq> None) \<Longrightarrow> respondKV E ok sr \<noteq> None"
  unfolding respondKV_def by (cases sr; cases "snd sr") (simp_all add: encoded bind_eq_None_conv del: not_None_eq)

lemma respondQueue_total: "(\<And>a. ok a \<noteq> None) \<Longrightarrow> respondQueue E ok sr \<noteq> None"
  unfolding respondQueue_def
  by (cases sr; cases "snd sr") (simp_all add: sendBinaryError_total bind_eq_None_conv del: not_None_eq)

lemma onQueues_total: "(\<And>q. f q \<noteq> None) \<Longrightarrow> onQueues st f \<noteq> None"
  unfolding onQueues_def by (cases st) (simp del: not_None_eq)

lemma toPairs_total: "length ks = length vs \<Longrightarrow> toPairs ks vs \<noteq> None"
  by (simp add: toPairs_def)

lemma Queue_Push_total: "Queue_Push B now uuid q name val \<noteq> None"
  using PushMessage_total by (simp add: Queue_Push_def)

lemmas handler_defs = processBinarySet_def processBinaryGet_def processBinaryDel_def processBinaryMSet_def
  processBinaryMGet_def processBinaryMDel_def processBinaryQPush_def processBinaryQPop_def
  processBinaryQPeek_def processBinaryQLen_def processBinaryQClear_def

lemma handlers_total:
  "processBinarySet E req st \<noteq> None" "processBinaryGet E req st \<noteq> None" "processBinaryDel E req st \<noteq> None"
  "length (rqKeys req) = length (rqValues req) \<Longrightarrow> processBinaryMSet E req st \<noteq> None"
  "processBinaryMGet E req st \<noteq> None" "processBinaryMDel E req st \<noteq> None"
  "processBinaryQPush E req st \<noteq> None" "processBinaryQPop E req st \<noteq> None"
  "processBinaryQPeek E req st \<noteq> None" "processBinaryQLen E req st \<noteq> None" "processBinaryQClear E req st \<noteq> None"
  unfolding handler_defs
  by (intro bind_total respondKV_total respondQueue_total onQueues_total toPairs_total Queue_Push_total;
      simp add: encoded)+

lemma processRequestBinary_panics:
  assumes "\<And>req. other req st \<noteq> None"
  shows "processRequestBinary E other data st = None \<longleftrightarrow> DecodeRequest data = None"
proof (cases "DecodeRequest data")
  case (Some r)
  then show ?thesis
  proof (cases r)
    case (Inr req)
    with Some have "wellDecoded (data ! 0) req" by (simp add: DecodeRequest_wellDecoded)
    then have "rqOpCode req = OpMSet \<Longrightarrow> length (rqKeys req) = length (rqValues req)"
      by (simp add: wellDecoded_def)
    then have "processRequestBinary E other data st \<noteq> None"
      unfolding processRequestBinary_def Some option.case Inr sum.case Let_def
      by (intro if_total handlers_total assms map_total sendBinaryError_total) simp_all
    with Some show ?thesis by simp
  qed (simp add: processRequestBinary_def sendBinaryError_total del: not_None_eq)
qed (simp add: processRequestBinary_def)

lemma length_evens_odds: "even (length xs) \<Longrightarrow> length (evens xs) = length (odds xs)"
  by (induction xs rule: induct_list012) auto

lemma enqueueJob_total: "\<not> jobsClosed (fst st) \<Longrightarrow> enqueueJob E job st \<noteq> None"
  by (cases st) (simp add: enqueueJob_def)

lemma processRequestText_total:
  assumes "\<not> jobsClosed (fst st)"
  shows "processRequestText E data st \<noteq> None"
  using assms
  by (auto simp: processRequestText_def processSlowPath_def processSlowPathBatch_def processFastPathBatch_def
      shouldUseFastPath_def inj_lit enqueueJob_total [simplified] Let_def split: sum.splits command.splits)

section \<open>An executable server\<close>

text \<open>A server over the executable Badger, with a connection whose buffer has the size of the source's.\<close>

definition mem_env :: "int64 \<Rightarrow> (mem_db, mem_txn) Env" where
  "mem_env avg = \<lparr>envB = mem_badger, envNow = 0, envUUID = lit ''u'', envElapsed = 1, envPick = True,
     envAverage = (\<lambda>_ _. avg)\<rparr>"

definition mem_server :: "(mem_db, unit) Server" where
  "mem_server = \<lparr>srvStore = \<lparr>storage = mem_open\<rparr>, srvQueue = \<lparr>qstorage = \<lparr>qdb = []\<rparr>\<rparr>, srvOther = (),
     jobQueue = [], jobsClosed = False, opsProcessed = 0, opsFastPath = 0, opsSlowPath = 0, opsErrors = 0,
     jobsProcessed = 0\<rparr>"

definition new_conn :: Connection where
  "new_conn = \<lparr>readBuf = replicate 32768 0, outQueue = [], ctxDone = False, connOps = 0, avgLatency = 0\<rparr>"

lemma mem_env_badger [simp]: "envB (mem_env a) = mem_badger"
  by (simp add: mem_env_def)

section \<open>Set and get over the wire\<close>

lemma KVStore_Set_reads:
  assumes "badger_store B" and "KVStore_Set B now k key val ttl = (k', Inr ())"
  shows "(ttl \<le> 0 \<longrightarrow> KVStore_Get B u k' key = Inr val) \<and>
    (0 < ttl \<and> now \<le> u \<and> u + second \<le> now + ttl \<longrightarrow> KVStore_Get B u k' key = Inr val) \<and>
    (0 < ttl \<and> now + ttl \<le> u \<longrightarrow> KVStore_Get B u k' key = Inl ErrKeyNotFound) \<and>
    (j \<noteq> key \<longrightarrow> KVStore_Get B u k' j = KVStore_Get B u k j)"
proof -
  obtain s r where "Set B now (storage k) key val ttl = (s, r)" by fastforce
  with assms(2) badger_store.set_reads [OF assms(1), of now "storage k" key val ttl s u j] show ?thesis
    by (auto simp: KVStore_Set_def onStorage_def KVStore_Get_def)
qed

lemma KVStore_errors:
  assumes "badger_store B"
  shows "KVStore_Set B now k key val ttl = (k', Inl e) \<Longrightarrow> k' = k"
    and "KVStore_Delete B k key = (k', Inl e) \<Longrightarrow> k' = k"
proof -
  show "k' = k" if "KVStore_Set B now k key val ttl = (k', Inl e)"
    using that badger_store.single_key_errors(1) [OF assms, of now "storage k" key val ttl]
    by (cases "Set B now (storage k) key val ttl") (auto simp: KVStore_Set_def onStorage_def)
  show "k' = k" if "KVStore_Delete B k key = (k', Inl e)"
    using that badger_store.single_key_errors(2) [OF assms, of "storage k" key]
    by (cases "Delete B (storage k) key") (auto simp: KVStore_Delete_def onStorage_def)
qed

lemma KVStore_Set_cases:
  assumes "badger_store B"
  shows "KVStore_Set B now s key val 0 = (s', Inl e) \<Longrightarrow> s' = s"
    and "KVStore_Set B now s key val 0 = (s', Inr ()) \<Longrightarrow> KVStore_Get B u s' key = Inr val"
proof -
  obtain k r where *: "Set B now (storage s) key val 0 = (k, r)" by fastforce
  show "s' = s" if "KVStore_Set B now s key val 0 = (s', Inl e)"
    using that * badger_store.single_key_errors(1) [OF assms, of now "storage s" key val 0 k e]
    by (auto simp: KVStore_Set_def onStorage_def)
  show "KVStore_Get B u s' key = Inr val" if "KVStore_Set B now s key val 0 = (s', Inr ())"
    using that * badger_store.set_reads [OF assms, of now "storage s" key val 0 k u key]
    by (auto simp: KVStore_Set_def onStorage_def KVStore_Get_def)
qed

text \<open>C3: end to end over one connection: a client sends the encoded SET of a key and then the encoded GET.
  If both fit the server's read buffer, the server answers both without panicking, in order.  Either the
  store reported an error for the SET, which the first response carries, and the store is as before; or
  the client decodes the first response as OK and the second as the value it set.  The queues of the
  server are not touched.\<close>

theorem server_set_get:
  assumes "badger_store (envB E)" and "envB E' = envB E"
    and "length key < 65534" and "length val \<le> MaxValueLen"
    and "EncodeSetRequest key val = Some req" and "EncodeGetRequest key = Some req'"
    and "length req \<le> length (readBuf c)" and "length req' \<le> length (readBuf c)" and "ready 2 c"
  shows "\<exists>s1 c1 s2 c2 r1 r2.
    readLoop E other (Some req) (s, c) = Some (s1, c1) \<and> readLoop E' other (Some req') (s1, c1) = Some (s2, c2) \<and>
    outQueue c2 = outQueue c @ [r1, r2] \<and> srvQueue s2 = srvQueue s \<and>
    ((\<exists>e. r1 = frame StatusError (kvText e) \<and> srvStore s2 = srvStore s) \<or>
     (DecodeResponse r1 = Some (Inr (newResponse StatusOK)) \<and>
      DecodeResponse r2 = Some (Inr ((newResponse StatusOK)\<lparr>rsValue := val\<rparr>))))"
proof -
  obtain k r where set: "KVStore_Set (envB E) (envNow E) (srvStore s) key val 0 = (k, r)" by fastforce
  let ?r1 = "case r of Inl e \<Rightarrow> frame StatusError (kvText e) | Inr _ \<Rightarrow> frame StatusOK []"
  let ?r2 = "case KVStore_Get (envB E) (envNow E') k key of Inl e \<Rightarrow> frame StatusError (kvText e) | Inr v \<Rightarrow> frame StatusOK v"
  let ?st1 = "answered E ?r1 (s\<lparr>srvStore := k\<rparr>, c\<lparr>readBuf := req @ drop (length req) (readBuf c)\<rparr>)"
  have one: "readLoop E other (Some req) (s, c) = Some ?st1"
    using readLoop_set [OF assms(5) _ assms(4) assms(7) ready_le [OF assms(9)], of E other s] assms(3)
    by (simp add: set MaxKeyLen_def)
  have "ready (Suc 0) (snd ?st1)" using assms(9) by (intro ready_answered) (simp add: ready_def)
  then have two: "readLoop E' other (Some req') ?st1 = Some (answered E' ?r2
      (fst ?st1, (snd ?st1)\<lparr>readBuf := req' @ drop (length req') (readBuf (snd ?st1))\<rparr>))" (is "_ = Some ?st2")
    using readLoop_get [OF assms(6) assms(3), of "snd ?st1" E' other "fst ?st1"] assms(2,7,8) by simp
  have "outQueue (snd ?st2) = outQueue c @ [?r1, ?r2]" "srvQueue (fst ?st2) = srvQueue s" "srvStore (fst ?st2) = k"
    by simp_all
  moreover have "(\<exists>e. ?r1 = frame StatusError (kvText e) \<and> k = srvStore s) \<or>
      (DecodeResponse ?r1 = Some (Inr (newResponse StatusOK)) \<and>
       DecodeResponse ?r2 = Some (Inr ((newResponse StatusOK)\<lparr>rsValue := val\<rparr>)))"
  proof (cases r)
    case (Inl e)
    with set have "k = srvStore s" using KVStore_Set_cases(1) [OF assms(1)] by blast
    with Inl show ?thesis by auto
  next
    case (Inr u)
    with set have "KVStore_Get (envB E) (envNow E') k key = Inr val"
      using KVStore_Set_cases(2) [OF assms(1)] by simp
    with Inr assms(4) show ?thesis
      by (simp add: DecodeResponse_frame MaxValueLen_def newResponse_def)
  qed
  ultimately show ?thesis
    using one two by (metis prod.collapse)
qed

theorem server_set_get_witness:
  "\<exists>s1 c1 s2 c2 r1 r2.
    readLoop (mem_env 0) (\<lambda>_. Some) (EncodeSetRequest [107] [7]) (mem_server, new_conn) = Some (s1, c1) \<and>
    readLoop (mem_env 0) (\<lambda>_. Some) (EncodeGetRequest [107]) (s1, c1) = Some (s2, c2) \<and>
    outQueue c2 = [r1, r2] \<and>
    ((\<exists>e. r1 = frame StatusError (kvText e) \<and> srvStore s2 = srvStore mem_server) \<or>
     (DecodeResponse r1 = Some (Inr (newResponse StatusOK)) \<and>
      DecodeResponse r2 = Some (Inr ((newResponse StatusOK)\<lparr>rsValue := [7]\<rparr>))))"
proof -
  have req: "EncodeSetRequest [107] [7] = Some (frame OpSet (str16 [107] @ str32 [7]))"
    "EncodeGetRequest [107] = Some (frame OpGet (str16 [107]))"
    by (simp_all add: encoded simple_encoders)
  show ?thesis
    unfolding req
    using server_set_get [OF _ _ _ _ req(1) req(2), of "mem_env 0" "mem_env 0" new_conn "\<lambda>_. Some" mem_server]
    by (force simp: mem.badger_store_axioms MaxValueLen_def new_conn_def ready_def outQueueSize_def
      frame_def str16_def str32_def)
qed

section \<open>Panics\<close>

text \<open>While the server is not being stopped, the processing of a request panics exactly when it is taken
  for binary and its decoding panics: no handler of keys or queues, and no text command, panics by
  itself, whatever Badger returns.\<close>

theorem server_panics:
  assumes "\<not> jobsClosed s" and "\<forall>req. other req (s, c) \<noteq> None"
  shows "processRequestHybrid E other data (s, c) = None \<longleftrightarrow> isBinary data \<and> DecodeRequest data = None"
  using assms processRequestBinary_panics [of other "(s, c)" E data] processRequestText_total [of "(s, c)" E data]
  by (simp add: processRequestHybrid_def)

theorem server_panics_witness:
  "processRequestHybrid (mem_env 0) (\<lambda>_. Some) [OpGet, 0, 0, 0, 2, 255, 255] (mem_server, new_conn) = None"
proof -
  have "DecodeRequest [OpGet, 0, 0, 0, 2, 255, 255] = None" "isBinary [OpGet, 0, 0, 0, 2, 255, 255]"
    by code_simp+
  then show ?thesis
    using server_panics [of mem_server "\<lambda>_. Some" new_conn "mem_env 0" "[OpGet, 0, 0, 0, 2, 255, 255]"]
    by (simp add: mem_server_def)
qed

section \<open>Requests the server cannot serve\<close>

lemma hybrid_error:
  "isBinary data \<Longrightarrow> DecodeRequest data = Some (Inl err) \<Longrightarrow> ready (Suc 0) c \<Longrightarrow>
   processRequestHybrid E other data (s, c) =
     Some (s\<lparr>opsErrors := opsErrors s + 1\<rparr>, c\<lparr>outQueue := outQueue c @ [frame StatusError (lit err)]\<rparr>)"
  by (simp add: processRequestHybrid_def processRequestBinary_def sendBinaryError_ready countError_def)

lemma DecodeRequest_incomplete:
  "5 \<le> length data \<Longrightarrow> length data < unat (5 + rd32 (take 4 (drop 1 data))) \<Longrightarrow>
   DecodeRequest data = Some (Inl ''incomplete request'')"
  by (cases data) (simp_all add: DecodeRequest_def reads_def)

lemma frame_prefix_incomplete:
  assumes "5 \<le> n" and "n < length (frame op p)" and "length p < 2 ^ 32 - 5"
  shows "DecodeRequest (take n (frame op p)) = Some (Inl ''incomplete request'')"
proof (rule DecodeRequest_incomplete)
  have "drop 1 (take n (frame op p)) = be32 (word_of_nat (length p)) @ take (n - 5) p"
    using assms(1) by (simp add: frame_def take_Cons' diff_diff_eq)
  then have "unat (5 + rd32 (take 4 (drop 1 (take n (frame op p))))) = 5 + length p"
    using assms(3) by (simp add: unat_5_plus unat_word_len)
  then show "length (take n (frame op p)) < unat (5 + rd32 (take 4 (drop 1 (take n (frame op p)))))"
    using assms(2) by (simp add: frame_def)
qed (use assms in simp)

text \<open>A request longer than the read buffer (32768 bytes, whatever its value's length up to
  \<open>MaxValueLen\<close>) is never executed: what the first read returns is answered with \<open>incomplete request\<close>,
  and the server's stores are as before.  The rest of the bytes is taken for the next request.\<close>

theorem server_large_request:
  assumes "5 \<le> length (readBuf c)" and "length (readBuf c) < length (frame op p)" and "length p < 2 ^ 32 - 5"
    and "isBinary [op]" and "ready 1 c"
  shows "\<exists>s' c'. readLoop E other (Some (frame op p)) (s, c) = Some (s', c') \<and>
    outQueue c' = outQueue c @ [frame StatusError (lit ''incomplete request'')] \<and>
    srvStore s' = srvStore s \<and> srvQueue s' = srvQueue s \<and> srvOther s' = srvOther s"
proof -
  let ?data = "take (length (readBuf c)) (frame op p)"
  have "isBinary ?data" using assms(1,4) by (cases "length (readBuf c)") (simp_all add: isBinary_def frame_def)
  with assms show ?thesis
    by (simp add: readLoop_def ready_def hybrid_error [OF _ frame_prefix_incomplete] Let_def)
qed

theorem server_large_request_witness:
  "\<exists>s' c'. readLoop (mem_env 0) (\<lambda>_. Some) (Some (frame OpSet (str16 [107] @ str32 (replicate 40000 9))))
      (mem_server, new_conn) = Some (s', c') \<and> srvStore s' = srvStore mem_server"
  using server_large_request [of new_conn OpSet "str16 [107] @ str32 (replicate 40000 9)" "mem_env 0" "\<lambda>_. Some" mem_server]
  by (auto simp: new_conn_def frame_def str16_def str32_def isBinary_def OpSet_def ready_def outQueueSize_def)

text \<open>The requests EXISTS, INCR and DECR, which the client encodes and the protocol decodes, are answered
  with the error \<open>unknown opcode\<close>, and no store changes.\<close>

theorem server_unknown_opcode:
  assumes "length key < 65534" and "enc \<in> {EncodeExistsRequest, EncodeIncrRequest, EncodeDecrRequest}"
    and "enc key = Some data" and "length data \<le> length (readBuf c)" and "ready 1 c"
  shows "\<exists>s' c' r. readLoop E other (Some data) (s, c) = Some (s', c') \<and> outQueue c' = outQueue c @ [r] \<and>
    DecodeResponse r = Some (Inr ((newResponse StatusError)\<lparr>rsError := lit ''unknown opcode''\<rparr>)) \<and>
    srvStore s' = srvStore s \<and> srvQueue s' = srvQueue s \<and> srvOther s' = srvOther s"
proof -
  obtain op where op: "op \<in> {OpExists, OpIncr, OpDecr}" and data: "data = frame op (str16 key)"
  proof -
    have "data = frame OpExists (str16 key) \<or> data = frame OpIncr (str16 key) \<or> data = frame OpDecr (str16 key)"
      using assms(2,3) by (auto simp: encoded simple_encoders)
    then show ?thesis using that by blast
  qed
  have "DecodeRequest data = Some (Inr ((newRequest op)\<lparr>rqKey := key\<rparr>))"
    using op assms(1) by (auto simp: data wire_simps simpleOps_def)
  moreover have "isBinary data" using op by (auto simp: data isBinary_frame opcodes)
  ultimately show ?thesis
    using assms(4,5) op
    by (simp add: readLoop_fits hybrid_frame sendBinaryError_ready ready_cong countError_def DecodeResponse_frame
        StatusError_def StatusOK_def)
qed

theorem server_unknown_opcode_witness:
  "\<exists>s' c' r. readLoop (mem_env 0) (\<lambda>_. Some) (EncodeIncrRequest [110]) (mem_server, new_conn) = Some (s', c') \<and>
    outQueue c' = [r] \<and>
    DecodeResponse r = Some (Inr ((newResponse StatusError)\<lparr>rsError := lit ''unknown opcode''\<rparr>))"
proof -
  have req: "EncodeIncrRequest [110] = Some (frame OpIncr (str16 [110]))" by (simp add: encoded simple_encoders)
  show ?thesis
    using server_unknown_opcode [of "[110]" EncodeIncrRequest _ new_conn "mem_env 0" "\<lambda>_. Some" mem_server, OF _ _ req]
    unfolding req by (force simp: new_conn_def ready_def outQueueSize_def frame_def str16_def)
qed

text \<open>The text commands DEL and DECR never reach the text protocol: their first byte lies in the range of
  the document operations, so the binary decoder answers \<open>incomplete request\<close> and the key stays.\<close>

theorem server_text_delete:
  assumes "cmd \<in> {lit ''DEL '', lit ''DECR ''}" and "data = cmd @ key @ crlf"
    and "length data \<le> length (readBuf c)" and "length (readBuf c) \<le> 32768" and "ready 1 c"
  shows "\<exists>s' c'. readLoop E other (Some data) (s, c) = Some (s', c') \<and>
    outQueue c' = outQueue c @ [frame StatusError (lit ''incomplete request'')] \<and>
    srvStore s' = srvStore s \<and> srvQueue s' = srvQueue s \<and> srvOther s' = srvOther s"
proof -
  obtain x a b rest where x: "x \<in> {0x454C, 0x4543}" and data: "data = 0x44 # be16 x @ [a, b] @ rest"
  proof (cases "cmd = lit ''DEL ''")
    case True
    then show ?thesis
      using assms(2) that [where x = "0x454C" and a = "32" and b = "(key @ crlf) ! 0" and rest = "tl (key @ crlf)"]
      by (cases key) (auto simp: lit_def be16_def crlf_def)
  next
    case False
    then show ?thesis
      using assms(1,2) that [where x = "0x4543" and a = "0x52" and b = "32" and rest = "key @ crlf"] by (auto simp: lit_def be16_def)
  qed
  let ?n = "rd32 (be16 x @ [a, b])"
  have "unat ?n = unat x * 65536 + unat ?n mod 65536"
    by (metis rd32_high div_mult_mod_eq)
  moreover have "unat ?n mod 65536 < 65536" by simp
  moreover have "unat x \<in> {0x454C, 0x4543}" using x by auto
  ultimately have n: "32768 < unat ?n" "unat ?n < 2 ^ 32 - 5" by auto
  then have "length data < unat (5 + ?n)" using assms(3,4) by (simp add: unat_5_plus)
  then have "DecodeRequest data = Some (Inl ''incomplete request'')"
    using DecodeRequest_incomplete [of data] by (simp add: data be16_def)
  moreover have "isBinary data" by (simp add: data isBinary_def)
  ultimately show ?thesis
    using assms(3,5) by (simp add: readLoop_fits hybrid_error ready_cong)
qed

theorem server_text_delete_witness:
  "\<exists>s' c'. readLoop (mem_env 0) (\<lambda>_. Some) (Some (lit ''DEL k'' @ crlf)) (mem_server, new_conn) = Some (s', c') \<and>
    outQueue c' = [frame StatusError (lit ''incomplete request'')] \<and> srvStore s' = srvStore mem_server"
  using server_text_delete [of "lit ''DEL ''" "lit ''DEL k'' @ crlf" "lit ''k''" new_conn "mem_env 0" "\<lambda>_. Some" mem_server]
  by (force simp: new_conn_def ready_def outQueueSize_def crlf_def lit_append [symmetric])

section \<open>The text protocol\<close>

text \<open>A word of a text command: nonempty, without separators.\<close>

definition textWord :: "bytes \<Rightarrow> bool" where
  "textWord w \<longleftrightarrow> w \<noteq> [] \<and> list_all (\<lambda>b. b \<noteq> 32 \<and> b \<noteq> 13 \<and> b \<noteq> 10) w"

lemma commandParts_word:
  "list_all (\<lambda>b. b \<noteq> 32 \<and> b \<noteq> 13 \<and> b \<noteq> 10) w \<Longrightarrow>
   commandParts start i (w @ rest) = commandParts start (i + length w) rest"
  by (induction w arbitrary: i) simp_all

text \<open>The lengths and separators of the words that follow determine the slices.\<close>

lemma commandParts_next:
  "textWord w \<Longrightarrow> sep \<in> {32, 13, 10} \<Longrightarrow>
   commandParts i i (w @ sep # rest) = (i, i + length w) # commandParts (i + length w + 1) (i + length w + 1) rest"
  by (auto simp: commandParts_word textWord_def)

lemma commandParts_crlf: "commandParts i i [10] = []"
  by simp

lemma commandParts_three:
  assumes "textWord a" and "textWord b" and "textWord w"
  shows "commandParts 0 0 (a @ [32] @ b @ [32] @ w @ crlf) =
    [(0, length a), (length a + 1, length a + 1 + length b),
     (length a + length b + 2, length a + length b + 2 + length w)]"
  using commandParts_next [OF assms(1), of 32 0] commandParts_next [OF assms(2), of 32 "length a + 1"]
    commandParts_next [OF assms(3), of 13 "length a + length b + 2"]
  by (simp add: crlf_def)

lemma commandParts_two:
  assumes "textWord a" and "textWord b"
  shows "commandParts 0 0 (a @ [32] @ b @ crlf) = [(0, length a), (length a + 1, length a + 1 + length b)]"
  using commandParts_next [OF assms(1), of 32 0] commandParts_next [OF assms(2), of 13 "length a + 1"]
  by (simp add: crlf_def)

lemma deref_middle: "deref (pre @ w @ post) (length pre, length pre + length w) = w"
  by (simp add: deref_def)

lemma deref_middle': "length pre = lo \<Longrightarrow> lo + length w = hi \<Longrightarrow> deref (pre @ w @ post) (lo, hi) = w"
  using deref_middle by blast

definition setText :: "bytes \<Rightarrow> bytes \<Rightarrow> bytes" where
  "setText key val = lit ''SET'' @ [32] @ key @ [32] @ val @ crlf"

definition getText :: "bytes \<Rightarrow> bytes" where
  "getText key = lit ''GET'' @ [32] @ key @ crlf"

lemma textWord_cmds: "textWord (lit ''SET'')" "textWord (lit ''GET'')"
  by (simp_all add: textWord_def lit_def)

lemma parse_setText:
  assumes "textWord key" and "textWord val"
  shows "parseCommandExtended (setText key val) =
    Inr (Single (lit ''SET'') key (5 + length key, 5 + length key + length val))"
proof -
  have "deref (setText key val) (0, 3) = lit ''SET''" "deref (setText key val) (4, 4 + length key) = key"
    using deref_middle' [of "[]" 0 "lit ''SET''" 3 "[32] @ key @ [32] @ val @ crlf"]
      deref_middle' [of "lit ''SET'' @ [32]" 4 key "4 + length key" "[32] @ val @ crlf"]
    by (simp_all add: setText_def)
  moreover have "commandParts 0 0 (setText key val) = [(0, 3), (4, 4 + length key), (5 + length key, 5 + length key + length val)]"
    using commandParts_three [OF textWord_cmds(1) assms] by (simp add: setText_def)
  ultimately show ?thesis
    by (simp add: parseCommandExtended_def inj_lit Let_def)
qed

lemma parse_getText:
  assumes "textWord key"
  shows "parseCommandExtended (getText key) = Inr (Single (lit ''GET'') key (0, 0))"
proof -
  have "deref (getText key) (0, 3) = lit ''GET''" "deref (getText key) (4, 4 + length key) = key"
    using deref_middle' [of "[]" 0 "lit ''GET''" 3 "[32] @ key @ crlf"]
      deref_middle' [of "lit ''GET'' @ [32]" 4 key "4 + length key" "crlf"]
    by (simp_all add: getText_def)
  moreover have "commandParts 0 0 (getText key) = [(0, 3), (4, 4 + length key)]"
    using commandParts_two [OF textWord_cmds(2) assms] by (simp add: getText_def)
  ultimately show ?thesis
    by (simp add: parseCommandExtended_def inj_lit Let_def)
qed

lemma text_not_binary: "\<not> isBinary (setText key val)" "\<not> isBinary (getText key)"
  by (simp_all add: isBinary_def setText_def getText_def lit_def)

lemma processFastPath_ready:
  "ready (Suc 0) c \<Longrightarrow> runSingle E cmd key (deref (readBuf c) val) (s, c) = ((s', c), r) \<Longrightarrow>
   processFastPath E cmd key val (s, c) = answered E r (s', c)"
  by (simp add: processFastPath_def selectSend_ready countFast_def countConn_def updateAvgLatency_def answered_def)

lemma runSingle_set:
  "runSingle E (lit ''SET'') key val (s, c) =
     (case KVStore_Set (envB E) (envNow E) (srvStore s) key val 0 of (k, r) \<Rightarrow>
        ((s\<lparr>srvStore := k\<rparr>, c), textResult (\<lambda>_. okLine) r))"
  by (simp add: runSingle_def onStore_def Let_def split: prod.splits)

lemma runSingle_get:
  "runSingle E (lit ''GET'') key val (s, c) =
     ((s, c), textResult formatBulkString (KVStore_Get (envB E) (envNow E) (srvStore s) key))"
  by (simp add: runSingle_def onStore_def inj_lit Let_def)

lemma setText_slice:
  "deref (setText key val @ rest) (5 + length key, 5 + length key + length val) = val"
  using deref_middle' [of "lit ''SET'' @ [32] @ key @ [32]" "5 + length key" val
      "5 + length key + length val" "crlf @ rest"]
  by (simp add: setText_def)

lemma readLoop_setText:
  assumes "textWord key" and "textWord val" and "length (setText key val) \<le> length (readBuf c)"
    and "ready (Suc 0) c"
  shows "readLoop E other (Some (setText key val)) (s, c) =
    (let c' = c\<lparr>readBuf := setText key val @ drop (length (setText key val)) (readBuf c)\<rparr> in
     if FastPathThreshold <s avgLatency c
     then processSlowPath E (lit ''SET'') key (5 + length key, 5 + length key + length val) (s, c')
     else case KVStore_Set (envB E) (envNow E) (srvStore s) key val 0 of (k, r) \<Rightarrow>
       Some (answered E (textResult (\<lambda>_. okLine) r) (s\<lparr>srvStore := k\<rparr>, c')))"
  using assms
  by (auto simp: readLoop_fits processRequestHybrid_def text_not_binary processRequestText_def parse_setText
      shouldUseFastPath_def inj_lit Let_def setText_slice runSingle_set
      intro!: processFastPath_ready ready_cong split: prod.splits)

lemma readLoop_getText:
  assumes "textWord key" and "length (getText key) \<le> length (readBuf c)" and "ready (Suc 0) c"
  shows "readLoop E other (Some (getText key)) (s, c) =
    Some (answered E (textResult formatBulkString (KVStore_Get (envB E) (envNow E) (srvStore s) key))
      (s, c\<lparr>readBuf := getText key @ drop (length (getText key)) (readBuf c)\<rparr>))"
  using assms
  by (auto simp: readLoop_fits processRequestHybrid_def text_not_binary processRequestText_def parse_getText
      shouldUseFastPath_def runSingle_get intro!: processFastPath_ready ready_cong)

text \<open>The text protocol end to end, on a connection whose average latency keeps it on the fast path:
  after \<open>SET key val\<close> and \<open>GET key\<close>, words without separators, the connection's queue holds the two
  responses in order; either the first is the error the store reported and the store is unchanged, or
  they are \<open>+OK\<close> and the value as a bulk string.\<close>

theorem server_text_set_get:
  assumes "badger_store (envB E)" and "envB E' = envB E" and "textWord key" and "textWord val"
    and "length (setText key val) \<le> length (readBuf c)" and "ready 2 c" and "\<not> FastPathThreshold <s avgLatency c"
  shows "\<exists>s1 c1 s2 c2 r1 r2.
    readLoop E other (Some (setText key val)) (s, c) = Some (s1, c1) \<and>
    readLoop E' other (Some (getText key)) (s1, c1) = Some (s2, c2) \<and> outQueue c2 = outQueue c @ [r1, r2] \<and>
    ((\<exists>e. r1 = formatError (kvText e) \<and> srvStore s2 = srvStore s) \<or>
     (r1 = lit ''+OK'' @ crlf \<and> r2 = lit ''$'' @ lit (dec (length val)) @ crlf @ val @ crlf))"
proof -
  obtain k r where set: "KVStore_Set (envB E) (envNow E) (srvStore s) key val 0 = (k, r)" by fastforce
  let ?r1 = "textResult (\<lambda>_. okLine) r"
  let ?r2 = "textResult formatBulkString (KVStore_Get (envB E) (envNow E') k key)"
  let ?st1 = "answered E ?r1 (s\<lparr>srvStore := k\<rparr>,
    c\<lparr>readBuf := setText key val @ drop (length (setText key val)) (readBuf c)\<rparr>)"
  have one: "readLoop E other (Some (setText key val)) (s, c) = Some ?st1"
    using readLoop_setText [OF assms(3-5) ready_le [OF assms(6)], of E other s] assms(7) by (simp add: set Let_def)
  have "ready (Suc 0) (snd ?st1)" using assms(6) by (intro ready_answered) (simp add: ready_def)
  moreover have "length (getText key) \<le> length (readBuf (snd ?st1))"
    using assms(5) by (simp add: getText_def setText_def)
  ultimately have two: "readLoop E' other (Some (getText key)) ?st1 = Some (answered E' ?r2
      (fst ?st1, (snd ?st1)\<lparr>readBuf := getText key @ drop (length (getText key)) (readBuf (snd ?st1))\<rparr>))"
      (is "_ = Some ?st2")
    using readLoop_getText [OF assms(3), of "snd ?st1" E' other "fst ?st1"] assms(2) by simp
  have "outQueue (snd ?st2) = outQueue c @ [?r1, ?r2]" "srvStore (fst ?st2) = k" by simp_all
  moreover have "(\<exists>e. ?r1 = formatError (kvText e) \<and> k = srvStore s) \<or>
      (?r1 = lit ''+OK'' @ crlf \<and> ?r2 = lit ''$'' @ lit (dec (length val)) @ crlf @ val @ crlf)"
    using set KVStore_Set_cases [OF assms(1), of "envNow E" "srvStore s" key val k]
    by (cases r) (auto simp: textResult_def okLine_def formatBulkString_def)
  ultimately show ?thesis
    using one two by (metis prod.collapse)
qed

theorem server_text_set_get_witness:
  "\<exists>s1 c1 s2 c2 r1 r2.
    readLoop (mem_env 0) (\<lambda>_. Some) (Some (lit ''SET k vw'' @ crlf)) (mem_server, new_conn) = Some (s1, c1) \<and>
    readLoop (mem_env 0) (\<lambda>_. Some) (Some (lit ''GET k'' @ crlf)) (s1, c1) = Some (s2, c2) \<and> outQueue c2 = [r1, r2] \<and>
    ((\<exists>e. r1 = formatError (kvText e) \<and> srvStore s2 = srvStore mem_server) \<or>
     (r1 = lit ''+OK'' @ crlf \<and> r2 = lit ''$'' @ lit ''2'' @ crlf @ lit ''vw'' @ crlf))"
proof -
  have *: "setText (lit ''k'') (lit ''vw'') = lit ''SET k vw'' @ crlf" "getText (lit ''k'') = lit ''GET k'' @ crlf"
    "textWord (lit ''k'')" "textWord (lit ''vw'')" "dec (Suc (Suc 0)) = ''2''"
    by code_simp+
  have "\<not> FastPathThreshold <s avgLatency new_conn" "ready 2 new_conn"
    "length (setText (lit ''k'') (lit ''vw'')) \<le> length (readBuf new_conn)"
    by (simp_all add: new_conn_def FastPathThreshold_def ready_def outQueueSize_def setText_def crlf_def word_sless_alt)
  moreover have "outQueue new_conn = []" by (simp add: new_conn_def)
  ultimately show ?thesis
    using server_text_set_get [OF _ _ *(3,4), of "mem_env 0" "mem_env 0" new_conn "\<lambda>_. Some" mem_server]
    unfolding *(1,2) append_assoc [symmetric] using *(5) by (simp add: mem.badger_store_axioms)
qed

lemma selectSend_store:
  "(\<And>st. srvStore (fst (sent st)) = srvStore (fst st)) \<Longrightarrow> (\<And>st. srvStore (fst (full st)) = srvStore (fst st)) \<Longrightarrow>
   srvStore (fst (selectSend E msg st sent full)) = srvStore (fst st)"
  by (simp add: selectSend_def split: prod.splits)

lemma worker_set:
  assumes "jobQueue s = job # jobs" and "jobCmd job = lit ''SET''"
  shows "map_option (srvStore \<circ> fst) (worker E (s, c)) =
    Some (fst (KVStore_Set (envB E) (envNow E) (srvStore s) (jobKey job) (deref (readBuf c) (jobValue job)) 0))"
  using assms
  by (auto simp: worker_def processJob_def inj_lit runSingle_set Let_def selectSend_store split: prod.splits)

text \<open>On a connection whose average latency is above the threshold, \<open>SET key val\<close> becomes a job that holds
  not the value but a slice of the read buffer.  The worker that takes the job later stores the bytes
  the buffer has then: \<open>val\<close> if nothing was read in between, otherwise whatever a later request left
  at those positions.\<close>

theorem server_slow_set_aliases:
  fixes E :: "('db, 'txn) Env"
  assumes "textWord key" and "textWord val" and "length (setText key val) \<le> length (readBuf c)"
    and "ready 1 c" and "FastPathThreshold <s avgLatency c" and "\<not> jobsClosed s" and "jobQueue s = []"
  shows "\<exists>s1 c1. readLoop E other (Some (setText key val)) (s, c) = Some (s1, c1) \<and>
    srvStore s1 = srvStore s \<and> outQueue c1 = outQueue c \<and>
    take (length val) (drop (5 + length key) (readBuf c1)) = val \<and>
    (\<forall>(E' :: ('db, 'txn) Env) c2. map_option (srvStore \<circ> fst) (worker E' (s1, c2)) =
       Some (fst (KVStore_Set (envB E') (envNow E') (srvStore s) key
         (take (length val) (drop (5 + length key) (readBuf c2))) 0)))"
proof -
  let ?buf = "setText key val @ drop (length (setText key val)) (readBuf c)"
  let ?job = "\<lparr>jobCmd = lit ''SET'', jobKey = key, jobValue = (5 + length key, 5 + length key + length val),
    jobKeys = [], jobValues = []\<rparr>"
  let ?s1 = "s\<lparr>jobQueue := [?job], opsProcessed := opsProcessed s + 1, opsSlowPath := opsSlowPath s + 1\<rparr>"
  let ?c1 = "c\<lparr>readBuf := ?buf, connOps := connOps c + 1\<rparr>"
  have "readLoop E other (Some (setText key val)) (s, c) = Some (?s1, ?c1)"
    using assms
    by (simp add: readLoop_setText processSlowPath_def enqueueJob_def ready_def DefaultJobQueueSize_def Let_def)
  moreover have "take (length val) (drop (5 + length key) (readBuf ?c1)) = val"
    using setText_slice [of key val "drop (length (setText key val)) (readBuf c)", unfolded deref_def]
    unfolding prod.case by simp
  moreover have "map_option (srvStore \<circ> fst) (worker E' (?s1, c2)) =
      Some (fst (KVStore_Set (envB E') (envNow E') (srvStore s) key
        (take (length val) (drop (5 + length key) (readBuf c2))) 0))" for E' :: "('db, 'txn) Env" and c2
    using worker_set [of ?s1 ?job "[]" E' c2] by (simp add: deref_def)
  moreover have "srvStore ?s1 = srvStore s" "outQueue ?c1 = outQueue c" by simp_all
  ultimately show ?thesis by blast
qed

theorem server_slow_set_aliases_witness:
  "\<exists>s1 c1. readLoop (mem_env 0) (\<lambda>_. Some) (Some (lit ''SET k vw'' @ crlf))
      (mem_server, new_conn\<lparr>avgLatency := 200000\<rparr>) = Some (s1, c1) \<and>
    map_option (\<lambda>st. Get mem_badger 0 (storage (srvStore (fst st))) (lit ''k''))
      (worker (mem_env 0) (s1, c1\<lparr>readBuf := lit ''GET another'' @ crlf\<rparr>)) = Some (Inr (lit ''ot''))"
proof -
  have t: "setText (lit ''k'') (lit ''vw'') = lit ''SET k vw'' @ crlf" "textWord (lit ''k'')" "textWord (lit ''vw'')"
    by code_simp+
  have s: "Get mem_badger 0 (storage (fst (KVStore_Set mem_badger 0 (srvStore mem_server) (lit ''k'') (lit ''ot'') 0)))
      (lit ''k'') = Inr (lit ''ot'')"
    by code_simp
  have d: "take 2 (drop 6 (lit ''GET another'' @ crlf)) = lit ''ot''" by code_simp
  let ?c = "new_conn\<lparr>avgLatency := 200000\<rparr>"
  have "length (setText (lit ''k'') (lit ''vw'')) \<le> length (readBuf ?c)" "ready 1 ?c" "FastPathThreshold <s avgLatency ?c"
    "\<not> jobsClosed mem_server" "jobQueue mem_server = []"
    by (simp_all add: new_conn_def FastPathThreshold_def ready_def outQueueSize_def setText_def crlf_def mem_server_def
        word_sless_alt)
  from server_slow_set_aliases [OF t(2,3) this, of "mem_env 0" "\<lambda>_. Some"]
  obtain s1 c1 where one: "readLoop (mem_env 0) (\<lambda>_. Some) (Some (setText (lit ''k'') (lit ''vw''))) (mem_server, ?c) = Some (s1, c1)"
    and "\<forall>(E' :: (mem_db, mem_txn) Env) c2. map_option (srvStore \<circ> fst) (worker E' (s1, c2)) =
       Some (fst (KVStore_Set (envB E') (envNow E') (srvStore mem_server) (lit ''k'')
         (take (length (lit ''vw'')) (drop (5 + length (lit ''k'')) (readBuf c2))) 0))"
    by blast
  from this(2) [rule_format, of "mem_env 0" "c1\<lparr>readBuf := lit ''GET another'' @ crlf\<rparr>"] d
  have "map_option (srvStore \<circ> fst) (worker (mem_env 0) (s1, c1\<lparr>readBuf := lit ''GET another'' @ crlf\<rparr>)) =
      Some (fst (KVStore_Set mem_badger 0 (srvStore mem_server) (lit ''k'') (lit ''ot'') 0))"
    by (simp add: mem_env_def numeral_2_eq_2)
  with s have "map_option (\<lambda>st. Get mem_badger 0 (storage (srvStore (fst st))) (lit ''k''))
      (worker (mem_env 0) (s1, c1\<lparr>readBuf := lit ''GET another'' @ crlf\<rparr>)) = Some (Inr (lit ''ot''))"
    by auto
  with one t(1) show ?thesis by auto
qed

end
