(* ===== verification/ServerRuns.thy ===== *)
theory ServerRuns
  imports ServerProps
begin

text \<open>
  The server over time: a connection's loops and the workers as a step relation, the invariant of every
  interleaving, and the end of the server.
\<close>

section \<open>Every interleaving of a connection's loops and the workers\<close>

text \<open>A step: a turn of \<open>readLoop\<close>, of \<open>writeLoop\<close> or of a worker, each under what the environment
  decides then.\<close>

inductive conn_step ::
  "('db, 'txn) Env set \<Rightarrow> (Request \<Rightarrow> ('db, 'ext) st \<Rightarrow> ('db, 'ext) st option) \<Rightarrow> ('db, 'ext) st \<Rightarrow>
   ('db, 'ext) st \<Rightarrow> bool" for envs other where
  step_read: "E \<in> envs \<Longrightarrow> readLoop E other input st = Some st' \<Longrightarrow> conn_step envs other st st'"
| step_write: "E \<in> envs \<Longrightarrow> writeLoop E ok c = (c', msg) \<Longrightarrow> conn_step envs other (s, c) (s, c')"
| step_work: "E \<in> envs \<Longrightarrow> worker E st = Some st' \<Longrightarrow> conn_step envs other st st'"

definition jobOK :: "Job \<Rightarrow> bool" where
  "jobOK job \<longleftrightarrow> (jobCmd job = lit ''MSET'' \<longrightarrow> length (jobKeys job) = length (jobValues job))"

text \<open>The channels stay within their capacities, the buffer keeps its size, every queued job can be
  processed, and each operation counted was counted as fast or as slow.\<close>

definition connInv :: "nat \<Rightarrow> ('db, 'ext) st \<Rightarrow> bool" where
  "connInv n = (\<lambda>(s, c). length (outQueue c) \<le> outQueueSize \<and> length (jobQueue s) \<le> DefaultJobQueueSize \<and>
     length (readBuf c) = n \<and> list_all jobOK (jobQueue s) \<and> opsProcessed s = opsFastPath s + opsSlowPath s)"

lemma keeps_if: "(b \<Longrightarrow> pred_option P m) \<Longrightarrow> (\<not> b \<Longrightarrow> pred_option P m') \<Longrightarrow> pred_option P (if b then m else m')"
  by simp

lemma keeps_bind: "(\<And>x. m = Some x \<Longrightarrow> pred_option P (f x)) \<Longrightarrow> pred_option P (Option.bind m f)"
  by (cases m) simp_all

lemma parsed_jobOK:
  "parseCommandExtended data = Inr (Batch cmd ks vs) \<Longrightarrow> cmd = lit ''MSET'' \<Longrightarrow> length ks = length vs"
  by (auto simp: parseCommandExtended_def Let_def length_evens_odds inj_lit split: if_splits)

lemma parsed_single: "parseCommandExtended data = Inr (Single cmd key val) \<Longrightarrow> cmd \<noteq> lit ''MSET''"
  by (auto simp: parseCommandExtended_def Let_def split: if_splits)

text \<open>What the processing of a request keeps: a predicate on the state that each elementary change keeps is kept by
  every handler and by every path through the server.\<close>

locale server_state =
  fixes I :: "('db, 'ext) st \<Rightarrow> bool"
  assumes sent: "I (s, c) \<Longrightarrow> length (outQueue c) < outQueueSize \<Longrightarrow> I (s, c\<lparr>outQueue := outQueue c @ [msg]\<rparr>)"
    and counted_error: "I (s, c) \<Longrightarrow> I (s\<lparr>opsErrors := opsErrors s + 1\<rparr>, c)"
    and counted_fast: "I (s, c) \<Longrightarrow> I (s\<lparr>opsProcessed := opsProcessed s + 1, opsFastPath := opsFastPath s + 1\<rparr>, c)"
    and counted_conn: "I (s, c) \<Longrightarrow> I (s, c\<lparr>connOps := k\<rparr>)"
    and averaged: "I (s, c) \<Longrightarrow> I (s, c\<lparr>avgLatency := a\<rparr>)"
    and stored: "I (s, c) \<Longrightarrow> I (s\<lparr>srvStore := kv\<rparr>, c)"
    and queued: "I (s, c) \<Longrightarrow> I (s\<lparr>srvQueue := q\<rparr>, c)"
    and enqueued: "I (s, c) \<Longrightarrow> jobOK job \<Longrightarrow> length (jobQueue s) < DefaultJobQueueSize \<Longrightarrow>
      I (s\<lparr>jobQueue := jobQueue s @ [job], opsProcessed := opsProcessed s + 1, opsSlowPath := opsSlowPath s + 1\<rparr>, c\<lparr>connOps := k\<rparr>)"
begin

lemma selectSend_keeps:
  assumes "I st" and "\<And>st. I st \<Longrightarrow> I (sent st)" and "\<And>st. I st \<Longrightarrow> I (full st)"
  shows "I (selectSend E msg st sent full)"
  using assms by (cases st) (simp add: selectSend_def sent)

lemma counts: "I st \<Longrightarrow> I (countError st)" "I st \<Longrightarrow> I (countFast st)" "I st \<Longrightarrow> I (countConn st)" "I st \<Longrightarrow> I (updateAvgLatency E st)"
  by (auto simp: countError_def countFast_def countConn_def updateAvgLatency_def counted_error counted_fast counted_conn averaged
      split: prod.splits)

lemma sends:
  "I st \<Longrightarrow> I (sendBinaryResponse E r st)" "I st \<Longrightarrow> I (sendError E err st)" "I st \<Longrightarrow> pred_option I (sendBinaryError E err st)"
  unfolding sendBinaryResponse_def sendError_def sendBinaryError_def
  by (auto simp: encoded intro!: selectSend_keeps counts)

lemma onStore_keeps: "I st \<Longrightarrow> I (fst (onStore st f))"
  by (cases st) (simp add: onStore_def stored split: prod.split)

lemma onQueues_keeps: "I st \<Longrightarrow> onQueues st f = Some sr \<Longrightarrow> I (fst sr)"
  by (cases st) (auto simp: onQueues_def queued)

lemma countError_keeps: "pred_option I m \<Longrightarrow> pred_option I (map_option countError m)"
  by (cases m) (simp_all add: counts)

lemma respondKV_keeps: "I (fst sr) \<Longrightarrow> pred_option I (respondKV E ok sr)"
  unfolding respondKV_def by (cases sr) (auto intro!: keeps_bind sends)

lemma respondQueue_keeps: "I (fst sr) \<Longrightarrow> pred_option I (respondQueue E ok sr)"
  unfolding respondQueue_def by (cases sr; cases "snd sr") (auto intro!: keeps_bind countError_keeps sends counts)

lemma handlers_keep:
  assumes "I st"
  shows "pred_option I (processBinarySet E req st)" "pred_option I (processBinaryGet E req st)"
    "pred_option I (processBinaryDel E req st)" "pred_option I (processBinaryMSet E req st)"
    "pred_option I (processBinaryMGet E req st)" "pred_option I (processBinaryMDel E req st)"
    "pred_option I (processBinaryQPush E req st)" "pred_option I (processBinaryQPop E req st)"
    "pred_option I (processBinaryQPeek E req st)" "pred_option I (processBinaryQLen E req st)"
    "pred_option I (processBinaryQClear E req st)"
  unfolding handler_defs
  by (intro keeps_bind respondKV_keeps respondQueue_keeps onStore_keeps onQueues_keeps [OF assms] assms; assumption)+

lemma binary_keeps:
  assumes "I st" and "\<And>req. pred_option I (other req st)"
  shows "pred_option I (processRequestBinary E other data st)"
proof -
  have err: "pred_option I (map_option countError (sendBinaryError E err st))" for err
    using assms(1) by (intro countError_keeps sends)
  have "pred_option I (processRequestBinary E other data st)" if "DecodeRequest data = Some (Inr req)" for req
    unfolding processRequestBinary_def that option.case sum.case Let_def
    by (intro keeps_if handlers_keep [OF assms(1)] assms(2) err)
  then show ?thesis using err
    by (cases "DecodeRequest data" rule: option.exhaust; cases "the (DecodeRequest data)")
      (simp_all add: processRequestBinary_def)
qed

lemma enqueue_keeps: "I st \<Longrightarrow> jobOK job \<Longrightarrow> pred_option I (enqueueJob E job st)"
  by (cases st) (auto simp: enqueueJob_def enqueued intro!: counts sends)

lemma runSingle_keeps: "I st \<Longrightarrow> I (fst (runSingle E cmd key val st))"
  by (simp add: runSingle_def Let_def onStore_keeps)

lemma fast_keeps: "I st \<Longrightarrow> I (processFastPath E cmd key val st)"
  using runSingle_keeps [of st E cmd key "deref (readBuf (snd st)) val"]
  by (auto simp: processFastPath_def intro!: selectSend_keeps counts split: prod.splits)

lemma finishBatch_keeps: "I (fst sr) \<Longrightarrow> I (finishBatch E f sr)"
  by (cases sr; cases "snd sr") (auto simp: finishBatch_def intro!: sends selectSend_keeps counts)

lemma fastBatch_keeps: "I st \<Longrightarrow> pred_option I (processFastPathBatch E cmd ks vs st)"
  by (auto simp: processFastPathBatch_def option.pred_map option.pred_True Let_def comp_def finishBatch_keeps onStore_keeps sends)

lemma text_keeps:
  assumes "I st"
  shows "pred_option I (processRequestText E data st)"
proof (cases "parseCommandExtended data")
  case (Inl err)
  with assms show ?thesis by (simp add: processRequestText_def counts sends)
next
  case (Inr cmd)
  with assms show ?thesis
    using parsed_jobOK [of data] parsed_single [of data]
    by (cases cmd) (auto simp: processRequestText_def processSlowPath_def processSlowPathBatch_def jobOK_def
      intro!: fast_keeps fastBatch_keeps enqueue_keeps)
qed

lemma hybrid_keeps:
  assumes "I st" and "\<And>req st. I st \<Longrightarrow> pred_option I (other req st)"
  shows "pred_option I (processRequestHybrid E other data st)"
  using assms by (simp add: processRequestHybrid_def binary_keeps text_keeps)

lemma processJob_keeps: "I st \<Longrightarrow> pred_option (\<lambda>sr. I (fst sr)) (processJob E job st)"
  by (auto simp: processJob_def option.pred_map option.pred_True Let_def comp_def onStore_keeps runSingle_keeps)

end

interpretation conn: server_state "connInv n" for n
  by unfold_locales (auto simp: connInv_def)

text \<open>A computation that keeps the invariant, if it does not panic.\<close>

abbreviation keepsInv :: "nat \<Rightarrow> ('db, 'ext) st option \<Rightarrow> bool" where
  "keepsInv n \<equiv> pred_option (connInv n)"

lemma connInv_jobs: "connInv n (s, c) \<Longrightarrow> connInv n (s\<lparr>jobsProcessed := k\<rparr>, c)"
  by (simp add: connInv_def)

lemma connInv_worker: "connInv n st \<Longrightarrow> keepsInv n (worker E st)"
proof -
  assume *: "connInv n st"
  obtain s c where st: "st = (s, c)" by fastforce
  show ?thesis
  proof (cases "jobQueue s")
    case (Cons job jobs)
    with * have "connInv n (s\<lparr>jobQueue := jobs\<rparr>, c)" by (simp add: st connInv_def)
    from conn.processJob_keeps [OF this, of E job] show ?thesis
      using Cons
      by (auto simp: worker_def st option.pred_map comp_def case_prod_beta intro!: conn.selectSend_keeps connInv_jobs elim!: option.pred_mono_strong)
  qed (use * in \<open>simp add: worker_def st\<close>)
qed

lemma connInv_read:
  assumes "connInv n st" and "\<And>req st. connInv n st \<Longrightarrow> keepsInv n (other req st)"
  shows "keepsInv n (readLoop E other input st)"
proof -
  obtain s c where st: "st = (s, c)" by fastforce
  have "connInv n (s, c\<lparr>readBuf := take (length (readBuf c)) d @ drop (length (take (length (readBuf c)) d)) (readBuf c)\<rparr>)" for d
    using assms(1) by (simp add: connInv_def st)
  moreover have "connInv n (s, c\<lparr>ctxDone := True\<rparr>)" using assms(1) by (simp add: connInv_def st)
  ultimately show ?thesis
    using assms by (auto simp: readLoop_def Let_def st conn.hybrid_keeps simp del: length_take split: option.splits)
qed

lemma conn_step_inv:
  assumes "conn_step envs other st st'" and "\<And>req st. connInv n st \<Longrightarrow> keepsInv n (other req st)" and "connInv n st"
  shows "connInv n st'"
  using assms
proof cases
  case (step_read E input)
  then show ?thesis using connInv_read [of n st other E input] assms(2,3) by simp
next
  case (step_work E)
  then show ?thesis using connInv_worker [OF assms(3), of E] by simp
next
  case (step_write E ok c c' msg s)
  with assms(3) show ?thesis
    by (auto simp: writeLoop_def connInv_def split: list.splits if_splits)
qed



section \<open>Stopping\<close>

lemma selectSend_jobs:
  "(\<And>st. jobQueue (fst (sent st)) = jobQueue (fst st) \<and> jobsClosed (fst (sent st)) = jobsClosed (fst st)) \<Longrightarrow>
   jobQueue (fst (selectSend E msg st sent id)) = jobQueue (fst st) \<and>
   jobsClosed (fst (selectSend E msg st sent id)) = jobsClosed (fst st)"
  by (simp add: selectSend_def split: prod.splits)

lemma onStore_jobs:
  "jobQueue (fst (fst (onStore st f))) = jobQueue (fst st)" "jobsClosed (fst (fst (onStore st f))) = jobsClosed (fst st)"
  by (simp_all add: onStore_def split: prod.splits)

lemma runSingle_jobs:
  "jobQueue (fst (fst (runSingle E cmd key val st))) = jobQueue (fst st)"
  "jobsClosed (fst (fst (runSingle E cmd key val st))) = jobsClosed (fst st)"
  by (simp_all add: runSingle_def Let_def onStore_jobs)

lemma if_job: "(b \<Longrightarrow> \<exists>sr. x = Some sr \<and> P sr) \<Longrightarrow> (\<not> b \<Longrightarrow> \<exists>sr. y = Some sr \<and> P sr) \<Longrightarrow>
    \<exists>sr. (if b then x else y) = Some sr \<and> P sr"
  by simp

lemma processJob_jobs:
  "jobOK job \<Longrightarrow> \<exists>sr. processJob E job st = Some sr \<and>
     jobQueue (fst (fst sr)) = jobQueue (fst st) \<and> jobsClosed (fst (fst sr)) = jobsClosed (fst st)"
  unfolding processJob_def Let_def
  by (intro if_job; simp add: jobOK_def toPairs_def onStore_jobs runSingle_jobs)

text \<open>A worker takes exactly one job.\<close>

lemma worker_takes:
  assumes "jobQueue (fst st) = job # jobs" and "jobOK job"
  shows "\<exists>st'. worker E st = Some st' \<and> jobQueue (fst st') = jobs \<and> jobsClosed (fst st') = jobsClosed (fst st)"
proof -
  obtain s c where st: "st = (s, c)" by fastforce
  obtain st1 r where "processJob E job (s\<lparr>jobQueue := jobs\<rparr>, c) = Some (st1, r)"
    and "jobQueue (fst st1) = jobs" "jobsClosed (fst st1) = jobsClosed s"
    using processJob_jobs [OF assms(2), of E "(s\<lparr>jobQueue := jobs\<rparr>, c)"] by fastforce
  with assms(1) show ?thesis
    by (simp add: worker_def st selectSend_jobs split: prod.splits)
qed

lemma drain_empties:
  "jobQueue (fst st) = jobs \<Longrightarrow> list_all jobOK jobs \<Longrightarrow>
   \<exists>st'. drain E jobs st = Some st' \<and> jobQueue (fst st') = [] \<and> jobsClosed (fst st') = jobsClosed (fst st)"
proof (induction jobs arbitrary: st)
  case (Cons job jobs)
  then obtain st1 where "worker E st = Some st1" "jobQueue (fst st1) = jobs" "jobsClosed (fst st1) = jobsClosed (fst st)"
    using worker_takes [of st job jobs E] by auto
  with Cons.IH [of st1] Cons.prems(2) show ?case by simp
qed simp

text \<open>Stopping a server whose connection satisfies the invariant terminates without a panic, and every job
  that was queued has been taken by a worker when it returns.  A second \<open>Stop\<close> panics.\<close>

theorem server_stop_drains:
  assumes "connInv n st" and "\<not> jobsClosed (fst st)"
  shows "\<exists>st'. Stop E st = Some st' \<and> jobQueue (fst st') = [] \<and> jobsClosed (fst st') \<and> Stop E st' = None"
proof -
  obtain s c where st: "st = (s, c)" by fastforce
  with assms have "list_all jobOK (jobQueue s)" by (simp add: connInv_def)
  with drain_empties [of "(s\<lparr>jobsClosed := True\<rparr>, c\<lparr>ctxDone := True\<rparr>)" "jobQueue s" E] assms(2)
  obtain st' where "Stop E st = Some st'" "jobQueue (fst st') = []" "jobsClosed (fst st')"
    by (auto simp: Stop_def st)
  then show ?thesis by (cases st') (simp add: Stop_def)
qed

theorem server_stop_drains_witness:
  "\<exists>st'. Stop (mem_env 0) (mem_server\<lparr>jobQueue := [\<lparr>jobCmd = lit ''DEL'', jobKey = lit ''k'', jobValue = (0, 0),
     jobKeys = [], jobValues = []\<rparr>]\<rparr>, new_conn) = Some st' \<and> jobQueue (fst st') = []"
  using server_stop_drains [of 32768 "(mem_server\<lparr>jobQueue := [\<lparr>jobCmd = lit ''DEL'', jobKey = lit ''k'',
      jobValue = (0, 0), jobKeys = [], jobValues = []\<rparr>]\<rparr>, new_conn)" "mem_env 0"]
  by (auto simp: connInv_def mem_server_def new_conn_def outQueueSize_def DefaultJobQueueSize_def jobOK_def)

end
