(* ===== verification/Stream.thy ===== *)
theory Stream
  imports QueueMessages "HOL-Library.AList"
begin

text \<open>
  The storage of the streams, \<open>src/internal/stream\<close>: \<open>storage.go\<close>, \<open>storage_atomic.go\<close> and
  \<open>storage_batch.go\<close>.  Messages are numbered per topic and partition by counters in memory, collected in
  a write buffer, and written to Badger by \<open>flushWrites\<close>, which the flush worker calls every 10
  milliseconds, a goroutine when a buffer is large, and every read first.

  A buffered message holds a slice: \<open>'v\<close> is the type of such a reference and \<open>seLoad\<close> reads the
  memory behind it at the time of the flush.  For values that nobody overwrites, \<open>'v\<close> is the type of
  bytes and \<open>seLoad\<close> the identity.  The order in which a Go map is visited is an argument too, a
  function that permutes.
\<close>

section \<open>Data\<close>

datatype stream_err = SBadger badger_err | SError gostring

fun stream_errmsg :: "stream_err \<Rightarrow> gostring" where
  "stream_errmsg (SBadger BadgerErrKeyNotFound) = lit ''Key not found''"
| "stream_errmsg (SBadger (BadgerErr m)) = lit m"
| "stream_errmsg (SError m) = m"

record 'v Message =
  mTopic :: gostring
  mPartition :: int
  mOffset :: int64
  mKey :: gostring
  mValue :: 'v
  mTimestamp :: int64

record TopicMetadata =
  tmName :: gostring
  Partitions :: int
  RetentionMs :: int64
  RetentionBytes :: int64
  CreatedAt :: int64

record ('db, 'v) StreamStorage =
  sdb :: 'db
  partitionOffsets :: "gostring \<rightharpoonup> int64"
  writeBuffer :: "(gostring \<times> 'v Message list) list"
  flushers :: nat
  flushCh :: bool
  stopFlush :: bool

record 'v StreamEnv =
  seNow :: time
  seLoad :: "'v \<Rightarrow> bytes"
  seVisitBuf :: "(gostring \<times> 'v Message list) list \<Rightarrow> (gostring \<times> 'v Message list) list"
  seVisitParts :: "int list \<Rightarrow> int list"
  seVisitIds :: "gostring list \<Rightarrow> gostring list"
  seVisitTopics :: "(gostring \<times> TopicMetadata) list \<Rightarrow> (gostring \<times> TopicMetadata) list"

definition NewStreamStorage :: "badger_err + 'db \<Rightarrow> stream_err + ('db, 'v) StreamStorage" where
  "NewStreamStorage opened =
     (case opened of
        Inl e \<Rightarrow> Inl (SError (lit ''failed to open badger db: '' @ stream_errmsg (SBadger e)))
      | Inr db \<Rightarrow> Inr \<lparr>sdb = db, partitionOffsets = Map.empty, writeBuffer = [], flushers = 0, flushCh = False,
          stopFlush = False\<rparr>)"

section \<open>Keys\<close>

text \<open>\<open>%020d\<close> of a signed value: a minus sign counts for the width.\<close>

definition dec020_int :: "int \<Rightarrow> string" where
  "dec020_int z = (if z < 0 then CHR ''-'' # replicate (19 - length (dec (nat (- z)))) CHR ''0'' @ dec (nat (- z))
     else dec020 (nat z))"

definition partKey :: "gostring \<Rightarrow> int \<Rightarrow> gostring" where
  "partKey topic partn = topic @ lit '':'' @ lit (dec_int partn)"

definition makeMessageKey :: "gostring \<Rightarrow> int \<Rightarrow> int64 \<Rightarrow> bytes" where
  "makeMessageKey topic partn offset =
     lit ''stream:msg:'' @ topic @ lit '':'' @ lit (dec_int partn) @ lit '':'' @ lit (dec020_int (sint offset))"

definition makeMessagePrefix :: "gostring \<Rightarrow> int \<Rightarrow> bytes" where
  "makeMessagePrefix topic partn = lit ''stream:msg:'' @ topic @ lit '':'' @ lit (dec_int partn) @ lit '':''"

definition makeOffsetKey :: "gostring \<Rightarrow> int \<Rightarrow> bytes" where
  "makeOffsetKey topic partn = lit ''stream:offset:'' @ topic @ lit '':'' @ lit (dec_int partn)"

definition makeConsumerOffsetKey :: "gostring \<Rightarrow> gostring \<Rightarrow> int \<Rightarrow> bytes" where
  "makeConsumerOffsetKey grp topic partn =
     lit ''stream:consumer:'' @ grp @ lit '':'' @ topic @ lit '':'' @ lit (dec_int partn)"

definition makeTopicMetaKey :: "gostring \<Rightarrow> bytes" where
  "makeTopicMetaKey topic = lit ''stream:meta:'' @ topic"

section \<open>Stored formats\<close>

definition encodeMessage :: "bytes Message \<Rightarrow> bytes option" where
  "encodeMessage msg = do {
     let keyLen = length (mKey msg);
     let valueLen = length (mValue msg);
     let size = 8 + 8 + 2 + keyLen + 4 + valueLen;
     w \<leftarrow> put64 (mOffset msg) (makebuf size);
     w \<leftarrow> put64 (mTimestamp msg) w;
     w \<leftarrow> put16 (word_of_nat keyLen) w;
     w \<leftarrow> putbytes (mKey msg) w;
     w \<leftarrow> put32 (word_of_nat valueLen) w;
     w \<leftarrow> putbytes (mValue msg) w;
     Some (fst w)
   }"

text \<open>The topic and the partition are not stored: a decoded message has the zero values.\<close>

definition decodeMessage :: "bytes \<Rightarrow> bytes Message decoded" where
  "decodeMessage data = (let err = ''invalid message data'' in
     need data 18 err (do {
       offset \<leftarrow> Uint64At data 0;
       timestamp \<leftarrow> Uint64At data 8;
       keyLen \<leftarrow> Uint16At data 16;
       need data (18 + unat keyLen + 4) err (do {
         key \<leftarrow> goslice data 18 (18 + unat keyLen);
         valueLen \<leftarrow> Uint32At data (18 + unat keyLen);
         let pos = 18 + unat keyLen + 4;
         need data (pos + unat valueLen) err (do {
           val \<leftarrow> goslice data pos (pos + unat valueLen);
           Some (Inr \<lparr>mTopic = [], mPartition = 0, mOffset = offset, mKey = key, mValue = val,
             mTimestamp = timestamp\<rparr>)
         })
       })
     }))"

definition encodeTopicMetadata :: "TopicMetadata \<Rightarrow> bytes option" where
  "encodeTopicMetadata meta = do {
     let nameLen = length (tmName meta);
     let size = 2 + nameLen + 4 + 8 + 8 + 8;
     w \<leftarrow> put16 (word_of_nat nameLen) (makebuf size);
     w \<leftarrow> putbytes (tmName meta) w;
     w \<leftarrow> put32 (word_of_int (Partitions meta)) w;
     w \<leftarrow> put64 (RetentionMs meta) w;
     w \<leftarrow> put64 (RetentionBytes meta) w;
     w \<leftarrow> put64 (CreatedAt meta) w;
     Some (fst w)
   }"

definition decodeTopicMetadata :: "bytes \<Rightarrow> TopicMetadata decoded" where
  "decodeTopicMetadata data = (let err = ''invalid topic metadata'' in
     need data 30 err (do {
       nameLen \<leftarrow> Uint16At data 0;
       need data (2 + unat nameLen + 28) err (do {
         name \<leftarrow> goslice data 2 (2 + unat nameLen);
         let pos = 2 + unat nameLen;
         partitions \<leftarrow> Uint32At data pos;
         retentionMs \<leftarrow> Uint64At data (pos + 4);
         retentionBytes \<leftarrow> Uint64At data (pos + 12);
         createdAt \<leftarrow> Uint64At data (pos + 20);
         Some (Inr \<lparr>tmName = name, Partitions = uint partitions, RetentionMs = retentionMs,
           RetentionBytes = retentionBytes, CreatedAt = createdAt\<rparr>)
       })
     }))"

section \<open>Transactions\<close>

type_synonym 'a sstep = "(stream_err + 'a) option"

definition streamCall :: "badger_err + 'a \<Rightarrow> 'a sstep" where
  "streamCall r = Some (case r of Inl e \<Rightarrow> Inl (SBadger e) | Inr a \<Rightarrow> Inr a)"

definition streamFormat :: "'a decoded \<Rightarrow> 'a sstep" where
  "streamFormat r = map_option (\<lambda>r. case r of Inl m \<Rightarrow> Inl (SError (lit m)) | Inr a \<Rightarrow> Inr a) r"

definition sUpdate ::
  "('db, 'txn) badger \<Rightarrow> ('db, 'v) StreamStorage \<Rightarrow> ('txn \<Rightarrow> ('txn \<times> 'a) sstep) \<Rightarrow>
   (('db, 'v) StreamStorage \<times> (stream_err + 'a)) option" where
  "sUpdate B s fn = map_option (\<lambda>(d, r). (s\<lparr>sdb := d\<rparr>, r)) (UpdateP B SBadger (sdb s) fn)"

section \<open>Counters\<close>

text \<open>What the counter of a partition starts with: the stored offset, \<open>-1\<close> if there is none or it
  cannot be read.\<close>

definition storedOffset :: "('db, 'txn) badger \<Rightarrow> time \<Rightarrow> 'db \<Rightarrow> gostring \<Rightarrow> int \<Rightarrow> int64 option" where
  "storedOffset B now d topic partn = View B d (\<lambda>txn.
     case txnGet B txn now (makeOffsetKey topic partn) of
       Inl e \<Rightarrow> Some (- 1)
     | Inr val \<Rightarrow> Uint64At val 0)"

definition getPartitionOffset ::
  "('db, 'txn) badger \<Rightarrow> time \<Rightarrow> ('db, 'v) StreamStorage \<Rightarrow> gostring \<Rightarrow> int \<Rightarrow>
   (('db, 'v) StreamStorage \<times> int64) option" where
  "getPartitionOffset B now s topic partn = (let key = partKey topic partn in
     case partitionOffsets s key of
       Some offset \<Rightarrow> Some (s, offset)
     | None \<Rightarrow> do {
         currentOffset \<leftarrow> storedOffset B now (sdb s) topic partn;
         Some (s\<lparr>partitionOffsets := (partitionOffsets s)(key \<mapsto> currentOffset)\<rparr>, currentOffset)
       })"

definition GetOffset ::
  "('db, 'txn) badger \<Rightarrow> time \<Rightarrow> ('db, 'v) StreamStorage \<Rightarrow> gostring \<Rightarrow> int \<Rightarrow>
   (('db, 'v) StreamStorage \<times> int64) option" where
  "GetOffset B now s topic partn = getPartitionOffset B now s topic partn"

section \<open>Writing\<close>

definition bufferOf :: "('db, 'v) StreamStorage \<Rightarrow> gostring \<Rightarrow> 'v Message list" where
  "bufferOf s key = (case map_of (writeBuffer s) key of None \<Rightarrow> [] | Some msgs \<Rightarrow> msgs)"

text \<open>The next offset of the partition, and the message in the partition's buffer.\<close>

definition bufferMessage ::
  "('db, 'txn) badger \<Rightarrow> 'v StreamEnv \<Rightarrow> ('db, 'v) StreamStorage \<Rightarrow> gostring \<Rightarrow> int \<Rightarrow> gostring \<Rightarrow> 'v \<Rightarrow>
   (('db, 'v) StreamStorage \<times> int64) option" where
  "bufferMessage B E s topic partn key val = do {
     (s, current) \<leftarrow> getPartitionOffset B (seNow E) s topic partn;
     let offset = current + 1;
     let pk = partKey topic partn;
     let msg = \<lparr>mTopic = topic, mPartition = partn, mOffset = offset, mKey = key, mValue = val,
       mTimestamp = UnixMilli (seNow E)\<rparr>;
     Some (s\<lparr>partitionOffsets := (partitionOffsets s)(pk \<mapsto> offset),
       writeBuffer := AList.update pk (bufferOf s pk @ [msg]) (writeBuffer s)\<rparr>, offset)
   }"

text \<open>\<open>go s.flushWrites()\<close> is a flush that will run at some later time: \<open>flushers\<close> counts them.\<close>

definition AppendMessage ::
  "('db, 'txn) badger \<Rightarrow> 'v StreamEnv \<Rightarrow> ('db, 'v) StreamStorage \<Rightarrow> gostring \<Rightarrow> int \<Rightarrow> gostring \<Rightarrow> 'v \<Rightarrow>
   (('db, 'v) StreamStorage \<times> int64) option" where
  "AppendMessage B E s topic partn key val = do {
     (s, offset) \<leftarrow> bufferMessage B E s topic partn key val;
     let bufferSize = length (bufferOf s (partKey topic partn));
     Some (if 1000 \<le> bufferSize then s\<lparr>flushers := flushers s + 1\<rparr> else s, offset)
   }"

record 'v PublishMessage =
  pmPartition :: int
  pmKey :: gostring
  pmValue :: 'v

text \<open>The messages of one partition, each with its index in the batch.\<close>

fun appendItems ::
  "('db, 'txn) badger \<Rightarrow> 'v StreamEnv \<Rightarrow> gostring \<Rightarrow> ('v PublishMessage \<times> nat) list \<Rightarrow>
   ('db, 'v) StreamStorage \<times> int64 list \<Rightarrow> (('db, 'v) StreamStorage \<times> int64 list) option" where
  "appendItems B E topic [] so = Some so"
| "appendItems B E topic ((msg, i) # items) (s, offsets) = do {
     (s, offset) \<leftarrow> bufferMessage B E s topic (pmPartition msg) (pmKey msg) (pmValue msg);
     appendItems B E topic items (s, offsets[i := offset])
   }"

fun appendParts ::
  "('db, 'txn) badger \<Rightarrow> 'v StreamEnv \<Rightarrow> gostring \<Rightarrow> ('v PublishMessage \<times> nat) list \<Rightarrow> int list \<Rightarrow>
   ('db, 'v) StreamStorage \<times> int64 list \<Rightarrow> (('db, 'v) StreamStorage \<times> int64 list) option" where
  "appendParts B E topic items [] so = Some so"
| "appendParts B E topic items (p # ps) so = do {
     so \<leftarrow> appendItems B E topic (filter (\<lambda>(msg, i). pmPartition msg = p) items) so;
     appendParts B E topic items ps so
   }"

definition AppendMessageBatch ::
  "('db, 'txn) badger \<Rightarrow> 'v StreamEnv \<Rightarrow> ('db, 'v) StreamStorage \<Rightarrow> gostring \<Rightarrow> 'v PublishMessage list \<Rightarrow>
   (('db, 'v) StreamStorage \<times> int64 list) option" where
  "AppendMessageBatch B E s topic msgs = do {
     let items = zip msgs [0..<length msgs];
     (s, offsets) \<leftarrow> appendParts B E topic items (seVisitParts E (remdups (map pmPartition msgs)))
       (s, replicate (length msgs) 0);
     let totalBuffered = sum_list (map (length \<circ> snd) (writeBuffer s));
     Some (if 1000 \<le> totalBuffered then s\<lparr>flushCh := True\<rparr> else s, offsets)
   }"

section \<open>Flushing\<close>

text \<open>The message with the bytes its slice refers to.\<close>

definition loaded :: "('v \<Rightarrow> bytes) \<Rightarrow> 'v Message \<Rightarrow> bytes Message" where
  "loaded load msg = \<lparr>mTopic = mTopic msg, mPartition = mPartition msg, mOffset = mOffset msg, mKey = mKey msg,
     mValue = load (mValue msg), mTimestamp = mTimestamp msg\<rparr>"

fun flushLoop ::
  "('db, 'txn) badger \<Rightarrow> time \<Rightarrow> bytes Message list \<Rightarrow> 'txn \<Rightarrow> ('txn \<times> unit) sstep" where
  "flushLoop B now [] txn = Some (Inr (txn, ()))"
| "flushLoop B now (msg # msgs) txn = do {
     let msgKey = makeMessageKey (mTopic msg) (mPartition msg) (mOffset msg);
     msgData \<leftarrow> encodeMessage msg;
     checked (streamCall (txnSetEntry B txn now msgKey msgData 0)) (\<lambda>txn. flushLoop B now msgs txn)
   }"

definition flushWrites ::
  "('db, 'txn) badger \<Rightarrow> 'v StreamEnv \<Rightarrow> ('db, 'v) StreamStorage \<Rightarrow>
   (('db, 'v) StreamStorage \<times> (stream_err + unit)) option" where
  "flushWrites B E s =
     (if writeBuffer s = [] then Some (s, Inr ())
      else let buffer = seVisitBuf E (writeBuffer s) in
        sUpdate B (s\<lparr>writeBuffer := []\<rparr>)
          (flushLoop B (seNow E) (map (loaded (seLoad E)) (concat (map snd buffer)))))"

text \<open>A turn of the flush worker, for what one of its channels delivers; it ends on \<open>stopFlush\<close>.\<close>

datatype flushEvent = FlushTick | FlushRequest | FlushStop

definition flushWorker ::
  "('db, 'txn) badger \<Rightarrow> 'v StreamEnv \<Rightarrow> flushEvent \<Rightarrow> ('db, 'v) StreamStorage \<Rightarrow> ('db, 'v) StreamStorage option" where
  "flushWorker B E ev s =
     (case ev of
        FlushStop \<Rightarrow> if stopFlush s then map_option fst (flushWrites B E s) else Some s
      | FlushTick \<Rightarrow> map_option fst (flushWrites B E s)
      | FlushRequest \<Rightarrow> if flushCh s then map_option fst (flushWrites B E (s\<lparr>flushCh := False\<rparr>)) else Some s)"

definition StreamStorage_Close ::
  "('db, 'txn) badger \<Rightarrow> 'v StreamEnv \<Rightarrow> ('db, 'v) StreamStorage \<Rightarrow>
   (('db, 'v) StreamStorage \<times> (stream_err + unit)) option" where
  "StreamStorage_Close B E s =
     (if stopFlush s then None
      else do {
        (s, r) \<leftarrow> flushWrites B E (s\<lparr>stopFlush := True\<rparr>);
        Some (case dbClose B (sdb s) of
            (d, None) \<Rightarrow> (s\<lparr>sdb := d\<rparr>, Inr ())
          | (d, Some e) \<Rightarrow> (s\<lparr>sdb := d\<rparr>, Inl (SBadger e)))
      })"

section \<open>Reading\<close>

text \<open>At most \<open>n\<close> items.\<close>

fun fetchLoop ::
  "nat \<Rightarrow> (bytes \<times> (badger_err + bytes)) list \<Rightarrow> bytes Message list \<Rightarrow> bytes Message list sstep" where
  "fetchLoop 0 items msgs = Some (Inr msgs)"
| "fetchLoop (Suc n) [] msgs = Some (Inr msgs)"
| "fetchLoop (Suc n) ((k, r) # items) msgs =
     checked (streamCall r) (\<lambda>val.
     checked (streamFormat (decodeMessage val)) (\<lambda>msg.
     fetchLoop n items (msgs @ [msg])))"

text \<open>\<open>make([]*Message, 0, maxCount)\<close> panics for a negative capacity; an error of the flush is dropped.\<close>

definition FetchMessages ::
  "('db, 'txn) badger \<Rightarrow> 'v StreamEnv \<Rightarrow> ('db, 'v) StreamStorage \<Rightarrow> gostring \<Rightarrow> int \<Rightarrow> int64 \<Rightarrow> int \<Rightarrow>
   (('db, 'v) StreamStorage \<times> (stream_err + bytes Message list)) option" where
  "FetchMessages B E s topic partn startOffset maxCount = do {
     (s, _) \<leftarrow> flushWrites B E s;
     if maxCount < 0 then None
     else do {
       r \<leftarrow> View B (sdb s) (\<lambda>txn.
         let pre = makeMessagePrefix topic partn;
             seekKey = makeMessageKey topic partn startOffset
         in fetchLoop (nat maxCount)
              (dropWhile (\<lambda>(k, _). k < seekKey) (txnIterate B txn (seNow E) pre)) []);
       Some (s, r)
     }
   }"

section \<open>Consumer offsets and topics\<close>

definition CommitOffset ::
  "('db, 'txn) badger \<Rightarrow> time \<Rightarrow> ('db, 'v) StreamStorage \<Rightarrow> gostring \<Rightarrow> gostring \<Rightarrow> int \<Rightarrow> int64 \<Rightarrow>
   (('db, 'v) StreamStorage \<times> (stream_err + unit)) option" where
  "CommitOffset B now s grp topic partn offset = sUpdate B s (\<lambda>txn. do {
     w \<leftarrow> put64 offset (makebuf 16);
     w \<leftarrow> put64 (UnixMilli now) w;
     checked (streamCall (txnSetEntry B txn now (makeConsumerOffsetKey grp topic partn) (fst w) 0)) (\<lambda>txn.
       Some (Inr (txn, ())))
   })"

definition GetConsumerOffset ::
  "('db, 'txn) badger \<Rightarrow> time \<Rightarrow> ('db, 'v) StreamStorage \<Rightarrow> gostring \<Rightarrow> gostring \<Rightarrow> int \<Rightarrow> int64 sstep" where
  "GetConsumerOffset B now s grp topic partn = View B (sdb s) (\<lambda>txn.
     case txnGet B txn now (makeConsumerOffsetKey grp topic partn) of
       Inl BadgerErrKeyNotFound \<Rightarrow> Some (Inr 0)
     | Inl e \<Rightarrow> Some (Inl (SBadger e))
     | Inr val \<Rightarrow> map_option (\<lambda>b. Inr (rd64 b)) (goslice val 0 8))"

definition Storage_CreateTopic ::
  "('db, 'txn) badger \<Rightarrow> time \<Rightarrow> ('db, 'v) StreamStorage \<Rightarrow> TopicMetadata \<Rightarrow>
   (('db, 'v) StreamStorage \<times> (stream_err + unit)) option" where
  "Storage_CreateTopic B now s meta = sUpdate B s (\<lambda>txn. do {
     data \<leftarrow> encodeTopicMetadata meta;
     checked (streamCall (txnSetEntry B txn now (makeTopicMetaKey (tmName meta)) data 0)) (\<lambda>txn.
       Some (Inr (txn, ())))
   })"

definition Storage_GetTopicMetadata ::
  "('db, 'txn) badger \<Rightarrow> time \<Rightarrow> ('db, 'v) StreamStorage \<Rightarrow> gostring \<Rightarrow> TopicMetadata sstep" where
  "Storage_GetTopicMetadata B now s topic = View B (sdb s) (\<lambda>txn.
     checked (streamCall (txnGet B txn now (makeTopicMetaKey topic))) (\<lambda>val.
       streamFormat (decodeTopicMetadata val)))"

section \<open>Retention\<close>

text \<open>The keys of the messages older than the cut-off.\<close>

fun oldLoop :: "int64 \<Rightarrow> (bytes \<times> (badger_err + bytes)) list \<Rightarrow> bytes list \<Rightarrow> bytes list sstep" where
  "oldLoop cutoffTime [] keys = Some (Inr keys)"
| "oldLoop cutoffTime ((k, r) # items) keys =
     checked (streamCall r) (\<lambda>val.
     checked (streamFormat (decodeMessage val)) (\<lambda>msg.
     oldLoop cutoffTime items (if mTimestamp msg <s cutoffTime then keys @ [k] else keys)))"

fun deleteLoop :: "('db, 'txn) badger \<Rightarrow> bytes list \<Rightarrow> 'txn \<Rightarrow> nat \<Rightarrow> ('txn \<times> nat) sstep" where
  "deleteLoop B [] txn deleted = Some (Inr (txn, deleted))"
| "deleteLoop B (key # keys) txn deleted =
     checked (streamCall (txnDelete B txn key)) (\<lambda>txn. deleteLoop B keys txn (deleted + 1))"

definition DeleteOldMessages ::
  "('db, 'txn) badger \<Rightarrow> time \<Rightarrow> ('db, 'v) StreamStorage \<Rightarrow> gostring \<Rightarrow> int \<Rightarrow> int64 \<Rightarrow>
   (('db, 'v) StreamStorage \<times> (stream_err + nat)) option" where
  "DeleteOldMessages B now s topic partn retentionMs = (let cutoffTime = UnixMilli now - retentionMs in
     sUpdate B s (\<lambda>txn.
       checked (oldLoop cutoffTime (txnIterate B txn now (makeMessagePrefix topic partn)) []) (\<lambda>keysToDelete.
         deleteLoop B keysToDelete txn 0)))"

end
