(* ===== verification/StreamAPI.thy ===== *)
theory StreamAPI
  imports Stream
begin

text \<open>
  The streams of \<open>src/internal/stream/stream.go\<close> and \<open>stream_helpers.go\<close> over the storage: topics,
  publishing with the choice of a partition, consumer groups with their assignment of partitions,
  consuming and committing, retention.
\<close>

section \<open>State\<close>

record Consumer =
  cID :: gostring
  LastSeen :: time
  cPartitions :: "int list"

record ConsumerGroup =
  gName :: gostring
  gTopic :: gostring
  Consumers :: "(gostring \<times> Consumer) list"

record ('db, 'v) Stream =
  strStorage :: "('db, 'v) StreamStorage"
  topics :: "(gostring \<times> TopicMetadata) list"
  groups :: "gostring \<rightharpoonup> ConsumerGroup"
  offsetCache :: "gostring \<rightharpoonup> int64"
  stopChan :: bool

definition Stream_New :: "badger_err + 'db \<Rightarrow> stream_err + ('db, 'v) Stream" where
  "Stream_New opened =
     (case NewStreamStorage opened of
        Inl e \<Rightarrow> Inl e
      | Inr store \<Rightarrow> Inr \<lparr>strStorage = store, topics = [], groups = Map.empty, offsetCache = Map.empty, stopChan = False\<rparr>)"

definition onStreams ::
  "('db, 'v) Stream \<Rightarrow> (('db, 'v) StreamStorage \<times> 'r) option \<Rightarrow> (('db, 'v) Stream \<times> 'r) option" where
  "onStreams s sr = map_option (\<lambda>(st, r). (s\<lparr>strStorage := st\<rparr>, r)) sr"

section \<open>Topics\<close>

definition CreateTopic ::
  "('db, 'txn) badger \<Rightarrow> time \<Rightarrow> ('db, 'v) Stream \<Rightarrow> gostring \<Rightarrow> int \<Rightarrow> int64 \<Rightarrow>
   (('db, 'v) Stream \<times> (stream_err + unit)) option" where
  "CreateTopic B now s name partitions retentionMs = (
     let partitions = (if partitions \<le> 0 then 4 else partitions);
         retentionMs = (if retentionMs \<le>s 0 then 7 * 24 * 60 * 60 * 1000 else retentionMs);
         meta = \<lparr>tmName = name, Partitions = partitions, RetentionMs = retentionMs, RetentionBytes = 0,
           CreatedAt = UnixMilli now\<rparr>
     in do {
       (s, r) \<leftarrow> onStreams s (Storage_CreateTopic B now (strStorage s) meta);
       Some (case r of Inl e \<Rightarrow> (s, Inl e) | Inr _ \<Rightarrow> (s\<lparr>topics := AList.update name meta (topics s)\<rparr>, Inr ()))
     })"

text \<open>From the cache or the storage.  The storage reports a missing topic as an error of its own, so the
  message \<open>topic not found\<close> of the source is never produced.\<close>

definition GetTopicMetadata ::
  "('db, 'txn) badger \<Rightarrow> time \<Rightarrow> ('db, 'v) Stream \<Rightarrow> gostring \<Rightarrow>
   (('db, 'v) Stream \<times> (stream_err + TopicMetadata)) option" where
  "GetTopicMetadata B now s name =
     (case map_of (topics s) name of
        Some meta \<Rightarrow> Some (s, Inr meta)
      | None \<Rightarrow> do {
          r \<leftarrow> Storage_GetTopicMetadata B now (strStorage s) name;
          Some (case r of
              Inl e \<Rightarrow> (s, Inl e)
            | Inr meta \<Rightarrow> (s\<lparr>topics := AList.update name meta (topics s)\<rparr>, Inr meta))
        })"

text \<open>Publishing creates a topic it cannot read, whatever the reason.\<close>

definition ensureTopic ::
  "('db, 'txn) badger \<Rightarrow> time \<Rightarrow> ('db, 'v) Stream \<Rightarrow> gostring \<Rightarrow>
   (('db, 'v) Stream \<times> (stream_err + TopicMetadata)) option" where
  "ensureTopic B now s topic = do {
     (s, r) \<leftarrow> GetTopicMetadata B now s topic;
     case r of
       Inr meta \<Rightarrow> Some (s, Inr meta)
     | Inl _ \<Rightarrow> do {
         (s, r) \<leftarrow> CreateTopic B now s topic 4 0;
         case r of Inl e \<Rightarrow> Some (s, Inl e) | Inr _ \<Rightarrow> GetTopicMetadata B now s topic
       }
   }"

section \<open>Publishing\<close>

text \<open>\<open>hash/fnv\<close>: FNV-1a with 32 bits.\<close>

definition fnv32a :: "bytes \<Rightarrow> uint32" where
  "fnv32a data = foldl (\<lambda>h b. (h XOR ucast b) * 16777619) 2166136261 data"

text \<open>Go's remainder has the sign of the dividend; a division by zero panics.\<close>

definition goRem :: "int \<Rightarrow> int \<Rightarrow> int option" where
  "goRem a b = (if b = 0 then None else Some (if a < 0 then - ((- a) mod \<bar>b\<bar>) else a mod \<bar>b\<bar>))"

definition selectPartition :: "time \<Rightarrow> int \<Rightarrow> int \<Rightarrow> gostring \<Rightarrow> int option" where
  "selectPartition now partitions partn key =
     (if partn < 0 \<or> partitions \<le> partn then
        if key \<noteq> [] then goRem (uint (fnv32a key)) partitions else goRem now partitions
      else Some partn)"

definition Publish ::
  "('db, 'txn) badger \<Rightarrow> 'v StreamEnv \<Rightarrow> ('db, 'v) Stream \<Rightarrow> gostring \<Rightarrow> int \<Rightarrow> gostring \<Rightarrow> 'v \<Rightarrow>
   (('db, 'v) Stream \<times> (stream_err + int64)) option" where
  "Publish B E s topic partn key val = do {
     (s, r) \<leftarrow> ensureTopic B (seNow E) s topic;
     case r of
       Inl e \<Rightarrow> Some (s, Inl e)
     | Inr meta \<Rightarrow> do {
         partn \<leftarrow> selectPartition (seNow E) (Partitions meta) partn key;
         (s, offset) \<leftarrow> onStreams s (AppendMessage B E (strStorage s) topic partn key val);
         Some (s, Inr offset)
       }
   }"

fun assignPartitions :: "time \<Rightarrow> int \<Rightarrow> 'v PublishMessage list \<Rightarrow> 'v PublishMessage list option" where
  "assignPartitions now partitions [] = Some []"
| "assignPartitions now partitions (msg # msgs) = do {
     partn \<leftarrow> selectPartition now partitions (pmPartition msg) (pmKey msg);
     msgs \<leftarrow> assignPartitions now partitions msgs;
     Some (msg\<lparr>pmPartition := partn\<rparr> # msgs)
   }"

definition PublishBatch ::
  "('db, 'txn) badger \<Rightarrow> 'v StreamEnv \<Rightarrow> ('db, 'v) Stream \<Rightarrow> gostring \<Rightarrow> 'v PublishMessage list \<Rightarrow>
   (('db, 'v) Stream \<times> (stream_err + int64 list)) option" where
  "PublishBatch B E s topic msgs = do {
     (s, r) \<leftarrow> ensureTopic B (seNow E) s topic;
     case r of
       Inl e \<Rightarrow> Some (s, Inl e)
     | Inr meta \<Rightarrow> do {
         msgs \<leftarrow> assignPartitions (seNow E) (Partitions meta) msgs;
         (s, offsets) \<leftarrow> onStreams s (AppendMessageBatch B E (strStorage s) topic msgs);
         Some (s, Inr offsets)
       }
   }"

section \<open>Consumer groups\<close>

text \<open>The range assignment: each consumer in turn gets the next \<open>per\<close> partitions, and one more while there
  are extra ones.\<close>

fun assign :: "int \<Rightarrow> int \<Rightarrow> int \<Rightarrow> gostring list \<Rightarrow> (gostring \<times> int list) list" where
  "assign per extra cur [] = []"
| "assign per extra cur (i # ids) =
     (let numParts = (if extra > 0 then per + 1 else per);
          extra = (if extra > 0 then extra - 1 else extra)
      in (i, [cur..cur + numParts - 1]) # assign per extra (cur + numParts) ids)"

definition assignAll :: "(gostring \<times> int list) list \<Rightarrow> (gostring \<times> Consumer) list \<Rightarrow> (gostring \<times> Consumer) list" where
  "assignAll parts = map (\<lambda>(i, c). (i, case map_of parts i of None \<Rightarrow> c | Some ps \<Rightarrow> c\<lparr>cPartitions := ps\<rparr>))"

definition rebalanceGroup ::
  "('db, 'txn) badger \<Rightarrow> 'v StreamEnv \<Rightarrow> ('db, 'v) Stream \<Rightarrow> ConsumerGroup \<Rightarrow>
   (('db, 'v) Stream \<times> ConsumerGroup \<times> (stream_err + unit)) option" where
  "rebalanceGroup B E s g = do {
     (s, r) \<leftarrow> GetTopicMetadata B (seNow E) s (gTopic g);
     Some (case r of
         Inl e \<Rightarrow> (s, g, Inl e)
       | Inr meta \<Rightarrow>
           let consumers = seVisitIds E (map fst (Consumers g)); n = int (length consumers) in
           if n = 0 then (s, g, Inr ())
           else (s, g\<lparr>Consumers := assignAll (assign (Partitions meta div n) (Partitions meta mod n) 0 consumers)
             (Consumers g)\<rparr>, Inr ()))
   }"

definition Subscribe ::
  "('db, 'txn) badger \<Rightarrow> 'v StreamEnv \<Rightarrow> ('db, 'v) Stream \<Rightarrow> gostring \<Rightarrow> gostring \<Rightarrow> gostring \<Rightarrow>
   (('db, 'v) Stream \<times> (stream_err + unit)) option" where
  "Subscribe B E s topic grp consumerID = (
     let g = (case groups s grp of Some g \<Rightarrow> g | None \<Rightarrow> \<lparr>gName = grp, gTopic = topic, Consumers = []\<rparr>);
         s = s\<lparr>groups := (groups s)(grp \<mapsto> g)\<rparr>
     in if gTopic g \<noteq> topic
        then Some (s, Inl (SError (lit ''group '' @ grp @ lit '' already subscribed to '' @ gTopic g)))
        else do {
          let c = (case map_of (Consumers g) consumerID of
              Some c \<Rightarrow> c | None \<Rightarrow> \<lparr>cID = consumerID, LastSeen = 0, cPartitions = []\<rparr>);
          let g = g\<lparr>Consumers := AList.update consumerID (c\<lparr>LastSeen := seNow E\<rparr>) (Consumers g)\<rparr>;
          (s, g, r) \<leftarrow> rebalanceGroup B E s g;
          Some (s\<lparr>groups := (groups s)(grp \<mapsto> g)\<rparr>, r)
        })"

definition Unsubscribe ::
  "('db, 'txn) badger \<Rightarrow> 'v StreamEnv \<Rightarrow> ('db, 'v) Stream \<Rightarrow> gostring \<Rightarrow> gostring \<Rightarrow> gostring \<Rightarrow>
   (('db, 'v) Stream \<times> (stream_err + unit)) option" where
  "Unsubscribe B E s topic grp consumerID =
     (case groups s grp of
        None \<Rightarrow> Some (s, Inr ())
      | Some g \<Rightarrow>
          let g = g\<lparr>Consumers := AList.delete consumerID (Consumers g)\<rparr> in
          if Consumers g = [] then Some (s\<lparr>groups := (groups s)(grp := None)\<rparr>, Inr ())
          else do {
            (s, g, r) \<leftarrow> rebalanceGroup B E s g;
            Some (s\<lparr>groups := (groups s)(grp \<mapsto> g)\<rparr>, r)
          })"

section \<open>Consuming\<close>

definition cacheKey :: "gostring \<Rightarrow> gostring \<Rightarrow> int \<Rightarrow> gostring" where
  "cacheKey grp topic partn = grp @ lit '':'' @ topic @ lit '':'' @ lit (dec_int partn)"

definition getCachedOffset ::
  "('db, 'txn) badger \<Rightarrow> time \<Rightarrow> ('db, 'v) Stream \<Rightarrow> gostring \<Rightarrow> gostring \<Rightarrow> int \<Rightarrow>
   (('db, 'v) Stream \<times> (stream_err + int64)) option" where
  "getCachedOffset B now s grp topic partn = (let key = cacheKey grp topic partn in
     case offsetCache s key of
       Some offset \<Rightarrow> Some (s, Inr offset)
     | None \<Rightarrow> do {
         r \<leftarrow> GetConsumerOffset B now (strStorage s) grp topic partn;
         Some (case r of
             Inl e \<Rightarrow> (s, Inl e)
           | Inr offset \<Rightarrow> (s\<lparr>offsetCache := (offsetCache s)(key \<mapsto> offset)\<rparr>, Inr offset))
       })"

text \<open>What the goroutine of one partition does.\<close>

definition fetchPartition ::
  "('db, 'txn) badger \<Rightarrow> 'v StreamEnv \<Rightarrow> gostring \<Rightarrow> gostring \<Rightarrow> int \<Rightarrow> int \<Rightarrow> ('db, 'v) Stream \<Rightarrow>
   (('db, 'v) Stream \<times> (stream_err + bytes Message list)) option" where
  "fetchPartition B E grp topic perPart partn s = do {
     (s, r) \<leftarrow> getCachedOffset B (seNow E) s grp topic partn;
     case r of
       Inl e \<Rightarrow> Some (s, Inl e)
     | Inr offset \<Rightarrow> onStreams s (FetchMessages B E (strStorage s) topic partn offset perPart)
   }"

text \<open>The goroutines run, and their results arrive, in some order.\<close>

fun fetchAll ::
  "('db, 'txn) badger \<Rightarrow> 'v StreamEnv \<Rightarrow> gostring \<Rightarrow> gostring \<Rightarrow> int \<Rightarrow> int list \<Rightarrow> ('db, 'v) Stream \<Rightarrow>
   (('db, 'v) Stream \<times> (stream_err + bytes Message list) list) option" where
  "fetchAll B E grp topic perPart [] s = Some (s, [])"
| "fetchAll B E grp topic perPart (p # ps) s = do {
     (s, r) \<leftarrow> fetchPartition B E grp topic perPart p s;
     (s, rs) \<leftarrow> fetchAll B E grp topic perPart ps s;
     Some (s, r # rs)
   }"

text \<open>Results are collected until enough messages are there.\<close>

fun collect :: "int \<Rightarrow> (stream_err + bytes Message list) list \<Rightarrow> bytes Message list \<Rightarrow> stream_err + bytes Message list" where
  "collect count [] result = Inr result"
| "collect count (r # rs) result =
     (case r of
        Inl e \<Rightarrow> Inl e
      | Inr msgs \<Rightarrow>
          let result = result @ msgs in
          if count \<le> int (length result) then Inr result else collect count rs result)"

definition Consume ::
  "('db, 'txn) badger \<Rightarrow> 'v StreamEnv \<Rightarrow> ('db, 'v) Stream \<Rightarrow> gostring \<Rightarrow> gostring \<Rightarrow> gostring \<Rightarrow> int \<Rightarrow>
   (('db, 'v) Stream \<times> (stream_err + bytes Message list)) option" where
  "Consume B E s topic grp consumerID count =
     (case groups s grp of
        None \<Rightarrow> Some (s, Inl (SError (lit ''consumer group not found'')))
      | Some g \<Rightarrow>
          (case map_of (Consumers g) consumerID of
             None \<Rightarrow> Some (s, Inl (SError (lit ''consumer not registered'')))
           | Some c \<Rightarrow>
               let partitions = cPartitions c;
                   s = s\<lparr>groups := (groups s)(grp \<mapsto>
                     g\<lparr>Consumers := AList.update consumerID (c\<lparr>LastSeen := seNow E\<rparr>) (Consumers g)\<rparr>)\<rparr>
               in if partitions = [] then Some (s, Inr [])
                  else if count < 0 then None
                  else do {
                    let perPart = count div int (length partitions);
                    let perPart = (if perPart = 0 then 1 else perPart);
                    (s, results) \<leftarrow> fetchAll B E grp topic perPart (seVisitParts E partitions) s;
                    Some (s, collect count results [])
                  }))"

definition Commit ::
  "('db, 'txn) badger \<Rightarrow> time \<Rightarrow> ('db, 'v) Stream \<Rightarrow> gostring \<Rightarrow> gostring \<Rightarrow> int \<Rightarrow> int64 \<Rightarrow>
   (('db, 'v) Stream \<times> (stream_err + unit)) option" where
  "Commit B now s topic grp partn offset = (
     let s = s\<lparr>offsetCache := (offsetCache s)(cacheKey grp topic partn \<mapsto> offset)\<rparr>
     in onStreams s (CommitOffset B now (strStorage s) grp topic partn offset))"

section \<open>Background tasks\<close>

fun retainParts ::
  "('db, 'txn) badger \<Rightarrow> time \<Rightarrow> gostring \<Rightarrow> int64 \<Rightarrow> int list \<Rightarrow> ('db, 'v) StreamStorage \<Rightarrow> ('db, 'v) StreamStorage option" where
  "retainParts B now name retentionMs [] s = Some s"
| "retainParts B now name retentionMs (p # ps) s = do {
     (s, _) \<leftarrow> DeleteOldMessages B now s name p retentionMs;
     retainParts B now name retentionMs ps s
   }"

fun retainTopics ::
  "('db, 'txn) badger \<Rightarrow> time \<Rightarrow> TopicMetadata list \<Rightarrow> ('db, 'v) StreamStorage \<Rightarrow> ('db, 'v) StreamStorage option" where
  "retainTopics B now [] s = Some s"
| "retainTopics B now (t # ts) s = do {
     s \<leftarrow> (if 0 <s RetentionMs t then retainParts B now (tmName t) (RetentionMs t) [0..Partitions t - 1] s else Some s);
     retainTopics B now ts s
   }"

definition enforceRetention ::
  "('db, 'txn) badger \<Rightarrow> 'v StreamEnv \<Rightarrow> ('db, 'v) Stream \<Rightarrow> ('db, 'v) Stream option" where
  "enforceRetention B E s =
     map_option (\<lambda>st. s\<lparr>strStorage := st\<rparr>)
       (retainTopics B (seNow E) (map snd (seVisitTopics E (topics s))) (strStorage s))"

text \<open>The offsets are already persisted by \<open>Commit\<close>.\<close>

definition flushOffsets :: "('db, 'v) Stream \<Rightarrow> ('db, 'v) Stream" where
  "flushOffsets s = s"

definition Stream_Close ::
  "('db, 'txn) badger \<Rightarrow> 'v StreamEnv \<Rightarrow> ('db, 'v) Stream \<Rightarrow> (('db, 'v) Stream \<times> (stream_err + unit)) option" where
  "Stream_Close B E s = (let s = flushOffsets (s\<lparr>stopChan := True\<rparr>) in
     onStreams s (StreamStorage_Close B E (strStorage s)))"

end
