(* ===== verification/StreamHandlers.thy ===== *)
theory StreamHandlers
  imports Server StreamAPI
begin

text \<open>
  The handlers of \<open>src/internal/server/stream_handlers.go\<close>.  A published value is a slice of the
  connection's read buffer, kept by the streams until the next flush; the values of a batch are copies.
  \<open>vref\<close> tells them apart and \<open>loadRef\<close> reads one, given the buffer.  The documents' part of the
  server state and their handlers are arguments.
\<close>

section \<open>Values\<close>

datatype vref = Copied bytes | InBuffer slice

fun loadRef :: "bytes \<Rightarrow> vref \<Rightarrow> bytes" where
  "loadRef buf (Copied data) = data"
| "loadRef buf (InBuffer sl) = deref buf sl"

text \<open>Where the value of a SPUBLISH request stands in the buffer: after the opcode, the length of the payload,
  the topic, the partition and the key with its length.\<close>

definition valueSlice :: "Request \<Rightarrow> slice" where
  "valueSlice req = (let lo = 5 + (2 + length (rqTopic req)) + 4 + (2 + length (rqKey req)) + 4
     in (lo, lo + length (rqValue req)))"

section \<open>The streams in the server\<close>

record ('db, 'doc) Stores =
  srvStream :: "('db, vref) Stream"
  srvDocs :: 'doc

type_synonym ('db, 'doc) sst = "('db, ('db, 'doc) Stores) st"

text \<open>\<open>V\<close> gives the orders in which maps are visited; the time and the read buffer are those of the call.\<close>

definition streamEnv :: "('db, 'txn) Env \<Rightarrow> vref StreamEnv \<Rightarrow> Connection \<Rightarrow> vref StreamEnv" where
  "streamEnv E V c = V\<lparr>seNow := envNow E, seLoad := loadRef (readBuf c)\<rparr>"

definition onStream ::
  "('db, 'doc) sst \<Rightarrow> (('db, vref) Stream \<Rightarrow> (('db, vref) Stream \<times> 'r) option) \<Rightarrow> (('db, 'doc) sst \<times> 'r) option" where
  "onStream st f = (case st of (s, c) \<Rightarrow>
     map_option (\<lambda>(x, r). ((s\<lparr>srvOther := (srvOther s)\<lparr>srvStream := x\<rparr>\<rparr>, c), r)) (f (srvStream (srvOther s))))"

definition respondStream ::
  "('db, 'txn) Env \<Rightarrow> ('a \<Rightarrow> bytes option) \<Rightarrow> ('db, 'doc) sst \<times> (stream_err + 'a) \<Rightarrow> ('db, 'doc) sst option" where
  "respondStream E ok sr = (case sr of (st, r) \<Rightarrow>
     (case r of
        Inl e \<Rightarrow> map_option countError (sendBinaryError E (stream_errmsg e) st)
      | Inr a \<Rightarrow> do {
          response \<leftarrow> ok a;
          Some (countFast (sendBinaryResponse E response st))
        }))"

section \<open>Handlers\<close>

definition processBinarySPublish ::
  "('db, 'txn) Env \<Rightarrow> vref StreamEnv \<Rightarrow> Request \<Rightarrow> ('db, 'doc) sst \<Rightarrow> ('db, 'doc) sst option" where
  "processBinarySPublish E V req st = do {
     sr \<leftarrow> onStream st (\<lambda>x. Publish (envB E) (streamEnv E V (snd st)) x (rqTopic req) (sint (rqPartition req)) (rqKey req)
       (InBuffer (valueSlice req)));
     respondStream E (\<lambda>_. EncodeOKResponse) sr
   }"

text \<open>Each consumed message as \<open>[8:offset][8:timestamp][2:keyLen][key][4:valueLen][value]\<close>.\<close>

definition consumedValue :: "bytes Message \<Rightarrow> bytes option" where
  "consumedValue msg = do {
     let keyLen = length (mKey msg);
     let valLen = length (mValue msg);
     let size = 8 + 8 + 2 + keyLen + 4 + valLen;
     w \<leftarrow> put64 (mOffset msg) (makebuf size);
     w \<leftarrow> put64 (mTimestamp msg) w;
     w \<leftarrow> put16 (word_of_nat keyLen) w;
     w \<leftarrow> putbytes (mKey msg) w;
     w \<leftarrow> put32 (word_of_nat valLen) w;
     w \<leftarrow> putbytes (mValue msg) w;
     Some (fst w)
   }"

fun consumedValues :: "bytes Message list \<Rightarrow> bytes list option" where
  "consumedValues [] = Some []"
| "consumedValues (msg # msgs) = do {
     v \<leftarrow> consumedValue msg;
     vs \<leftarrow> consumedValues msgs;
     Some (v # vs)
   }"

definition processBinarySConsume ::
  "('db, 'txn) Env \<Rightarrow> vref StreamEnv \<Rightarrow> Request \<Rightarrow> ('db, 'doc) sst \<Rightarrow> ('db, 'doc) sst option" where
  "processBinarySConsume E V req st = do {
     sr \<leftarrow> onStream st (\<lambda>x. Consume (envB E) (streamEnv E V (snd st)) x (rqTopic req) (rqGroup req) (rqConsumer req)
       (sint (rqCount req)));
     respondStream E (\<lambda>msgs. Option.bind (consumedValues msgs) EncodeMultiValueResponse) sr
   }"

definition processBinarySCommit ::
  "('db, 'txn) Env \<Rightarrow> vref StreamEnv \<Rightarrow> Request \<Rightarrow> ('db, 'doc) sst \<Rightarrow> ('db, 'doc) sst option" where
  "processBinarySCommit E V req st = do {
     sr \<leftarrow> onStream st (\<lambda>x. Commit (envB E) (envNow E) x (rqTopic req) (rqGroup req) (sint (rqPartition req)) (rqRetentionMs req));
     respondStream E (\<lambda>_. EncodeOKResponse) sr
   }"

definition processBinarySCreateTopic ::
  "('db, 'txn) Env \<Rightarrow> vref StreamEnv \<Rightarrow> Request \<Rightarrow> ('db, 'doc) sst \<Rightarrow> ('db, 'doc) sst option" where
  "processBinarySCreateTopic E V req st = do {
     sr \<leftarrow> onStream st (\<lambda>x. CreateTopic (envB E) (envNow E) x (rqTopic req) (sint (rqPartition req)) (rqRetentionMs req));
     respondStream E (\<lambda>_. EncodeOKResponse) sr
   }"

definition processBinarySSubscribe ::
  "('db, 'txn) Env \<Rightarrow> vref StreamEnv \<Rightarrow> Request \<Rightarrow> ('db, 'doc) sst \<Rightarrow> ('db, 'doc) sst option" where
  "processBinarySSubscribe E V req st = do {
     sr \<leftarrow> onStream st (\<lambda>x. Subscribe (envB E) (streamEnv E V (snd st)) x (rqTopic req) (rqGroup req) (rqConsumer req));
     respondStream E (\<lambda>_. EncodeOKResponse) sr
   }"

definition processBinarySUnsubscribe ::
  "('db, 'txn) Env \<Rightarrow> vref StreamEnv \<Rightarrow> Request \<Rightarrow> ('db, 'doc) sst \<Rightarrow> ('db, 'doc) sst option" where
  "processBinarySUnsubscribe E V req st = do {
     sr \<leftarrow> onStream st (\<lambda>x. Unsubscribe (envB E) (streamEnv E V (snd st)) x (rqTopic req) (rqGroup req) (rqConsumer req));
     respondStream E (\<lambda>_. EncodeOKResponse) sr
   }"

text \<open>A panic of \<open>PublishBatch\<close> is recovered: the client gets an error, and what was done before the panic,
  reading or creating the topic, stays.\<close>

definition processBinarySPublishBatch ::
  "('db, 'txn) Env \<Rightarrow> vref StreamEnv \<Rightarrow> Request \<Rightarrow> ('db, 'doc) sst \<Rightarrow> ('db, 'doc) sst option" where
  "processBinarySPublishBatch E V req st = (
     let messages = map (\<lambda>m. \<lparr>pmPartition = sint (bmPartition m), pmKey = bmKey m, pmValue = Copied (bmValue m)\<rparr>) (rqBatchMessages req)
     in case onStream st (\<lambda>x. PublishBatch (envB E) (streamEnv E V (snd st)) x (rqTopic req) messages) of
          Some sr \<Rightarrow> respondStream E (\<lambda>_. EncodeOKResponse) sr
        | None \<Rightarrow>
            let st' = (case onStream st (\<lambda>x. ensureTopic (envB E) (envNow E) x (rqTopic req)) of None \<Rightarrow> st | Some (st', _) \<Rightarrow> st')
            in map_option countError (sendBinaryError E (lit ''internal server error'') st'))"

text \<open>The part of the dispatch that concerns the streams.\<close>

definition streamDispatch ::
  "('db, 'txn) Env \<Rightarrow> vref StreamEnv \<Rightarrow> (Request \<Rightarrow> ('db, 'doc) sst \<Rightarrow> ('db, 'doc) sst option) \<Rightarrow> Request \<Rightarrow>
   ('db, 'doc) sst \<Rightarrow> ('db, 'doc) sst option" where
  "streamDispatch E V docs req st = (let op = rqOpCode req in
     if op = OpSPublish then processBinarySPublish E V req st
     else if op = OpSConsume then processBinarySConsume E V req st
     else if op = OpSCommit then processBinarySCommit E V req st
     else if op = OpSCreateTopic then processBinarySCreateTopic E V req st
     else if op = OpSPublishBatch then processBinarySPublishBatch E V req st
     else if op = OpSSubscribe then processBinarySSubscribe E V req st
     else if op = OpSUnsubscribe then processBinarySUnsubscribe E V req st
     else docs req st)"

end
