(* ===== verification/StreamLog.thy ===== *)
theory StreamLog
  imports StreamAPI QueueOps NetProtocol "HOL-Library.Multiset"
begin

text \<open>
  The storage of the streams as one log per topic and partition.  \<open>logReads\<close> relates what reads of the
  database see to a map from offsets to entries; the write buffer is a layer over it.  The order of the
  keys is the order of the offsets, which is why scans return messages in the order they were published.
  As with the queues, the scans are only right for topics without a colon.
\<close>

section \<open>Keys and their order\<close>

text \<open>Decimal numerals of equal width are ordered as the numbers they denote.\<close>

fun digs :: "nat \<Rightarrow> nat \<Rightarrow> string" where
  "digs 0 n = []"
| "digs (Suc w) n = digs w (n div 10) @ [digit (n mod 10)]"

lemma length_digs [simp]: "length (digs w n) = w"
  by (induction w arbitrary: n) simp_all

lemma digs_0: "digs w 0 = replicate w CHR ''0''"
proof -
  have "digit 0 = CHR ''0''" by code_simp
  then show ?thesis by (induction w) (simp_all add: replicate_append_same)
qed

lemma digs_dec: "length (dec n) \<le> w \<Longrightarrow> digs w n = replicate (w - length (dec n)) CHR ''0'' @ dec n"
proof (induction w arbitrary: n)
  case 0
  then show ?case by simp
next
  case (Suc w)
  show ?case
  proof (cases "n < 10")
    case True
    then have "dec n = [digit n]" by (subst dec.simps) simp
    with True show ?thesis by (simp add: digs_0)
  next
    case False
    then have d: "dec n = dec (n div 10) @ [digit (n mod 10)]" by (subst dec.simps) simp
    with Suc show ?thesis by simp
  qed
qed

lemma dec020_digs: "n < 10 ^ 20 \<Longrightarrow> dec020 n = digs 20 n"
  using length_dec [of 20 n] by (simp add: dec020_def digs_dec)

lemma snoc_less:
  "length xs = length ys \<Longrightarrow> xs @ [a] < ys @ [b] \<longleftrightarrow> xs < ys \<or> xs = ys \<and> a < (b :: byte)"
  by (induction xs ys rule: list_induct2) auto

lemma digit_byte: "d < 10 \<Longrightarrow> lit [digit d] = [word_of_nat (48 + d)]"
  by (simp add: lit_def)

lemma unat_digit: "d < 10 \<Longrightarrow> unat (word_of_nat (48 + d) :: byte) = 48 + d"
  by (subst unat_of_nat) simp

lemma lit_digs_less: "m < n \<Longrightarrow> n < 10 ^ w \<Longrightarrow> lit (digs w m) < lit (digs w n)"
proof (induction w arbitrary: m n)
  case (Suc w)
  have "m div 10 < n div 10 \<or> m div 10 = n div 10 \<and> m mod 10 < n mod 10"
    using Suc.prems(1) by (metis div_le_mono div_mult_mod_eq less_or_eq_imp_le linorder_not_less nat_less_le add_less_cancel_left)
  moreover have "n div 10 < 10 ^ w" using Suc.prems(2) by (simp add: div_less_iff_less_mult mult.commute)
  moreover have "(word_of_nat (48 + m mod 10) :: byte) < word_of_nat (48 + n mod 10)" if "m mod 10 < n mod 10"
    unfolding word_less_nat_alt using that by (simp only: unat_digit mod_less_divisor zero_less_numeral)
  ultimately show ?case
    using Suc.IH [of "m div 10" "n div 10"] by (auto simp: lit_append digit_byte snoc_less)
qed simp

lemma lit_digs_eq: "m < 10 ^ w \<Longrightarrow> n < 10 ^ w \<Longrightarrow> lit (digs w m) = lit (digs w n) \<longleftrightarrow> m = n"
  using lit_digs_less [of m n w] lit_digs_less [of n m w] by (cases m n rule: linorder_cases) auto

text \<open>A message key is the prefix of its partition and the offset; offsets are not negative.\<close>

lemma sint_offset: "i < 2 ^ 63 \<Longrightarrow> sint (word_of_nat i :: int64) = int i"
  by (simp add: signed_of_nat signed_take_bit_int_eq_self)

lemma messageKey_offset:
  "i < 2 ^ 63 \<Longrightarrow> makeMessageKey topic p (word_of_nat i) = makeMessagePrefix topic p @ lit (digs 20 i)"
  by (simp add: makeMessageKey_def makeMessagePrefix_def sint_offset dec020_int_def dec020_digs)

lemma messagePrefix_inj [key_simps]:
  "clean t \<Longrightarrow> clean t' \<Longrightarrow> makeMessagePrefix t p @ r = makeMessagePrefix t' p' @ r' \<longleftrightarrow> t = t' \<and> p = p' \<and> r = r'"
  by (simp add: makeMessagePrefix_def colon split_colon inj_lit)

lemma messagePrefix_eq [key_simps]:
  "clean t \<Longrightarrow> clean t' \<Longrightarrow> makeMessagePrefix t p = makeMessagePrefix t' p' \<longleftrightarrow> t = t' \<and> p = p'"
  using messagePrefix_inj [of t t' p "[]" p' "[]"] by simp

lemma streamKey_inj:
  "clean t \<Longrightarrow> clean t' \<Longrightarrow> i < 2 ^ 63 \<Longrightarrow> i' < 2 ^ 63 \<Longrightarrow>
   makeMessageKey t p (word_of_nat i) = makeMessageKey t' p' (word_of_nat i') \<longleftrightarrow> t = t' \<and> p = p' \<and> i = i'"
  by (simp add: messageKey_offset key_simps lit_digs_eq)

lemma streamKey_less:
  "i < j \<Longrightarrow> j < 2 ^ 63 \<Longrightarrow> makeMessageKey t p (word_of_nat i) < makeMessageKey t p (word_of_nat j)"
  by (simp add: messageKey_offset append_less lit_digs_less)

lemma streamKey_less_iff:
  assumes "i < 2 ^ 63" and "j < 2 ^ 63"
  shows "makeMessageKey t p (word_of_nat i) < makeMessageKey t p (word_of_nat j) \<longleftrightarrow> i < j"
  using streamKey_less [of i j t p] streamKey_less [of j i t p] assms by (cases i j rule: linorder_cases) auto

lemma digs_hd: "\<exists>d r. digs (Suc w) i = digit d # r \<and> d < 10"
proof (induction w arbitrary: i)
  case 0
  show ?case by auto
next
  case (Suc w)
  from Suc [of "i div 10"] obtain d r where "digs (Suc w) (i div 10) = digit d # r" "d < 10" by blast
  then show ?case by (simp only: digs.simps(2) [of "Suc w" i]) auto
qed

text \<open>The key a scan starts at is below that of an offset exactly when the offset is below: a negative
  start sorts before every offset.\<close>

lemma seek_below:
  assumes "i < 2 ^ 63"
  shows "makeMessageKey t p (word_of_nat i) < makeMessageKey t p start \<longleftrightarrow> int i < sint start"
proof (cases "sint start < 0")
  case True
  obtain d r where "digs 20 i = digit d # r" "d < 10" using digs_hd [of 19 i] by auto
  moreover have "(45 :: byte) < word_of_nat (48 + d)" if "d < 10"
    unfolding word_less_nat_alt using that by (simp only: unat_digit) simp
  ultimately have "lit (CHR ''-'' # x) < lit (digs 20 i)" for x
    using digit_byte [of d] by (simp add: lit_def)
  moreover obtain x where "makeMessageKey t p start = makeMessagePrefix t p @ lit (CHR ''-'' # x)"
    using True by (simp add: makeMessageKey_def makeMessagePrefix_def dec020_int_def)
  ultimately show ?thesis
    using True by (simp add: messageKey_offset [OF assms] append_less less_not_sym)
next
  case False
  define j where "j = nat (sint start)"
  have j: "sint start = int j" "j < 2 ^ 63" using False sint_less [of start] by (simp_all add: j_def)
  then have "start = word_of_nat j" using sint_offset [of j] by (metis signed_word_eqI)
  with j show ?thesis using streamKey_less_iff [OF assms, of j t p] sint_offset [of j] by simp
qed

section \<open>Stored formats\<close>

definition messageData :: "bytes Message \<Rightarrow> bytes" where
  "messageData msg = be64 (mOffset msg) @ be64 (mTimestamp msg) @ str16 (mKey msg) @ str32 (mValue msg)"

lemma encodeMessage_eq: "encodeMessage msg = Some (messageData msg)"
  by (simp add: encodeMessage_def messageData_def str16_def str32_def cursor_simps algebra_simps)

definition topicData :: "TopicMetadata \<Rightarrow> bytes" where
  "topicData meta = str16 (tmName meta) @ be32 (word_of_int (Partitions meta)) @ be64 (RetentionMs meta) @
     be64 (RetentionBytes meta) @ be64 (CreatedAt meta)"

lemma encodeTopicMetadata_eq: "encodeTopicMetadata meta = Some (topicData meta)"
  by (simp add: encodeTopicMetadata_def topicData_def str16_def cursor_simps algebra_simps)

text \<open>What comes back: everything but the topic and the partition.\<close>

lemma decode_messageData:
  "length (mKey msg) < 2 ^ 16 \<Longrightarrow> length (mValue msg) < 2 ^ 32 \<Longrightarrow>
   decodeMessage (messageData msg) = Some (Inr (msg\<lparr>mTopic := [], mPartition := 0\<rparr>))"
  by (cases msg) (simp add: decodeMessage_def messageData_def need_def str16_def str32_def read_simps)

lemma decode_topicData:
  "length (tmName meta) < 2 ^ 16 \<Longrightarrow> 0 \<le> Partitions meta \<Longrightarrow> Partitions meta < 2 ^ 32 \<Longrightarrow>
   decodeTopicMetadata (topicData meta) = Some (Inr meta)"
  by (cases meta) (simp add: decodeTopicMetadata_def topicData_def need_def str16_def read_simps uint_word_of_int)

section \<open>Logs behind a read function\<close>

text \<open>A log maps offsets to key, value and timestamp.\<close>

type_synonym logs = "gostring \<times> int \<Rightarrow> nat \<rightharpoonup> gostring \<times> bytes \<times> int64"

definition entryMsg :: "gostring \<Rightarrow> int \<Rightarrow> nat \<Rightarrow> gostring \<times> bytes \<times> int64 \<Rightarrow> bytes Message" where
  "entryMsg t p i = (\<lambda>(key, val, ts). \<lparr>mTopic = t, mPartition = p, mOffset = word_of_nat i, mKey = key, mValue = val,
     mTimestamp = ts\<rparr>)"

definition wfLogs :: "logs \<Rightarrow> bool" where
  "wfLogs L \<longleftrightarrow> (\<forall>t p i key val ts. L (t, p) i = Some (key, val, ts) \<longrightarrow>
     clean t \<and> i < 2 ^ 63 \<and> length key < 2 ^ 16 \<and> length val < 2 ^ 32)"

definition inLogs :: "logs \<Rightarrow> bytes \<Rightarrow> bytes \<Rightarrow> bool" where
  "inLogs L k v \<longleftrightarrow> (\<exists>t p i e. L (t, p) i = Some e \<and> k = makeMessageKey t p (word_of_nat i) \<and>
     v = messageData (entryMsg t p i e))"

definition logReads :: "reads \<Rightarrow> logs \<Rightarrow> bool" where
  "logReads g L \<longleftrightarrow> wfLogs L \<and>
     (\<forall>u k. prefix (lit ''stream:msg:'') k \<longrightarrow>
        (\<forall>v. inLogs L k v \<longrightarrow> g u k = Inr v) \<and> ((\<nexists>v. inLogs L k v) \<longrightarrow> g u k = Inl BadgerErrKeyNotFound))"

lemma messageKey_prefix [simp]: "prefix (lit ''stream:msg:'') (makeMessageKey t p i)"
  by (simp add: makeMessageKey_def)

lemma wfLogsD: "wfLogs L \<Longrightarrow> L (t, p) i = Some e \<Longrightarrow> clean t \<and> i < 2 ^ 63"
  unfolding wfLogs_def by (cases e) blast

lemma inLogs_key:
  assumes "\<And>t p i e. L (t, p) i = Some e \<Longrightarrow> clean t \<and> i < 2 ^ 63" and "clean t" and "i < 2 ^ 63"
  shows "inLogs L (makeMessageKey t p (word_of_nat i)) v \<longleftrightarrow>
    (\<exists>e. L (t, p) i = Some e \<and> v = messageData (entryMsg t p i e))"
  using assms by (fastforce simp: inLogs_def streamKey_inj)

text \<open>Writes over a read function.\<close>

definition layered :: "(bytes \<times> bytes) list \<Rightarrow> reads \<Rightarrow> reads" where
  "layered kvs g = (\<lambda>u k. case map_of kvs k of Some v \<Rightarrow> Inr v | None \<Rightarrow> g u k)"

lemma layered_perm:
  assumes "mset kvs = mset kvs'" and "distinct (map fst kvs)"
  shows "layered kvs = layered kvs'"
proof -
  have "mset (map fst kvs) = mset (map fst kvs')" using assms(1) by simp
  with assms(2) have "distinct (map fst kvs')" by (metis mset_eq_imp_distinct_iff)
  then have "map_of kvs = map_of kvs'"
    using assms map_of_inject_set mset_eq_setD by blast
  then show ?thesis by (intro ext) (simp add: layered_def)
qed

lemma fold_gput:
  "distinct (map fst kvs) \<Longrightarrow> fold (\<lambda>(k, v). gput k v) kvs g = layered kvs g"
proof (induction kvs arbitrary: g)
  case (Cons kv kvs)
  obtain k v where kv: "kv = (k, v)" by fastforce
  with Cons.prems have "map_of kvs k = None" by (simp add: map_of_eq_None_iff)
  then have "layered kvs (gput k v g) = layered ((k, v) # kvs) g"
    by (auto simp: layered_def gput_def fun_eq_iff split: option.splits)
  with Cons show ?case by (simp add: kv)
qed (simp add: layered_def)

section \<open>What the storage represents\<close>

definition msgKey :: "'v Message \<Rightarrow> bytes" where
  "msgKey m = makeMessageKey (mTopic m) (mPartition m) (mOffset m)"

definition buffered :: "('db, 'v) StreamStorage \<Rightarrow> 'v Message list" where
  "buffered s = concat (map snd (writeBuffer s))"

definition bufferKVs :: "('v \<Rightarrow> bytes) \<Rightarrow> ('db, 'v) StreamStorage \<Rightarrow> (bytes \<times> bytes) list" where
  "bufferKVs load s = map (\<lambda>m. (msgKey m, messageData (loaded load m))) (buffered s)"

text \<open>\<open>N\<close> gives the next offset of each partition.  The stored offsets that a counter could start from
  are never written.\<close>

definition counterOK :: "('db, 'v) StreamStorage \<Rightarrow> (gostring \<times> int \<Rightarrow> nat) \<Rightarrow> gostring \<Rightarrow> int \<Rightarrow> bool" where
  "counterOK s N t p \<longleftrightarrow>
     (case partitionOffsets s (partKey t p) of None \<Rightarrow> N (t, p) = 0 | Some n \<Rightarrow> n + 1 = word_of_nat (N (t, p)))"

definition noOffsets :: "reads \<Rightarrow> bool" where
  "noOffsets g \<longleftrightarrow> (\<forall>u t p. g u (makeOffsetKey t p) = Inl BadgerErrKeyNotFound)"

definition streamRep ::
  "('db, 'txn) badger \<Rightarrow> ('v \<Rightarrow> bytes) \<Rightarrow> ('db, 'v) StreamStorage \<Rightarrow> logs \<Rightarrow> (gostring \<times> int \<Rightarrow> nat) \<Rightarrow> bool" where
  "streamRep B load s L N \<longleftrightarrow>
     logReads (layered (bufferKVs load s) (dbReads B (sdb s))) L \<and> distinct (map msgKey (buffered s)) \<and>
     noOffsets (dbReads B (sdb s)) \<and> (\<forall>t p. clean t \<longrightarrow> counterOK s N t p) \<and>
     (\<forall>tp i. N tp \<le> i \<longrightarrow> L tp i = None)"

lemma fst_bufferKVs: "map fst (bufferKVs load s) = map msgKey (buffered s)"
  by (simp add: bufferKVs_def comp_def)

lemma partKey_inj: "clean t \<Longrightarrow> clean t' \<Longrightarrow> partKey t p = partKey t' p' \<longleftrightarrow> t = t' \<and> p = p'"
  by (simp add: partKey_def colon split_colon inj_lit)

text \<open>A message added to the buffer of its partition is added to the buffered messages.\<close>

lemma mset_buffer_update:
  "mset (concat (map snd (AList.update k ((case map_of al k of None \<Rightarrow> [] | Some ms \<Rightarrow> ms) @ [m]) al))) =
     mset (concat (map snd al)) + {#m#}"
  by (induction al) auto

lemma mset_buffered:
  "mset (buffered (s\<lparr>partitionOffsets := po, writeBuffer := AList.update pk (bufferOf s pk @ [m]) (writeBuffer s)\<rparr>)) =
     mset (buffered s) + {#m#}"
  using mset_buffer_update [of pk "writeBuffer s" m] by (simp add: buffered_def bufferOf_def)

section \<open>Appending\<close>

text \<open>Adding the next entry of a partition, as a write over the reads.\<close>

definition appendLog :: "logs \<Rightarrow> gostring \<Rightarrow> int \<Rightarrow> nat \<Rightarrow> gostring \<times> bytes \<times> int64 \<Rightarrow> logs" where
  "appendLog L t p i e = L((t, p) := (L (t, p))(i \<mapsto> e))"

lemma inLogs_append:
  assumes "wfLogs L" and "clean t" and "i < 2 ^ 63"
  shows "inLogs (appendLog L t p i e) k v \<longleftrightarrow>
    (if k = makeMessageKey t p (word_of_nat i) then v = messageData (entryMsg t p i e) else inLogs L k v)"
proof (cases "k = makeMessageKey t p (word_of_nat i)")
  case True
  have "clean t' \<and> j < 2 ^ 63" if "appendLog L t p i e (t', p') j = Some e'" for t' p' j e'
    using that assms wfLogsD [OF assms(1)] by (auto simp: appendLog_def split: if_splits)
  from inLogs_key [of "appendLog L t p i e", OF this assms(2,3)] have
    "inLogs (appendLog L t p i e) k v \<longleftrightarrow> (\<exists>e'. appendLog L t p i e (t, p) i = Some e' \<and> v = messageData (entryMsg t p i e'))"
    by (simp only: True)
  then show ?thesis by (simp add: True appendLog_def)
next
  case False
  then have "appendLog L t p i e (t', p') j = Some e' \<and> k = makeMessageKey t' p' (word_of_nat j) \<longleftrightarrow>
      L (t', p') j = Some e' \<and> k = makeMessageKey t' p' (word_of_nat j)" for t' p' j e'
    by (auto simp: appendLog_def)
  then have "inLogs (appendLog L t p i e) k v \<longleftrightarrow> inLogs L k v"
    unfolding inLogs_def by (simp only: conj_assoc [symmetric])
  with False show ?thesis by simp
qed

lemma logReads_append:
  assumes "logReads g L" and "clean t" and "i < 2 ^ 63" and "length key < 2 ^ 16" and "length val < 2 ^ 32"
  shows "logReads (gput (makeMessageKey t p (word_of_nat i)) (messageData (entryMsg t p i (key, val, ts))) g)
    (appendLog L t p i (key, val, ts))"
proof -
  have wf: "wfLogs L" using assms(1) by (simp add: logReads_def)
  then have "wfLogs (appendLog L t p i (key, val, ts))"
    using assms(2-5) unfolding wfLogs_def appendLog_def by simp
  moreover have "k = makeMessageKey t p (word_of_nat i) \<or> (\<forall>v. inLogs (appendLog L t p i (key, val, ts)) k v = inLogs L k v)" for k
    using inLogs_append [OF wf assms(2,3)] by simp
  moreover have "inLogs (appendLog L t p i (key, val, ts)) (makeMessageKey t p (word_of_nat i)) v \<longleftrightarrow>
      v = messageData (entryMsg t p i (key, val, ts))" for v
    using inLogs_append [OF wf assms(2,3)] by simp
  ultimately show ?thesis
    using assms(1) unfolding logReads_def gput_def by (metis (no_types, lifting))
qed

lemma layered_snoc:
  "mset kvs' = mset kvs + {#(k, v)#} \<Longrightarrow> distinct (map fst kvs') \<Longrightarrow> layered kvs' g = gput k v (layered kvs g)"
proof -
  assume *: "mset kvs' = mset kvs + {#(k, v)#}" "distinct (map fst kvs')"
  then have "mset kvs' = mset ((k, v) # kvs)" by simp
  from layered_perm [OF this *(2)] show ?thesis
    by (auto simp: layered_def gput_def fun_eq_iff)
qed

context badger_store
begin

lemma getPartitionOffset_rep:
  assumes "streamRep B load s L N" and "clean t"
  obtains n s1 where "getPartitionOffset B now s t p = Some (s1, n)" "n + 1 = word_of_nat (N (t, p))"
    "sdb s1 = sdb s" "writeBuffer s1 = writeBuffer s"
    "partitionOffsets s1 = (partitionOffsets s)(partKey t p \<mapsto> n)" "flushers s1 = flushers s"
proof (cases "partitionOffsets s (partKey t p)")
  case (Some n)
  with assms have "n + 1 = word_of_nat (N (t, p))"
    by (auto simp: streamRep_def counterOK_def split: option.splits dest!: spec [of _ t] spec [of _ p])
  with Some that [of s n] show ?thesis by (simp add: getPartitionOffset_def map_upd_triv)
next
  case None
  with assms have "N (t, p) = 0"
    by (auto simp: streamRep_def counterOK_def split: option.splits dest!: spec [of _ t] spec [of _ p])
  moreover have "storedOffset B now (sdb s) t p = Some (- 1)"
    using assms(1) by (simp add: streamRep_def noOffsets_def storedOffset_def View_def dbReads_def dbGet_def)
  ultimately show ?thesis
    using None that [of "s\<lparr>partitionOffsets := (partitionOffsets s)(partKey t p \<mapsto> - 1)\<rparr>" "- 1"]
    by (simp add: getPartitionOffset_def Let_def)
qed

text \<open>Appending gives the message the next offset of its partition.\<close>

lemma bufferMessage_rep:
  assumes rep: "streamRep B (seLoad E) s L N" and "clean t" and N: "N (t, p) < 2 ^ 63"
    and len: "length key < 2 ^ 16" "length (seLoad E val) < 2 ^ 32"
  shows "\<exists>s'. bufferMessage B E s t p key val = Some (s', word_of_nat (N (t, p))) \<and>
    streamRep B (seLoad E) s' (appendLog L t p (N (t, p)) (key, seLoad E val, UnixMilli (seNow E)))
      (N((t, p) := N (t, p) + 1)) \<and> sdb s' = sdb s \<and> flushers s' = flushers s"
proof -
  let ?i = "N (t, p)" and ?e = "(key, seLoad E val, UnixMilli (seNow E))" and ?k = "makeMessageKey t p (word_of_nat (N (t, p)))"
  obtain n s1 where s1: "getPartitionOffset B (seNow E) s t p = Some (s1, n)" "n + 1 = word_of_nat ?i"
    "sdb s1 = sdb s" "writeBuffer s1 = writeBuffer s"
    "partitionOffsets s1 = (partitionOffsets s)(partKey t p \<mapsto> n)" "flushers s1 = flushers s"
    using getPartitionOffset_rep [OF rep \<open>clean t\<close>] by metis
  define m where "m = \<lparr>mTopic = t, mPartition = p, mOffset = word_of_nat ?i, mKey = key, mValue = val,
    mTimestamp = UnixMilli (seNow E)\<rparr>"
  define s' where "s' = s1\<lparr>partitionOffsets := (partitionOffsets s1)(partKey t p \<mapsto> word_of_nat ?i),
    writeBuffer := AList.update (partKey t p) (bufferOf s1 (partKey t p) @ [m]) (writeBuffer s1)\<rparr>"
  have run: "bufferMessage B E s t p key val = Some (s', word_of_nat ?i)"
    using s1(1,2) by (simp add: bufferMessage_def s'_def m_def Let_def)
  have buf: "mset (buffered s') = mset (buffered s) + {#m#}"
    using mset_buffered [where s = s1 and pk = "partKey t p" and m = m] s1(4) by (simp add: s'_def buffered_def)
  then have kvs: "mset (bufferKVs (seLoad E) s') = mset (bufferKVs (seLoad E) s) + {#(?k, messageData (entryMsg t p ?i ?e))#}"
    by (simp add: bufferKVs_def m_def msgKey_def loaded_def entryMsg_def)
  have wf: "wfLogs L" and reads: "logReads (layered (bufferKVs (seLoad E) s) (dbReads B (sdb s))) L"
    using rep by (simp_all add: streamRep_def logReads_def)
  have "?k \<notin> set (map msgKey (buffered s))"
  proof
    assume "?k \<in> set (map msgKey (buffered s))"
    then have "map_of (bufferKVs (seLoad E) s) ?k \<noteq> None"
      by (simp add: map_of_eq_None_iff bufferKVs_def image_image)
    then have "layered (bufferKVs (seLoad E) s) (dbReads B (sdb s)) 0 ?k \<noteq> Inl BadgerErrKeyNotFound"
      by (auto simp: layered_def)
    then obtain v where "inLogs L ?k v" using reads messageKey_prefix unfolding logReads_def by blast
    then have "L (t, p) ?i \<noteq> None"
      using inLogs_key [of L, OF wfLogsD [OF wf] \<open>clean t\<close> N] by auto
    then show False using rep by (auto simp: streamRep_def)
  qed
  then have "distinct (map msgKey (m # buffered s))"
    using rep by (simp add: streamRep_def m_def msgKey_def)
  then have dist: "distinct (map msgKey (buffered s'))"
    using mset_eq_imp_distinct_iff [of "map msgKey (m # buffered s)" "map msgKey (buffered s')"] buf by simp
  have "logReads (layered (bufferKVs (seLoad E) s') (dbReads B (sdb s'))) (appendLog L t p ?i ?e)"
    using logReads_append [OF reads \<open>clean t\<close> N len] layered_snoc [OF kvs] dist s1(3)
    by (simp add: fst_bufferKVs s'_def)
  moreover have "counterOK s' (N((t, p) := ?i + 1)) t' p'" if "clean t'" for t' p'
  proof (cases "(t', p') = (t, p)")
    case False
    with that \<open>clean t\<close> have "partKey t' p' \<noteq> partKey t p" by (simp add: partKey_inj)
    moreover have "counterOK s N t' p'" using that rep by (simp add: streamRep_def)
    moreover have "(N((t, p) := ?i + 1)) (t', p') = N (t', p')" using False by simp
    ultimately show ?thesis unfolding counterOK_def s'_def by (simp only: s1(5)) simp
  qed (simp add: counterOK_def s'_def)
  moreover have "noOffsets (dbReads B (sdb s'))" "\<forall>tp i. (N((t, p) := ?i + 1)) tp \<le> i \<longrightarrow> appendLog L t p ?i ?e tp i = None"
    using rep s1(3) by (auto simp: streamRep_def s'_def appendLog_def)
  ultimately have "streamRep B (seLoad E) s' (appendLog L t p ?i ?e) (N((t, p) := ?i + 1))"
    using dist by (simp add: streamRep_def)
  with run s1(3,6) show ?thesis by (auto simp: s'_def)
qed

section \<open>Flushing\<close>

lemma flushLoop_reads:
  "plain_txn B d t \<Longrightarrow> \<exists>r. flushLoop B now msgs t = Some r \<and>
     (case r of Inl e \<Rightarrow> \<exists>b. e = SBadger b
      | Inr (t', _) \<Rightarrow> plain_txn B d t' \<and>
          txnReads B t' = fold (\<lambda>(k, v). gput k v) (map (\<lambda>m. (msgKey m, messageData m)) msgs) (txnReads B t))"
proof (induction msgs arbitrary: t)
  case (Cons m msgs)
  show ?case
  proof (cases "txnSetEntry B t now (msgKey m) (messageData m) 0")
    case (Inl b)
    then show ?thesis
      by (simp add: msgKey_def encodeMessage_eq streamCall_def checked_def Let_def)
  next
    case (Inr t')
    with Cons.prems have "plain_txn B d t'" by (blast intro: plain_set)
    from Cons.IH [OF this] obtain r where r: "flushLoop B now msgs t' = Some r"
      "case r of Inl e \<Rightarrow> \<exists>b. e = SBadger b
       | Inr (t'', _) \<Rightarrow> plain_txn B d t'' \<and>
           txnReads B t'' = fold (\<lambda>(k, v). gput k v) (map (\<lambda>m. (msgKey m, messageData m)) msgs) (txnReads B t')"
      by blast
    have "flushLoop B now (m # msgs) t = Some r"
      using Inr r(1) by (simp add: msgKey_def encodeMessage_eq streamCall_def checked_def Let_def)
    with r(2) reads_set [OF Inr] show ?thesis by (cases r) auto
  qed
qed simp

lemma sUpdate_plain:
  assumes "fn (NewTransaction B (sdb s)) = Some r"
    and "\<And>t a. r = Inr (t, a) \<Longrightarrow> plain_txn B (sdb s) t"
  shows "\<exists>s' r'. sUpdate B s fn = Some (s', r') \<and> s' = s\<lparr>sdb := sdb s'\<rparr> \<and>
    (case r' of
       Inl e \<Rightarrow> sdb s' = sdb s \<and> (r = Inl e \<or> (\<exists>b. e = SBadger b))
     | Inr a \<Rightarrow> \<exists>t. r = Inr (t, a) \<and> dbReads B (sdb s') = txnReads B t)"
proof (cases r)
  case (Inl e)
  then show ?thesis using assms(1) by (auto simp: sUpdate_def UpdateP_def Update_def)
next
  case (Inr ta)
  then obtain t a where ta: "ta = (t, a)" "plain_txn B (sdb s) t" using assms(2) by fastforce
  show ?thesis
  proof (cases "txnCommit B (sdb s) t")
    case (Inl e)
    then show ?thesis using assms(1) Inr ta by (auto simp: sUpdate_def UpdateP_def Update_def)
  next
    case comm: (Inr d')
    from reads_commit [OF ta(2) comm] show ?thesis
      using assms(1) Inr ta comm by (auto simp: sUpdate_def UpdateP_def Update_def)
  qed
qed

lemma layered_other: "k \<notin> set (map fst kvs) \<Longrightarrow> layered kvs g u k = g u k"
  by (auto simp: layered_def map_of_eq_None_iff split: option.splits)
    (metis fst_conv image_eqI map_of_SomeD)

lemma offsetKey_not_message: "makeOffsetKey t p \<noteq> makeMessageKey t' p' i"
  by (simp add: makeOffsetKey_def makeMessageKey_def lit_def)

text \<open>A flush that succeeds moves the buffered messages into the database and changes nothing a reader
  could see; a flush that fails drops them.\<close>

lemma flushWrites_rep:
  assumes rep: "streamRep B (seLoad E) s L N" and visit: "\<And>b. mset (seVisitBuf E b) = mset b"
  shows "\<exists>s' r. flushWrites B E s = Some (s', r) \<and> writeBuffer s' = [] \<and> partitionOffsets s' = partitionOffsets s \<and>
    (case r of
       Inl e \<Rightarrow> sdb s' = sdb s \<and> (\<exists>b. e = SBadger b)
     | Inr _ \<Rightarrow> streamRep B (seLoad E) s' L N \<and> dbReads B (sdb s') = layered (bufferKVs (seLoad E) s) (dbReads B (sdb s)))"
proof (cases "writeBuffer s = []")
  case True
  then have "layered (bufferKVs (seLoad E) s) g = g" for g by (simp add: bufferKVs_def buffered_def layered_def)
  with True rep show ?thesis by (simp add: flushWrites_def)
next
  case False
  let ?msgs = "map (loaded (seLoad E)) (concat (map snd (seVisitBuf E (writeBuffer s))))"
  let ?kvs = "map (\<lambda>m. (msgKey m, messageData m)) ?msgs" and ?s0 = "s\<lparr>writeBuffer := []\<rparr>"
  have "mset (concat (map snd (seVisitBuf E (writeBuffer s)))) = mset (buffered s)"
    unfolding buffered_def mset_concat map_map [symmetric] sum_mset_sum_list [symmetric] mset_map visit ..
  then have "mset ?kvs = mset (bufferKVs (seLoad E) s)"
    unfolding bufferKVs_def mset_map
    by (simp add: image_mset.compositionality comp_def msgKey_def loaded_def)
  note same = this
  have "distinct (map fst (bufferKVs (seLoad E) s))" using rep by (simp add: streamRep_def fst_bufferKVs)
  moreover have "mset (map fst ?kvs) = mset (map fst (bufferKVs (seLoad E) s))"
    unfolding mset_map [of fst] same ..
  ultimately have dist: "distinct (map fst ?kvs)" by (rule mset_eq_imp_distinct_iff [THEN iffD2, rotated])
  from layered_perm [OF same this] have lay: "layered ?kvs = layered (bufferKVs (seLoad E) s)" .
  obtain r where r: "flushLoop B (seNow E) ?msgs (NewTransaction B (sdb ?s0)) = Some r"
    "case r of Inl e \<Rightarrow> \<exists>b. e = SBadger b
     | Inr (t', _) \<Rightarrow> plain_txn B (sdb ?s0) t' \<and> txnReads B t' = fold (\<lambda>(k, v). gput k v) ?kvs (dbReads B (sdb ?s0))"
    using flushLoop_reads [where now = "seNow E" and msgs = ?msgs, OF plain_begin [of B "sdb ?s0"]] unfolding reads_begin by blast
  obtain s' r' where s': "sUpdate B ?s0 (flushLoop B (seNow E) ?msgs) = Some (s', r')" "s' = ?s0\<lparr>sdb := sdb s'\<rparr>"
    "case r' of Inl e \<Rightarrow> sdb s' = sdb ?s0 \<and> (r = Inl e \<or> (\<exists>b. e = SBadger b))
     | Inr a \<Rightarrow> \<exists>t. r = Inr (t, a) \<and> dbReads B (sdb s') = txnReads B t"
    using sUpdate_plain [of "flushLoop B (seNow E) ?msgs" ?s0 r] r by fastforce
  have run: "flushWrites B E s = Some (s', r')" using s'(1) False by (simp add: flushWrites_def Let_def)
  have fields: "writeBuffer s' = []" "partitionOffsets s' = partitionOffsets s"
    by (subst s'(2), simp)+
  show ?thesis
  proof (cases r')
    case (Inl e)
    with s'(3) r(2) have "sdb s' = sdb s \<and> (\<exists>b. e = SBadger b)" by auto
    with run fields Inl show ?thesis by simp
  next
    case (Inr u)
    with s'(3) obtain tx where "r = Inr (tx, u)" "dbReads B (sdb s') = txnReads B tx" by auto
    with r(2) have "dbReads B (sdb s') = fold (\<lambda>(k, v). gput k v) ?kvs (dbReads B (sdb ?s0))" by simp
    then have db: "dbReads B (sdb s') = layered (bufferKVs (seLoad E) s) (dbReads B (sdb s))"
      unfolding fold_gput [OF dist] lay by simp
    have "noOffsets (dbReads B (sdb s'))"
      unfolding noOffsets_def
    proof (intro allI)
      fix u t p
      have "makeOffsetKey t p \<notin> set (map fst (bufferKVs (seLoad E) s))"
        by (auto simp: bufferKVs_def msgKey_def offsetKey_not_message)
      from layered_other [OF this] rep show "dbReads B (sdb s') u (makeOffsetKey t p) = Inl BadgerErrKeyNotFound"
        by (simp add: db streamRep_def noOffsets_def)
    qed
    moreover have "buffered s' = []" "layered (bufferKVs (seLoad E) s') g = g" for g
      by (simp_all add: buffered_def bufferKVs_def fields layered_def)
    ultimately have "streamRep B (seLoad E) s' L N"
      using rep by (simp add: streamRep_def db counterOK_def fields)
    with run fields Inr db show ?thesis by simp
  qed
qed

end

section \<open>Fetching\<close>

text \<open>The offsets of a partition that hold a message, from \<open>start\<close> on, and what a reader gets of one.\<close>

definition offsetsFrom :: "logs \<Rightarrow> (gostring \<times> int \<Rightarrow> nat) \<Rightarrow> gostring \<Rightarrow> int \<Rightarrow> int \<Rightarrow> nat list" where
  "offsetsFrom L N t p start = filter (\<lambda>i. L (t, p) i \<noteq> None \<and> start \<le> int i) [0..<N (t, p)]"

definition fetched :: "logs \<Rightarrow> gostring \<Rightarrow> int \<Rightarrow> nat \<Rightarrow> bytes Message" where
  "fetched L t p i = entryMsg [] 0 i (the (L (t, p) i))"

definition scanItem :: "logs \<Rightarrow> gostring \<Rightarrow> int \<Rightarrow> nat \<Rightarrow> bytes \<times> (badger_err + bytes)" where
  "scanItem L t p i = (makeMessageKey t p (word_of_nat i), Inr (messageData (entryMsg t p i (the (L (t, p) i)))))"

lemma logReads_get:
  assumes "logReads g L" and "L (t, p) i = Some e"
  shows "g u (makeMessageKey t p (word_of_nat i)) = Inr (messageData (entryMsg t p i e))"
  using assms messageKey_prefix unfolding logReads_def inLogs_def by blast

lemma scan_keys:
  assumes "logReads g L" and "clean t"
  shows "{k. prefix (makeMessagePrefix t p) k \<and> g u k \<noteq> Inl BadgerErrKeyNotFound} =
    (\<lambda>i. makeMessageKey t p (word_of_nat i)) ` {i. L (t, p) i \<noteq> None}" (is "?S = ?T")
proof
  have pre: "prefix (lit ''stream:msg:'') (makeMessagePrefix t p)" by (simp add: makeMessagePrefix_def)
  show "?S \<subseteq> ?T"
  proof
    fix k assume k: "k \<in> ?S"
    then have "prefix (lit ''stream:msg:'') k" using pre prefix_order.trans by blast
    with k assms(1) obtain v where "inLogs L k v" unfolding logReads_def by blast
    then obtain t' p' i e where i: "L (t', p') i = Some e" "k = makeMessageKey t' p' (word_of_nat i)"
      unfolding inLogs_def by blast
    then have wf: "clean t' \<and> i < 2 ^ 63" using assms(1) wfLogsD unfolding logReads_def by blast
    obtain r where "k = makeMessagePrefix t p @ r" using k by (auto simp: prefix_def)
    with i(2) wf have "makeMessagePrefix t p @ r = makeMessagePrefix t' p' @ lit (digs 20 i)"
      by (simp add: messageKey_offset)
    with wf assms(2) have "t' = t \<and> p' = p" by (simp only: messagePrefix_inj)
    with i show "k \<in> ?T" by (intro image_eqI [of _ _ i]) (simp_all del: not_None_eq)
  qed
  show "?T \<subseteq> ?S"
  proof
    fix k assume "k \<in> ?T"
    then obtain i e where "L (t, p) i = Some e" "k = makeMessageKey t p (word_of_nat i)" by auto
    moreover from this have "prefix (makeMessagePrefix t p) k"
      by (simp add: makeMessageKey_def makeMessagePrefix_def)
    ultimately show "k \<in> ?S" using logReads_get [OF assms(1)] by auto
  qed
qed

lemma offsets_small: "wfLogs L \<Longrightarrow> i \<in> set (offsetsFrom L N t p start) \<Longrightarrow> i < 2 ^ 63"
  using wfLogsD by (fastforce simp: offsetsFrom_def)

lemma sorted_keys:
  assumes "wfLogs L"
  shows "sorted_wrt (<) (map (\<lambda>i. makeMessageKey t p (word_of_nat i)) (offsetsFrom L N t p start))"
proof -
  have "sorted_wrt (<) (offsetsFrom L N t p start)"
    by (simp add: offsetsFrom_def sorted_wrt_filter)
  then show ?thesis
    unfolding sorted_wrt_map
    by (rule sorted_wrt_mono_rel [rotated]) (rule streamKey_less, assumption, rule offsets_small [OF assms])
qed

context badger_store
begin

text \<open>A scan of a partition visits its messages in the order of their offsets.\<close>

lemma scan_items:
  assumes reads: "logReads (dbReads B d) L" and "clean t" and N: "\<And>i. N (t, p) \<le> i \<Longrightarrow> L (t, p) i = None"
  shows "txnIterate B (NewTransaction B d) now (makeMessagePrefix t p) = map (scanItem L t p) (offsetsFrom L N t p 0)"
proof -
  let ?items = "txnIterate B (NewTransaction B d) now (makeMessagePrefix t p)"
  have wf: "wfLogs L" using reads by (simp add: logReads_def)
  have "set (map fst ?items) = {k. prefix (makeMessagePrefix t p) k \<and> dbReads B d now k \<noteq> Inl BadgerErrKeyNotFound}"
    by (force simp: iterate_set dbReads_def dbGet_def)
  also have "\<dots> = (\<lambda>i. makeMessageKey t p (word_of_nat i)) ` {i. L (t, p) i \<noteq> None}"
    by (rule scan_keys [OF reads \<open>clean t\<close>])
  also have "{i. L (t, p) i \<noteq> None} = set (offsetsFrom L N t p 0)"
    using N by (force simp: offsetsFrom_def not_le [symmetric])
  finally have "map fst ?items = map (\<lambda>i. makeMessageKey t p (word_of_nat i)) (offsetsFrom L N t p 0)"
    by (intro strict_sorted_equal [OF sorted_keys [OF wf] iterate_sorted]) simp
  moreover have "?items = map (\<lambda>k. (k, dbReads B d now k)) (map fst ?items)"
    by (auto simp: mem_iterate dbReads_def dbGet_def intro!: map_idI [symmetric])
  ultimately have "?items = map (\<lambda>i. (makeMessageKey t p (word_of_nat i), dbReads B d now (makeMessageKey t p (word_of_nat i))))
      (offsetsFrom L N t p 0)"
    by (simp add: comp_def)
  also have "\<dots> = map (scanItem L t p) (offsetsFrom L N t p 0)"
    using logReads_get [OF reads] by (auto simp: scanItem_def offsetsFrom_def)
  finally show ?thesis .
qed

end

lemma fetchLoop_items:
  assumes "wfLogs L"
  shows "\<forall>i\<in>set is. L (t, p) i \<noteq> None \<Longrightarrow>
    fetchLoop n (map (scanItem L t p) is) acc = Some (Inr (acc @ map (fetched L t p) (take n is)))"
proof (induction n "map (scanItem L t p) is" acc arbitrary: "is" rule: fetchLoop.induct)
  case (3 n k r items msgs)
  then obtain i is' where "is": "is = i # is'" by (cases "is") auto
  with 3(3) obtain key val ts where e: "L (t, p) i = Some (key, val, ts)" by auto
  then have "length key < 2 ^ 16" "length val < 2 ^ 32" using assms unfolding wfLogs_def by blast+
  then have dec: "decodeMessage (messageData (entryMsg t p i (the (L (t, p) i)))) = Some (Inr (fetched L t p i))"
    by (subst decode_messageData) (simp_all add: e entryMsg_def fetched_def)
  show ?case
    using 3 "is" dec by (simp add: scanItem_def streamCall_def checked_def streamFormat_def)
qed simp_all

text \<open>Seeking in a list sorted by key is a filter.\<close>

lemma dropWhile_scan:
  assumes "wfLogs L"
  shows "dropWhile (\<lambda>(k, _). k < makeMessageKey t p start) (map (scanItem L t p) (offsetsFrom L N t p 0)) =
    map (scanItem L t p) (offsetsFrom L N t p (sint start))"
proof -
  have below: "(case scanItem L t p i of (k, _) \<Rightarrow> k < makeMessageKey t p start) \<longleftrightarrow> int i < sint start"
    if "i \<in> set (offsetsFrom L N t p 0)" for i
    using offsets_small [OF assms that] seek_below [of i t p start] by (simp add: scanItem_def)
  have "sorted_wrt (<) is \<Longrightarrow> dropWhile (\<lambda>i. int i < s) is = filter (\<lambda>i. s \<le> int i) is" for "is" :: "nat list" and s
  proof (induction "is")
    case (Cons i "is")
    then have "\<not> int i < s \<Longrightarrow> filter (\<lambda>i. s \<le> int i) is = is" by (intro filter_True) auto
    with Cons show ?case by auto
  qed simp
  moreover have "sorted_wrt (<) (offsetsFrom L N t p 0)" by (simp add: offsetsFrom_def sorted_wrt_filter)
  moreover have "dropWhile (\<lambda>i. case scanItem L t p i of (k, _) \<Rightarrow> k < makeMessageKey t p start) (offsetsFrom L N t p 0) =
      dropWhile (\<lambda>i. int i < sint start) (offsetsFrom L N t p 0)"
    using below by (intro dropWhile_cong) auto
  ultimately show ?thesis
    by (simp add: dropWhile_map comp_def) (simp add: offsetsFrom_def conj_commute)
qed

context badger_store
begin

text \<open>The messages from an offset on, in order, at most \<open>maxCount\<close> of them.\<close>

lemma FetchMessages_rep:
  assumes rep: "streamRep B (seLoad E) s L N" and visit: "\<And>b. mset (seVisitBuf E b) = mset b"
    and flush: "flushWrites B E s = Some (s', Inr ())" and "clean t" and "0 \<le> maxCount"
  shows "FetchMessages B E s t p start maxCount =
      Some (s', Inr (map (fetched L t p) (take (nat maxCount) (offsetsFrom L N t p (sint start))))) \<and>
    streamRep B (seLoad E) s' L N \<and> writeBuffer s' = []"
proof -
  have rep': "streamRep B (seLoad E) s' L N" "writeBuffer s' = []"
    using flushWrites_rep [OF rep visit] flush by auto
  then have reads: "logReads (dbReads B (sdb s')) L"
    by (simp add: streamRep_def bufferKVs_def buffered_def layered_def)
  then have wf: "wfLogs L" by (simp add: logReads_def)
  have N: "L (t, p) i = None" if "N (t, p) \<le> i" for i using rep that by (simp add: streamRep_def)
  have "\<forall>i\<in>set (offsetsFrom L N t p (sint start)). L (t, p) i \<noteq> None" by (simp add: offsetsFrom_def)
  from fetchLoop_items [OF wf this, of "nat maxCount" "[]"]
  have "View B (sdb s') (\<lambda>txn. let pre = makeMessagePrefix t p; seekKey = makeMessageKey t p start
      in fetchLoop (nat maxCount) (dropWhile (\<lambda>(k, _). k < seekKey) (txnIterate B txn (seNow E) pre)) []) =
    Some (Inr (map (fetched L t p) (take (nat maxCount) (offsetsFrom L N t p (sint start)))))"
    by (simp add: View_def Let_def scan_items [OF reads \<open>clean t\<close> N] dropWhile_scan [OF wf])
  with flush rep' \<open>0 \<le> maxCount\<close> show ?thesis by (simp add: FetchMessages_def)
qed

end

end
