(* ===== verification/StreamProps.thy ===== *)
theory StreamProps
  imports StreamLog
begin

text \<open>
  What the streams promise.  The locale \<open>partition_log\<close> is the interface between the streams and their
  storage: appending gives the next offset of the partition, a fetch after a successful flush returns the
  messages from an offset on in order.  From it alone follows what a consumer that polls and advances
  sees: the messages of its partition, each once, in the order they were published.  A \<open>sublocale\<close>
  discharges the laws for the Badger-backed storage.
\<close>

section \<open>The interface\<close>

definition fairEnv :: "('v \<Rightarrow> bytes) \<Rightarrow> 'v StreamEnv \<Rightarrow> bool" where
  "fairEnv load E \<longleftrightarrow> seLoad E = load \<and> (\<forall>b. mset (seVisitBuf E b) = mset b) \<and>
     (\<forall>ps. mset (seVisitParts E ps) = mset ps) \<and> (\<forall>is. mset (seVisitIds E is) = mset is)"

definition fits :: "('v \<Rightarrow> bytes) \<Rightarrow> gostring \<Rightarrow> gostring \<Rightarrow> 'v \<Rightarrow> bool" where
  "fits load t key val \<longleftrightarrow> clean t \<and> length key < 2 ^ 16 \<and> length (load val) < 2 ^ 32"

text \<open>A consumer of partition \<open>(t, p)\<close> amid other activity, in runs without a failing flush.  The state is the
  storage, the offset the consumer continues at, what was published to the partition so far and what the
  consumer got.\<close>

inductive consumer_step for append flush fetch load t p where
  cs_append: "append E s t' p' key val = Some (s', i) \<Longrightarrow> fairEnv load E \<Longrightarrow> fits load t' key val \<Longrightarrow>
    consumer_step append flush fetch load t p (s, pos, pub, got)
      (s', pos, (if t' = t \<and> p' = p then pub @ [(key, load val)] else pub), got)"
| cs_flush: "flush E s = Some (s', Inr ()) \<Longrightarrow> fairEnv load E \<Longrightarrow>
    consumer_step append flush fetch load t p (s, pos, pub, got) (s', pos, pub, got)"
| cs_poll: "fetch E s t p pos n = Some (s', Inr ms) \<Longrightarrow> flush E s = Some (s'', Inr ()) \<Longrightarrow> fairEnv load E \<Longrightarrow> 0 \<le> n \<Longrightarrow>
    consumer_step append flush fetch load t p (s, pos, pub, got)
      (s', if ms = [] then pos else mOffset (last ms) + 1, pub, got @ ms)"

locale partition_log =
  fixes append :: "'v StreamEnv \<Rightarrow> 's \<Rightarrow> gostring \<Rightarrow> int \<Rightarrow> gostring \<Rightarrow> 'v \<Rightarrow> ('s \<times> int64) option"
    and flush :: "'v StreamEnv \<Rightarrow> 's \<Rightarrow> ('s \<times> (stream_err + unit)) option"
    and fetch :: "'v StreamEnv \<Rightarrow> 's \<Rightarrow> gostring \<Rightarrow> int \<Rightarrow> int64 \<Rightarrow> int \<Rightarrow> ('s \<times> (stream_err + bytes Message list)) option"
    and rep :: "('v \<Rightarrow> bytes) \<Rightarrow> 's \<Rightarrow> logs \<Rightarrow> (gostring \<times> int \<Rightarrow> nat) \<Rightarrow> bool"
  assumes append_next: "rep load s L N \<Longrightarrow> fairEnv load E \<Longrightarrow> fits load t key val \<Longrightarrow> N (t, p) < 2 ^ 63 \<Longrightarrow>
      \<exists>s'. append E s t p key val = Some (s', word_of_nat (N (t, p))) \<and>
        rep load s' (appendLog L t p (N (t, p)) (key, load val, UnixMilli (seNow E))) (N((t, p) := N (t, p) + 1))"
    and flush_rep: "rep load s L N \<Longrightarrow> fairEnv load E \<Longrightarrow> flush E s = Some (s', Inr ()) \<Longrightarrow> rep load s' L N"
    and fetch_from: "rep load s L N \<Longrightarrow> fairEnv load E \<Longrightarrow> flush E s = Some (s', Inr ()) \<Longrightarrow> clean t \<Longrightarrow> 0 \<le> n \<Longrightarrow>
      fetch E s t p start n =
        Some (s', Inr (map (fetched L t p) (take (nat n) (offsetsFrom L N t p (sint start)))))"
begin

text \<open>What was just published is what a fetch from its offset returns.\<close>

lemma publish_fetch:
  assumes rep: "rep load s L N" and E: "fairEnv load E" "fairEnv load E'" and fit: "fits load t key val" "N (t, p) < 2 ^ 63"
    and app: "append E s t p key val = Some (s1, i)" and fl: "flush E' s1 = Some (s2, Inr ())" and n: "0 < n"
  shows "\<exists>m. fetch E' s1 t p i n = Some (s2, Inr [m]) \<and> mOffset m = i \<and> mKey m = key \<and> mValue m = load val"
proof -
  let ?L = "appendLog L t p (N (t, p)) (key, load val, UnixMilli (seNow E))" and ?N = "N((t, p) := N (t, p) + 1)"
  have i: "i = word_of_nat (N (t, p))" and rep1: "rep load s1 ?L ?N"
    using append_next [OF rep E(1) fit] app by auto
  have "offsetsFrom ?L ?N t p (sint i) = [N (t, p)]"
    using fit(2) by (simp add: offsetsFrom_def i sint_offset appendLog_def filter_empty_conv)
  moreover have "clean t" using fit(1) by (simp add: fits_def)
  ultimately have "fetch E' s1 t p i n = Some (s2, Inr (map (fetched ?L t p) (take (nat n) [N (t, p)])))"
    using fetch_from [OF rep1 E(2) fl, of t n p i] n by simp
  with n show ?thesis by (simp add: fetched_def entryMsg_def appendLog_def i)
qed

definition consumerInv ::
  "('v \<Rightarrow> bytes) \<Rightarrow> gostring \<Rightarrow> int \<Rightarrow> nat \<Rightarrow> 's \<times> int64 \<times> (gostring \<times> bytes) list \<times> bytes Message list \<Rightarrow> bool" where
  "consumerInv load t p k = (\<lambda>(s, pos, pub, got). \<exists>L N.
     rep load s L N \<and> (\<forall>tp. N tp \<le> k) \<and> N (t, p) = length pub \<and> length got \<le> length pub \<and>
     (\<forall>i < length pub. map_option (\<lambda>(key, val, ts). (key, val)) (L (t, p) i) = Some (pub ! i)) \<and>
     pos = word_of_nat (length got) \<and> map (fetched L t p) [0..<length got] = got)"


text \<open>With no gap in the log, the offsets from one on are an interval, and what a poll returns ends before
  the offset it continues at.\<close>

lemma offsets_interval:
  assumes "\<forall>i < N (t, p). L (t, p) i \<noteq> None" and "m \<le> N (t, p)"
  shows "offsetsFrom L N t p (int m) = [m..<N (t, p)]"
proof -
  have "offsetsFrom L N t p (int m) = filter (\<lambda>i. m \<le> i) [0..<N (t, p)]"
    using assms(1) unfolding offsetsFrom_def by (intro filter_cong) auto
  also have "[0..<N (t, p)] = [0..<m] @ [m..<N (t, p)]"
    using assms(2) by (metis le_add_diff_inverse upt_add_eq_append zero_le)
  finally show ?thesis by simp
qed

lemma poll_continues:
  assumes "ms = map (fetched L t p) (take n [m..<N])" and "m \<le> N"
  shows "\<exists>m' \<le> N. m \<le> m' \<and> map (fetched L t p) [0..<m] @ ms = map (fetched L t p) [0..<m'] \<and>
    (if ms = [] then word_of_nat m else mOffset (last ms) + 1) = word_of_nat m'"
proof -
  let ?m' = "min (m + n) N"
  have "take n [m..<N] = [m..<?m']" by (cases "m + n \<le> N") (simp_all add: min_def)
  moreover have "[0..<m] @ [m..<?m'] = [0..<?m']"
    using assms(2) by (metis le_add1 min.boundedI le_add_diff_inverse upt_add_eq_append zero_le)
  moreover have "mOffset (last ms) + 1 = word_of_nat ?m'" if "ms \<noteq> []"
  proof -
    have "m < ?m'" using that assms(1) calculation(1) by auto
    then obtain l where "?m' = Suc l" "m \<le> l" by (cases ?m') auto
    then show ?thesis
      using assms(1) calculation(1) by (simp add: fetched_def entryMsg_def ac_simps split: prod.splits)
  qed
  moreover have "?m' = m" if "ms = []" using that assms calculation(1) by auto
  ultimately have "map (fetched L t p) [0..<m] @ ms = map (fetched L t p) [0..<?m']"
    "(if ms = [] then word_of_nat m else mOffset (last ms) + 1) = word_of_nat ?m'"
    by (simp_all only: assms(1) flip: map_append) auto
  with assms(2) show ?thesis by (intro exI [of _ ?m']) simp
qed

lemma fetched_append:
  "(t', p', i') \<noteq> (t, p, i) \<Longrightarrow> fetched (appendLog L t' p' i' e) t p i = fetched L t p i"
  "(t', p', i') \<noteq> (t, p, i) \<Longrightarrow> appendLog L t' p' i' e (t, p) i = L (t, p) i"
  by (auto simp: fetched_def appendLog_def)

lemma consumerInv_append:
  assumes inv: "consumerInv load t p k (s, pos, pub, got)" and k: "k < 2 ^ 63"
    and step: "append E s t' p' key val = Some (s', i)" and E: "fairEnv load E" and fit: "fits load t' key val"
  shows "consumerInv load t p (k + 1) (s', pos, (if t' = t \<and> p' = p then pub @ [(key, load val)] else pub), got)"
proof -
  obtain L N where rep: "rep load s L N" and N: "\<forall>tp. N tp \<le> k" "N (t, p) = length pub"
    and got: "length got \<le> length pub" "pos = word_of_nat (length got)" "map (fetched L t p) [0..<length got] = got"
    and L: "\<forall>i < length pub. map_option (\<lambda>(key, val, ts). (key, val)) (L (t, p) i) = Some (pub ! i)"
    using inv unfolding consumerInv_def by auto
  let ?n = "N (t', p')"
  let ?L = "appendLog L t' p' ?n (key, load val, UnixMilli (seNow E))" and ?N = "N((t', p') := ?n + 1)"
  have rep': "rep load s' ?L ?N"
  proof -
    have "?n < 2 ^ 63" using N(1) k le_less_trans by blast
    from append_next [OF rep E fit this] step show ?thesis by auto
  qed
  have old: "(t', p', ?n) \<noteq> (t, p, i)" if "i < length pub" for i using that N(2) by auto
  have "map (fetched ?L t p) [0..<length got] = got"
  proof -
    have "map (fetched ?L t p) [0..<length got] = map (fetched L t p) [0..<length got]"
      by (intro map_cong refl fetched_append(1) old) (use got(1) in simp)
    with got(3) show ?thesis by simp
  qed
  moreover have "map_option (\<lambda>(key, val, ts). (key, val)) (?L (t, p) i) =
      Some ((if t' = t \<and> p' = p then pub @ [(key, load val)] else pub) ! i)"
    if "i < length (if t' = t \<and> p' = p then pub @ [(key, load val)] else pub)" for i
  proof (cases "i < length pub")
    case True
    with L show ?thesis by (simp only: fetched_append(2) [OF old [OF True]]) (simp add: nth_append)
  next
    case False
    with that have "(t', p') = (t, p)" "i = length pub" by (auto split: if_splits)
    with N(2) show ?thesis by (simp add: appendLog_def)
  qed
  moreover have "\<forall>tp. ?N tp \<le> k + 1" using N(1) by (simp add: le_SucI)
  ultimately show ?thesis
    unfolding consumerInv_def prod.case using rep' N(2) got
    by (intro exI [of _ ?L] exI [of _ ?N] conjI) auto
qed

text \<open>What a poll returns, in terms of the log.\<close>

lemma consumerInv_polled:
  assumes inv: "consumerInv load t p k (s, pos, pub, got)" and k: "k < 2 ^ 63" and "clean t"
    and step: "fetch E s t p pos n = Some (s', Inr ms)" "flush E s = Some (s'', Inr ())" and E: "fairEnv load E" and n: "0 \<le> n"
  obtains L N where "rep load s' L N" "\<forall>tp. N tp \<le> k" "N (t, p) = length pub"
    "length got \<le> length pub" "pos = word_of_nat (length got)" "map (fetched L t p) [0..<length got] = got"
    "\<forall>i < length pub. map_option (\<lambda>(key, val, ts). (key, val)) (L (t, p) i) = Some (pub ! i)"
    "ms = map (fetched L t p) (take (nat n) [length got..<length pub])"
proof -
  obtain L N where rep: "rep load s L N" and N: "\<forall>tp. N tp \<le> k" "N (t, p) = length pub"
    and got: "length got \<le> length pub" "pos = word_of_nat (length got)" "map (fetched L t p) [0..<length got] = got"
    and L: "\<forall>i < length pub. map_option (\<lambda>(key, val, ts). (key, val)) (L (t, p) i) = Some (pub ! i)"
    using inv unfolding consumerInv_def by auto
  have "length got < 2 ^ 63" using N got(1) k by (metis le_less_trans)
  then have "sint pos = int (length got)" by (simp add: got(2) sint_offset)
  moreover have "\<forall>i < N (t, p). L (t, p) i \<noteq> None" using L N(2) by fastforce
  ultimately have off: "offsetsFrom L N t p (sint pos) = [length got..<length pub]"
    using offsets_interval [of N t p L "length got"] got(1) N(2) by simp
  have "s' = s''" "ms = map (fetched L t p) (take (nat n) [length got..<length pub])"
    using fetch_from [OF rep E step(2) \<open>clean t\<close> n, of p pos] step(1) by (simp_all add: off)
  with that [of L N] flush_rep [OF rep E step(2)] N got L show thesis by simp
qed

lemma consumerInv_poll:
  assumes "consumerInv load t p k (s, pos, pub, got)" and "k < 2 ^ 63" and "clean t"
    and "fetch E s t p pos n = Some (s', Inr ms)" and "flush E s = Some (s'', Inr ())" and "fairEnv load E" and "0 \<le> n"
  shows "consumerInv load t p k (s', if ms = [] then pos else mOffset (last ms) + 1, pub, got @ ms)"
proof -
  obtain L N where P: "rep load s' L N" "\<forall>tp. N tp \<le> k" "N (t, p) = length pub"
    "length got \<le> length pub" "pos = word_of_nat (length got)" "map (fetched L t p) [0..<length got] = got"
    "\<forall>i < length pub. map_option (\<lambda>(key, val, ts). (key, val)) (L (t, p) i) = Some (pub ! i)"
    "ms = map (fetched L t p) (take (nat n) [length got..<length pub])"
    by (rule consumerInv_polled [OF assms])
  obtain m' where m': "m' \<le> length pub" "got @ ms = map (fetched L t p) [0..<m']"
    "(if ms = [] then pos else mOffset (last ms) + 1) = word_of_nat m'"
    using poll_continues [OF P(8,4)] P(5,6) by metis
  then have "length (got @ ms) = m'" by (metis length_map length_upt minus_nat.diff_0)
  with m' P(1-3,7) show ?thesis
    unfolding consumerInv_def prod.case by (intro exI [of _ L] exI [of _ N] conjI) simp_all
qed

lemma consumerInv_mono: "consumerInv load t p k st \<Longrightarrow> k \<le> k' \<Longrightarrow> consumerInv load t p k' st"
proof (cases st)
  fix s pos pub got
  assume st: "st = (s, pos, pub, got)" and "consumerInv load t p k st" and k: "k \<le> k'"
  then obtain L N where "\<forall>tp. N tp \<le> k" and inv: "rep load s L N \<and> (\<forall>tp. N tp \<le> k) \<and> N (t, p) = length pub \<and>
      length got \<le> length pub \<and> (\<forall>i < length pub. map_option (\<lambda>(key, val, ts). (key, val)) (L (t, p) i) = Some (pub ! i)) \<and>
      pos = word_of_nat (length got) \<and> map (fetched L t p) [0..<length got] = got"
    unfolding consumerInv_def by auto
  moreover from this k have "\<forall>tp. N tp \<le> k'" using le_trans by blast
  ultimately show ?thesis unfolding consumerInv_def st prod.case by blast
qed

lemma consumerInv_step:
  assumes "consumer_step append flush fetch load t p st st'" and "consumerInv load t p k st" and "clean t" and "k < 2 ^ 63"
  shows "consumerInv load t p (k + 1) st'"
  using assms(1)
proof cases
  case cs_append
  with assms(2,4) show ?thesis by (simp only: consumerInv_append)
next
  case (cs_flush E s s' pos pub got)
  have "consumerInv load t p k st'"
    using assms(2) flush_rep [OF _ cs_flush(4,3)] unfolding cs_flush(1,2) consumerInv_def prod.case by blast
  then show ?thesis by (rule consumerInv_mono) simp
next
  case (cs_poll E s pos n s' ms s'' pub got)
  with assms(2-4) have "consumerInv load t p k st'" by (simp only: consumerInv_poll)
  then show ?thesis by (rule consumerInv_mono) simp
qed

lemma consumerInv_steps:
  "(consumer_step append flush fetch load t p ^^ n) st st' \<Longrightarrow> consumerInv load t p 0 st \<Longrightarrow> clean t \<Longrightarrow> n \<le> 2 ^ 63 \<Longrightarrow> consumerInv load t p n st'"
proof (induction n arbitrary: st')
  case (Suc n)
  from Suc.prems(1) obtain st1 where "(consumer_step append flush fetch load t p ^^ n) st st1" "consumer_step append flush fetch load t p st1 st'" by auto
  with Suc consumerInv_step [of load t p st1 st' n] show ?case by auto
qed simp

text \<open>The abstract view of a partition: a list of messages and how many of them the consumer has seen.\<close>

lemma in_order:
  assumes "consumerInv load t p n (s, pos, pub, got)"
  shows "map (\<lambda>m. (mKey m, mValue m)) got = take (length got) pub \<and>
    map mOffset got = map word_of_nat [0..<length got] \<and> pos = word_of_nat (length got)"
proof -
  obtain L where got: "map (fetched L t p) [0..<length got] = got" "length got \<le> length pub"
    and L: "\<forall>i < length pub. map_option (\<lambda>(key, val, ts). (key, val)) (L (t, p) i) = Some (pub ! i)"
    and pos: "pos = word_of_nat (length got)"
    using assms unfolding consumerInv_def by auto
  have nth: "got ! i = fetched L t p i" if "i < length got" for i
    using that by (subst got(1) [symmetric]) (simp only: nth_map_upt, simp)
  have "(mKey (got ! i), mValue (got ! i)) = pub ! i" if "i < length got" for i
    using L that got(2) by (auto simp: nth fetched_def entryMsg_def dest!: spec [of _ i])
  then have "map (\<lambda>m. (mKey m, mValue m)) got = take (length got) pub"
    using got(2) by (intro nth_equalityI) simp_all
  moreover have "map mOffset got = map word_of_nat [0..<length got]"
    by (intro nth_equalityI) (simp_all add: nth fetched_def entryMsg_def split: prod.splits)
  ultimately show ?thesis using pos by simp
qed

lemma consumer_in_order:
  assumes "rep load s (\<lambda>_. Map.empty) (\<lambda>_. 0)" and "(consumer_step append flush fetch load t p ^^ n) (s, 0, [], []) (s', pos, pub, got)"
    and "clean t" and "n \<le> 2 ^ 63"
  shows "map (\<lambda>m. (mKey m, mValue m)) got = take (length got) pub \<and>
    map mOffset got = map word_of_nat [0..<length got] \<and> pos = word_of_nat (length got)"
proof -
  have "consumerInv load t p 0 (s, 0, [], [])"
    unfolding consumerInv_def prod.case using assms(1) by (intro exI [of _ "\<lambda>_. Map.empty"] exI [of _ "\<lambda>_. 0"]) simp
  from in_order [OF consumerInv_steps [OF assms(2) this assms(3,4)]] show ?thesis .
qed

text \<open>A poll that asks for enough gets everything that was published.\<close>

lemma poll_all:
  assumes inv: "consumerInv load t p k (s, pos, pub, got)" and k: "k < 2 ^ 63" and "clean t"
    and step: "fetch E s t p pos n = Some (s', Inr ms)" "flush E s = Some (s'', Inr ())" and E: "fairEnv load E"
    and n: "int (length pub) \<le> n"
  shows "map (\<lambda>m. (mKey m, mValue m)) (got @ ms) = pub"
proof -
  have "0 \<le> n" using n by simp
  note run = inv k \<open>clean t\<close> step E this
  have "length (got @ ms) = length pub" by (rule consumerInv_polled [OF run]) (use n in simp)
  moreover have "map (\<lambda>m. (mKey m, mValue m)) (got @ ms) = take (length (got @ ms)) pub"
    using in_order [OF consumerInv_poll [OF run]] by blast
  ultimately show ?thesis by simp
qed

end

section \<open>The Badger-backed storage\<close>

context badger_store
begin

lemma AppendMessage_rep:
  assumes "streamRep B (seLoad E) s L N" and "clean t" and "N (t, p) < 2 ^ 63"
    and "length key < 2 ^ 16" and "length (seLoad E val) < 2 ^ 32"
  shows "\<exists>s'. AppendMessage B E s t p key val = Some (s', word_of_nat (N (t, p))) \<and>
    streamRep B (seLoad E) s' (appendLog L t p (N (t, p)) (key, seLoad E val, UnixMilli (seNow E)))
      (N((t, p) := N (t, p) + 1))"
proof -
  have same: "streamRep B load (st\<lparr>flushers := n\<rparr>) L' N' \<longleftrightarrow> streamRep B load st L' N'" for load st n L' N'
    by (simp add: streamRep_def bufferKVs_def buffered_def counterOK_def)
  from bufferMessage_rep [OF assms] show ?thesis by (auto simp: AppendMessage_def Let_def same)
qed

end

sublocale badger_store \<subseteq> log: partition_log "AppendMessage B" "flushWrites B" "FetchMessages B" "streamRep B"
proof unfold_locales
  fix load :: "'v \<Rightarrow> bytes" and s s' L N E t p key val start and n :: int
  assume rep: "streamRep B load s L N" and E: "fairEnv load E"
  then have L: "load = seLoad E" and V: "mset (seVisitBuf E b) = mset b" for b by (simp_all add: fairEnv_def)
  show "\<exists>s'. AppendMessage B E s t p key val = Some (s', word_of_nat (N (t, p))) \<and>
      streamRep B load s' (appendLog L t p (N (t, p)) (key, load val, UnixMilli (seNow E))) (N((t, p) := N (t, p) + 1))"
    if "fits load t key val" "N (t, p) < 2 ^ 63"
    using AppendMessage_rep [OF rep [unfolded L]] that by (simp add: fits_def L)
  show "streamRep B load s' L N" if "flushWrites B E s = Some (s', Inr ())"
    using flushWrites_rep [OF rep [unfolded L] V] that by (auto simp: L)
  show "FetchMessages B E s t p start n = Some (s', Inr (map (fetched L t p) (take (nat n) (offsetsFrom L N t p (sint start)))))"
    if "flushWrites B E s = Some (s', Inr ())" "clean t" "0 \<le> n"
    using FetchMessages_rep [OF rep [unfolded L] V that] by simp
qed


context badger_store
begin

lemmas consumer_in_order = log.consumer_in_order
lemmas publish_fetch = log.publish_fetch
lemmas append_next = log.append_next
lemmas flush_rep = log.flush_rep

end

text \<open>A storage opened on a database without messages represents empty logs.\<close>

definition noStreams :: "('db, 'txn) badger \<Rightarrow> 'db \<Rightarrow> bool" where
  "noStreams B d \<longleftrightarrow> (\<forall>u k. prefix (lit ''stream:'') k \<longrightarrow> dbReads B d u k = Inl BadgerErrKeyNotFound)"

lemma prefix_lit_append: "prefix (lit a) (lit (a @ b) @ r)"
  by (simp add: lit_append)

lemma streamRep_fresh:
  assumes "NewStreamStorage (Inr d) = Inr s" and "noStreams B d"
  shows "streamRep B load s (\<lambda>_. Map.empty) (\<lambda>_. 0)"
proof -
  have s: "sdb s = d" "writeBuffer s = []" "partitionOffsets s = Map.empty"
    using assms(1) by (auto simp: NewStreamStorage_def)
  have "prefix (lit ''stream:'') k" if "prefix (lit ''stream:msg:'') k" for k
    using that prefix_lit_append [of "''stream:''" "''msg:''" "[]"] by (simp add: prefix_order.trans)
  moreover have "prefix (lit ''stream:'') (makeOffsetKey t p)" for t p
    using prefix_lit_append [of "''stream:''" "''offset:''"] by (simp add: makeOffsetKey_def)
  ultimately show ?thesis
    using assms(2) by (simp add: streamRep_def s bufferKVs_def buffered_def layered_def logReads_def wfLogs_def inLogs_def
        noOffsets_def counterOK_def noStreams_def)
qed

section \<open>Consuming in order\<close>



definition plainEnv :: "time \<Rightarrow> bytes StreamEnv" where
  "plainEnv now = \<lparr>seNow = now, seLoad = id, seVisitBuf = id, seVisitParts = id, seVisitIds = id, seVisitTopics = id\<rparr>"

lemma fair_plainEnv [simp]: "fairEnv id (plainEnv now)"
  by (simp add: fairEnv_def plainEnv_def)

definition memStreams :: "(mem_db, bytes) StreamStorage" where
  "memStreams = projr (NewStreamStorage (Inr []))"

lemma memStreams_new: "NewStreamStorage (Inr []) = (Inr memStreams :: stream_err + (mem_db, bytes) StreamStorage)"
  by (simp add: memStreams_def NewStreamStorage_def)

lemma noStreams_mem: "noStreams mem_badger []"
  by (simp add: noStreams_def mem_eval dbReads_def)

abbreviation mem_consumer where
  "mem_consumer \<equiv> consumer_step (AppendMessage mem_badger) (flushWrites mem_badger) (FetchMessages mem_badger) id"


section \<open>Publishing and fetching\<close>

text \<open>What was published can be fetched.  In a storage that represents logs, a message appended to a
  partition gets the next offset of that partition, and a fetch from that offset (a later flush having
  succeeded) returns just that message: its key, the bytes of its value, its offset.\<close>

theorem stream_publish_fetch:
  assumes "badger_store B" and "streamRep B load s L N" and "fairEnv load E" and "fairEnv load E'" and "fits load t key val"
    and "N (t, p) < 2 ^ 63" and "AppendMessage B E s t p key val = Some (s1, i)" and "flushWrites B E' s1 = Some (s2, Inr ())"
    and "0 < n"
  shows "i = word_of_nat (N (t, p)) \<and>
    (\<exists>m. FetchMessages B E' s1 t p i n = Some (s2, Inr [m]) \<and> mOffset m = i \<and> mKey m = key \<and> mValue m = load val)"
  using badger_store.publish_fetch [OF assms(1-9)] badger_store.append_next [OF assms(1-3,5,6)] assms(7) by auto

theorem stream_publish_fetch_witness:
  "\<exists>s1 s2 i m. AppendMessage mem_badger (plainEnv 0) memStreams [116] 0 [107] [1] = Some (s1, i) \<and>
     FetchMessages mem_badger (plainEnv 1) s1 [116] 0 i 5 = Some (s2, Inr [m]) \<and> mKey m = [107] \<and> mValue m = [1]"
proof -
  let ?a = "AppendMessage mem_badger (plainEnv 0) memStreams [116] 0 [107] [1]"
  have "map_option snd ?a = Some 0" by code_simp
  then have a: "?a = Some (fst (the ?a), 0)" by auto
  have "map_option snd (flushWrites mem_badger (plainEnv 1) (fst (the ?a))) = Some (Inr ())" by code_simp
  then obtain s2 where f: "flushWrites mem_badger (plainEnv 1) (fst (the ?a)) = Some (s2, Inr ())" by auto
  have "fits id [116] [107] [1 :: byte]" by (simp add: fits_def clean_def)
  from stream_publish_fetch [OF mem.badger_store_axioms streamRep_fresh [OF memStreams_new noStreams_mem] fair_plainEnv fair_plainEnv
      this _ a f, of 5] a show ?thesis by auto
qed

section \<open>Failures\<close>

lemma sUpdate_error: "sUpdate B s fn = Some (s', Inl e) \<Longrightarrow> s' = s"
  by (cases "fn (NewTransaction B (sdb s))") (auto simp: sUpdate_def UpdateP_def Update_def split: sum.splits)

text \<open>A flush that fails loses messages.  When the transaction of a flush fails, the buffered messages are
  gone: the buffer is empty, the database is as before, and the offsets given to the lost messages are not
  given again.  The error is not reported to anyone: the worker drops it, and a fetch returns what it would
  return if the messages had never been there.\<close>

theorem stream_failed_flush_drops:
  assumes "flushWrites B E s = Some (s', Inl e)"
  shows "writeBuffer s' = [] \<and> sdb s' = sdb s \<and> partitionOffsets s' = partitionOffsets s \<and>
    flushWorker B E FlushTick s = Some s' \<and> FetchMessages B E s t p start n = FetchMessages B E s' t p start n"
proof -
  have s': "s' = s\<lparr>writeBuffer := []\<rparr>"
    using assms by (auto simp: flushWrites_def Let_def split: if_splits dest: sUpdate_error)
  then have "flushWrites B E s' = Some (s', Inr ())" by (simp add: flushWrites_def)
  then show ?thesis using assms by (simp add: FetchMessages_def flushWorker_def) (simp add: s')
qed

text \<open>A message with an empty topic name still has a key, so the failure here is that of a full disk: a store
  whose commits fail.\<close>

definition fullDisk :: "(mem_db, mem_txn) badger" where
  "fullDisk = mem_badger\<lparr>txnCommit := \<lambda>d t. Inl (BadgerErr ''no space left on device'')\<rparr>"

theorem stream_failed_flush_drops_witness:
  "\<exists>s s' e. writeBuffer s \<noteq> [] \<and> flushWrites fullDisk (plainEnv 0) s = Some (s', Inl e) \<and> writeBuffer s' = [] \<and> sdb s' = []"
proof -
  let ?s = "fst (the (AppendMessage fullDisk (plainEnv 0) memStreams [116] 0 [107] [1]))"
  have "map_option snd (flushWrites fullDisk (plainEnv 0) ?s) = Some (Inl (SBadger (BadgerErr ''no space left on device'')))"
    by code_simp
  then obtain s' where f: "flushWrites fullDisk (plainEnv 0) ?s = Some (s', Inl (SBadger (BadgerErr ''no space left on device'')))"
    by auto
  have "length (writeBuffer ?s) = 1" "sdb ?s = []" by code_simp+
  moreover from stream_failed_flush_drops [OF f] have "writeBuffer s' = [] \<and> sdb s' = sdb ?s" by blast
  ultimately show ?thesis using f by (metis length_0_conv zero_neq_one)
qed

context badger_store
begin

text \<open>A flush of one message, whatever the database holds.\<close>

lemma flushWrites_one:
  assumes "writeBuffer s = [(pk, [m])]" and "\<And>b. mset (seVisitBuf E b) = mset b" and "flushWrites B E s = Some (s', Inr ())"
  shows "dbReads B (sdb s') = gput (msgKey m) (messageData (loaded (seLoad E) m)) (dbReads B (sdb s))"
proof -
  let ?m = "loaded (seLoad E) m" and ?s = "s\<lparr>writeBuffer := []\<rparr>"
  have "seVisitBuf E [(pk, [m])] = [(pk, [m])]" using assms(2) [of "[(pk, [m])]"] by simp
  with assms(1,3) have run: "sUpdate B ?s (flushLoop B (seNow E) [?m]) = Some (s', Inr ())" by (simp add: flushWrites_def)
  obtain r where r: "flushLoop B (seNow E) [?m] (NewTransaction B (sdb ?s)) = Some r"
    "case r of Inl e \<Rightarrow> \<exists>b. e = SBadger b
     | Inr (t', _) \<Rightarrow> plain_txn B (sdb ?s) t' \<and>
         txnReads B t' = fold (\<lambda>(k, v). gput k v) (map (\<lambda>m. (msgKey m, messageData m)) [?m]) (dbReads B (sdb ?s))"
    using flushLoop_reads [where now = "seNow E" and msgs = "[?m]", OF plain_begin [of B "sdb ?s"]] unfolding reads_begin by blast
  obtain tx where "r = Inr (tx, ())" "dbReads B (sdb s') = txnReads B tx"
    using sUpdate_plain [of "flushLoop B (seNow E) [?m]" ?s r] r run by fastforce
  with r(2) show ?thesis by (simp add: msgKey_def loaded_def)
qed

end

text \<open>C27: after a restart the numbering of a partition starts again at 0, and new messages overwrite old ones.
  The counters are in memory and no operation ever stores them, so a storage opened on the database of a
  previous one appends the first message of every partition with offset 0, whatever was published before, and
  the flush replaces the message that was stored there.\<close>

theorem stream_restart_overwrites:
  assumes "badger_store B" and "streamRep B load s L N" and "NewStreamStorage (Inr (sdb s)) = Inr s1"
    and "fits load t key val" and "fairEnv load E"
  shows "\<exists>s2. AppendMessage B E s1 t p key val = Some (s2, 0) \<and>
    (\<forall>s3. flushWrites B E s2 = Some (s3, Inr ()) \<longrightarrow>
       dbReads B (sdb s3) u (makeMessageKey t p 0) = Inr (messageData (entryMsg t p 0 (key, load val, UnixMilli (seNow E)))))"
proof -
  have s1: "sdb s1 = sdb s" "writeBuffer s1 = []" "partitionOffsets s1 = Map.empty"
    using assms(3) by (auto simp: NewStreamStorage_def)
  define m where "m = \<lparr>mTopic = t, mPartition = p, mOffset = 0, mKey = key, mValue = val, mTimestamp = UnixMilli (seNow E)\<rparr>"
  have "storedOffset B (seNow E) (sdb s1) t p = Some (- 1)"
    using assms(2) by (simp add: streamRep_def noOffsets_def storedOffset_def View_def dbReads_def dbGet_def s1)
  then obtain s2 where s2: "AppendMessage B E s1 t p key val = Some (s2, 0)" "sdb s2 = sdb s" "writeBuffer s2 = [(partKey t p, [m])]"
    by (simp add: AppendMessage_def bufferMessage_def getPartitionOffset_def s1 bufferOf_def m_def Let_def)
  have "dbReads B (sdb s3) u (makeMessageKey t p 0) = Inr (messageData (entryMsg t p 0 (key, load val, UnixMilli (seNow E))))"
    if "flushWrites B E s2 = Some (s3, Inr ())" for s3
    using badger_store.flushWrites_one [OF assms(1) s2(3) _ that] assms(5)
    by (simp add: fairEnv_def gput_def msgKey_def m_def loaded_def entryMsg_def)
  with s2(1) show ?thesis by blast
qed

theorem stream_restart_overwrites_witness:
  "\<exists>s0 s s1 s2. AppendMessage mem_badger (plainEnv 0) memStreams [116] 0 [107] [1] = Some (s0, 0) \<and>
     flushWrites mem_badger (plainEnv 0) s0 = Some (s, Inr ()) \<and> NewStreamStorage (Inr (sdb s)) = Inr s1 \<and>
     AppendMessage mem_badger (plainEnv 9) s1 [116] 0 [108] [2] = Some (s2, 0)"
proof -
  have fit: "fits id [116] k [v :: byte]" if "k = [107] \<or> k = [108]" for k v using that by (auto simp: fits_def clean_def)
  obtain s0 L N where a: "AppendMessage mem_badger (plainEnv 0) memStreams [116] 0 [107] [1] = Some (s0, 0)"
    and rep0: "streamRep mem_badger id s0 L N"
    using mem.append_next [OF streamRep_fresh [OF memStreams_new noStreams_mem] fair_plainEnv [of 0] fit, of "[107]" 0 1] by auto
  have "map_option snd (flushWrites mem_badger (plainEnv 0)
      (fst (the (AppendMessage mem_badger (plainEnv 0) memStreams [116] 0 [107] [1])))) = Some (Inr ())" by code_simp
  with a obtain s where f: "flushWrites mem_badger (plainEnv 0) s0 = Some (s, Inr ())" by auto
  obtain s1 :: "(mem_db, bytes) StreamStorage" where new: "NewStreamStorage (Inr (sdb s)) = Inr s1"
    by (simp add: NewStreamStorage_def)
  from stream_restart_overwrites [OF mem.badger_store_axioms mem.flush_rep [OF rep0 fair_plainEnv f] new fit [of "[108]" 2] fair_plainEnv [of 9], of 0]
  show ?thesis using a f new by blast
qed

end
