(* ===== verification/StreamGroups.thy ===== *)
theory StreamGroups
  imports StreamProps
begin

text \<open>
  Consumer groups.  The range assignment gives every partition of the topic to exactly one consumer of the
  group and spreads them evenly; no operation of the streams ever leaves a partition with two consumers.
\<close>

section \<open>The assignment\<close>

lemma assign_ids: "map fst (assign per extra cur ids) = ids"
  by (induction ids arbitrary: extra cur) (simp_all add: Let_def)

lemma upto_append: "0 \<le> a \<Longrightarrow> 0 \<le> b \<Longrightarrow> [c..c + a - 1] @ [c + a..c + a + b - 1] = [c..c + a + (b :: int) - 1]"
  using upto_split1 [of c "c + a" "c + a + b - 1"] by (cases "a = 0"; cases "b = 0") auto

lemma assign_concat:
  "0 \<le> per \<Longrightarrow> 0 \<le> extra \<Longrightarrow> extra \<le> int (length ids) \<Longrightarrow>
   concat (map snd (assign per extra cur ids)) = [cur..cur + per * int (length ids) + extra - 1]"
proof (induction ids arbitrary: extra cur)
  case (Cons i ids)
  define k where "k = (if extra > 0 then per + 1 else per)"
  define e where "e = (if extra > 0 then extra - 1 else extra)"
  define u where "u = cur + per * int (length (i # ids)) + extra - 1"
  have u: "cur + k + per * int (length ids) + e - 1 = u" by (simp add: u_def k_def e_def algebra_simps)
  have "concat (map snd (assign per e (cur + k) ids)) = [cur + k..u]"
    unfolding u [symmetric] using Cons.prems by (intro Cons.IH) (simp_all add: e_def)
  moreover have "0 \<le> k" "0 \<le> per * int (length ids) + e" using Cons.prems by (auto simp: k_def e_def)
  from upto_append [OF this, of cur] have "[cur..cur + k - 1] @ [cur + k..u] = [cur..u]"
    unfolding u [symmetric] by (simp add: add.assoc)
  ultimately show ?case unfolding u_def [symmetric] by (simp add: Let_def k_def [symmetric] e_def [symmetric])
qed simp

lemma assign_sizes:
  "(i, ps) \<in> set (assign per extra cur ids) \<Longrightarrow> 0 \<le> per \<Longrightarrow> int (length ps) = per \<or> int (length ps) = per + 1"
  by (induction ids arbitrary: extra cur) (auto simp: Let_def split: if_splits)

text \<open>All of \<open>P\<close> partitions, to \<open>n > 0\<close> consumers.\<close>

lemma assign_all:
  assumes "0 \<le> P" and "ids \<noteq> []"
  shows "concat (map snd (assign (P div int (length ids)) (P mod int (length ids)) 0 ids)) = [0..P - 1]"
proof -
  let ?n = "int (length ids)"
  have "0 < ?n" using assms(2) by simp
  then have "0 \<le> P div ?n" "0 \<le> P mod ?n" "P mod ?n \<le> ?n" "P div ?n * ?n + P mod ?n = P"
    using assms(1) by (simp_all add: pos_imp_zdiv_nonneg_iff less_imp_le)
  with assign_concat [of "P div ?n" "P mod ?n" ids 0] show ?thesis by (simp add: algebra_simps)
qed

section \<open>Groups\<close>

definition partitionsOf :: "ConsumerGroup \<Rightarrow> int list" where
  "partitionsOf g = concat (map (cPartitions \<circ> snd) (Consumers g))"

definition groupOK :: "ConsumerGroup \<Rightarrow> bool" where
  "groupOK g \<longleftrightarrow> distinct (map fst (Consumers g)) \<and> distinct (partitionsOf g)"

text \<open>Exactly the partitions of a topic, shared evenly.\<close>

definition assignedAll :: "int \<Rightarrow> ConsumerGroup \<Rightarrow> bool" where
  "assignedAll P g \<longleftrightarrow> mset (partitionsOf g) = mset [0..P - 1] \<and>
     list_all (\<lambda>(i, c). int (length (cPartitions c)) \<in> {P div int (length (Consumers g)), P div int (length (Consumers g)) + 1})
       (Consumers g)"

lemma mset_lookups:
  assumes "mset ids = mset (map fst parts)" and "distinct (map fst parts)"
  shows "mset (concat (map (\<lambda>i. the (map_of parts i)) ids)) = mset (concat (map snd parts))"
proof -
  have "mset (concat (map (\<lambda>i. the (map_of parts i)) ids)) = \<Sum>\<^sub># (image_mset (\<lambda>i. mset (the (map_of parts i))) (mset ids))"
    by (simp add: mset_concat sum_mset_sum_list flip: mset_map) (simp add: comp_def sum_mset_sum_list [symmetric])
  also have "\<dots> = mset (concat (map (\<lambda>i. the (map_of parts i)) (map fst parts)))"
    by (simp add: assms(1) mset_concat sum_mset_sum_list flip: mset_map) (simp add: comp_def sum_mset_sum_list [symmetric])
  also have "map (\<lambda>i. the (map_of parts i)) (map fst parts) = map snd parts"
    using assms(2) by (auto simp: map_of_eq_Some_iff)
  finally show ?thesis .
qed

lemma lookup_assign:
  assumes "mset (map fst cs) = mset ids" and "i \<in> set (map fst cs)"
  obtains ps where "map_of (assign per extra cur ids) i = Some ps"
proof -
  have "i \<in> set ids" using assms by (metis mset_eq_setD)
  with that show thesis
    by (metis assign_ids list.set_map map_of_eq_None_iff option.exhaust)
qed

text \<open>What the rebalancing does to the consumers of a group.\<close>

lemma assignAll_partitions:
  assumes "mset (map fst cs) = mset ids" and "distinct ids" and "0 \<le> P" and "ids \<noteq> []"
  defines "parts \<equiv> assign (P div int (length ids)) (P mod int (length ids)) 0 ids"
  shows "map fst (assignAll parts cs) = map fst cs"
    and "mset (concat (map (cPartitions \<circ> snd) (assignAll parts cs))) = mset [0..P - 1]"
    and "list_all (\<lambda>(i, c). int (length (cPartitions c)) \<in> {P div int (length ids), P div int (length ids) + 1}) (assignAll parts cs)"
proof -
  have ids: "map fst parts = ids" by (simp add: parts_def assign_ids)
  have found: "\<exists>ps. map_of parts (fst ic) = Some ps" if "ic \<in> set cs" for ic
    using lookup_assign [OF assms(1)] that unfolding parts_def by (metis imageI list.set_map)
  show "map fst (assignAll parts cs) = map fst cs" by (simp add: assignAll_def comp_def split_def)
  have "map (cPartitions \<circ> snd) (assignAll parts cs) = map (\<lambda>i. the (map_of parts i)) (map fst cs)"
    using found by (force simp: assignAll_def split: option.splits)
  then show "mset (concat (map (cPartitions \<circ> snd) (assignAll parts cs))) = mset [0..P - 1]"
    using mset_lookups [of "map fst cs" parts] assms(1,2) ids assign_all [OF assms(3,4)] unfolding parts_def by simp
  have sizes: "int (length ps) \<in> {P div int (length ids), P div int (length ids) + 1}" if "map_of parts i = Some ps" for i ps
    using assign_sizes [OF map_of_SomeD [OF that [unfolded parts_def]]] assms(3,4) by (auto simp: pos_imp_zdiv_nonneg_iff)
  show "list_all (\<lambda>(i, c). int (length (cPartitions c)) \<in> {P div int (length ids), P div int (length ids) + 1}) (assignAll parts cs)"
    unfolding list_all_iff assignAll_def using found sizes by (fastforce split: option.splits)
qed

section \<open>Topics\<close>

definition topicsOK :: "('db, 'v) Stream \<Rightarrow> bool" where
  "topicsOK s \<longleftrightarrow> (\<forall>n m. map_of (topics s) n = Some m \<longrightarrow> 0 \<le> Partitions m)"

lemma decoded_partitions: "decodeTopicMetadata data = Some (Inr meta) \<Longrightarrow> 0 \<le> Partitions meta"
  by (auto simp: decodeTopicMetadata_def need_def Let_def split: if_splits bind_splits)

lemma topicsOK_update: "topicsOK s \<Longrightarrow> 0 \<le> Partitions m \<Longrightarrow> topicsOK (s\<lparr>topics := AList.update n m (topics s)\<rparr>)"
  by (auto simp: topicsOK_def update_conv' split: if_splits)

lemma GetTopicMetadata_result:
  assumes "GetTopicMetadata B now s name = Some (s', r)" and "topicsOK s"
  shows "topicsOK s' \<and> groups s' = groups s \<and> strStorage s' = strStorage s \<and>
    (\<forall>meta. r = Inr meta \<longrightarrow> map_of (topics s') name = Some meta \<and> 0 \<le> Partitions meta)"
proof (cases "map_of (topics s) name")
  case (Some meta)
  with assms show ?thesis by (auto simp: GetTopicMetadata_def topicsOK_def)
next
  case None
  with assms(1) obtain r' where r': "Storage_GetTopicMetadata B now (strStorage s) name = Some r'"
    "(s', r) = (case r' of Inl e \<Rightarrow> (s, Inl e)
       | Inr meta \<Rightarrow> (s\<lparr>topics := AList.update name meta (topics s)\<rparr>, Inr meta))"
    by (auto simp: GetTopicMetadata_def split: bind_splits)
  show ?thesis
  proof (cases r')
    case (Inl e)
    with r'(2) assms(2) show ?thesis by simp
  next
    case (Inr meta)
    with r'(1) have "0 \<le> Partitions meta"
      by (auto simp: Storage_GetTopicMetadata_def View_def checked_def streamCall_def streamFormat_def
          split: bind_splits sum.splits dest: decoded_partitions)
    with r'(2) Inr assms(2) show ?thesis by (simp add: topicsOK_update update_conv')
  qed
qed

lemma CreateTopic_result:
  assumes "CreateTopic B now s name n ret = Some (s', r)" and "topicsOK s"
  shows "topicsOK s' \<and> groups s' = groups s"
proof -
  let ?meta = "\<lparr>tmName = name, Partitions = if n \<le> 0 then 4 else n,
    RetentionMs = if ret \<le>s 0 then 7 * 24 * 60 * 60 * 1000 else ret, RetentionBytes = 0, CreatedAt = UnixMilli now\<rparr>"
  obtain st r' where r': "Storage_CreateTopic B now (strStorage s) ?meta = Some (st, r')"
    using assms(1) by (auto simp: CreateTopic_def onStreams_def Let_def split: bind_splits)
  let ?s = "s\<lparr>strStorage := st\<rparr>"
  have ok: "topicsOK ?s" using assms(2) by (simp add: topicsOK_def)
  from r' assms(1) have eq: "(s', r) = (case r' of Inl e \<Rightarrow> (?s, Inl e)
      | Inr _ \<Rightarrow> (?s\<lparr>topics := AList.update name ?meta (topics ?s)\<rparr>, Inr ()))"
    by (simp add: CreateTopic_def onStreams_def Let_def)
  have "0 \<le> Partitions ?meta" by simp
  from topicsOK_update [OF ok this] eq ok show ?thesis by (cases r') simp_all
qed

lemma ensureTopic_result:
  assumes "ensureTopic B now s topic = Some (s', r)" and "topicsOK s"
  shows "topicsOK s' \<and> groups s' = groups s"
proof -
  obtain s1 r1 where 1: "GetTopicMetadata B now s topic = Some (s1, r1)"
    using assms(1) by (auto simp: ensureTopic_def split: bind_splits)
  note G = GetTopicMetadata_result [OF 1 assms(2)]
  show ?thesis
  proof (cases r1)
    case (Inr meta)
    with 1 assms(1) G show ?thesis by (simp add: ensureTopic_def)
  next
    case (Inl e)
    with 1 assms(1) obtain s2 r2 where 2: "CreateTopic B now s1 topic 4 0 = Some (s2, r2)"
      and rest: "(case r2 of Inl e \<Rightarrow> Some (s2, Inl e) | Inr _ \<Rightarrow> GetTopicMetadata B now s2 topic) = Some (s', r)"
      by (auto simp: ensureTopic_def split: bind_splits)
    note C = CreateTopic_result [OF 2 conjunct1 [OF G]]
    show ?thesis
    proof (cases r2)
      case Inl
      with rest C G show ?thesis by simp
    next
      case Inr
      with rest have "GetTopicMetadata B now s2 topic = Some (s', r)" by simp
      from GetTopicMetadata_result [OF this] C G show ?thesis by simp
    qed
  qed
qed

section \<open>Rebalancing\<close>

lemma rebalanceGroup_result:
  assumes run: "rebalanceGroup B E s g = Some (s', g', r)" and ok: "topicsOK s" and fair: "fairEnv (seLoad E) E"
    and ids: "distinct (map fst (Consumers g))"
  shows "topicsOK s' \<and> groups s' = groups s \<and> gTopic g' = gTopic g \<and> map fst (Consumers g') = map fst (Consumers g) \<and>
    (case r of Inl e \<Rightarrow> g' = g
     | Inr _ \<Rightarrow> Consumers g = [] \<and> g' = g \<or>
         (\<exists>meta. map_of (topics s') (gTopic g) = Some meta \<and> assignedAll (Partitions meta) g'))"
proof -
  obtain r1 where G: "GetTopicMetadata B (seNow E) s (gTopic g) = Some (s', r1)"
    using run by (auto simp: rebalanceGroup_def Let_def split: bind_splits sum.splits if_splits)
  note R = GetTopicMetadata_result [OF G ok]
  show ?thesis
  proof (cases r1)
    case (Inl e)
    with run G R show ?thesis by (auto simp: rebalanceGroup_def)
  next
    case (Inr meta)
    let ?ids = "seVisitIds E (map fst (Consumers g))"
    have perm: "mset (map fst (Consumers g)) = mset ?ids" using fair by (simp add: fairEnv_def)
    then have dist: "distinct ?ids" using ids by (metis mset_eq_imp_distinct_iff)
    have len: "length ?ids = length (Consumers g)" using perm by (metis length_map mset_eq_length)
    show ?thesis
    proof (cases "Consumers g = []")
      case True
      with run G Inr R len show ?thesis by (auto simp: rebalanceGroup_def Let_def)
    next
      case False
      then have ne: "?ids \<noteq> []" using len by auto
      have P: "0 \<le> Partitions meta" "map_of (topics s') (gTopic g) = Some meta" using R Inr by simp_all
      let ?cs = "assignAll (assign (Partitions meta div int (length ?ids)) (Partitions meta mod int (length ?ids)) 0 ?ids) (Consumers g)"
      note A = assignAll_partitions [OF perm dist P(1) ne]
      have g': "g' = g\<lparr>Consumers := ?cs\<rparr>" "r = Inr ()"
        using run G Inr ne by (auto simp: rebalanceGroup_def Let_def)
      have "length ?cs = length ?ids" using A(1) len by (metis length_map)
      then have "assignedAll (Partitions meta) g'"
        using A(2,3) by (simp add: assignedAll_def partitionsOf_def g')
      with R P(2) A(1) g' show ?thesis by simp
    qed
  qed
qed

lemma assignedAll_OK: "assignedAll P g \<Longrightarrow> distinct (map fst (Consumers g)) \<Longrightarrow> groupOK g"
  using mset_eq_imp_distinct_iff [of "[0..P - 1]" "partitionsOf g"] by (simp add: assignedAll_def groupOK_def)

section \<open>The invariant\<close>

definition groupsOK :: "('db, 'v) Stream \<Rightarrow> bool" where
  "groupsOK s \<longleftrightarrow> topicsOK s \<and> (\<forall>grp g. groups s grp = Some g \<longrightarrow> groupOK g)"

lemma groupsOK_update:
  "groupsOK s \<Longrightarrow> topicsOK s' \<Longrightarrow> groups s' = groups s \<Longrightarrow> groupOK g \<Longrightarrow> groupsOK (s'\<lparr>groups := (groups s')(grp \<mapsto> g)\<rparr>)"
  by (simp add: groupsOK_def topicsOK_def)

lemma groupsOK_same: "groupsOK s \<Longrightarrow> topicsOK s' \<Longrightarrow> groups s' = groups s \<Longrightarrow> groupsOK s'"
  by (simp add: groupsOK_def)

text \<open>Touching a consumer, adding one without partitions, removing one.\<close>

lemma partitions_touch:
  "map_of cs i = Some c \<Longrightarrow> concat (map (cPartitions \<circ> snd) (AList.update i (c\<lparr>LastSeen := x\<rparr>) cs)) = concat (map (cPartitions \<circ> snd) cs)"
  by (induction cs) auto

lemma partitions_add:
  "map_of cs i = None \<Longrightarrow> cPartitions c = [] \<Longrightarrow> concat (map (cPartitions \<circ> snd) (AList.update i c cs)) = concat (map (cPartitions \<circ> snd) cs)"
  by (induction cs) auto

lemma groupOK_update:
  assumes "groupOK g"
  shows "groupOK (g\<lparr>Consumers := AList.update i
    ((case map_of (Consumers g) i of Some c \<Rightarrow> c | None \<Rightarrow> \<lparr>cID = i, LastSeen = 0, cPartitions = []\<rparr>)\<lparr>LastSeen := x\<rparr>) (Consumers g)\<rparr>)"
  using assms by (cases "map_of (Consumers g) i")
    (simp_all add: groupOK_def partitionsOf_def partitions_touch partitions_add distinct_update del: map_map)

lemma distinct_concat_filter: "distinct (concat (map f xs)) \<Longrightarrow> distinct (concat (map f (filter P xs)))"
  by (induction xs) auto

lemma groupOK_delete: "groupOK g \<Longrightarrow> groupOK (g\<lparr>Consumers := AList.delete i (Consumers g)\<rparr>)"
  by (simp add: groupOK_def partitionsOf_def distinct_concat_filter AList.delete_eq distinct_map_filter)

lemma Subscribe_result:
  assumes run: "Subscribe B E s topic grp i = Some (s', r)" and ok: "groupsOK s" and fair: "fairEnv (seLoad E) E"
  shows "groupsOK s' \<and> (r = Inr () \<longrightarrow> (\<exists>g meta. groups s' grp = Some g \<and> gTopic g = topic \<and> i \<in> set (map fst (Consumers g)) \<and>
    map_of (topics s') topic = Some meta \<and> assignedAll (Partitions meta) g))"
proof -
  define g where "g = (case groups s grp of Some g \<Rightarrow> g | None \<Rightarrow> \<lparr>gName = grp, gTopic = topic, Consumers = []\<rparr>)"
  define s1 where "s1 = s\<lparr>groups := (groups s)(grp \<mapsto> g)\<rparr>"
  have gOK: "groupOK g"
    using ok by (auto simp: g_def groupsOK_def groupOK_def partitionsOf_def split: option.splits)
  then have s1: "groupsOK s1" using ok by (simp add: s1_def groupsOK_def topicsOK_def)
  show ?thesis
  proof (cases "gTopic g = topic")
    case False
    then have "s' = s1 \<and> r \<noteq> Inr ()" using run by (auto simp: Subscribe_def Let_def g_def [symmetric] s1_def [symmetric])
    with s1 show ?thesis by simp
  next
    case True
    define g1 where "g1 = g\<lparr>Consumers := AList.update i
      ((case map_of (Consumers g) i of Some c \<Rightarrow> c | None \<Rightarrow> \<lparr>cID = i, LastSeen = 0, cPartitions = []\<rparr>)\<lparr>LastSeen := seNow E\<rparr>)
      (Consumers g)\<rparr>"
    have g1: "groupOK g1" unfolding g1_def by (rule groupOK_update [OF gOK])
    obtain s2 g2 where R: "rebalanceGroup B E s1 g1 = Some (s2, g2, r)" and s': "s' = s2\<lparr>groups := (groups s2)(grp \<mapsto> g2)\<rparr>"
      using run True
      by (auto simp: Subscribe_def Let_def g_def [symmetric] s1_def [symmetric] g1_def [symmetric] split: bind_splits)
    have "topicsOK s1" "distinct (map fst (Consumers g1))" using s1 g1 by (simp_all add: groupsOK_def groupOK_def)
    note R = rebalanceGroup_result [OF R this(1) fair this(2)]
    have i: "i \<in> set (map fst (Consumers g1))" "Consumers g1 \<noteq> []"
      by (simp_all add: g1_def update_conv' domIff flip: dom_map_of_conv_image_fst)
    have "groupOK g2"
      using R g1 i(2) assignedAll_OK [of _ g2] by (cases r) (auto simp: groupOK_def)
    then have "groupsOK s'" unfolding s' using groupsOK_update [OF s1] R by blast
    moreover have "gTopic g2 = topic" using R True by (simp add: g1_def)
    moreover have "i \<in> set (map fst (Consumers g2))" using R i(1) by metis
    ultimately show ?thesis using R i(2) by (auto simp: s' simp del: set_map)
  qed
qed

lemma Unsubscribe_result:
  assumes run: "Unsubscribe B E s topic grp i = Some (s', r)" and ok: "groupsOK s" and fair: "fairEnv (seLoad E) E"
  shows "groupsOK s' \<and> (\<forall>g. groups s' grp = Some g \<longrightarrow> i \<notin> set (map fst (Consumers g)))"
proof (cases "groups s grp")
  case None
  with run ok show ?thesis by (simp add: Unsubscribe_def)
next
  case (Some g)
  define g1 where "g1 = g\<lparr>Consumers := AList.delete i (Consumers g)\<rparr>"
  have "groupOK g" using ok Some by (simp add: groupsOK_def)
  then have g1: "groupOK g1" unfolding g1_def by (rule groupOK_delete)
  have i: "i \<notin> set (map fst (Consumers g1))" by (auto simp: g1_def AList.delete_eq)
  show ?thesis
  proof (cases "Consumers g1 = []")
    case True
    then have "s' = s\<lparr>groups := (groups s)(grp := None)\<rparr>"
      using run Some by (simp add: Unsubscribe_def Let_def g1_def)
    with ok show ?thesis by (auto simp: groupsOK_def topicsOK_def split: if_splits)
  next
    case False
    obtain s2 g2 where R: "rebalanceGroup B E s g1 = Some (s2, g2, r)" and s': "s' = s2\<lparr>groups := (groups s2)(grp \<mapsto> g2)\<rparr>"
      using run Some False by (auto simp: Unsubscribe_def Let_def g1_def [symmetric] split: bind_splits)
    have "topicsOK s" "distinct (map fst (Consumers g1))" using ok g1 by (simp_all add: groupsOK_def groupOK_def)
    note R = rebalanceGroup_result [OF R this(1) fair this(2)]
    have "groupOK g2" using R g1 False assignedAll_OK [of _ g2] by (cases r) (auto simp: groupOK_def)
    then have "groupsOK s'" unfolding s' using groupsOK_update [OF ok] R by blast
    moreover have "i \<notin> set (map fst (Consumers g2))" using R i by metis
    ultimately show ?thesis by (simp add: s')
  qed
qed

text \<open>Consuming touches the consumer; the rest of it keeps topics and groups.\<close>

lemma onStreams_keeps: "onStreams s sr = Some (s', r) \<Longrightarrow> topics s' = topics s \<and> groups s' = groups s"
  by (auto simp: onStreams_def)

lemma getCachedOffset_keeps:
  "getCachedOffset B now s grp topic p = Some (s', r) \<Longrightarrow> topics s' = topics s \<and> groups s' = groups s \<and> strStorage s' = strStorage s"
  by (auto simp: getCachedOffset_def Let_def split: option.splits bind_splits sum.splits)

lemma fetchPartition_keeps:
  "fetchPartition B E grp topic n p s = Some (s', r) \<Longrightarrow> topics s' = topics s \<and> groups s' = groups s"
  by (auto simp: fetchPartition_def split: bind_splits sum.splits dest!: getCachedOffset_keeps onStreams_keeps)

lemma fetchAll_keeps:
  "fetchAll B E grp topic n ps s = Some (s', rs) \<Longrightarrow> topics s' = topics s \<and> groups s' = groups s"
  by (induction ps arbitrary: s rs) (auto split: bind_splits dest!: fetchPartition_keeps)

lemma Consume_result:
  assumes run: "Consume B E s topic grp i n = Some (s', r)" and ok: "groupsOK s"
  shows "groupsOK s'"
proof -
  show ?thesis
  proof (cases "groups s grp")
    case None
    with run ok show ?thesis by (simp add: Consume_def)
  next
    case (Some g)
    show ?thesis
    proof (cases "map_of (Consumers g) i")
      case None
      with Some run ok show ?thesis by (simp add: Consume_def)
    next
      case c: (Some c)
      let ?g = "g\<lparr>Consumers := AList.update i (c\<lparr>LastSeen := seNow E\<rparr>) (Consumers g)\<rparr>"
      let ?s = "s\<lparr>groups := (groups s)(grp \<mapsto> ?g)\<rparr>"
      have "groupOK ?g" using groupOK_update [of g i "seNow E"] ok Some c by (simp add: groupsOK_def)
      then have ok': "groupsOK ?s" using ok by (simp add: groupsOK_def topicsOK_def)
      have "s' = ?s \<or> (\<exists>n ps rs. fetchAll B E grp topic n ps ?s = Some (s', rs))"
        using run Some c by (auto simp: Consume_def Let_def split: if_splits bind_splits)
      then have "topics s' = topics ?s \<and> groups s' = groups ?s" using fetchAll_keeps by metis
      with ok' show ?thesis by (simp add: groupsOK_def topicsOK_def)
    qed
  qed
qed

text \<open>The operations of the streams, in any order and with any outcome.\<close>

inductive stream_step :: "('db, 'txn) badger \<Rightarrow> ('db, 'v) Stream \<Rightarrow> ('db, 'v) Stream \<Rightarrow> bool" for B where
  ss_create: "CreateTopic B now s name n ret = Some (s', r1) \<Longrightarrow> stream_step B s s'"
| ss_publish: "Publish B E s topic p key val = Some (s', r2) \<Longrightarrow> stream_step B s s'"
| ss_batch: "PublishBatch B E s topic msgs = Some (s', r3) \<Longrightarrow> stream_step B s s'"
| ss_subscribe: "Subscribe B E s topic grp i = Some (s', r4) \<Longrightarrow> fairEnv (seLoad E) E \<Longrightarrow> stream_step B s s'"
| ss_unsubscribe: "Unsubscribe B E s topic grp i = Some (s', r5) \<Longrightarrow> fairEnv (seLoad E) E \<Longrightarrow> stream_step B s s'"
| ss_consume: "Consume B E s topic grp i n = Some (s', r6) \<Longrightarrow> stream_step B s s'"
| ss_commit: "Commit B now s topic grp p off = Some (s', r7) \<Longrightarrow> stream_step B s s'"
| ss_retention: "enforceRetention B E s = Some s' \<Longrightarrow> stream_step B s s'"
| ss_flush: "flushWorker B E ev (strStorage s) = Some st \<Longrightarrow> stream_step B s (s\<lparr>strStorage := st\<rparr>)"
| ss_close: "Stream_Close B E s = Some (s', r8) \<Longrightarrow> stream_step B s s'"

lemma groupsOK_step: "stream_step B s s' \<Longrightarrow> groupsOK s \<Longrightarrow> groupsOK s'"
proof (induction rule: stream_step.induct)
  case (ss_create now s name n ret s' r)
  then show ?case using CreateTopic_result groupsOK_same by (metis groupsOK_def)
next
  case (ss_publish E s topic p key val s' r)
  then obtain s1 r1 where 1: "ensureTopic B (seNow E) s topic = Some (s1, r1)"
    "topics s' = topics s1 \<and> groups s' = groups s1"
    by (auto simp: Publish_def split: bind_splits sum.splits dest!: onStreams_keeps)
  with ensureTopic_result ss_publish(2) show ?case by (metis groupsOK_def topicsOK_def)
next
  case (ss_batch E s topic msgs s' r)
  then obtain s1 r1 where 1: "ensureTopic B (seNow E) s topic = Some (s1, r1)"
    "topics s' = topics s1 \<and> groups s' = groups s1"
    by (auto simp: PublishBatch_def split: bind_splits sum.splits dest!: onStreams_keeps)
  with ensureTopic_result ss_batch(2) show ?case by (metis groupsOK_def topicsOK_def)
next
  case ss_subscribe
  then show ?case using Subscribe_result by blast
next
  case ss_unsubscribe
  then show ?case using Unsubscribe_result by blast
next
  case ss_consume
  then show ?case using Consume_result by blast
next
  case (ss_commit now s topic grp p off s' r)
  from onStreams_keeps [OF ss_commit(1) [unfolded Commit_def Let_def]] ss_commit(2)
  show ?case by (simp add: groupsOK_def topicsOK_def)
next
  case (ss_close E s s' r)
  from onStreams_keeps [OF ss_close(1) [unfolded Stream_Close_def Let_def flushOffsets_def]] ss_close(2)
  show ?case by (simp add: groupsOK_def topicsOK_def)
qed (auto simp: enforceRetention_def groupsOK_def topicsOK_def)

lemma groupsOK_reached:
  assumes "Stream_New opened = Inr s" and "(stream_step B)\<^sup>*\<^sup>* s s'"
  shows "groupsOK s'"
proof -
  have "groupsOK s" using assms(1) by (auto simp: Stream_New_def groupsOK_def topicsOK_def split: sum.splits)
  with assms(2) show ?thesis by (induction rule: rtranclp_induct) (auto dest: groupsOK_step)
qed

text \<open>C28: no partition of a consumer group is ever assigned to two consumers.  From the opening of the streams,
  whatever operations are performed in whatever order and with whatever outcome, failing rebalances included,
  the consumers of every group have distinct names, no consumer and no two consumers of a group hold a
  partition twice, and all cached topics have a number of partitions that is not negative.\<close>

theorem stream_groups_disjoint:
  assumes "Stream_New opened = Inr s" and "(stream_step B)\<^sup>*\<^sup>* s s'"
  shows "topicsOK s' \<and> (\<forall>grp g. groups s' grp = Some g \<longrightarrow> distinct (map fst (Consumers g)) \<and> distinct (partitionsOf g))"
proof -
  have "groupsOK s'" by (rule groupsOK_reached [OF assms])
  then show ?thesis by (simp add: groupsOK_def groupOK_def)
qed

definition memStream :: "(mem_db, 'v) Stream" where
  "memStream = projr (Stream_New (Inr []))"

lemma memStream_new: "Stream_New (Inr []) = (Inr memStream :: stream_err + (mem_db, 'v) Stream)"
  by (simp add: memStream_def Stream_New_def NewStreamStorage_def)

text \<open>The streams after creating a topic with three partitions and a first subscription.\<close>

definition memTopic :: "(mem_db, 'v) Stream" where
  "memTopic = fst (the (CreateTopic mem_badger 0 memStream [116] 3 0))"

definition memSubscribed :: "(mem_db, bytes) Stream" where
  "memSubscribed = fst (the (Subscribe mem_badger (plainEnv 0) memTopic [116] [103] [97]))"

lemma memSubscribed_reached: "(stream_step mem_badger)\<^sup>*\<^sup>* memStream memSubscribed"
proof -
  have "map_option snd (CreateTopic mem_badger 0 (memStream :: (mem_db, bytes) Stream) [116] 3 0) = Some (Inr ())"
    "map_option snd (Subscribe mem_badger (plainEnv 0) memTopic [116] [103] [97]) = Some (Inr ())" by code_simp+
  then obtain "CreateTopic mem_badger 0 (memStream :: (mem_db, bytes) Stream) [116] 3 0 = Some (memTopic, Inr ())"
    "Subscribe mem_badger (plainEnv 0) memTopic [116] [103] [97] = Some (memSubscribed, Inr ())"
    by (auto simp: memTopic_def memSubscribed_def)
  then have "stream_step mem_badger (memStream :: (mem_db, bytes) Stream) memTopic" "stream_step mem_badger memTopic memSubscribed"
    by (auto intro: ss_create ss_subscribe simp: fairEnv_def plainEnv_def)
  then show ?thesis by (meson converse_rtranclp_into_rtranclp rtranclp.rtrancl_refl)
qed

theorem stream_groups_disjoint_witness:
  "\<exists>g. groups memSubscribed [103] = Some g \<and> partitionsOf g = [0, 1, 2] \<and> distinct (partitionsOf g)"
proof -
  have "map_option partitionsOf (groups memSubscribed [103]) = Some [0, 1, 2]" by code_simp
  with stream_groups_disjoint [OF memStream_new memSubscribed_reached] show ?thesis by auto
qed

text \<open>A successful subscription assigns the topic's partitions completely and evenly.  From the opening of
  the streams, after any operations, when \<open>Subscribe\<close> succeeds the consumer is a member of the group, the
  partitions held by the consumers of the group are exactly those of the topic, each held once, and every
  consumer has \<open>P div n\<close> or one more of them, for \<open>P\<close> partitions and \<open>n\<close> consumers.\<close>

theorem stream_subscribe_assigns:
  assumes "Stream_New opened = Inr s0" and "(stream_step B)\<^sup>*\<^sup>* s0 s" and "fairEnv (seLoad E) E"
    and "Subscribe B E s topic grp i = Some (s', Inr ())"
  shows "\<exists>g meta. groups s' grp = Some g \<and> gTopic g = topic \<and> i \<in> set (map fst (Consumers g)) \<and>
    map_of (topics s') topic = Some meta \<and> assignedAll (Partitions meta) g"
proof -
  have "groupsOK s" by (rule groupsOK_reached [OF assms(1,2)])
  from Subscribe_result [OF assms(4) this assms(3)] show ?thesis by simp
qed

theorem stream_subscribe_assigns_witness:
  "\<exists>s' g. Subscribe mem_badger (plainEnv 5) memSubscribed [116] [103] [98] = Some (s', Inr ()) \<and>
     groups s' [103] = Some g \<and> map (\<lambda>(i, c). (i, cPartitions c)) (Consumers g) = [([97], [0, 1]), ([98], [2])] \<and>
     assignedAll 3 g"
proof -
  let ?r = "Subscribe mem_badger (plainEnv 5) memSubscribed [116] [103] [98]"
  have "map_option (\<lambda>(s, r). (r, map_option (\<lambda>g. map (\<lambda>(i, c). (i, cPartitions c)) (Consumers g)) (groups s [103]),
      map_option Partitions (map_of (topics s) [116]))) ?r =
    Some (Inr (), Some [([97], [0, 1]), ([98], [2])], Some 3)" by code_simp
  then obtain s' g meta where r: "?r = Some (s', Inr ())" "groups s' [103] = Some g"
    "map (\<lambda>(i, c). (i, cPartitions c)) (Consumers g) = [([97], [0, 1]), ([98], [2])]"
    "map_of (topics s') [116] = Some meta" "Partitions meta = 3" by auto
  have "fairEnv (seLoad (plainEnv 5)) (plainEnv 5)" by (simp add: fairEnv_def plainEnv_def)
  from stream_subscribe_assigns [OF memStream_new memSubscribed_reached this r(1)] r show ?thesis by auto
qed

end
