(* ===== verification/StreamConsume.thy ===== *)
theory StreamConsume
  imports StreamGroups
begin

text \<open>
  Publishing, consuming and committing through the streams: the offset a consumer continues at is the
  committed one, from the cache or the database, and what it gets are the messages of its partitions from
  there on.
\<close>

section \<open>Committed offsets\<close>

definition committedAt :: "('db, 'txn) badger \<Rightarrow> ('db, 'v) Stream \<Rightarrow> gostring \<Rightarrow> gostring \<Rightarrow> int \<Rightarrow> int64 \<Rightarrow> bool" where
  "committedAt B s grp topic p off \<longleftrightarrow>
     (case offsetCache s (cacheKey grp topic p) of
        Some c \<Rightarrow> c = off
      | None \<Rightarrow> \<forall>now. GetConsumerOffset B now (strStorage s) grp topic p = Some (Inr off))"

lemma cacheKey_eq: "cacheKey grp topic p = cacheKey grp topic q \<longleftrightarrow> p = q"
  by (simp add: cacheKey_def inj_lit)

lemma getCachedOffset_committed:
  assumes "committedAt B s grp topic p off"
  shows "\<exists>s'. getCachedOffset B now s grp topic p = Some (s', Inr off) \<and> strStorage s' = strStorage s \<and>
    topics s' = topics s \<and> groups s' = groups s \<and> (\<forall>q c. committedAt B s grp topic q c \<longrightarrow> committedAt B s' grp topic q c)"
proof (cases "offsetCache s (cacheKey grp topic p)")
  case None
  with assms have "GetConsumerOffset B now (strStorage s) grp topic p = Some (Inr off)" by (simp add: committedAt_def)
  with None assms show ?thesis
    by (auto simp: getCachedOffset_def committedAt_def cacheKey_eq Let_def split: option.splits)
next
  case (Some c)
  with assms show ?thesis by (auto simp: getCachedOffset_def committedAt_def)
qed

text \<open>Reading a consumer's offset is reading its key.\<close>

lemma GetConsumerOffset_reads:
  "GetConsumerOffset B now st grp topic p =
     (case dbReads B (sdb st) now (makeConsumerOffsetKey grp topic p) of
        Inl BadgerErrKeyNotFound \<Rightarrow> Some (Inr 0)
      | Inl e \<Rightarrow> Some (Inl (SBadger e))
      | Inr val \<Rightarrow> map_option (\<lambda>b. Inr (rd64 b)) (goslice val 0 8))"
  by (simp add: GetConsumerOffset_def View_def dbReads_def dbGet_def)

lemma consumerKey_not_message: "makeConsumerOffsetKey grp topic p \<noteq> makeMessageKey t' p' i"
  by (simp add: makeConsumerOffsetKey_def makeMessageKey_def lit_def)

lemma committedAt_storage:
  assumes "committedAt B s grp topic p off"
    and "\<And>now. dbReads B (sdb st) now (makeConsumerOffsetKey grp topic p) = dbReads B (sdb (strStorage s)) now (makeConsumerOffsetKey grp topic p)"
  shows "committedAt B (s\<lparr>strStorage := st\<rparr>) grp topic p off"
  using assms by (simp add: committedAt_def GetConsumerOffset_reads split: option.splits)

lemma committedAt_groups: "committedAt B (s\<lparr>groups := x\<rparr>) grp topic p off \<longleftrightarrow> committedAt B s grp topic p off"
  by (cases "offsetCache s (cacheKey grp topic p)") (simp_all add: committedAt_def)

section \<open>Consuming\<close>

context badger_store
begin

lemma fetchPartition_rep:
  assumes rep: "streamRep B (seLoad E) (strStorage s) L N" and fair: "fairEnv (seLoad E) E" and "clean topic" and "0 \<le> n"
    and off: "committedAt B s grp topic p off" and flush: "flushWrites B E (strStorage s) = Some (st, Inr ())"
  shows "\<exists>s'. fetchPartition B E grp topic n p s =
      Some (s', Inr (map (fetched L topic p) (take (nat n) (offsetsFrom L N topic p (sint off))))) \<and>
    strStorage s' = st \<and> (\<forall>q c. committedAt B s grp topic q c \<longrightarrow> committedAt B s' grp topic q c)"
proof -
  have visit: "mset (seVisitBuf E b) = mset b" for b using fair by (simp add: fairEnv_def)
  obtain s1 where s1: "getCachedOffset B (seNow E) s grp topic p = Some (s1, Inr off)" "strStorage s1 = strStorage s"
    "\<forall>q c. committedAt B s grp topic q c \<longrightarrow> committedAt B s1 grp topic q c"
    using getCachedOffset_committed [OF off] by blast
  have "dbReads B (sdb st) = layered (bufferKVs (seLoad E) (strStorage s)) (dbReads B (sdb (strStorage s)))"
    using flushWrites_rep [OF rep visit] flush by auto
  moreover have "makeConsumerOffsetKey grp topic q \<notin> set (map fst (bufferKVs (seLoad E) (strStorage s)))" for q
    by (auto simp: bufferKVs_def msgKey_def consumerKey_not_message)
  ultimately have "dbReads B (sdb st) now (makeConsumerOffsetKey grp topic q) =
      dbReads B (sdb (strStorage s1)) now (makeConsumerOffsetKey grp topic q)" for now q
    by (simp add: s1(2) layered_other del: set_map)
  then have "\<forall>q c. committedAt B s grp topic q c \<longrightarrow> committedAt B (s1\<lparr>strStorage := st\<rparr>) grp topic q c"
    using s1(3) committedAt_storage by blast
  with s1 FetchMessages_rep [OF rep visit flush \<open>clean topic\<close> \<open>0 \<le> n\<close>, of p off] show ?thesis
    by (simp add: fetchPartition_def onStreams_def)
qed

lemma fetchAll_rep:
  assumes "streamRep B (seLoad E) (strStorage s) L N" and fair: "fairEnv (seLoad E) E" and "clean topic" and "0 \<le> n"
    and "\<forall>p\<in>set ps. committedAt B s grp topic p (off p)" and "flushWrites B E (strStorage s) = Some (st, Inr ())"
  shows "\<exists>s'. fetchAll B E grp topic n ps s =
      Some (s', map (\<lambda>p. Inr (map (fetched L topic p) (take (nat n) (offsetsFrom L N topic p (sint (off p)))))) ps) \<and>
    streamRep B (seLoad E) (strStorage s') L N"
  using assms(1,5,6)
proof (induction ps arbitrary: s st)
  case (Cons p ps)
  have visit: "mset (seVisitBuf E b) = mset b" for b using fair by (simp add: fairEnv_def)
  obtain s1 where s1: "fetchPartition B E grp topic n p s =
      Some (s1, Inr (map (fetched L topic p) (take (nat n) (offsetsFrom L N topic p (sint (off p))))))"
    "strStorage s1 = st" "\<forall>q c. committedAt B s grp topic q c \<longrightarrow> committedAt B s1 grp topic q c"
    using fetchPartition_rep [OF Cons.prems(1) fair assms(3,4) _ Cons.prems(3)] Cons.prems(2) by (metis list.set_intros(1))
  have st: "streamRep B (seLoad E) st L N" "writeBuffer st = []"
    using flushWrites_rep [OF Cons.prems(1) visit] Cons.prems(3) by auto
  then have "flushWrites B E (strStorage s1) = Some (st, Inr ())" by (simp add: s1(2) flushWrites_def)
  with Cons.IH [of s1 st] Cons.prems(2) s1 st(1) show ?case by auto
qed auto

end

text \<open>What the collecting loop keeps: the results of some of the partitions, all of them if there are not
  enough messages, and not more messages than asked for unless none was asked for.\<close>

lemma collect_prefix:
  "\<exists>ps'. prefix ps' ps \<and> collect cnt (map (\<lambda>p. Inr (f p)) ps) acc = Inr (acc @ concat (map f ps')) \<and>
     (int (length (acc @ concat (map f ps'))) < cnt \<longrightarrow> ps' = ps)"
proof (induction ps arbitrary: acc)
  case Nil
  show ?case by simp
next
  case (Cons p ps)
  show ?case
  proof (cases "cnt \<le> int (length (acc @ f p))")
    case True
    then show ?thesis by (intro exI [of _ "[p]"]) simp
  next
    case False
    from Cons [of "acc @ f p"] obtain ps' where "prefix ps' ps"
      "collect cnt (map (\<lambda>p. Inr (f p)) ps) (acc @ f p) = Inr ((acc @ f p) @ concat (map f ps'))"
      "int (length ((acc @ f p) @ concat (map f ps'))) < cnt \<longrightarrow> ps' = ps" by blast
    with False show ?thesis by (intro exI [of _ "p # ps'"]) simp
  qed
qed

lemma collect_bound:
  assumes "\<And>p. int (length (f p)) \<le> k"
    and "int (length acc) + k * int (length ps) \<le> cnt \<or> k = 1 \<and> (acc = [] \<or> int (length acc) < cnt)"
    and "collect cnt (map (\<lambda>p. Inr (f p)) ps) acc = Inr ms"
  shows "int (length ms) \<le> max 1 cnt"
  using assms(2,3)
proof (induction ps arbitrary: acc)
  case Nil
  then show ?case by auto
next
  case (Cons p ps)
  let ?acc = "acc @ f p"
  have add: "int (length ?acc) \<le> int (length acc) + k" using assms(1) [of p] by simp
  have "0 \<le> k" using assms(1) [of p] by linarith
  then have part: "0 \<le> k * int (length ps)" by simp
  show ?case
  proof (cases "cnt \<le> int (length ?acc)")
    case True
    with Cons.prems(2) have "ms = ?acc" by simp
    moreover have "k * int (length (p # ps)) = k + k * int (length ps)" by (simp add: algebra_simps)
    then have "int (length ?acc) \<le> max 1 cnt" using Cons.prems(1) add part by (elim disjE) (linarith, auto)
    ultimately show ?thesis by simp
  next
    case False
    with Cons.prems(2) have "collect cnt (map (\<lambda>p. Inr (f p)) ps) ?acc = Inr ms" by simp
    moreover have "int (length ?acc) + k * int (length ps) \<le> cnt \<or> k = 1 \<and> (?acc = [] \<or> int (length ?acc) < cnt)"
      using Cons.prems(1) add False by (auto simp: algebra_simps)
    ultimately show ?thesis using Cons.IH by blast
  qed
qed

definition perPartition :: "int \<Rightarrow> 'a list \<Rightarrow> int" where
  "perPartition cnt ps = (let n = cnt div int (length ps) in if n = 0 then 1 else n)"

text \<open>The messages of a partition that one \<open>Consume\<close> returns: from the committed offset on.\<close>

definition delivered ::
  "logs \<Rightarrow> (gostring \<times> int \<Rightarrow> nat) \<Rightarrow> gostring \<Rightarrow> int \<Rightarrow> (int \<Rightarrow> int64) \<Rightarrow> int \<Rightarrow> bytes Message list" where
  "delivered L N topic n off p = map (fetched L topic p) (take (nat n) (offsetsFrom L N topic p (sint (off p))))"

context badger_store
begin

lemma Consume_rep:
  assumes rep: "streamRep B (seLoad E) (strStorage s) L N" and fair: "fairEnv (seLoad E) E" and "clean topic" and "0 \<le> cnt"
    and g: "groups s grp = Some g" "map_of (Consumers g) i = Some c" "cPartitions c \<noteq> []"
    and off: "\<forall>p\<in>set (cPartitions c). committedAt B s grp topic p (off p)"
    and flush: "flushWrites B E (strStorage s) = Some (st, Inr ())"
  shows "\<exists>s' ps. prefix ps (seVisitParts E (cPartitions c)) \<and>
    Consume B E s topic grp i cnt =
      Some (s', Inr (concat (map (delivered L N topic (perPartition cnt (cPartitions c)) off) ps))) \<and>
    (int (length (concat (map (delivered L N topic (perPartition cnt (cPartitions c)) off) ps))) < cnt \<longrightarrow>
       ps = seVisitParts E (cPartitions c)) \<and>
    int (length (concat (map (delivered L N topic (perPartition cnt (cPartitions c)) off) ps))) \<le> max 1 cnt \<and>
    streamRep B (seLoad E) (strStorage s') L N"
proof -
  let ?ps = "seVisitParts E (cPartitions c)" and ?n = "perPartition cnt (cPartitions c)"
  let ?f = "delivered L N topic ?n off"
  define s1 where "s1 = s\<lparr>groups := (groups s)(grp \<mapsto> g\<lparr>Consumers := AList.update i (c\<lparr>LastSeen := seNow E\<rparr>) (Consumers g)\<rparr>)\<rparr>"
  have perm: "mset ?ps = mset (cPartitions c)" using fair by (simp add: fairEnv_def)
  then have set_ps: "set ?ps = set (cPartitions c)" by (rule mset_eq_setD)
  have n: "0 \<le> ?n" using \<open>0 \<le> cnt\<close> by (simp add: perPartition_def Let_def pos_imp_zdiv_nonneg_iff div_int_pos_iff)
  have "\<forall>p\<in>set ?ps. committedAt B s1 grp topic p (off p)" using off unfolding set_ps by (simp add: s1_def committedAt_groups)
  from fetchAll_rep [of E s1 L N topic ?n ?ps grp off st, OF _ fair \<open>clean topic\<close> n this] rep flush
  obtain s' where s': "fetchAll B E grp topic ?n ?ps s1 = Some (s', map (\<lambda>p. Inr (?f p)) ?ps)"
    "streamRep B (seLoad E) (strStorage s') L N"
    by (auto simp: s1_def delivered_def)
  have run: "Consume B E s topic grp i cnt = Some (s', collect cnt (map (\<lambda>p. Inr (?f p)) ?ps) [])"
    using s'(1) g \<open>0 \<le> cnt\<close> by (simp add: Consume_def Let_def s1_def perPartition_def)
  obtain ps where ps: "prefix ps ?ps" "collect cnt (map (\<lambda>p. Inr (?f p)) ?ps) [] = Inr (concat (map ?f ps))"
    "int (length (concat (map ?f ps))) < cnt \<longrightarrow> ps = ?ps"
    using collect_prefix [of ?ps cnt ?f "[]"] by auto
  have "int (length (?f p)) \<le> ?n" for p using n by (simp add: delivered_def)
  moreover have "?n * int (length ?ps) \<le> cnt \<or> ?n = 1"
  proof (cases "?n = 1")
    case False
    then have "?n * int (length ?ps) = cnt - cnt mod int (length ?ps)"
      unfolding mset_eq_length [OF perm] perPartition_def minus_mod_eq_div_mult by (simp add: Let_def split: if_splits)
    moreover have "0 < int (length ?ps)" using g(3) mset_eq_length [OF perm] by simp
    ultimately show ?thesis using pos_mod_sign by simp
  qed simp
  ultimately have "int (length (concat (map ?f ps))) \<le> max 1 cnt"
    using collect_bound [OF _ _ ps(2), of ?n] by auto
  with run ps s'(2) show ?thesis by auto
qed

end

section \<open>Committing\<close>

text \<open>Writes to other keys than those of messages and offsets leave the logs alone.\<close>

lemma streamRep_db:
  assumes "streamRep B load s L N"
    and "\<And>u k. prefix (lit ''stream:msg:'') k \<or> (\<exists>t p. k = makeOffsetKey t p) \<Longrightarrow> dbReads B d u k = dbReads B (sdb s) u k"
  shows "streamRep B load (s\<lparr>sdb := d\<rparr>) L N"
proof -
  have "logReads (layered kvs (dbReads B d)) L" if "logReads (layered kvs (dbReads B (sdb s))) L" for kvs
  proof -
    have "layered kvs (dbReads B d) u k = layered kvs (dbReads B (sdb s)) u k" if "prefix (lit ''stream:msg:'') k" for u k
      using assms(2) that by (cases "map_of kvs k") (simp_all add: layered_def)
    with that show ?thesis unfolding logReads_def by simp
  qed
  moreover have "noOffsets (dbReads B (sdb s))" using assms(1) by (simp add: streamRep_def)
  then have "noOffsets (dbReads B d)" unfolding noOffsets_def using assms(2) by metis
  ultimately show ?thesis
    using assms(1) by (simp add: streamRep_def bufferKVs_def buffered_def counterOK_def)
qed

lemma otherKeys:
  "\<not> prefix (lit ''stream:msg:'') (makeConsumerOffsetKey grp topic p)" "makeConsumerOffsetKey grp topic p \<noteq> makeOffsetKey t q"
  "\<not> prefix (lit ''stream:msg:'') (makeTopicMetaKey name)" "makeTopicMetaKey name \<noteq> makeOffsetKey t q"
  by (simp_all add: makeConsumerOffsetKey_def makeTopicMetaKey_def makeOffsetKey_def lit_def)

definition putKey ::
  "('db, 'txn) badger \<Rightarrow> time \<Rightarrow> bytes \<Rightarrow> bytes \<Rightarrow> 'txn \<Rightarrow> ('txn \<times> unit) sstep" where
  "putKey B now k v txn = checked (streamCall (txnSetEntry B txn now k v 0)) (\<lambda>txn. Some (Inr (txn, ())))"

definition offsetData :: "int64 \<Rightarrow> time \<Rightarrow> bytes" where
  "offsetData off now = be64 off @ be64 (UnixMilli now)"

context badger_store
begin

lemma putKey_rep:
  assumes rep: "streamRep B load st L N" and k: "\<not> prefix (lit ''stream:msg:'') k" "\<And>t p. k \<noteq> makeOffsetKey t p"
  shows "\<exists>st' r. sUpdate B st (putKey B now k v) = Some (st', r) \<and> streamRep B load st' L N \<and>
    (case r of Inl e \<Rightarrow> st' = st | Inr _ \<Rightarrow> dbReads B (sdb st') = gput k v (dbReads B (sdb st)))"
proof (cases "txnSetEntry B (NewTransaction B (sdb st)) now k v 0")
  case (Inl e)
  then show ?thesis
    using rep by (simp add: sUpdate_def UpdateP_def Update_def putKey_def checked_def streamCall_def)
next
  case (Inr t)
  have "putKey B now k v (NewTransaction B (sdb st)) = Some (Inr (t, ()))"
    using Inr by (simp add: putKey_def checked_def streamCall_def)
  moreover have "plain_txn B (sdb st) t" using plain_set [OF plain_begin Inr] .
  ultimately obtain st' r where st': "sUpdate B st (putKey B now k v) = Some (st', r)" "st' = st\<lparr>sdb := sdb st'\<rparr>"
    "case r of Inl e \<Rightarrow> sdb st' = sdb st | Inr a \<Rightarrow> dbReads B (sdb st') = txnReads B t"
    using sUpdate_plain [of "putKey B now k v" st "Inr (t, ())"] by (fastforce split: sum.splits)
  show ?thesis
  proof (cases r)
    case (Inl e)
    with st'(3) have "sdb st' = sdb st" by simp
    with st'(2) have "st' = st\<lparr>sdb := sdb st\<rparr>" by metis
    with st'(1) Inl rep show ?thesis by simp
  next
    case r: (Inr a)
    with st'(3) reads_set [OF Inr] have db: "dbReads B (sdb st') = gput k v (dbReads B (sdb st))" by (simp add: reads_begin)
    have "streamRep B load (st\<lparr>sdb := sdb st'\<rparr>) L N"
      by (rule streamRep_db [OF rep]) (use k in \<open>auto simp: db gput_def\<close>)
    then have "streamRep B load st' L N" using st'(2) by metis
    with st'(1) r db show ?thesis by simp
  qed
qed

lemma CommitOffset_rep:
  assumes rep: "streamRep B load st L N"
  shows "\<exists>st' r. CommitOffset B now st grp topic p off = Some (st', r) \<and> streamRep B load st' L N \<and>
    (case r of Inl e \<Rightarrow> st' = st
     | Inr _ \<Rightarrow> dbReads B (sdb st') = gput (makeConsumerOffsetKey grp topic p) (offsetData off now) (dbReads B (sdb st)))"
proof -
  have "CommitOffset B now st grp topic p off =
      sUpdate B st (putKey B now (makeConsumerOffsetKey grp topic p) (offsetData off now))"
    by (simp add: CommitOffset_def offsetData_def cursor_simps putKey_def [abs_def])
  with putKey_rep [OF rep otherKeys(1,2)] show ?thesis by simp
qed

lemma CreateTopic_rep:
  assumes rep: "streamRep B load (strStorage s) L N"
  shows "\<exists>s' r. CreateTopic B now s name n ret = Some (s', r) \<and> streamRep B load (strStorage s') L N \<and>
    groups s' = groups s \<and> offsetCache s' = offsetCache s \<and>
    (r = Inr () \<longrightarrow> (\<exists>meta. map_of (topics s') name = Some meta \<and> Partitions meta = (if n \<le> 0 then 4 else n)))"
proof -
  let ?meta = "\<lparr>tmName = name, Partitions = if n \<le> 0 then 4 else n,
    RetentionMs = if ret \<le>s 0 then 7 * 24 * 60 * 60 * 1000 else ret, RetentionBytes = 0, CreatedAt = UnixMilli now\<rparr>"
  have "Storage_CreateTopic B now (strStorage s) ?meta =
      sUpdate B (strStorage s) (putKey B now (makeTopicMetaKey name) (topicData ?meta))"
    by (simp add: Storage_CreateTopic_def encodeTopicMetadata_eq putKey_def [abs_def])
  then obtain st' r where "Storage_CreateTopic B now (strStorage s) ?meta = Some (st', r)" "streamRep B load st' L N"
    using putKey_rep [OF rep otherKeys(3,4)] by metis
  then show ?thesis
    by (cases r) (auto simp: CreateTopic_def Let_def onStreams_def update_conv')
qed

text \<open>A commit sets the offset the group continues at, in the cache whatever happens, in the database when it
  succeeds.\<close>

lemma Commit_rep:
  assumes rep: "streamRep B load (strStorage s) L N"
  shows "\<exists>s' r. Commit B now s topic grp p off = Some (s', r) \<and> streamRep B load (strStorage s') L N \<and>
    committedAt B s' grp topic p off \<and> topics s' = topics s \<and> groups s' = groups s \<and>
    (r = Inr () \<longrightarrow> (\<forall>u. GetConsumerOffset B u (strStorage s') grp topic p = Some (Inr off)))"
proof -
  obtain st' r where st': "CommitOffset B now (strStorage s) grp topic p off = Some (st', r)" "streamRep B load st' L N"
    "case r of Inl e \<Rightarrow> st' = strStorage s
     | Inr _ \<Rightarrow> dbReads B (sdb st') = gput (makeConsumerOffsetKey grp topic p) (offsetData off now) (dbReads B (sdb (strStorage s)))"
    using CommitOffset_rep [OF rep] by blast
  have "GetConsumerOffset B u st' grp topic p = Some (Inr off)" if "r = Inr ()" for u
    using st'(3) that by (simp add: GetConsumerOffset_reads gput_def offsetData_def read_simps)
  with st'(1,2) show ?thesis
    by (auto simp: Commit_def onStreams_def Let_def committedAt_def)
qed

end

section \<open>Publishing\<close>

lemma goRem_range: "0 \<le> a \<Longrightarrow> 0 < b \<Longrightarrow> goRem a b = Some (a mod b) \<and> 0 \<le> a mod b \<and> a mod b < b"
  by (simp add: goRem_def)

text \<open>The partition a message goes to is one of the topic's: the one asked for if it exists, else the one of
  the key's hash, else, without a key, one that depends on the time.\<close>

lemma selectPartition_range:
  assumes "0 < P" and "0 \<le> now"
  shows "\<exists>q. selectPartition now P p key = Some q \<and> 0 \<le> q \<and> q < P \<and>
    (0 \<le> p \<and> p < P \<longrightarrow> q = p) \<and> (\<not> (0 \<le> p \<and> p < P) \<and> key \<noteq> [] \<longrightarrow> q = uint (fnv32a key) mod P)"
  using goRem_range [OF assms(2,1)] goRem_range [of "uint (fnv32a key)", OF _ assms(1)] assms(1)
  by (auto simp: selectPartition_def not_le)

context badger_store
begin

lemma Publish_rep:
  assumes rep: "streamRep B load (strStorage s) L N" and fair: "fairEnv load E" and fit: "fits load topic key val"
    and meta: "map_of (topics s) topic = Some meta" "0 < Partitions meta" and now: "0 \<le> seNow E"
    and N: "\<forall>q. N (topic, q) < 2 ^ 63"
  shows "\<exists>s' q. selectPartition (seNow E) (Partitions meta) p key = Some q \<and> 0 \<le> q \<and> q < Partitions meta \<and>
    Publish B E s topic p key val = Some (s', Inr (word_of_nat (N (topic, q)))) \<and>
    streamRep B load (strStorage s') (appendLog L topic q (N (topic, q)) (key, load val, UnixMilli (seNow E)))
      (N((topic, q) := N (topic, q) + 1)) \<and>
    topics s' = topics s \<and> groups s' = groups s \<and> offsetCache s' = offsetCache s"
proof -
  obtain q where q: "selectPartition (seNow E) (Partitions meta) p key = Some q" "0 \<le> q" "q < Partitions meta"
    using selectPartition_range [OF meta(2) now] by blast
  obtain st where st: "AppendMessage B E (strStorage s) topic q key val = Some (st, word_of_nat (N (topic, q)))"
    "streamRep B load st (appendLog L topic q (N (topic, q)) (key, load val, UnixMilli (seNow E))) (N((topic, q) := N (topic, q) + 1))"
    using append_next [OF rep fair fit] N by blast
  have "ensureTopic B (seNow E) s topic = Some (s, Inr meta)" using meta(1) by (simp add: ensureTopic_def GetTopicMetadata_def)
  with q st show ?thesis by (auto simp: Publish_def onStreams_def)
qed

end

section \<open>Properties\<close>

text \<open>C29: publishing.  For a known topic with partitions, \<open>Publish\<close> succeeds and picks a partition of the topic:
  the requested one if the topic has it, otherwise, for a message with a key, the one given by the key's hash
  alone.  The message gets the next offset of that partition, and nothing else changes in any log.\<close>

theorem stream_publish:
  assumes "badger_store B" and "streamRep B load (strStorage s) L N" and "fairEnv load E" and "fits load topic key val"
    and "map_of (topics s) topic = Some meta" and "0 < Partitions meta" and "0 \<le> seNow E" and "\<forall>q. N (topic, q) < 2 ^ 63"
  shows "\<exists>s' q. Publish B E s topic p key val = Some (s', Inr (word_of_nat (N (topic, q)))) \<and> 0 \<le> q \<and> q < Partitions meta \<and>
    (0 \<le> p \<and> p < Partitions meta \<longrightarrow> q = p) \<and>
    (\<not> (0 \<le> p \<and> p < Partitions meta) \<and> key \<noteq> [] \<longrightarrow> q = uint (fnv32a key) mod Partitions meta) \<and>
    streamRep B load (strStorage s') (appendLog L topic q (N (topic, q)) (key, load val, UnixMilli (seNow E)))
      (N((topic, q) := N (topic, q) + 1))"
  using badger_store.Publish_rep [OF assms(1-8), of p] selectPartition_range [OF assms(6,7), of p key] by auto

text \<open>The in-memory streams after creating a topic represent empty logs.\<close>

lemma memStream_rep: "streamRep mem_badger load (strStorage memStream) (\<lambda>_. Map.empty) (\<lambda>_. 0)"
proof -
  have "NewStreamStorage (Inr []) = Inr (strStorage memStream)"
    by (simp add: memStream_def Stream_New_def NewStreamStorage_def)
  from streamRep_fresh [OF this noStreams_mem] show ?thesis .
qed

lemma memTopic_created: "map_option snd (CreateTopic mem_badger 0 (memStream :: (mem_db, 'v) Stream) [116] 3 0) = Some (Inr ())"
  by code_simp

lemma memTopic_rep:
  fixes load :: "'v \<Rightarrow> bytes"
  obtains meta where "streamRep mem_badger load (strStorage memTopic) (\<lambda>_. Map.empty) (\<lambda>_. 0)"
    "map_of (topics (memTopic :: (mem_db, 'v) Stream)) [116] = Some meta" "Partitions meta = 3"
proof -
  obtain s' r where c: "CreateTopic mem_badger 0 (memStream :: (mem_db, 'v) Stream) [116] 3 0 = Some (s', r)"
    "streamRep mem_badger load (strStorage s') (\<lambda>_. Map.empty) (\<lambda>_. 0)"
    "r = Inr () \<longrightarrow> (\<exists>meta. map_of (topics s') [116] = Some meta \<and> Partitions meta = 3)"
    using mem.CreateTopic_rep [OF memStream_rep [of load], of 0 "[116]" 3 0] by auto
  with memTopic_created [where 'v = 'v] that show thesis by (auto simp: memTopic_def)
qed

lemma plainEnv_simps [simp]: "seLoad (plainEnv now) = id" "seNow (plainEnv now) = now"
  by (simp_all add: plainEnv_def)

theorem stream_publish_witness:
  "\<exists>s' q. Publish mem_badger (plainEnv 0) memTopic [116] (- 1) [107] [1] = Some (s', Inr 0) \<and> q = uint (fnv32a [107]) mod 3 \<and>
     streamRep mem_badger id (strStorage s') (appendLog (\<lambda>_. Map.empty) [116] q 0 ([107], [1], 0)) ((\<lambda>_. 0)(([116], q) := 1))"
proof -
  obtain meta where m: "streamRep mem_badger id (strStorage memTopic) (\<lambda>_. Map.empty) (\<lambda>_. 0)"
    "map_of (topics (memTopic :: (mem_db, bytes) Stream)) [116] = Some meta" "Partitions meta = 3" by (rule memTopic_rep [of id])
  have fit: "fits id [116] [107] [1 :: byte]" by (simp add: fits_def clean_def)
  have "0 < Partitions meta" "0 \<le> seNow (plainEnv 0)" using m(3) by simp_all
  from stream_publish [OF mem.badger_store_axioms m(1) fair_plainEnv [of 0] fit m(2) this, of "- 1"] m(3)
  show ?thesis by (auto simp: UnixMilli_def)
qed


lemma Subscribe_storage: "Subscribe B E s topic grp i = Some (s', r) \<Longrightarrow> strStorage s' = strStorage s \<and> offsetCache s' = offsetCache s"
  by (auto simp: Subscribe_def rebalanceGroup_def GetTopicMetadata_def Let_def
      split: if_splits option.splits bind_splits sum.splits)

lemma memSubscribed_rep: "streamRep mem_badger id (strStorage memSubscribed) (\<lambda>_. Map.empty) (\<lambda>_. 0)"
proof -
  have "map_option snd (Subscribe mem_badger (plainEnv 0) memTopic [116] [103] [97]) = Some (Inr ())" by code_simp
  then have "strStorage memSubscribed = strStorage memTopic" using Subscribe_storage by (fastforce simp: memSubscribed_def)
  then show ?thesis using memTopic_rep [of id] by metis
qed

definition memPublished :: "(mem_db, bytes) Stream" where
  "memPublished = fst (the (Publish mem_badger (plainEnv 0) memSubscribed [116] 1 [107] [1]))"

lemma memPublished_rep:
  obtains L N where "streamRep mem_badger id (strStorage memPublished) L N"
proof -
  have "map_option Partitions (map_of (topics memSubscribed) [116]) = Some 3" by code_simp
  then obtain meta where meta: "map_of (topics memSubscribed) [116] = Some meta" "Partitions meta = 3" by auto
  have "fits id [116] [107] [1 :: byte]" by (simp add: fits_def clean_def)
  from mem.Publish_rep [OF memSubscribed_rep fair_plainEnv [of 0] this meta(1), of 1] meta(2) that show thesis
    by (auto simp: memPublished_def)
qed

lemma memPublished_committed: "p \<in> {0, 1, 2} \<Longrightarrow> committedAt mem_badger memPublished [103] [116] p 0"
proof -
  assume p: "p \<in> {0, 1, 2}"
  have "offsetCache memPublished (cacheKey [103] [116] 0) = None" "offsetCache memPublished (cacheKey [103] [116] 1) = None"
    "offsetCache memPublished (cacheKey [103] [116] 2) = None" by code_simp+
  with p have "offsetCache memPublished (cacheKey [103] [116] p) = None" by auto
  moreover have keys: "map fst (sdb (strStorage memPublished)) = [makeTopicMetaKey [116]]" by code_simp
  have "makeConsumerOffsetKey [103] [116] p \<notin> set (map fst (sdb (strStorage memPublished)))"
    unfolding keys by (simp add: makeConsumerOffsetKey_def makeTopicMetaKey_def lit_def)
  then have "map_of (sdb (strStorage memPublished)) (makeConsumerOffsetKey [103] [116] p) = None"
    by (simp add: map_of_eq_None_iff)
  ultimately show ?thesis
    by (simp add: committedAt_def GetConsumerOffset_reads dbReads_def mem_eval)
qed


text \<open>Committing.  \<open>Commit\<close> never panics and changes no log.  Whatever its outcome, the group continues at
  the committed offset in the running server, because the cache is updated before the database; when it
  succeeds, the database gives the same offset to a server started later.\<close>

theorem stream_commit:
  assumes "badger_store B" and "streamRep B load (strStorage s) L N"
  shows "\<exists>s' r. Commit B now s topic grp p off = Some (s', r) \<and> streamRep B load (strStorage s') L N \<and>
    committedAt B s' grp topic p off \<and>
    (r = Inr () \<longrightarrow> (\<forall>u. GetConsumerOffset B u (strStorage s') grp topic p = Some (Inr off)))"
  using badger_store.Commit_rep [OF assms] by blast

theorem stream_commit_witness:
  "\<exists>s'. Commit mem_badger 9 memPublished [116] [103] 1 5 = Some (s', Inr ()) \<and> committedAt mem_badger s' [103] [116] 1 5 \<and>
     GetConsumerOffset mem_badger 11 (strStorage s') [103] [116] 1 = Some (Inr 5)"
proof -
  obtain L N where rep: "streamRep mem_badger id (strStorage memPublished) L N" by (rule memPublished_rep)
  obtain s' r where c: "Commit mem_badger 9 memPublished [116] [103] 1 5 = Some (s', r)" "committedAt mem_badger s' [103] [116] 1 5"
    "r = Inr () \<longrightarrow> (\<forall>u. GetConsumerOffset mem_badger u (strStorage s') [103] [116] 1 = Some (Inr 5))"
    using stream_commit [OF mem.badger_store_axioms rep] by blast
  have "map_option snd (Commit mem_badger 9 memPublished [116] [103] 1 5) = Some (Inr ())" by code_simp
  with c show ?thesis by auto
qed

end
