(* ===== verification/StreamRetain.thy ===== *)
theory StreamRetain
  imports StreamConsume
begin

text \<open>
  Retention: \<open>DeleteOldMessages\<close> removes the messages of a partition whose timestamp is before the cut-off,
  exactly these, and leaves offsets and all other partitions as they are.
\<close>

section \<open>What retention keeps\<close>

definition tooOld :: "logs \<Rightarrow> gostring \<Rightarrow> int \<Rightarrow> int64 \<Rightarrow> nat \<Rightarrow> bool" where
  "tooOld L t p cutoff i = (case L (t, p) i of None \<Rightarrow> False | Some (key, val, ts) \<Rightarrow> ts <s cutoff)"

definition retained :: "logs \<Rightarrow> gostring \<Rightarrow> int \<Rightarrow> int64 \<Rightarrow> logs" where
  "retained L t p cutoff = L((t, p) := (\<lambda>i. if tooOld L t p cutoff i then None else L (t, p) i))"

definition gdels :: "bytes set \<Rightarrow> reads \<Rightarrow> reads" where
  "gdels K g = (\<lambda>u k. if k \<in> K then Inl BadgerErrKeyNotFound else g u k)"

lemma oldLoop_items:
  assumes "wfLogs L"
  shows "\<forall>i\<in>set is. L (t, p) i \<noteq> None \<Longrightarrow>
    oldLoop c (map (scanItem L t p) is) acc =
      Some (Inr (acc @ map (\<lambda>i. makeMessageKey t p (word_of_nat i)) (filter (tooOld L t p c) is)))"
proof (induction "is" arbitrary: acc)
  case (Cons i "is")
  then obtain key val ts where e: "L (t, p) i = Some (key, val, ts)" by auto
  then have "length key < 2 ^ 16" "length val < 2 ^ 32" using assms unfolding wfLogs_def by blast+
  then have dec: "decodeMessage (messageData (entryMsg t p i (key, val, ts))) = Some (Inr (entryMsg [] 0 i (key, val, ts)))"
    by (subst decode_messageData) (simp_all add: entryMsg_def)
  have "mTimestamp (entryMsg [] 0 i (key, val, ts)) = ts" "tooOld L t p c i \<longleftrightarrow> ts <s c"
    by (simp_all add: entryMsg_def tooOld_def e)
  then show ?case
    using Cons e by (simp add: scanItem_def streamCall_def checked_def streamFormat_def dec)
qed simp

lemma inLogs_retained:
  assumes wf: "wfLogs L" and "clean t" and K: "K = (\<lambda>i. makeMessageKey t p (word_of_nat i)) ` {i. tooOld L t p c i}"
  shows "inLogs (retained L t p c) k v \<longleftrightarrow> inLogs L k v \<and> k \<notin> K"
proof
  assume "inLogs (retained L t p c) k v"
  then obtain t' p' i e where i: "retained L t p c (t', p') i = Some e" "k = makeMessageKey t' p' (word_of_nat i)"
    "v = messageData (entryMsg t' p' i e)" unfolding inLogs_def by blast
  then have L: "L (t', p') i = Some e" and new: "\<not> ((t', p') = (t, p) \<and> tooOld L t p c i)"
    by (auto simp: retained_def split: if_splits)
  have "k \<notin> K"
  proof
    assume "k \<in> K"
    then obtain j where j: "k = makeMessageKey t p (word_of_nat j)" "tooOld L t p c j" unfolding K by blast
    from j(2) obtain e' where "L (t, p) j = Some e'" by (auto simp: tooOld_def split: option.splits)
    with j i(2) L wfLogsD [OF wf] have "t' = t \<and> p' = p \<and> i = j" by (metis streamKey_inj)
    with new j(2) show False by simp
  qed
  with L i(2,3) show "inLogs L k v \<and> k \<notin> K" unfolding inLogs_def by blast
next
  assume *: "inLogs L k v \<and> k \<notin> K"
  then obtain t' p' i e where i: "L (t', p') i = Some e" "k = makeMessageKey t' p' (word_of_nat i)"
    "v = messageData (entryMsg t' p' i e)" unfolding inLogs_def by blast
  with * have "retained L t p c (t', p') i = Some e" by (auto simp: retained_def K)
  with i show "inLogs (retained L t p c) k v" unfolding inLogs_def by blast
qed

lemma logReads_retained:
  assumes "logReads g L" and "clean t" and K: "K = (\<lambda>i. makeMessageKey t p (word_of_nat i)) ` {i. tooOld L t p c i}"
  shows "logReads (gdels K g) (retained L t p c)"
proof -
  have wf: "wfLogs L" using assms(1) by (simp add: logReads_def)
  have sub: "retained L t p c (t', p') i = Some e \<Longrightarrow> L (t', p') i = Some e" for t' p' i e
    by (auto simp: retained_def split: if_splits)
  with wf have "wfLogs (retained L t p c)" unfolding wfLogs_def by blast
  with assms(1) show ?thesis
    unfolding logReads_def inLogs_retained [OF wf assms(2) K] gdels_def by auto
qed

context badger_store
begin

lemma deleteLoop_reads:
  "plain_txn B d t \<Longrightarrow> \<exists>r. deleteLoop B keys t n = Some r \<and>
     (case r of Inl e \<Rightarrow> \<exists>b. e = SBadger b
      | Inr (t', m) \<Rightarrow> plain_txn B d t' \<and> txnReads B t' = gdels (set keys) (txnReads B t) \<and> m = n + length keys)"
proof (induction keys arbitrary: t n)
  case Nil
  then show ?case by (simp add: gdels_def)
next
  case (Cons k keys)
  show ?case
  proof (cases "txnDelete B t k")
    case (Inl b)
    then show ?thesis by (simp add: streamCall_def checked_def)
  next
    case (Inr t')
    with Cons.prems have "plain_txn B d t'" by (blast intro: plain_del)
    from Cons.IH [OF this, of "n + 1"] obtain r where r: "deleteLoop B keys t' (n + 1) = Some r"
      "case r of Inl e \<Rightarrow> \<exists>b. e = SBadger b
       | Inr (t'', m) \<Rightarrow> plain_txn B d t'' \<and> txnReads B t'' = gdels (set keys) (txnReads B t') \<and> m = n + 1 + length keys"
      by blast
    have "deleteLoop B (k # keys) t n = Some r" using Inr r(1) by (simp add: streamCall_def checked_def)
    moreover have "gdels (set keys) (txnReads B t') = gdels (set (k # keys)) (txnReads B t)"
      unfolding reads_del [OF Inr] by (auto simp: gdels_def gdel_def fun_eq_iff)
    ultimately show ?thesis using r(2) by (cases r) auto
  qed
qed

lemma DeleteOldMessages_rep:
  assumes rep: "streamRep B load s L N" and buf: "writeBuffer s = []" and "clean t" and c: "c = UnixMilli now - ret"
  shows "\<exists>s' r. DeleteOldMessages B now s t p ret = Some (s', r) \<and>
    (case r of Inl e \<Rightarrow> s' = s
     | Inr n \<Rightarrow> streamRep B load s' (retained L t p c) N \<and> n = length (filter (tooOld L t p c) [0..<N (t, p)]))"
proof -
  have reads: "logReads (dbReads B (sdb s)) L"
    using rep buf by (simp add: streamRep_def bufferKVs_def buffered_def layered_def)
  then have wf: "wfLogs L" by (simp add: logReads_def)
  have N: "L (t, p) i = None" if "N (t, p) \<le> i" for i using rep that by (simp add: streamRep_def)
  let ?is = "offsetsFrom L N t p 0"
  define keys where "keys = map (\<lambda>i. makeMessageKey t p (word_of_nat i)) (filter (tooOld L t p c) ?is)"
  have "\<forall>i\<in>set ?is. L (t, p) i \<noteq> None" by (simp add: offsetsFrom_def)
  from oldLoop_items [OF wf this, of c "[]"] scan_items [OF reads \<open>clean t\<close> N]
  have old: "oldLoop c (txnIterate B (NewTransaction B (sdb s)) now (makeMessagePrefix t p)) [] = Some (Inr keys)"
    by (simp add: keys_def)
  let ?fn = "\<lambda>txn. checked (oldLoop c (txnIterate B txn now (makeMessagePrefix t p)) []) (\<lambda>keys. deleteLoop B keys txn 0)"
  obtain r where r: "deleteLoop B keys (NewTransaction B (sdb s)) 0 = Some r"
    "case r of Inl e \<Rightarrow> \<exists>b. e = SBadger b
     | Inr (t', m) \<Rightarrow> plain_txn B (sdb s) t' \<and> txnReads B t' = gdels (set keys) (dbReads B (sdb s)) \<and> m = 0 + length keys"
    using deleteLoop_reads [where keys = keys and n = 0, OF plain_begin [of B "sdb s"]] unfolding reads_begin by blast
  then have fn: "?fn (NewTransaction B (sdb s)) = Some r" by (simp add: old checked_def)
  have plain: "plain_txn B (sdb s) t'" if "r = Inr (t', a)" for t' a using r(2) that by simp
  obtain s' r' where s': "sUpdate B s ?fn = Some (s', r')" "s' = s\<lparr>sdb := sdb s'\<rparr>"
    "case r' of Inl e \<Rightarrow> sdb s' = sdb s \<and> (r = Inl e \<or> (\<exists>b. e = SBadger b))
     | Inr a \<Rightarrow> \<exists>t. r = Inr (t, a) \<and> dbReads B (sdb s') = txnReads B t"
    using sUpdate_plain [of ?fn s r, OF fn] plain by blast
  have run: "DeleteOldMessages B now s t p ret = Some (s', r')" using s'(1) by (simp add: DeleteOldMessages_def c)
  show ?thesis
  proof (cases r')
    case (Inl e)
    with s'(3) have "sdb s' = sdb s" by simp
    with s'(2) have "s' = s\<lparr>sdb := sdb s\<rparr>" by metis
    with run Inl show ?thesis by simp
  next
    case (Inr n)
    with s'(3) r(2) have db: "dbReads B (sdb s') = gdels (set keys) (dbReads B (sdb s))" and n: "n = length keys" by auto
    have old_is: "i \<in> set ?is" if "tooOld L t p c i" for i
      using that N [of i] by (force simp: tooOld_def offsetsFrom_def split: option.splits)
    then have K: "set keys = (\<lambda>i. makeMessageKey t p (word_of_nat i)) ` {i. tooOld L t p c i}"
      by (auto simp: keys_def)
    have "filter (tooOld L t p c) ?is = filter (tooOld L t p c) [0..<N (t, p)]"
      unfolding offsetsFrom_def filter_filter by (rule filter_cong) (auto simp: tooOld_def split: option.splits)
    then have len: "n = length (filter (tooOld L t p c) [0..<N (t, p)])" by (simp add: n keys_def)
    have "makeOffsetKey t' p' \<notin> set keys" for t' p' by (auto simp: keys_def offsetKey_not_message)
    then have "noOffsets (dbReads B (sdb s'))" using rep by (simp add: streamRep_def noOffsets_def db gdels_def)
    moreover have "logReads (dbReads B (sdb s')) (retained L t p c)"
      unfolding db by (rule logReads_retained [OF reads \<open>clean t\<close> K])
    moreover have "\<forall>tp i. N tp \<le> i \<longrightarrow> retained L t p c tp i = None"
      using rep by (simp add: streamRep_def retained_def)
    ultimately have "streamRep B load (s\<lparr>sdb := sdb s'\<rparr>) (retained L t p c) N"
      using rep buf by (simp add: streamRep_def bufferKVs_def buffered_def layered_def counterOK_def)
    with s'(2) have "streamRep B load s' (retained L t p c) N" by metis
    with run Inr len show ?thesis by simp
  qed
qed

end

text \<open>Retention removes exactly the messages that are too old.  With no message waiting in the buffer, a
  successful \<open>DeleteOldMessages\<close> removes from the partition's log the messages with a timestamp before the
  current time less the retention period, all of them and no other, reports their number, and leaves the other
  partitions and the numbering alone; a failing one removes nothing.\<close>

theorem stream_retention:
  assumes "badger_store B" and "streamRep B load s L N" and "writeBuffer s = []" and "clean t"
  shows "\<exists>s' r. DeleteOldMessages B now s t p ret = Some (s', r) \<and>
    (case r of Inl e \<Rightarrow> s' = s
     | Inr n \<Rightarrow> streamRep B load s' (retained L t p (UnixMilli now - ret)) N \<and>
         n = length (filter (tooOld L t p (UnixMilli now - ret)) [0..<N (t, p)]))"
  by (rule badger_store.DeleteOldMessages_rep [OF assms refl])

theorem stream_retention_witness:
  "\<exists>s0 s s' L N. AppendMessage mem_badger (plainEnv 0) memStreams [116] 0 [107] [1] = Some (s0, 0) \<and>
     flushWrites mem_badger (plainEnv 0) s0 = Some (s, Inr ()) \<and>
     DeleteOldMessages mem_badger 5000000 s [116] 0 1 = Some (s', Inr 1) \<and> streamRep mem_badger id s' L N \<and> L ([116], 0) 0 = None"
proof -
  have fit: "fits id [116] [107] [1 :: byte]" by (auto simp: fits_def clean_def)
  obtain s0 where a: "AppendMessage mem_badger (plainEnv 0) memStreams [116] 0 [107] [1] = Some (s0, 0)"
    and rep0: "streamRep mem_badger id s0 (appendLog (\<lambda>_. Map.empty) [116] 0 0 ([107], [1], 0)) ((\<lambda>_. 0)(([116], 0) := 1))"
    using mem.append_next [OF streamRep_fresh [OF memStreams_new noStreams_mem] fair_plainEnv [of 0] fit, of 0] by (auto simp: UnixMilli_def)
  let ?s = "fst (the (flushWrites mem_badger (plainEnv 0)
      (fst (the (AppendMessage mem_badger (plainEnv 0) memStreams [116] 0 [107] [1])))))"
  have "map_option snd (flushWrites mem_badger (plainEnv 0)
      (fst (the (AppendMessage mem_badger (plainEnv 0) memStreams [116] 0 [107] [1])))) = Some (Inr ())"
    "map_option snd (DeleteOldMessages mem_badger 5000000 ?s [116] 0 1) = Some (Inr 1)" "length (writeBuffer ?s) = 0" by code_simp+
  with a obtain s where f: "flushWrites mem_badger (plainEnv 0) s0 = Some (s, Inr ())"
    "map_option snd (DeleteOldMessages mem_badger 5000000 s [116] 0 1) = Some (Inr 1)" "writeBuffer s = []" by auto
  have t: "clean [116]" by (simp add: clean_def)
  let ?L = "retained (appendLog (\<lambda>_. Map.empty) [116] 0 0 ([107], [1], 0)) [116] 0 (UnixMilli 5000000 - 1)"
  obtain s' where d: "DeleteOldMessages mem_badger 5000000 s [116] 0 1 = Some (s', Inr 1)" using f(2) by auto
  obtain s'' r where R: "DeleteOldMessages mem_badger 5000000 s [116] 0 1 = Some (s'', r)"
    "case r of Inl e \<Rightarrow> s'' = s | Inr n \<Rightarrow> streamRep mem_badger id s'' ?L ((\<lambda>_. 0)(([116], 0) := 1)) \<and>
      n = length (filter (tooOld (appendLog (\<lambda>_. Map.empty) [116] 0 0 ([107], [1], 0)) [116] 0 (UnixMilli 5000000 - 1))
        [0..<((\<lambda>_. 0)(([116], 0) := 1)) ([116 :: byte], 0 :: int)])"
    using stream_retention [OF mem.badger_store_axioms mem.flush_rep [OF rep0 fair_plainEnv f(1)] f(3) t, of 5000000 0 1] by blast
  from R d have s': "streamRep mem_badger id s' ?L ((\<lambda>_. 0)(([116], 0) := 1))" by (metis Pair_inject option.inject sum.case(2))
  have "(0 :: int64) <s UnixMilli 5000000 - 1" by code_simp
  then have "?L ([116], 0) 0 = None"
    by (simp add: retained_def tooOld_def appendLog_def)
  with a f(1) d s' show ?thesis by blast
qed

end
