(* ===== verification/StreamServer.thy ===== *)
theory StreamServer
  imports ServerRuns StreamHandlers StreamRetain
begin

text \<open>
  The streams behind the server: what a publish request stores, what a consume response carries, and that
  the handlers keep the invariant of the connection.
\<close>

section \<open>The handlers keep the connection's invariant\<close>

lemma connInv_stream: "connInv n st \<Longrightarrow> onStream st f = Some sr \<Longrightarrow> connInv n (fst sr)"
  by (auto simp: onStream_def connInv_def split: prod.splits)

lemma connInv_respondStream: "connInv n (fst sr) \<Longrightarrow> keepsInv n (respondStream E ok sr)"
  unfolding respondStream_def
  by (cases sr; cases "snd sr") (auto intro!: keeps_bind conn.countError_keeps conn.sends conn.counts)

lemma streamDispatch_keeps:
  assumes "connInv n st" and "keepsInv n (docs req st)"
  shows "keepsInv n (streamDispatch E V docs req st)"
proof -
  have run: "keepsInv n (Option.bind (onStream st f) (respondStream E ok))" for f :: "_ \<Rightarrow> (_ \<times> (stream_err + 'r)) option" and ok
    by (intro keeps_bind connInv_respondStream connInv_stream [OF assms(1)])
  have "keepsInv n (processBinarySPublishBatch E V req st)"
    unfolding processBinarySPublishBatch_def Let_def
    by (auto intro!: connInv_respondStream conn.countError_keeps conn.sends assms(1) dest: connInv_stream [OF assms(1)]
        split: option.splits prod.splits)
  then show ?thesis
    unfolding streamDispatch_def Let_def processBinarySPublish_def processBinarySConsume_def processBinarySCommit_def
      processBinarySCreateTopic_def processBinarySSubscribe_def processBinarySUnsubscribe_def
    by (intro keeps_if run assms(2))
qed

section \<open>Publishing\<close>

text \<open>Publishing does not look at the value: it does not matter what the slice refers to.\<close>

lemma seNow_load: "seNow (E\<lparr>seLoad := l\<rparr>) = seNow E"
  by simp

lemma AppendMessage_load: "AppendMessage B (E\<lparr>seLoad := l\<rparr>) s topic p key val = AppendMessage B E s topic p key val"
  unfolding AppendMessage_def bufferMessage_def seNow_load ..

lemma Publish_load: "Publish B (E\<lparr>seLoad := l\<rparr>) s topic p key val = Publish B E s topic p key val"
  unfolding Publish_def AppendMessage_load seNow_load ..

lemma dispatch_stream:
  assumes "isBinary data" and "DecodeRequest data = Some (Inr req)" and "rqOpCode req \<in> otherOps"
  shows "processRequestHybrid E other data st = other req st"
  using assms by (auto simp: processRequestHybrid_def processRequestBinary_def opcodes otherOps_def)

lemma valueSlice_frame:
  assumes "length topic < 2 ^ 16" and "length key < 2 ^ 16"
  shows "deref (frame OpSPublish (str16 topic @ be32 n @ str16 key @ str32 val) @ rest)
    (valueSlice ((newRequest OpSPublish)\<lparr>rqTopic := topic, rqPartition := p, rqKey := key, rqValue := val\<rparr>)) = val"
proof -
  define payload where "payload = str16 topic @ be32 n @ str16 key @ str32 val"
  define pre where "pre = OpSPublish # be32 (word_of_nat (length payload)) @ str16 topic @ be32 n @ str16 key @ be32 (word_of_nat (length val))"
  have "frame OpSPublish payload @ rest = pre @ val @ rest"
    by (simp add: frame_def payload_def pre_def str32_def)
  moreover have "length pre = 17 + length topic + length key" by (simp add: pre_def str16_def)
  ultimately show ?thesis
    unfolding payload_def by (simp add: deref_def valueSlice_def newRequest_def Let_def del: append_assoc)
qed

text \<open>C31: what a publish request stores.  An encoded SPUBLISH for a known topic is answered with OK, and the
  message is appended to a partition of the topic.  But the value it refers to is a part of the connection's
  read buffer: it is what the client sent as long as the buffer holds this request, and for any other content
  \<open>buf\<close> of the buffer at the time of the flush, the bytes of \<open>buf\<close> at the same place are stored instead.\<close>

theorem server_publish_aliases:
  assumes "badger_store (envB E)" and "EncodeSPublishRequest topic p key val = Some data" and "unat p < 2 ^ 32"
    and "length topic \<le> MaxKeyLen" and "length key \<le> MaxKeyLen" and "length val \<le> MaxValueLen" and "clean topic"
    and "length data \<le> length (readBuf c)" and "ready (Suc 0) c" and "length buf < 2 ^ 32"
    and "fairEnv (seLoad V) V" and "0 \<le> envNow E" and "srvStream (srvOther s) = x"
    and "map_of (topics x) topic = Some meta" and "0 < Partitions meta"
    and "streamRep (envB E) (loadRef buf) (strStorage x) L N" and "\<forall>q. N (topic, q) < 2 ^ 63"
  defines "sl \<equiv> (17 + length topic + length key, 17 + length topic + length key + length val)"
  shows "\<exists>s' c' q. readLoop E (streamDispatch E V docs) (Some data) (s, c) = Some (s', c') \<and>
    outQueue c' = outQueue c @ [frame StatusOK []] \<and> deref (readBuf c') sl = val \<and> 0 \<le> q \<and> q < Partitions meta \<and>
    streamRep (envB E) (loadRef buf) (strStorage (srvStream (srvOther s')))
      (appendLog L topic q (N (topic, q)) (key, deref buf sl, UnixMilli (envNow E))) (N((topic, q) := N (topic, q) + 1))"
proof -
  define req where "req = (newRequest OpSPublish)\<lparr>rqTopic := topic, rqPartition := p, rqKey := key, rqValue := val\<rparr>"
  define c1 where "c1 = c\<lparr>readBuf := data @ drop (length data) (readBuf c)\<rparr>"
  have data: "data = frame OpSPublish (str16 topic @ be32 (ucast p) @ str16 key @ str32 val)"
    using assms(2) by (simp add: encoded)
  have "ucast (ucast p :: uint32) = p" using assms(3) by (rule ucast_ucast_goint)
  then have dec: "DecodeRequest data = Some (Inr req)"
    using assms(4-6) by (simp add: data req_def wire_simps MaxKeyLen_def MaxValueLen_def)
  have op: "rqOpCode req = OpSPublish" by (simp add: req_def)
  have sl: "sl = valueSlice req" by (simp add: sl_def valueSlice_def req_def newRequest_def Let_def)
  have "isBinary data" by (simp add: data isBinary_frame opcodes)
  then have "processRequestHybrid E (streamDispatch E V docs) data (s, c1) = streamDispatch E V docs req (s, c1)"
    by (rule dispatch_stream [OF _ dec]) (simp add: op otherOps_def)
  then have read: "readLoop E (streamDispatch E V docs) (Some data) (s, c) = processBinarySPublish E V req (s, c1)"
    using readLoop_fits [OF assms(9,8), of E "streamDispatch E V docs" s] by (simp add: op streamDispatch_def c1_def)
  let ?E = "streamEnv E V c1" and ?E' = "V\<lparr>seNow := envNow E, seLoad := loadRef buf\<rparr>" and ?sl = "valueSlice req"
  have fair: "fairEnv (loadRef buf) ?E'" using assms(11) by (simp add: fairEnv_def)
  have "length (deref buf ?sl) \<le> length buf" by (cases ?sl) (simp add: deref_def min_le_iff_disj)
  then have fit: "fits (loadRef buf) topic key (InBuffer ?sl)"
    using assms(5,7,10) by (simp add: fits_def MaxKeyLen_def)
  obtain x' q where P: "Publish (envB E) ?E' x topic (sint p) key (InBuffer ?sl) = Some (x', Inr (word_of_nat (N (topic, q))))"
    "0 \<le> q" "q < Partitions meta"
    "streamRep (envB E) (loadRef buf) (strStorage x') (appendLog L topic q (N (topic, q)) (key, deref buf ?sl, UnixMilli (envNow E)))
      (N((topic, q) := N (topic, q) + 1))"
    using badger_store.Publish_rep [OF assms(1,16) fair fit assms(14,15) _ assms(17), of "sint p"] assms(12) by auto
  have "Publish (envB E) ?E x topic (sint p) key (InBuffer ?sl) = Some (x', Inr (word_of_nat (N (topic, q))))"
    using P(1) Publish_load [where B = "envB E" and E = "V\<lparr>seNow := envNow E\<rparr>"] by (simp add: streamEnv_def)
  then have "processBinarySPublish E V req (s, c1) =
      Some (countFast (answered E (frame StatusOK []) (s\<lparr>srvOther := (srvOther s)\<lparr>srvStream := x'\<rparr>\<rparr>, c1)))"
    using ready_cong [OF assms(9)] assms(13)
    by (simp add: processBinarySPublish_def onStream_def respondStream_def req_def encoded sendBinaryResponse_ready c1_def)
  moreover have "deref (readBuf c1) ?sl = val"
    using valueSlice_frame [of topic key] assms(4,5) by (simp add: c1_def data req_def MaxKeyLen_def)
  ultimately show ?thesis
    using P(2-4) read unfolding sl
    by (intro exI [of _ "fst (countFast (answered E (frame StatusOK []) (s\<lparr>srvOther := (srvOther s)\<lparr>srvStream := x'\<rparr>\<rparr>, c1)))"]
        exI [of _ "snd (countFast (answered E (frame StatusOK []) (s\<lparr>srvOther := (srvOther s)\<lparr>srvStream := x'\<rparr>\<rparr>, c1)))"]
        exI [of _ q])
      (simp add: countFast_def answered_def c1_def)
qed

text \<open>A server with nothing stored but a topic of three partitions.\<close>

definition memStores :: "(mem_db, (mem_db, unit) Stores) Server" where
  "memStores = \<lparr>srvStore = \<lparr>storage = mem_open\<rparr>, srvQueue = \<lparr>qstorage = \<lparr>qdb = []\<rparr>\<rparr>,
     srvOther = \<lparr>srvStream = memTopic, srvDocs = ()\<rparr>, jobQueue = [], jobsClosed = False, opsProcessed = 0, opsFastPath = 0,
     opsSlowPath = 0, opsErrors = 0, jobsProcessed = 0\<rparr>"

definition plainVisits :: "vref StreamEnv" where
  "plainVisits = \<lparr>seNow = 0, seLoad = loadRef [], seVisitBuf = id, seVisitParts = id, seVisitIds = id, seVisitTopics = id\<rparr>"

text \<open>The value 7 is published; when the flush happens the buffer holds only nines, and 9 is stored.\<close>

theorem server_publish_aliases_witness:
  "\<exists>data s' c' q. EncodeSPublishRequest [116] 0 [107] [7] = Some data \<and>
     readLoop (mem_env 0) (streamDispatch (mem_env 0) plainVisits (\<lambda>_. Some)) (Some data) (memStores, new_conn) = Some (s', c') \<and>
     streamRep mem_badger (loadRef (replicate 40 9)) (strStorage (srvStream (srvOther s')))
       (appendLog (\<lambda>_. Map.empty) [116] q 0 ([107], [9], 0)) ((\<lambda>_. 0)(([116], q) := 1))"
proof -
  obtain data where data: "EncodeSPublishRequest [116] 0 [107] [7] = Some data" "length data = 20"
    by (simp add: encoded frame_def str16_def str32_def)
  obtain meta where m: "streamRep mem_badger (loadRef (replicate 40 9)) (strStorage memTopic) (\<lambda>_. Map.empty) (\<lambda>_. 0)"
    "map_of (topics (memTopic :: (mem_db, vref) Stream)) [116] = Some meta" "Partitions meta = 3"
    by (rule memTopic_rep [of "loadRef (replicate 40 9)"])
  have "clean [116]" "ready (Suc 0) new_conn" "fairEnv (seLoad plainVisits) plainVisits" "length data \<le> length (readBuf new_conn)"
    "srvStream (srvOther memStores) = memTopic" "deref (replicate 40 9) (19, 20) = [9]"
    by (simp_all add: clean_def ready_def new_conn_def outQueueSize_def fairEnv_def plainVisits_def data(2) memStores_def deref_def)
  then show ?thesis
    using server_publish_aliases [of "mem_env 0" "[116]" 0 "[107]" "[7]" data new_conn "replicate 40 9" plainVisits memStores
        memTopic meta "\<lambda>_. Map.empty" "\<lambda>_. 0" "\<lambda>_. Some"] m data mem.badger_store_axioms
    by (auto simp: MaxKeyLen_def MaxValueLen_def mem_env_def UnixMilli_def)
qed

section \<open>Consuming\<close>

lemma consumedValue_eq: "consumedValue msg = Some (messageData msg)"
  using encodeMessage_eq [of msg] by (simp add: consumedValue_def encodeMessage_def)

lemma consumedValues_eq: "consumedValues msgs = Some (map messageData msgs)"
  by (induction msgs) (simp_all add: consumedValue_eq)

text \<open>C32: what a consume request returns.  When \<open>Consume\<close> returns messages, an encoded SCONSUME request is
  answered with one response, and a client that decodes it, and each value in it, gets exactly these messages,
  with offsets, keys, values and timestamps, but without the topic and the partition they come from.\<close>

theorem server_consume_response:
  assumes "EncodeSConsumeRequest topic grp consumer n = Some data" and "unat n < 2 ^ 32"
    and "length topic \<le> MaxKeyLen" and "length grp \<le> MaxKeyLen" and "length consumer \<le> MaxKeyLen"
    and "length data \<le> length (readBuf c)" and "ready (Suc 0) c"
    and "Consume (envB E) (streamEnv E V (c\<lparr>readBuf := data @ drop (length data) (readBuf c)\<rparr>)) (srvStream (srvOther s))
      topic grp consumer (sint n) = Some (x', Inr msgs)"
    and "length msgs < 2 ^ 16" and "list_all (\<lambda>m. length (mKey m) < 2 ^ 16 \<and> length (mValue m) \<le> MaxValueLen) msgs"
    and "2 + length (concat (map (str32 \<circ> messageData) msgs)) < 2 ^ 32 - 5"
  shows "\<exists>s' c' r resp. readLoop E (streamDispatch E V docs) (Some data) (s, c) = Some (s', c') \<and>
    srvStream (srvOther s') = x' \<and> outQueue c' = outQueue c @ [r] \<and>
    DecodeResponse r = Some (Inr resp) \<and> rsStatus resp = StatusMultiValue \<and>
    map decodeMessage (rsValues resp) = map (\<lambda>m. Some (Inr (m\<lparr>mTopic := [], mPartition := 0\<rparr>))) msgs"
proof -
  define req where "req = (newRequest OpSConsume)\<lparr>rqTopic := topic, rqGroup := grp, rqConsumer := consumer, rqCount := n\<rparr>"
  define c1 where "c1 = c\<lparr>readBuf := data @ drop (length data) (readBuf c)\<rparr>"
  have data: "data = frame OpSConsume (str16 topic @ str16 grp @ str16 consumer @ be32 (ucast n))"
    using assms(1) by (simp add: encoded)
  have "ucast (ucast n :: uint32) = n" using assms(2) by (rule ucast_ucast_goint)
  then have dec: "DecodeRequest data = Some (Inr req)"
    using assms(3-5) by (simp add: data req_def wire_simps MaxKeyLen_def MaxValueLen_def)
  have op: "rqOpCode req = OpSConsume" by (simp add: req_def)
  have "isBinary data" by (simp add: data isBinary_frame opcodes)
  then have "processRequestHybrid E (streamDispatch E V docs) data (s, c1) = streamDispatch E V docs req (s, c1)"
    by (rule dispatch_stream [OF _ dec]) (simp add: op otherOps_def)
  then have read: "readLoop E (streamDispatch E V docs) (Some data) (s, c) = processBinarySConsume E V req (s, c1)"
    using readLoop_fits [OF assms(7,6), of E "streamDispatch E V docs" s] by (simp add: op streamDispatch_def c1_def opcodes)
  let ?vs = "map messageData msgs"
  let ?r = "frame StatusMultiValue (be16 (word_of_nat (length ?vs)) @ concat (map str32 ?vs))"
  let ?st = "countFast (answered E ?r (s\<lparr>srvOther := (srvOther s)\<lparr>srvStream := x'\<rparr>\<rparr>, c1))"
  have run: "processBinarySConsume E V req (s, c1) = Some ?st"
    using ready_cong [OF assms(7), of "data @ drop (length data) (readBuf c)"] assms(8) unfolding c1_def [symmetric]
    by (simp add: processBinarySConsume_def onStream_def respondStream_def req_def consumedValues_eq
        encoded sendBinaryResponse_ready)
  have "\<forall>v\<in>set ?vs. length v < 2 ^ 32"
    using assms(10) by (auto simp: list_all_iff messageData_def str16_def str32_def MaxValueLen_def)
  then have "decodeMultiValueResponse (be16 (word_of_nat (length ?vs)) @ concat (map str32 ?vs)) =
      Some (Inr ((newResponse StatusMultiValue)\<lparr>rsValues := ?vs\<rparr>))"
    using assms(9) by (subst decodeMultiValueResponse_enc) simp_all
  then have resp: "DecodeResponse ?r = Some (Inr ((newResponse StatusMultiValue)\<lparr>rsValues := ?vs\<rparr>))"
    using assms(11) by (simp add: DecodeResponse_frame statuses comp_def del: length_concat)
  have "decodeMessage (messageData m) = Some (Inr (m\<lparr>mTopic := [], mPartition := 0\<rparr>))" if "m \<in> set msgs" for m
    using assms(10) that by (intro decode_messageData) (auto simp: list_all_iff MaxValueLen_def)
  then have "map decodeMessage ?vs = map (\<lambda>m. Some (Inr (m\<lparr>mTopic := [], mPartition := 0\<rparr>))) msgs" by simp
  with read run resp show ?thesis
    by (intro exI [of _ "fst ?st"] exI [of _ "snd ?st"] exI [of _ ?r]
        exI [of _ "(newResponse StatusMultiValue)\<lparr>rsValues := ?vs\<rparr>"])
      (simp add: newResponse_def countFast_def answered_def c1_def)
qed

text \<open>The streams with a subscription and a message.\<close>

definition memConsumable :: "(mem_db, vref) Stream" where
  "memConsumable = fst (the (Publish mem_badger plainVisits (fst (the (Subscribe mem_badger plainVisits memTopic [116] [103] [97])))
     [116] 0 [107] (Copied [7])))"

definition memMessage :: "bytes Message" where
  "memMessage = \<lparr>mTopic = [], mPartition = 0, mOffset = 0, mKey = [107], mValue = [7], mTimestamp = 0\<rparr>"

lemma memConsumable_consume:
  "map_option snd (Consume mem_badger (plainVisits\<lparr>seLoad := loadRef buf\<rparr>) memConsumable [116] [103] [97] 5) = Some (Inr [memMessage])"
  by code_simp

theorem server_consume_response_witness:
  "\<exists>data s' c' r resp. EncodeSConsumeRequest [116] [103] [97] 5 = Some data \<and>
     readLoop (mem_env 0) (streamDispatch (mem_env 0) plainVisits (\<lambda>_. Some)) (Some data)
       (memStores\<lparr>srvOther := \<lparr>srvStream = memConsumable, srvDocs = ()\<rparr>\<rparr>, new_conn) = Some (s', c') \<and>
     outQueue c' = [r] \<and> DecodeResponse r = Some (Inr resp) \<and> rsStatus resp = StatusMultiValue \<and>
     map decodeMessage (rsValues resp) = [Some (Inr memMessage)]"
proof -
  let ?s = "memStores\<lparr>srvOther := \<lparr>srvStream = memConsumable, srvDocs = ()\<rparr>\<rparr>"
  obtain data where data: "EncodeSConsumeRequest [116] [103] [97] 5 = Some data" "length data = 18"
    by (simp add: encoded frame_def str16_def)
  let ?c = "new_conn\<lparr>readBuf := data @ drop (length data) (readBuf new_conn)\<rparr>"
  have "streamEnv (mem_env 0) plainVisits ?c = plainVisits\<lparr>seLoad := loadRef (readBuf ?c)\<rparr>"
    by (simp add: streamEnv_def plainVisits_def mem_env_def)
  with memConsumable_consume [of "readBuf ?c"]
  obtain x' where x': "Consume (envB (mem_env 0)) (streamEnv (mem_env 0) plainVisits ?c) (srvStream (srvOther ?s))
      [116] [103] [97] (sint (5 :: goint)) = Some (x', Inr [memMessage])" by auto
  have "ready (Suc 0) new_conn" "length data \<le> length (readBuf new_conn)" "outQueue new_conn = []"
    by (simp_all add: ready_def new_conn_def outQueueSize_def data(2))
  with server_consume_response [OF data(1) _ _ _ _ _ _ x', of "\<lambda>_. Some"] data(1) show ?thesis
    by (auto simp: MaxKeyLen_def MaxValueLen_def memMessage_def messageData_def str16_def str32_def)
qed

end
