(* ===== verification/DocValues.thy ===== *)
theory DocValues
  imports QueueMessages "HOL-Library.AList"
begin

text \<open>
  The values of the document store, \<open>src/internal/db\<close>: \<open>types.go\<close> and \<open>helpers.go\<close>.  A Go
  \<open>interface{}\<close> is a value tagged with its dynamic type.  Go's floating-point numbers are a type
  \<open>'f\<close> with the operations the code uses of them, a record \<open>Floats\<close>; \<open>encoding/json\<close> is a record
  \<open>Json\<close> of its two functions.  \<open>go_json\<close> states what the store relies on, and \<open>DocInstance\<close>
  has an executable instance.
\<close>

section \<open>Values\<close>

datatype 'f gval =
    GNil
  | GBool bool
  | GFloat64 'f
  | GFloat32 'f
  | GInt goint
  | GInt64 int64
  | GInt32 "32 word"
  | GString gostring
  | GArr "'f gval list"
  | GStrings "gostring list"
  | GMap "(gostring \<times> 'f gval) list"

text \<open>A map is a list of its entries, without repeated keys; its order has no meaning.\<close>

type_synonym 'f Document = "(gostring \<times> 'f gval) list"

record 'f Floats =
  fLess :: "'f \<Rightarrow> 'f \<Rightarrow> bool"
  fLessEq :: "'f \<Rightarrow> 'f \<Rightarrow> bool"
  fOfInt :: "int \<Rightarrow> 'f"
  fToInt :: "'f \<Rightarrow> goint"
  fShow :: "'f \<Rightarrow> gostring"
  fShow32 :: "'f \<Rightarrow> gostring"

text \<open>\<open>fmt.Sprintf("%v", v)\<close>: lists in brackets, maps sorted by key.\<close>

definition spaced :: "gostring list \<Rightarrow> gostring" where
  "spaced xs = (case xs of [] \<Rightarrow> [] | x # xs \<Rightarrow> x @ concat (map (\<lambda>y. lit '' '' @ y) xs))"

fun sprint :: "'f Floats \<Rightarrow> 'f gval \<Rightarrow> gostring" where
  "sprint F GNil = lit ''<nil>''"
| "sprint F (GBool b) = lit (if b then ''true'' else ''false'')"
| "sprint F (GFloat64 x) = fShow F x"
| "sprint F (GFloat32 x) = fShow32 F x"
| "sprint F (GInt n) = lit (dec_int (sint n))"
| "sprint F (GInt64 n) = lit (dec_int (sint n))"
| "sprint F (GInt32 n) = lit (dec_int (sint n))"
| "sprint F (GString s) = s"
| "sprint F (GArr vs) = lit ''['' @ spaced (map (sprint F) vs) @ lit '']''"
| "sprint F (GStrings ss) = lit ''['' @ spaced ss @ lit '']''"
| "sprint F (GMap kvs) = lit ''map['' @
     spaced (map (\<lambda>(k, s). k @ lit '':'' @ s) (sort_key fst (map (\<lambda>(k, v). (k, sprint F v)) kvs))) @ lit '']''"

text \<open>The values that can be keys of a Go map; any other panics.\<close>

fun hashable :: "'f gval \<Rightarrow> bool" where
  "hashable (GArr vs) = False"
| "hashable (GStrings ss) = False"
| "hashable (GMap kvs) = False"
| "hashable _ = True"

section \<open>Queries\<close>

record 'f Query =
  Field :: gostring
  Operator :: gostring
  qValue :: "'f gval"

record SortOption =
  soField :: gostring
  Direction :: gostring

record 'f FindOptions =
  Filters :: "'f Query list"
  Sort :: "SortOption option"
  Skip :: goint
  Limit :: goint
  IndexName :: gostring

text \<open>\<open>Set\<close> is \<open>None\<close> for a nil map.\<close>

record 'f UpdateOptions =
  uoSet :: "'f Document option"
  Unset :: "gostring list"
  Merge :: bool

section \<open>Comparisons\<close>

definition equal :: "'f Floats \<Rightarrow> 'f gval \<Rightarrow> 'f gval \<Rightarrow> bool" where
  "equal F a b \<longleftrightarrow> sprint F a = sprint F b"

fun toFloat64 :: "'f Floats \<Rightarrow> 'f gval \<Rightarrow> 'f" where
  "toFloat64 F (GFloat64 x) = x"
| "toFloat64 F (GFloat32 x) = x"
| "toFloat64 F (GInt n) = fOfInt F (sint n)"
| "toFloat64 F (GInt64 n) = fOfInt F (sint n)"
| "toFloat64 F (GInt32 n) = fOfInt F (sint n)"
| "toFloat64 F _ = fOfInt F 0"

definition greaterThan :: "'f Floats \<Rightarrow> 'f gval \<Rightarrow> 'f gval \<Rightarrow> bool" where
  "greaterThan F a b = fLess F (toFloat64 F b) (toFloat64 F a)"

definition greaterThanOrEqual :: "'f Floats \<Rightarrow> 'f gval \<Rightarrow> 'f gval \<Rightarrow> bool" where
  "greaterThanOrEqual F a b = fLessEq F (toFloat64 F b) (toFloat64 F a)"

definition lessThan :: "'f Floats \<Rightarrow> 'f gval \<Rightarrow> 'f gval \<Rightarrow> bool" where
  "lessThan F a b = fLess F (toFloat64 F a) (toFloat64 F b)"

definition lessThanOrEqual :: "'f Floats \<Rightarrow> 'f gval \<Rightarrow> 'f gval \<Rightarrow> bool" where
  "lessThanOrEqual F a b = fLessEq F (toFloat64 F a) (toFloat64 F b)"

definition inArray :: "'f Floats \<Rightarrow> 'f gval \<Rightarrow> 'f gval \<Rightarrow> bool" where
  "inArray F val list =
     (case list of
        GArr vs \<Rightarrow> list_ex (equal F val) vs
      | GStrings ss \<Rightarrow> list_ex (\<lambda>s. equal F val (GString s)) ss
      | _ \<Rightarrow> False)"

definition matchesFilter :: "'f Floats \<Rightarrow> 'f Document \<Rightarrow> 'f Query \<Rightarrow> bool" where
  "matchesFilter F doc q =
     (case map_of doc (Field q) of
        None \<Rightarrow> Operator q = lit ''ne''
      | Some val \<Rightarrow>
          let op = Operator q; v = qValue q in
          if op = lit ''eq'' then equal F val v
          else if op = lit ''ne'' then \<not> equal F val v
          else if op = lit ''gt'' then greaterThan F val v
          else if op = lit ''gte'' then greaterThanOrEqual F val v
          else if op = lit ''lt'' then lessThan F val v
          else if op = lit ''lte'' then lessThanOrEqual F val v
          else if op = lit ''in'' then inArray F val v
          else False)"

definition matchesFilters :: "'f Floats \<Rightarrow> 'f Document \<Rightarrow> 'f Query list \<Rightarrow> bool" where
  "matchesFilters F doc filters = list_all (matchesFilter F doc) filters"

section \<open>Sorting\<close>

text \<open>\<open>results[j][opt.Field]\<close>, nil when there is no such field.\<close>

definition fieldOf :: "gostring \<Rightarrow> 'f Document \<Rightarrow> 'f gval" where
  "fieldOf field doc = (case map_of doc field of None \<Rightarrow> GNil | Some v \<Rightarrow> v)"

definition shouldSwap :: "'f Floats \<Rightarrow> SortOption \<Rightarrow> 'f Document \<Rightarrow> 'f Document \<Rightarrow> bool" where
  "shouldSwap F opt x y = (let a = fieldOf (soField opt) x; b = fieldOf (soField opt) y in
     if Direction opt = lit ''desc'' then lessThan F a b else greaterThan F a b)"

text \<open>The inner loop: \<open>n\<close> comparisons of neighbours.  The outer loop makes one comparison less each time.\<close>

fun bubble :: "('d \<Rightarrow> 'd \<Rightarrow> bool) \<Rightarrow> nat \<Rightarrow> 'd list \<Rightarrow> 'd list" where
  "bubble swap (Suc n) (x # y # xs) = (if swap x y then y # bubble swap n (x # xs) else x # bubble swap n (y # xs))"
| "bubble swap _ xs = xs"

fun bubbles :: "('d \<Rightarrow> 'd \<Rightarrow> bool) \<Rightarrow> nat \<Rightarrow> 'd list \<Rightarrow> 'd list" where
  "bubbles swap 0 xs = xs"
| "bubbles swap (Suc n) xs = bubbles swap n (bubble swap n xs)"

definition sortResults :: "'f Floats \<Rightarrow> SortOption \<Rightarrow> 'f Document list \<Rightarrow> 'f Document list" where
  "sortResults F opt results = bubbles (shouldSwap F opt) (length results) results"

section \<open>JSON\<close>

record 'f Json =
  Marshal :: "'f gval \<Rightarrow> gostring + bytes"
  Unmarshal :: "bytes \<Rightarrow> gostring + 'f gval"
  typeError :: "'f gval \<Rightarrow> gostring"

text \<open>Into a map: \<open>None\<close> is the nil map that \<open>null\<close> gives.\<close>

definition unmarshalMap :: "'f Json \<Rightarrow> bytes \<Rightarrow> gostring + 'f Document option" where
  "unmarshalMap J data =
     (case Unmarshal J data of
        Inl e \<Rightarrow> Inl e
      | Inr (GMap kvs) \<Rightarrow> Inr (Some kvs)
      | Inr GNil \<Rightarrow> Inr None
      | Inr v \<Rightarrow> Inl (typeError J v))"

text \<open>A document that is only read: nil and the empty map are the same.\<close>

definition unmarshalDoc :: "'f Json \<Rightarrow> bytes \<Rightarrow> gostring + 'f Document" where
  "unmarshalDoc J data = map_sum id (\<lambda>m. case m of None \<Rightarrow> [] | Some kvs \<Rightarrow> kvs) (unmarshalMap J data)"

text \<open>What a value becomes on its way through JSON: every number a \<open>float64\<close>.\<close>

fun jsonNorm :: "'f Floats \<Rightarrow> 'f gval \<Rightarrow> 'f gval" where
  "jsonNorm F (GInt n) = GFloat64 (fOfInt F (sint n))"
| "jsonNorm F (GInt64 n) = GFloat64 (fOfInt F (sint n))"
| "jsonNorm F (GInt32 n) = GFloat64 (fOfInt F (sint n))"
| "jsonNorm F (GArr vs) = GArr (map (jsonNorm F) vs)"
| "jsonNorm F (GStrings ss) = GArr (map GString ss)"
| "jsonNorm F (GMap kvs) = GMap (sort_key fst (map (\<lambda>(k, v). (k, jsonNorm F v)) kvs))"
| "jsonNorm F v = v"

text \<open>ASCII strings only: \<open>encoding/json\<close> replaces bytes that are not UTF-8.  A \<open>float32\<close> is written with
  too few digits to come back as the same number.\<close>

fun asciiVal :: "'f gval \<Rightarrow> bool" where
  "asciiVal (GString s) = list_all (\<lambda>b. b < 128) s"
| "asciiVal (GArr vs) = list_all asciiVal vs"
| "asciiVal (GStrings ss) = list_all (list_all (\<lambda>b. b < 128)) ss"
| "asciiVal (GMap kvs) = (distinct (map fst kvs) \<and> list_all (\<lambda>k. list_all (\<lambda>b. b < 128) k) (map fst kvs) \<and> list_all asciiVal (map snd kvs))"
| "asciiVal (GFloat32 x) = False"
| "asciiVal _ = True"

locale go_json =
  fixes F :: "'f Floats" and J :: "'f Json"
  assumes unmarshal_marshal: "asciiVal v \<Longrightarrow> Marshal J v = Inr data \<Longrightarrow> Unmarshal J data = Inr (jsonNorm F v)"

end
