(* ===== verification/DocStore.thy ===== *)
theory DocStore
  imports DocValues
begin

text \<open>
  The document store, \<open>src/internal/db\<close>: \<open>storage.go\<close> and \<open>db.go\<close>.  Documents are stored as JSON
  under \<open>doc:<collection>:<id>\<close>; the indexes are kept in memory only.  \<open>None\<close> is a panic: a Go map
  cannot have an array or an object as a key.  As keys, numbers are the same when they are equal in
  \<open>'f\<close>: the two zeros of a \<open>float64\<close> count as one, and NaN, which JSON does not have, is left out.  The order in which maps are visited is an argument where it
  shows.
\<close>

section \<open>Data\<close>

datatype doc_err =
    ErrDocumentNotFound
  | ErrInvalidQuery
  | ErrInvalidCollection
  | ErrInvalidDocument
  | DocBadger badger_err
  | DocError gostring

fun doc_errmsg :: "doc_err \<Rightarrow> gostring" where
  "doc_errmsg ErrDocumentNotFound = lit ''document not found''"
| "doc_errmsg ErrInvalidQuery = lit ''invalid query''"
| "doc_errmsg ErrInvalidCollection = lit ''invalid collection''"
| "doc_errmsg ErrInvalidDocument = lit ''invalid document''"
| "doc_errmsg (DocBadger BadgerErrKeyNotFound) = lit ''Key not found''"
| "doc_errmsg (DocBadger (BadgerErr m)) = lit m"
| "doc_errmsg (DocError m) = m"

type_synonym 'f fieldIndex = "('f gval \<times> gostring list) list"
type_synonym 'f collIndex = "(gostring \<times> 'f fieldIndex) list"

record ('db, 'f) DocStore =
  docdb :: 'db
  indexes :: "(gostring \<times> 'f collIndex) list"

text \<open>What the store uses of its environment.\<close>

record ('db, 'txn, 'f) DocEnv =
  deB :: "('db, 'txn) badger"
  deF :: "'f Floats"
  deJ :: "'f Json"
  deNow :: time
  deUUID :: gostring
  deVisit :: "gostring list \<Rightarrow> gostring list"

section \<open>Storage\<close>

definition docUpdate ::
  "('db, 'txn, 'f) DocEnv \<Rightarrow> 'db \<Rightarrow> ('txn \<Rightarrow> badger_err + 'txn) \<Rightarrow> 'db \<times> (doc_err + unit)" where
  "docUpdate E d fn = Update (deB E) DocBadger d (\<lambda>txn. case fn txn of Inl e \<Rightarrow> Inl (DocBadger e) | Inr txn \<Rightarrow> Inr (txn, ()))"

definition DocStorage_Set :: "('db, 'txn, 'f) DocEnv \<Rightarrow> 'db \<Rightarrow> bytes \<Rightarrow> bytes \<Rightarrow> 'db \<times> (doc_err + unit)" where
  "DocStorage_Set E d key data = docUpdate E d (\<lambda>txn. txnSetEntry (deB E) txn (deNow E) key data 0)"

definition DocStorage_Get :: "('db, 'txn, 'f) DocEnv \<Rightarrow> 'db \<Rightarrow> bytes \<Rightarrow> badger_err + bytes" where
  "DocStorage_Get E d key = View (deB E) d (\<lambda>txn. txnGet (deB E) txn (deNow E) key)"

definition DocStorage_Delete :: "('db, 'txn, 'f) DocEnv \<Rightarrow> 'db \<Rightarrow> bytes \<Rightarrow> 'db \<times> (doc_err + unit)" where
  "DocStorage_Delete E d key = docUpdate E d (\<lambda>txn. txnDelete (deB E) txn key)"

definition DocStorage_Exists :: "('db, 'txn, 'f) DocEnv \<Rightarrow> 'db \<Rightarrow> bytes \<Rightarrow> doc_err + bool" where
  "DocStorage_Exists E d key = View (deB E) d (\<lambda>txn.
     case txnGet (deB E) txn (deNow E) key of
       Inl BadgerErrKeyNotFound \<Rightarrow> Inr False
     | Inl e \<Rightarrow> Inl (DocBadger e)
     | Inr _ \<Rightarrow> Inr True)"

text \<open>\<open>fn\<close> is called for each item in turn; it changes the caller's variables, here \<open>acc\<close>, and its
  error ends the scan.\<close>

fun scanItems ::
  "(bytes \<Rightarrow> bytes \<Rightarrow> 'a \<Rightarrow> ('a \<times> doc_err option) option) \<Rightarrow> (bytes \<times> (badger_err + bytes)) list \<Rightarrow> 'a \<Rightarrow>
   ('a \<times> doc_err option) option" where
  "scanItems fn [] acc = Some (acc, None)"
| "scanItems fn ((key, r) # items) acc =
     (case r of
        Inl e \<Rightarrow> Some (acc, Some (DocBadger e))
      | Inr data \<Rightarrow> do {
          (acc, err) \<leftarrow> fn key data acc;
          case err of Some e \<Rightarrow> Some (acc, Some e) | None \<Rightarrow> scanItems fn items acc
        })"

definition DocStorage_Scan ::
  "('db, 'txn, 'f) DocEnv \<Rightarrow> 'db \<Rightarrow> bytes \<Rightarrow> (bytes \<Rightarrow> bytes \<Rightarrow> 'a \<Rightarrow> ('a \<times> doc_err option) option) \<Rightarrow> 'a \<Rightarrow>
   ('a \<times> doc_err option) option" where
  "DocStorage_Scan E d pre fn acc = View (deB E) d (\<lambda>txn. scanItems fn (txnIterate (deB E) txn (deNow E) pre) acc)"

definition DocStorage_Count :: "('db, 'txn, 'f) DocEnv \<Rightarrow> 'db \<Rightarrow> bytes \<Rightarrow> nat" where
  "DocStorage_Count E d pre = View (deB E) d (\<lambda>txn. length (txnIterate (deB E) txn (deNow E) pre))"

fun setAll :: "('db, 'txn) badger \<Rightarrow> time \<Rightarrow> (bytes \<times> bytes) list \<Rightarrow> 'txn \<Rightarrow> badger_err + 'txn" where
  "setAll B now [] txn = Inr txn"
| "setAll B now ((key, data) # items) txn =
     (case txnSetEntry B txn now key data 0 of Inl e \<Rightarrow> Inl e | Inr txn \<Rightarrow> setAll B now items txn)"

definition DocStorage_BatchSet :: "('db, 'txn, 'f) DocEnv \<Rightarrow> 'db \<Rightarrow> (bytes \<times> bytes) list \<Rightarrow> 'db \<times> (doc_err + unit)" where
  "DocStorage_BatchSet E d items = docUpdate E d (setAll (deB E) (deNow E) items)"

fun deleteAll :: "('db, 'txn) badger \<Rightarrow> bytes list \<Rightarrow> 'txn \<Rightarrow> badger_err + 'txn" where
  "deleteAll B [] txn = Inr txn"
| "deleteAll B (key # ks) txn = (case txnDelete B txn key of Inl e \<Rightarrow> Inl e | Inr txn \<Rightarrow> deleteAll B ks txn)"

definition DocStorage_BatchDelete :: "('db, 'txn, 'f) DocEnv \<Rightarrow> 'db \<Rightarrow> bytes list \<Rightarrow> 'db \<times> (doc_err + unit)" where
  "DocStorage_BatchDelete E d ks = docUpdate E d (deleteAll (deB E) ks)"

definition SetJSON :: "('db, 'txn, 'f) DocEnv \<Rightarrow> 'db \<Rightarrow> bytes \<Rightarrow> 'f gval \<Rightarrow> 'db \<times> (doc_err + unit)" where
  "SetJSON E d key v =
     (case Marshal (deJ E) v of
        Inl e \<Rightarrow> (d, Inl (DocError (lit ''failed to marshal JSON: '' @ e)))
      | Inr data \<Rightarrow> DocStorage_Set E d key data)"

definition GetJSON :: "('db, 'txn, 'f) DocEnv \<Rightarrow> 'db \<Rightarrow> bytes \<Rightarrow> doc_err + 'f gval" where
  "GetJSON E d key =
     (case DocStorage_Get E d key of
        Inl e \<Rightarrow> Inl (DocBadger e)
      | Inr data \<Rightarrow> (case Unmarshal (deJ E) data of Inl e \<Rightarrow> Inl (DocError e) | Inr v \<Rightarrow> Inr v))"

section \<open>Indexes\<close>

definition makeKey :: "gostring \<Rightarrow> gostring \<Rightarrow> bytes" where
  "makeKey collection i = lit ''doc:'' @ collection @ lit '':'' @ i"

definition makeCollectionPrefix :: "gostring \<Rightarrow> bytes" where
  "makeCollectionPrefix collection = lit ''doc:'' @ collection @ lit '':''"

definition idsOf :: "'f fieldIndex \<Rightarrow> 'f gval \<Rightarrow> gostring list" where
  "idsOf fi val = (case map_of fi val of None \<Rightarrow> [] | Some ids \<Rightarrow> ids)"

definition indexAdd :: "gostring \<Rightarrow> 'f Document \<Rightarrow> gostring \<times> 'f fieldIndex \<Rightarrow> (gostring \<times> 'f fieldIndex) option" where
  "indexAdd i doc = (\<lambda>(field, fi).
     case map_of doc field of
       None \<Rightarrow> Some (field, fi)
     | Some val \<Rightarrow> if hashable val then Some (field, AList.update val (idsOf fi val @ [i]) fi) else None)"

definition indexRemove :: "gostring \<Rightarrow> 'f Document \<Rightarrow> gostring \<times> 'f fieldIndex \<Rightarrow> (gostring \<times> 'f fieldIndex) option" where
  "indexRemove i doc = (\<lambda>(field, fi).
     case map_of doc field of
       None \<Rightarrow> Some (field, fi)
     | Some val \<Rightarrow>
         if \<not> hashable val then None
         else case map_of fi val of
           None \<Rightarrow> Some (field, fi)
         | Some ids \<Rightarrow>
             let newIds = filter (\<lambda>j. j \<noteq> i) ids in
             Some (field, if newIds = [] then AList.delete val fi else AList.update val newIds fi))"

fun overFields :: "('a \<Rightarrow> 'b option) \<Rightarrow> 'a list \<Rightarrow> 'b list option" where
  "overFields f [] = Some []"
| "overFields f (x # xs) = do { y \<leftarrow> f x; ys \<leftarrow> overFields f xs; Some (y # ys) }"

definition changeIndexes ::
  "(gostring \<times> 'f fieldIndex \<Rightarrow> (gostring \<times> 'f fieldIndex) option) \<Rightarrow> ('db, 'f) DocStore \<Rightarrow> gostring \<Rightarrow> ('db, 'f) DocStore option" where
  "changeIndexes f ds collection =
     (case map_of (indexes ds) collection of
        None \<Rightarrow> Some ds
      | Some coll \<Rightarrow> map_option (\<lambda>coll. ds\<lparr>indexes := AList.update collection coll (indexes ds)\<rparr>) (overFields f coll))"

definition updateIndexes :: "('db, 'f) DocStore \<Rightarrow> gostring \<Rightarrow> gostring \<Rightarrow> 'f Document \<Rightarrow> ('db, 'f) DocStore option" where
  "updateIndexes ds collection i doc = changeIndexes (indexAdd i doc) ds collection"

definition removeIndexes :: "('db, 'f) DocStore \<Rightarrow> gostring \<Rightarrow> gostring \<Rightarrow> 'f Document \<Rightarrow> ('db, 'f) DocStore option" where
  "removeIndexes ds collection i doc = changeIndexes (indexRemove i doc) ds collection"

definition indexMetadataKey :: bytes where "indexMetadataKey = lit ''db:indexes_metadata''"

text \<open>\<open>map[string][]string\<close> as JSON, and back: anything of another shape is an error.\<close>

fun strings :: "'f gval list \<Rightarrow> gostring list option" where
  "strings [] = Some []"
| "strings (GString s # vs) = map_option ((#) s) (strings vs)"
| "strings (GNil # vs) = map_option ((#) []) (strings vs)"
| "strings _ = None"

fun toMetadata :: "'f Document \<Rightarrow> (gostring \<times> gostring list) list option" where
  "toMetadata [] = Some []"
| "toMetadata ((c, v) # kvs) = do {
     fs \<leftarrow> (case v of GArr vs \<Rightarrow> strings vs | GNil \<Rightarrow> Some [] | _ \<Rightarrow> None);
     rest \<leftarrow> toMetadata kvs;
     Some ((c, fs) # rest)
   }"

definition saveIndexMetadata :: "('db, 'txn, 'f) DocEnv \<Rightarrow> ('db, 'f) DocStore \<Rightarrow> ('db, 'f) DocStore \<times> (doc_err + unit)" where
  "saveIndexMetadata E ds =
     (let metadata = map (\<lambda>(c, coll). (c, GStrings (deVisit E (map fst coll)))) (filter (\<lambda>(c, coll). coll \<noteq> []) (indexes ds))
      in apfst (\<lambda>d. ds\<lparr>docdb := d\<rparr>) (SetJSON E (docdb ds) indexMetadataKey (GMap metadata)))"

text \<open>The indexes come back with their fields but without entries.\<close>

definition loadIndexMetadata :: "('db, 'txn, 'f) DocEnv \<Rightarrow> ('db, 'f) DocStore \<Rightarrow> doc_err + ('db, 'f) DocStore" where
  "loadIndexMetadata E ds =
     (case GetJSON E (docdb ds) indexMetadataKey of
        Inl (DocBadger BadgerErrKeyNotFound) \<Rightarrow> Inr ds
      | Inl e \<Rightarrow> Inl e
      | Inr v \<Rightarrow>
          (case (case v of GMap kvs \<Rightarrow> toMetadata kvs | GNil \<Rightarrow> Some [] | _ \<Rightarrow> None) of
             None \<Rightarrow> Inl (DocError (typeError (deJ E) v))
           | Some metadata \<Rightarrow>
               Inr (ds\<lparr>indexes := map (\<lambda>(c, fs). (c, map (\<lambda>f. (f, [])) (remdups fs))) metadata\<rparr>)))"

definition DocStore_New :: "('db, 'txn, 'f) DocEnv \<Rightarrow> badger_err + 'db \<Rightarrow> doc_err + ('db, 'f) DocStore" where
  "DocStore_New E opened =
     (case opened of
        Inl e \<Rightarrow> Inl (DocError (lit ''failed to open BadgerDB: '' @ doc_errmsg (DocBadger e)))
      | Inr d \<Rightarrow>
          (case loadIndexMetadata E \<lparr>docdb = d, indexes = []\<rparr> of
             Inl e \<Rightarrow> Inl (DocError (lit ''failed to load indexes: '' @ doc_errmsg e))
           | Inr ds \<Rightarrow> Inr ds))"

definition DocStore_Close :: "('db, 'txn, 'f) DocEnv \<Rightarrow> ('db, 'f) DocStore \<Rightarrow> ('db, 'f) DocStore \<times> doc_err option" where
  "DocStore_Close E ds = (case dbClose (deB E) (docdb ds) of (d, e) \<Rightarrow> (ds\<lparr>docdb := d\<rparr>, map_option DocBadger e))"

end
