(* ===== verification/DocOps.thy ===== *)
theory DocOps
  imports DocStore
begin

text \<open>
  The operations of the document store, \<open>src/internal/db/db.go\<close>: inserting, reading, finding with or
  without an index, updating, deleting, and the indexes.  \<open>None\<close> is a panic.
\<close>

section \<open>Documents\<close>

definition idField :: gostring where "idField = lit ''_id''"
definition createdField :: gostring where "createdField = lit ''_created_at''"
definition updatedField :: gostring where "updatedField = lit ''_updated_at''"

text \<open>\<open>doc["_id"].(string)\<close>\<close>

definition idOf :: "'f Document \<Rightarrow> gostring option" where
  "idOf doc = (case map_of doc idField of Some (GString s) \<Rightarrow> Some s | _ \<Rightarrow> None)"

text \<open>The identifier of a new document and the document with it and the timestamps.\<close>

definition newDoc :: "('db, 'txn, 'f) DocEnv \<Rightarrow> 'f Document \<Rightarrow> gostring \<times> 'f Document" where
  "newDoc E doc =
     (let i = (case idOf doc of Some s \<Rightarrow> if s = [] then deUUID E else s | None \<Rightarrow> deUUID E);
          doc = AList.update idField (GString i) doc;
          doc = AList.update createdField (GInt64 (UnixMilli (deNow E))) doc;
          doc = AList.update updatedField (GInt64 (UnixMilli (deNow E))) doc
      in (i, doc))"

definition Insert ::
  "('db, 'txn, 'f) DocEnv \<Rightarrow> ('db, 'f) DocStore \<Rightarrow> gostring \<Rightarrow> 'f Document \<Rightarrow> (('db, 'f) DocStore \<times> (doc_err + gostring)) option" where
  "Insert E ds collection doc =
     (if collection = [] then Some (ds, Inl ErrInvalidCollection)
      else case newDoc E doc of (i, doc) \<Rightarrow>
        case Marshal (deJ E) (GMap doc) of
          Inl e \<Rightarrow> Some (ds, Inl (DocError (lit ''failed to marshal document: '' @ e)))
        | Inr data \<Rightarrow>
            (case DocStorage_Set E (docdb ds) (makeKey collection i) data of
               (d, Inl e) \<Rightarrow> Some (ds\<lparr>docdb := d\<rparr>, Inl (DocError (lit ''failed to insert document: '' @ doc_errmsg e)))
             | (d, Inr _) \<Rightarrow> map_option (\<lambda>ds. (ds, Inr i)) (updateIndexes (ds\<lparr>docdb := d\<rparr>) collection i doc)))"

definition DocStore_Get ::
  "('db, 'txn, 'f) DocEnv \<Rightarrow> ('db, 'f) DocStore \<Rightarrow> gostring \<Rightarrow> gostring \<Rightarrow> doc_err + 'f Document" where
  "DocStore_Get E ds collection i =
     (if collection = [] \<or> i = [] then Inl ErrInvalidDocument
      else case DocStorage_Get E (docdb ds) (makeKey collection i) of
        Inl BadgerErrKeyNotFound \<Rightarrow> Inl ErrDocumentNotFound
      | Inl e \<Rightarrow> Inl (DocBadger e)
      | Inr data \<Rightarrow> (case unmarshalDoc (deJ E) data of Inl e \<Rightarrow> Inl (DocError e) | Inr doc \<Rightarrow> Inr doc))"

section \<open>Finding\<close>

text \<open>The first equality filter on an indexed field decides: the identifiers the index has for its value, in
  the inner option.  \<open>None\<close> outside is a lookup with a value that cannot be a key.\<close>

fun indexedIds :: "'f collIndex \<Rightarrow> 'f Query list \<Rightarrow> gostring list option option" where
  "indexedIds coll [] = Some None"
| "indexedIds coll (q # qs) =
     (if Operator q \<noteq> lit ''eq'' then indexedIds coll qs
      else case map_of coll (Field q) of
        None \<Rightarrow> indexedIds coll qs
      | Some fi \<Rightarrow> if hashable (qValue q) then Some (Some (idsOf fi (qValue q))) else None)"

definition tryUseIndexes :: "('db, 'f) DocStore \<Rightarrow> gostring \<Rightarrow> 'f Query list \<Rightarrow> gostring list option option" where
  "tryUseIndexes ds collection filters =
     (case map_of (indexes ds) collection of
        None \<Rightarrow> Some None
      | Some coll \<Rightarrow> if coll = [] then Some None else indexedIds coll filters)"

text \<open>The documents of the given identifiers that can be read and match.\<close>

definition readDoc :: "('db, 'txn, 'f) DocEnv \<Rightarrow> 'db \<Rightarrow> gostring \<Rightarrow> gostring \<Rightarrow> 'f Document option" where
  "readDoc E d collection i =
     (case DocStorage_Get E d (makeKey collection i) of
        Inl _ \<Rightarrow> None
      | Inr data \<Rightarrow> (case unmarshalDoc (deJ E) data of Inl _ \<Rightarrow> None | Inr doc \<Rightarrow> Some doc))"

definition fetchDocs :: "('db, 'txn, 'f) DocEnv \<Rightarrow> 'db \<Rightarrow> gostring \<Rightarrow> 'f Query list \<Rightarrow> gostring list \<Rightarrow> 'f Document list" where
  "fetchDocs E d collection filters ids =
     filter (\<lambda>doc. matchesFilters (deF E) doc filters) (List.map_filter (readDoc E d collection) ids)"

text \<open>A page of the identifiers, \<open>None\<close> when it starts after the last one, in which case \<open>Find\<close> returns at
  once.  A negative start panics when there is anything to read.\<close>

definition pageIds :: "goint \<Rightarrow> goint \<Rightarrow> gostring list \<Rightarrow> gostring list option option" where
  "pageIds skip limit docIDs =
     (let startIdx = sint skip;
          n = int (length docIDs);
          endIdx = (if limit <s 0 then n else sint (skip + limit))
      in if n \<le> startIdx then Some None
         else let endIdx = min endIdx n in
           if endIdx \<le> startIdx then Some (Some [])
           else if startIdx < 0 then None
           else Some (Some (take (nat (endIdx - startIdx)) (drop (nat startIdx) docIDs))))"

text \<open>The full scan.\<close>

definition scanMatch ::
  "('db, 'txn, 'f) DocEnv \<Rightarrow> 'f Query list \<Rightarrow> bytes \<Rightarrow> bytes \<Rightarrow> 'f Document list \<Rightarrow>
   ('f Document list \<times> doc_err option) option" where
  "scanMatch E filters key data results =
     (case unmarshalDoc (deJ E) data of
        Inl e \<Rightarrow> Some (results, Some (DocError e))
      | Inr doc \<Rightarrow> Some (if matchesFilters (deF E) doc filters then results @ [doc] else results, None))"

text \<open>The results of a search are a Go slice, \<open>None\<close> when it is nil: nothing was ever appended to it.\<close>

definition elems :: "'d list option \<Rightarrow> 'd list" where
  "elems results = (case results of None \<Rightarrow> [] | Some ds \<Rightarrow> ds)"

definition appended :: "'d list \<Rightarrow> 'd list option" where
  "appended ds = (if ds = [] then None else Some ds)"

definition paginate :: "goint \<Rightarrow> goint \<Rightarrow> 'd list option \<Rightarrow> 'd list option" where
  "paginate skip limit results =
     (let results =
            (if 0 <s skip
             then if int (length (elems results)) \<le> sint skip then Some [] else map_option (drop (nat (sint skip))) results
             else results)
      in if 0 <s limit \<and> sint limit < int (length (elems results)) then map_option (take (nat (sint limit))) results else results)"

definition sorted_by :: "'f Floats \<Rightarrow> SortOption option \<Rightarrow> 'f Document list \<Rightarrow> 'f Document list" where
  "sorted_by F so results = (case so of None \<Rightarrow> results | Some opt \<Rightarrow> sortResults F opt results)"

definition Find ::
  "('db, 'txn, 'f) DocEnv \<Rightarrow> ('db, 'f) DocStore \<Rightarrow> gostring \<Rightarrow> 'f FindOptions \<Rightarrow>
   (doc_err + 'f Document list option) option" where
  "Find E ds collection opts =
     (if collection = [] then Some (Inl ErrInvalidCollection)
      else do {
        found \<leftarrow> tryUseIndexes ds collection (Filters opts);
        let finish = (\<lambda>results. paginate (Skip opts) (Limit opts) (appended (sorted_by (deF E) (Sort opts) results)));
        case found of
          Some docIDs \<Rightarrow> do {
            page \<leftarrow> pageIds (Skip opts) (Limit opts) docIDs;
            Some (Inr (case page of None \<Rightarrow> None | Some ids \<Rightarrow> finish (fetchDocs E (docdb ds) collection (Filters opts) ids)))
          }
        | None \<Rightarrow> do {
            (results, err) \<leftarrow> DocStorage_Scan E (docdb ds) (makeCollectionPrefix collection) (scanMatch E (Filters opts)) [];
            Some (case err of Some e \<Rightarrow> Inl e | None \<Rightarrow> Inr (finish results))
          }
      })"

definition FindOne ::
  "('db, 'txn, 'f) DocEnv \<Rightarrow> ('db, 'f) DocStore \<Rightarrow> gostring \<Rightarrow> 'f FindOptions \<Rightarrow> (doc_err + 'f Document) option" where
  "FindOne E ds collection opts =
     checked (Find E ds collection (opts\<lparr>Limit := 1\<rparr>)) (\<lambda>results.
       Some (case elems results of [] \<Rightarrow> Inl ErrDocumentNotFound | doc # _ \<Rightarrow> Inr doc))"

section \<open>Changing\<close>

text \<open>The new document.  Replacing writes the identifier into the given map, which panics if it is nil.\<close>

definition applyUpdate :: "time \<Rightarrow> gostring \<Rightarrow> 'f UpdateOptions \<Rightarrow> 'f Document \<Rightarrow> 'f Document option" where
  "applyUpdate now i opts doc =
     map_option (\<lambda>doc. fold AList.delete (Unset opts) (AList.update updatedField (GInt64 (UnixMilli now)) doc))
       (if Merge opts
        then Some (fold (\<lambda>(k, v). AList.update k v) (case uoSet opts of None \<Rightarrow> [] | Some kvs \<Rightarrow> kvs) doc)
        else map_option (AList.update idField (GString i)) (uoSet opts))"

definition DocStore_Update ::
  "('db, 'txn, 'f) DocEnv \<Rightarrow> ('db, 'f) DocStore \<Rightarrow> gostring \<Rightarrow> gostring \<Rightarrow> 'f UpdateOptions \<Rightarrow>
   (('db, 'f) DocStore \<times> (doc_err + unit)) option" where
  "DocStore_Update E ds collection i opts =
     (if collection = [] \<or> i = [] then Some (ds, Inl ErrInvalidDocument)
      else case DocStore_Get E ds collection i of
        Inl e \<Rightarrow> Some (ds, Inl e)
      | Inr oldDoc \<Rightarrow> do {
          doc \<leftarrow> applyUpdate (deNow E) i opts oldDoc;
          case Marshal (deJ E) (GMap doc) of
            Inl e \<Rightarrow> Some (ds, Inl (DocError (lit ''failed to marshal document: '' @ e)))
          | Inr data \<Rightarrow>
              (case DocStorage_Set E (docdb ds) (makeKey collection i) data of
                 (d, Inl e) \<Rightarrow> Some (ds\<lparr>docdb := d\<rparr>, Inl e)
               | (d, Inr _) \<Rightarrow> do {
                   ds \<leftarrow> removeIndexes (ds\<lparr>docdb := d\<rparr>) collection i oldDoc;
                   ds \<leftarrow> updateIndexes ds collection i doc;
                   Some (ds, Inr ())
                 })
        })"

definition DocStore_Delete ::
  "('db, 'txn, 'f) DocEnv \<Rightarrow> ('db, 'f) DocStore \<Rightarrow> gostring \<Rightarrow> gostring \<Rightarrow> (('db, 'f) DocStore \<times> (doc_err + unit)) option" where
  "DocStore_Delete E ds collection i =
     (if collection = [] \<or> i = [] then Some (ds, Inl ErrInvalidDocument)
      else case DocStore_Get E ds collection i of
        Inl e \<Rightarrow> Some (ds, Inl e)
      | Inr doc \<Rightarrow>
          (case DocStorage_Delete E (docdb ds) (makeKey collection i) of
             (d, Inl e) \<Rightarrow> Some (ds\<lparr>docdb := d\<rparr>, Inl e)
           | (d, Inr _) \<Rightarrow> map_option (\<lambda>ds. (ds, Inr ())) (removeIndexes (ds\<lparr>docdb := d\<rparr>) collection i doc)))"

text \<open>Documents without a string as \<open>_id\<close> and those that cannot be deleted are skipped.\<close>

fun deleteEach ::
  "('db, 'txn, 'f) DocEnv \<Rightarrow> gostring \<Rightarrow> 'f Document list \<Rightarrow> ('db, 'f) DocStore \<Rightarrow> nat \<Rightarrow> (('db, 'f) DocStore \<times> nat) option" where
  "deleteEach E collection [] ds deleted = Some (ds, deleted)"
| "deleteEach E collection (doc # docs) ds deleted =
     (case idOf doc of
        None \<Rightarrow> deleteEach E collection docs ds deleted
      | Some i \<Rightarrow> do {
          (ds, r) \<leftarrow> DocStore_Delete E ds collection i;
          deleteEach E collection docs ds (case r of Inl _ \<Rightarrow> deleted | Inr _ \<Rightarrow> deleted + 1)
        })"

definition DeleteMany ::
  "('db, 'txn, 'f) DocEnv \<Rightarrow> ('db, 'f) DocStore \<Rightarrow> gostring \<Rightarrow> 'f FindOptions \<Rightarrow> (('db, 'f) DocStore \<times> (doc_err + nat)) option" where
  "DeleteMany E ds collection opts = do {
     r \<leftarrow> Find E ds collection opts;
     case r of
       Inl e \<Rightarrow> Some (ds, Inl e)
     | Inr results \<Rightarrow> map_option (\<lambda>(ds, n). (ds, Inr n)) (deleteEach E collection (elems results) ds 0)
   }"

definition DocStore_Count :: "('db, 'txn, 'f) DocEnv \<Rightarrow> ('db, 'f) DocStore \<Rightarrow> gostring \<Rightarrow> doc_err + nat" where
  "DocStore_Count E ds collection =
     (if collection = [] then Inl ErrInvalidCollection
      else Inr (DocStorage_Count E (docdb ds) (makeCollectionPrefix collection)))"

section \<open>Index management\<close>

definition scanIndex ::
  "('db, 'txn, 'f) DocEnv \<Rightarrow> gostring \<Rightarrow> bytes \<Rightarrow> bytes \<Rightarrow> 'f fieldIndex \<Rightarrow> ('f fieldIndex \<times> doc_err option) option" where
  "scanIndex E field key data fi =
     (case unmarshalDoc (deJ E) data of
        Inl e \<Rightarrow> Some (fi, Some (DocError e))
      | Inr doc \<Rightarrow>
          (case idOf doc of
             None \<Rightarrow> Some (fi, None)
           | Some i \<Rightarrow> map_option (\<lambda>x. (snd x, None)) (indexAdd i doc (field, fi))))"

text \<open>An index that exists already is filled once more.  When the scan fails, what it added stays.\<close>

definition CreateIndex ::
  "('db, 'txn, 'f) DocEnv \<Rightarrow> ('db, 'f) DocStore \<Rightarrow> gostring \<Rightarrow> gostring \<Rightarrow> (('db, 'f) DocStore \<times> (doc_err + unit)) option" where
  "CreateIndex E ds collection field =
     (if collection = [] \<or> field = [] then Some (ds, Inl ErrInvalidDocument)
      else do {
        let coll = (case map_of (indexes ds) collection of None \<Rightarrow> [] | Some coll \<Rightarrow> coll);
        let fi = (case map_of coll field of None \<Rightarrow> [] | Some fi \<Rightarrow> fi);
        (fi, err) \<leftarrow> DocStorage_Scan E (docdb ds) (makeCollectionPrefix collection) (scanIndex E field) fi;
        let ds = ds\<lparr>indexes := AList.update collection (AList.update field fi coll) (indexes ds)\<rparr>;
        Some (case err of Some e \<Rightarrow> (ds, Inl e) | None \<Rightarrow> saveIndexMetadata E ds)
      })"

definition DropIndex ::
  "('db, 'txn, 'f) DocEnv \<Rightarrow> ('db, 'f) DocStore \<Rightarrow> gostring \<Rightarrow> gostring \<Rightarrow> ('db, 'f) DocStore \<times> (doc_err + unit)" where
  "DropIndex E ds collection field =
     (case map_of (indexes ds) collection of
        None \<Rightarrow> saveIndexMetadata E ds
      | Some coll \<Rightarrow> saveIndexMetadata E (ds\<lparr>indexes := AList.update collection (AList.delete field coll) (indexes ds)\<rparr>))"

definition ListIndexes :: "('db, 'txn, 'f) DocEnv \<Rightarrow> ('db, 'f) DocStore \<Rightarrow> gostring \<Rightarrow> gostring list" where
  "ListIndexes E ds collection =
     (case map_of (indexes ds) collection of None \<Rightarrow> [] | Some coll \<Rightarrow> deVisit E (map fst coll))"

end
