(* ===== verification/DocQuery.thy ===== *)
theory DocQuery
  imports DocOps
begin

text \<open>
  The query builders of \<open>src/internal/db/query.go\<close>.  Each method changes the builder and returns it.
\<close>

section \<open>Queries\<close>

definition OpEq :: gostring where "OpEq = lit ''eq''"
definition OpNe :: gostring where "OpNe = lit ''ne''"
definition OpGt :: gostring where "OpGt = lit ''gt''"
definition OpGte :: gostring where "OpGte = lit ''gte''"
definition OpLt :: gostring where "OpLt = lit ''lt''"
definition OpLte :: gostring where "OpLte = lit ''lte''"
definition OpIn :: gostring where "OpIn = lit ''in''"
definition SortAsc :: gostring where "SortAsc = lit ''asc''"
definition SortDesc :: gostring where "SortDesc = lit ''desc''"

record 'f QueryBuilder =
  qbCollection :: gostring
  qbFilters :: "'f Query list"
  qbSort :: "SortOption option"
  qbSkip :: goint
  qbLimit :: goint

definition NewQueryBuilder :: "gostring \<Rightarrow> 'f QueryBuilder" where
  "NewQueryBuilder collection = \<lparr>qbCollection = collection, qbFilters = [], qbSort = None, qbSkip = 0, qbLimit = - 1\<rparr>"

definition QueryBuilder_Where :: "'f QueryBuilder \<Rightarrow> gostring \<Rightarrow> gostring \<Rightarrow> 'f gval \<Rightarrow> 'f QueryBuilder" where
  "QueryBuilder_Where qb field operator val =
     qb\<lparr>qbFilters := qbFilters qb @ [\<lparr>Field = field, Operator = operator, qValue = val\<rparr>]\<rparr>"

definition WhereEq :: "'f QueryBuilder \<Rightarrow> gostring \<Rightarrow> 'f gval \<Rightarrow> 'f QueryBuilder" where
  "WhereEq qb field val = QueryBuilder_Where qb field OpEq val"

definition WhereNe :: "'f QueryBuilder \<Rightarrow> gostring \<Rightarrow> 'f gval \<Rightarrow> 'f QueryBuilder" where
  "WhereNe qb field val = QueryBuilder_Where qb field OpNe val"

definition WhereGt :: "'f QueryBuilder \<Rightarrow> gostring \<Rightarrow> 'f gval \<Rightarrow> 'f QueryBuilder" where
  "WhereGt qb field val = QueryBuilder_Where qb field OpGt val"

definition WhereGte :: "'f QueryBuilder \<Rightarrow> gostring \<Rightarrow> 'f gval \<Rightarrow> 'f QueryBuilder" where
  "WhereGte qb field val = QueryBuilder_Where qb field OpGte val"

definition WhereLt :: "'f QueryBuilder \<Rightarrow> gostring \<Rightarrow> 'f gval \<Rightarrow> 'f QueryBuilder" where
  "WhereLt qb field val = QueryBuilder_Where qb field OpLt val"

definition WhereLte :: "'f QueryBuilder \<Rightarrow> gostring \<Rightarrow> 'f gval \<Rightarrow> 'f QueryBuilder" where
  "WhereLte qb field val = QueryBuilder_Where qb field OpLte val"

definition WhereIn :: "'f QueryBuilder \<Rightarrow> gostring \<Rightarrow> 'f gval \<Rightarrow> 'f QueryBuilder" where
  "WhereIn qb field vals = QueryBuilder_Where qb field OpIn vals"

definition OrderBy :: "'f QueryBuilder \<Rightarrow> gostring \<Rightarrow> gostring \<Rightarrow> 'f QueryBuilder" where
  "OrderBy qb field direction = qb\<lparr>qbSort := Some \<lparr>soField = field, Direction = direction\<rparr>\<rparr>"

definition OrderByAsc :: "'f QueryBuilder \<Rightarrow> gostring \<Rightarrow> 'f QueryBuilder" where
  "OrderByAsc qb field = OrderBy qb field SortAsc"

definition OrderByDesc :: "'f QueryBuilder \<Rightarrow> gostring \<Rightarrow> 'f QueryBuilder" where
  "OrderByDesc qb field = OrderBy qb field SortDesc"

definition QueryBuilder_Skip :: "'f QueryBuilder \<Rightarrow> goint \<Rightarrow> 'f QueryBuilder" where
  "QueryBuilder_Skip qb n = qb\<lparr>qbSkip := n\<rparr>"

definition QueryBuilder_Limit :: "'f QueryBuilder \<Rightarrow> goint \<Rightarrow> 'f QueryBuilder" where
  "QueryBuilder_Limit qb n = qb\<lparr>qbLimit := n\<rparr>"

definition Take :: "'f QueryBuilder \<Rightarrow> goint \<Rightarrow> 'f QueryBuilder" where
  "Take qb n = QueryBuilder_Limit qb n"

definition QueryBuilder_Build :: "'f QueryBuilder \<Rightarrow> 'f FindOptions" where
  "QueryBuilder_Build qb = \<lparr>Filters = qbFilters qb, Sort = qbSort qb, Skip = qbSkip qb, Limit = qbLimit qb, IndexName = []\<rparr>"

definition QueryBuilder_String :: "'f QueryBuilder \<Rightarrow> gostring" where
  "QueryBuilder_String qb =
     lit ''Query{collection='' @ qbCollection qb @ lit '', filters='' @ lit (dec (length (qbFilters qb))) @
     lit '', skip='' @ lit (dec_int (sint (qbSkip qb))) @ lit '', limit='' @ lit (dec_int (sint (qbLimit qb))) @ lit ''}''"

section \<open>Updates\<close>

record 'f UpdateBuilder =
  ubCollection :: gostring
  ubFilters :: "'f Query list"
  setFields :: "'f Document"
  unsetFields :: "gostring list"
  ubMerge :: bool

definition NewUpdateBuilder :: "gostring \<Rightarrow> 'f UpdateBuilder" where
  "NewUpdateBuilder collection = \<lparr>ubCollection = collection, ubFilters = [], setFields = [], unsetFields = [], ubMerge = True\<rparr>"

definition UpdateBuilder_Where :: "'f UpdateBuilder \<Rightarrow> gostring \<Rightarrow> gostring \<Rightarrow> 'f gval \<Rightarrow> 'f UpdateBuilder" where
  "UpdateBuilder_Where ub field operator val =
     ub\<lparr>ubFilters := ubFilters ub @ [\<lparr>Field = field, Operator = operator, qValue = val\<rparr>]\<rparr>"

definition UpdateBuilder_Set :: "'f UpdateBuilder \<Rightarrow> gostring \<Rightarrow> 'f gval \<Rightarrow> 'f UpdateBuilder" where
  "UpdateBuilder_Set ub field val = ub\<lparr>setFields := AList.update field val (setFields ub)\<rparr>"

definition SetMany :: "'f UpdateBuilder \<Rightarrow> 'f Document \<Rightarrow> 'f UpdateBuilder" where
  "SetMany ub fs = ub\<lparr>setFields := fold (\<lambda>(k, v). AList.update k v) fs (setFields ub)\<rparr>"

definition UpdateBuilder_Unset :: "'f UpdateBuilder \<Rightarrow> gostring \<Rightarrow> 'f UpdateBuilder" where
  "UpdateBuilder_Unset ub field = ub\<lparr>unsetFields := unsetFields ub @ [field]\<rparr>"

definition UnsetMany :: "'f UpdateBuilder \<Rightarrow> gostring list \<Rightarrow> 'f UpdateBuilder" where
  "UnsetMany ub fs = ub\<lparr>unsetFields := unsetFields ub @ fs\<rparr>"

definition Replace :: "'f UpdateBuilder \<Rightarrow> 'f UpdateBuilder" where
  "Replace ub = ub\<lparr>ubMerge := False\<rparr>"

definition UpdateBuilder_Merge :: "'f UpdateBuilder \<Rightarrow> 'f UpdateBuilder" where
  "UpdateBuilder_Merge ub = ub\<lparr>ubMerge := True\<rparr>"

text \<open>The options that \<open>Build\<close> leaves out are Go's zero values: in particular a limit of 0.\<close>

definition onlyFilters :: "'f Query list \<Rightarrow> 'f FindOptions" where
  "onlyFilters filters = \<lparr>Filters = filters, Sort = None, Skip = 0, Limit = 0, IndexName = []\<rparr>"

definition UpdateBuilder_Build :: "'f UpdateBuilder \<Rightarrow> 'f FindOptions \<times> 'f UpdateOptions" where
  "UpdateBuilder_Build ub =
     (onlyFilters (ubFilters ub), \<lparr>uoSet = Some (setFields ub), Unset = unsetFields ub, Merge = ubMerge ub\<rparr>)"

section \<open>Deletions\<close>

record 'f DeleteBuilder =
  dbCollection :: gostring
  dbFilters :: "'f Query list"

definition NewDeleteBuilder :: "gostring \<Rightarrow> 'f DeleteBuilder" where
  "NewDeleteBuilder collection = \<lparr>dbCollection = collection, dbFilters = []\<rparr>"

definition DeleteBuilder_Where :: "'f DeleteBuilder \<Rightarrow> gostring \<Rightarrow> gostring \<Rightarrow> 'f gval \<Rightarrow> 'f DeleteBuilder" where
  "DeleteBuilder_Where db field operator val =
     db\<lparr>dbFilters := dbFilters db @ [\<lparr>Field = field, Operator = operator, qValue = val\<rparr>]\<rparr>"

definition DeleteBuilder_Build :: "'f DeleteBuilder \<Rightarrow> 'f FindOptions" where
  "DeleteBuilder_Build db = onlyFilters (dbFilters db)"

end
