(* ===== verification/DocHandlers.thy ===== *)
theory DocHandlers
  imports StreamHandlers DocQuery
begin

text \<open>
  The handlers of \<open>src/internal/server/db_handlers.go\<close>.  The document store of the server may be nil.
  Logging is left out.  \<open>D\<close> has floating point, JSON and the order of maps; Badger, the clock and the
  identifier come from the environment of the request.
\<close>

section \<open>Responses\<close>

text \<open>\<open>select { case c.outQueue <- response: ...; case <-c.ctx.Done(): }\<close>.  Without a \<open>default\<close> it waits while
  the queue is full, until a turn of \<open>writeLoop\<close> has taken a message; \<open>ok\<close> says whether that write
  succeeds.\<close>

definition sendWaiting :: "('db, 'txn) Env \<Rightarrow> bool \<Rightarrow> bytes \<Rightarrow> ('db, 'ext) st \<Rightarrow> ('db, 'ext) st" where
  "sendWaiting E ok response st = (case st of (s, c) \<Rightarrow>
     let c = (if length (outQueue c) < outQueueSize \<or> ctxDone c then c else fst (writeLoop E ok c))
     in selectSend E response (s, c) (\<lambda>(s, c). (s\<lparr>opsProcessed := opsProcessed s + 1\<rparr>, c)) id)"

definition docFail :: "('db, 'txn) Env \<Rightarrow> gostring \<Rightarrow> ('db, 'ext) st \<Rightarrow> ('db, 'ext) st option" where
  "docFail E msg st = map_option countError (sendBinaryError E msg st)"

definition docRespond ::
  "('db, 'txn) Env \<Rightarrow> bool \<Rightarrow> ('a \<Rightarrow> gostring + bytes) \<Rightarrow> ('db, 'ext) st \<times> (doc_err + 'a) \<Rightarrow> ('db, 'ext) st option" where
  "docRespond E ok payload sr = (case sr of (st, r) \<Rightarrow>
     case r of
       Inl e \<Rightarrow> docFail E (doc_errmsg e) st
     | Inr a \<Rightarrow>
         (case payload a of
            Inl e \<Rightarrow> docFail E e st
          | Inr data \<Rightarrow> do {
              response \<leftarrow> EncodeValueResponse data;
              Some (sendWaiting E ok response st)
            }))"

type_synonym ('db, 'f) dst = "('db, ('db, 'f) DocStore option) sst"

definition docEnv :: "('db, 'txn) Env \<Rightarrow> ('db, 'txn, 'f) DocEnv \<Rightarrow> ('db, 'txn, 'f) DocEnv" where
  "docEnv E D = D\<lparr>deB := envB E, deNow := envNow E, deUUID := envUUID E\<rparr>"

definition withDocs ::
  "('db, 'txn) Env \<Rightarrow> ('db, 'f) dst \<Rightarrow>
   (('db, 'f) DocStore \<Rightarrow> ('db, 'f) dst option) \<Rightarrow> ('db, 'f) dst option" where
  "withDocs E st f =
     (case srvDocs (srvOther (fst st)) of
        None \<Rightarrow> docFail E (lit ''document store not available'') st
      | Some ds \<Rightarrow> f ds)"

definition setDocs :: "('db, 'f) dst \<Rightarrow> ('db, 'f) DocStore \<Rightarrow> ('db, 'f) dst" where
  "setDocs st ds = (case st of (s, c) \<Rightarrow> (s\<lparr>srvOther := (srvOther s)\<lparr>srvDocs := Some ds\<rparr>\<rparr>, c))"

section \<open>Queries\<close>

definition toString :: "'f Floats \<Rightarrow> 'f gval \<Rightarrow> gostring" where
  "toString F val = (case val of GString s \<Rightarrow> s | v \<Rightarrow> sprint F v)"

text \<open>The elements that are objects; a missing field reads as nil.\<close>

fun parseFilters :: "'f Floats \<Rightarrow> 'f gval list \<Rightarrow> 'f Query list" where
  "parseFilters F [] = []"
| "parseFilters F (GMap f # fs) =
     \<lparr>Field = toString F (fieldOf (lit ''field'') f), Operator = toString F (fieldOf (lit ''operator'') f),
      qValue = fieldOf (lit ''value'') f\<rparr> # parseFilters F fs"
| "parseFilters F (_ # fs) = parseFilters F fs"

definition buildFindOptions :: "'f Floats \<Rightarrow> 'f Document \<Rightarrow> 'f FindOptions" where
  "buildFindOptions F queryData =
     \<lparr>Filters = (case map_of queryData (lit ''filters'') of Some (GArr fs) \<Rightarrow> parseFilters F fs | _ \<Rightarrow> []),
      Sort = (case map_of queryData (lit ''sort'') of
          Some (GMap m) \<Rightarrow> Some \<lparr>soField = toString F (fieldOf (lit ''field'') m), Direction = toString F (fieldOf (lit ''direction'') m)\<rparr>
        | _ \<Rightarrow> None),
      Skip = (case map_of queryData (lit ''skip'') of Some (GFloat64 x) \<Rightarrow> fToInt F x | _ \<Rightarrow> 0),
      Limit = (case map_of queryData (lit ''limit'') of Some (GFloat64 x) \<Rightarrow> fToInt F x | _ \<Rightarrow> 0),
      IndexName = []\<rparr>"

section \<open>Handlers\<close>

definition processBinaryDocInsert ::
  "('db, 'txn) Env \<Rightarrow> ('db, 'txn, 'f) DocEnv \<Rightarrow> bool \<Rightarrow> Request \<Rightarrow> ('db, 'f) dst \<Rightarrow>
   ('db, 'f) dst option" where
  "processBinaryDocInsert E D ok req st = withDocs E st (\<lambda>ds.
     case unmarshalDoc (deJ D) (rqValue req) of
       Inl e \<Rightarrow> docFail E (lit ''invalid JSON document: '' @ e) st
     | Inr doc \<Rightarrow> do {
         (ds, r) \<leftarrow> Insert (docEnv E D) ds (rqCollection req) doc;
         docRespond E ok Inr (setDocs st ds, r)
       })"

definition resultsValue :: "'f Document list option \<Rightarrow> 'f gval" where
  "resultsValue results = (case results of None \<Rightarrow> GNil | Some docs \<Rightarrow> GArr (map GMap docs))"

definition processBinaryDocFind ::
  "('db, 'txn) Env \<Rightarrow> ('db, 'txn, 'f) DocEnv \<Rightarrow> bool \<Rightarrow> Request \<Rightarrow> ('db, 'f) dst \<Rightarrow>
   ('db, 'f) dst option" where
  "processBinaryDocFind E D ok req st = withDocs E st (\<lambda>ds.
     case unmarshalDoc (deJ D) (rqValue req) of
       Inl e \<Rightarrow> docFail E (lit ''invalid query format: '' @ e) st
     | Inr queryData \<Rightarrow> do {
         r \<leftarrow> Find (docEnv E D) ds (rqCollection req) (buildFindOptions (deF D) queryData);
         docRespond E ok (\<lambda>results. Marshal (deJ D) (resultsValue results)) (st, r)
       })"

text \<open>The documents without a string as \<open>_id\<close> and those that cannot be updated are skipped.\<close>

fun updateEach ::
  "('db, 'txn, 'f) DocEnv \<Rightarrow> gostring \<Rightarrow> 'f Document \<Rightarrow> 'f Document list \<Rightarrow> ('db, 'f) DocStore \<Rightarrow> nat \<Rightarrow>
   (('db, 'f) DocStore \<times> nat) option" where
  "updateEach E collection updateData [] ds updated = Some (ds, updated)"
| "updateEach E collection updateData (doc # docs) ds updated =
     (case idOf doc of
        None \<Rightarrow> updateEach E collection updateData docs ds updated
      | Some i \<Rightarrow> do {
          (ds, r) \<leftarrow> DocStore_Update E ds collection i \<lparr>uoSet = Some updateData, Unset = [], Merge = True\<rparr>;
          updateEach E collection updateData docs ds (case r of Inl _ \<Rightarrow> updated | Inr _ \<Rightarrow> updated + 1)
        })"

definition countJSON :: "string \<Rightarrow> nat \<Rightarrow> bytes" where
  "countJSON what n = lit (''{'' @ [CHR 34] @ what @ [CHR 34] @ '':'' @ dec n @ ''}'')"

definition processBinaryDocUpdate ::
  "('db, 'txn) Env \<Rightarrow> ('db, 'txn, 'f) DocEnv \<Rightarrow> bool \<Rightarrow> Request \<Rightarrow> ('db, 'f) dst \<Rightarrow>
   ('db, 'f) dst option" where
  "processBinaryDocUpdate E D ok req st = withDocs E st (\<lambda>ds.
     case unmarshalDoc (deJ D) (rqValue req) of
       Inl e \<Rightarrow> docFail E (lit ''invalid options format: '' @ e) st
     | Inr optsData \<Rightarrow>
         (case map_of optsData (lit ''set'') of
            Some (GMap updateData) \<Rightarrow> do {
              r \<leftarrow> Find (docEnv E D) ds (rqCollection req) (buildFindOptions (deF D) optsData);
              case r of
                Inl e \<Rightarrow> docFail E (doc_errmsg e) st
              | Inr results \<Rightarrow> do {
                  (ds, updated) \<leftarrow> updateEach (docEnv E D) (rqCollection req) updateData (elems results) ds 0;
                  docRespond E ok (\<lambda>n. Inr (countJSON ''updated'' n)) (setDocs st ds, Inr updated)
                }
            }
          | _ \<Rightarrow> docFail E (lit ''missing 'set' in update options'') st))"

definition processBinaryDocDelete ::
  "('db, 'txn) Env \<Rightarrow> ('db, 'txn, 'f) DocEnv \<Rightarrow> bool \<Rightarrow> Request \<Rightarrow> ('db, 'f) dst \<Rightarrow>
   ('db, 'f) dst option" where
  "processBinaryDocDelete E D ok req st = withDocs E st (\<lambda>ds.
     case unmarshalDoc (deJ D) (rqValue req) of
       Inl e \<Rightarrow> docFail E (lit ''invalid query format: '' @ e) st
     | Inr queryData \<Rightarrow> do {
         (ds, r) \<leftarrow> DeleteMany (docEnv E D) ds (rqCollection req) (buildFindOptions (deF D) queryData);
         docRespond E ok (\<lambda>n. Inr (countJSON ''deleted'' n)) (setDocs st ds, r)
       })"

definition processBinaryDocIndex ::
  "('db, 'txn) Env \<Rightarrow> ('db, 'txn, 'f) DocEnv \<Rightarrow> bool \<Rightarrow> Request \<Rightarrow> ('db, 'f) dst \<Rightarrow>
   ('db, 'f) dst option" where
  "processBinaryDocIndex E D ok req st = withDocs E st (\<lambda>ds. do {
     (ds, r) \<leftarrow> CreateIndex (docEnv E D) ds (rqCollection req) (rqKey req);
     docRespond E ok (\<lambda>_. Inr (lit ''OK'')) (setDocs st ds, r)
   })"

text \<open>The part of the dispatch that concerns the documents.\<close>

definition docDispatch ::
  "('db, 'txn) Env \<Rightarrow> ('db, 'txn, 'f) DocEnv \<Rightarrow> bool \<Rightarrow> Request \<Rightarrow> ('db, 'f) dst \<Rightarrow>
   ('db, 'f) dst option" where
  "docDispatch E D ok req st = (let op = rqOpCode req in
     if op = OpDocInsert then processBinaryDocInsert E D ok req st
     else if op = OpDocFind then processBinaryDocFind E D ok req st
     else if op = OpDocUpdate then processBinaryDocUpdate E D ok req st
     else if op = OpDocDelete then processBinaryDocDelete E D ok req st
     else processBinaryDocIndex E D ok req st)"

text \<open>All opcodes of the server.\<close>

definition allDispatch ::
  "('db, 'txn) Env \<Rightarrow> vref StreamEnv \<Rightarrow> ('db, 'txn, 'f) DocEnv \<Rightarrow> bool \<Rightarrow> Request \<Rightarrow> ('db, 'f) dst \<Rightarrow> ('db, 'f) dst option" where
  "allDispatch E V D ok = streamDispatch E V (docDispatch E D ok)"

end
