(* ===== verification/DocInstance.thy ===== *)
theory DocInstance
  imports DocHandlers
begin

text \<open>
  An executable instance of what the document store takes from its environment: whole numbers for the
  floating-point ones, and a tagged binary code in the place of JSON text.  It shows that the contract
  \<open>go_json\<close> can be met and lets the model be evaluated.
\<close>

section \<open>The code\<close>

definition intFloats :: "int Floats" where
  "intFloats = \<lparr>fLess = (<), fLessEq = (\<le>), fOfInt = id, fToInt = word_of_int, fShow = (\<lambda>x. lit (dec_int x)), fShow32 = (\<lambda>x. lit (dec_int x))\<rparr>"

definition encNat :: "nat \<Rightarrow> bytes" where
  "encNat n = replicate n 1 @ [0]"

definition encInt :: "int \<Rightarrow> bytes" where
  "encInt x = (if x < 0 then 1 else 0) # encNat (nat \<bar>x\<bar>)"

fun encVal :: "int gval \<Rightarrow> bytes" where
  "encVal (GBool b) = [if b then 1 else 2]"
| "encVal (GFloat64 x) = 3 # encInt x"
| "encVal (GString s) = 4 # encNat (length s) @ s"
| "encVal (GArr vs) = 5 # encNat (length vs) @ concat (map encVal vs)"
| "encVal (GMap kvs) = 6 # encNat (length kvs) @ concat (map (\<lambda>(k, v). encNat (length k) @ k @ encVal v) kvs)"
| "encVal _ = [0]"

fun decNat :: "bytes \<Rightarrow> nat \<times> bytes" where
  "decNat [] = (0, [])"
| "decNat (b # bs) = (if b = 0 then (0, bs) else apfst Suc (decNat bs))"

fun decInt :: "bytes \<Rightarrow> int \<times> bytes" where
  "decInt [] = (0, [])"
| "decInt (b # bs) = apfst (\<lambda>n. if b = 0 then int n else - int n) (decNat bs)"

definition decString :: "bytes \<Rightarrow> gostring \<times> bytes" where
  "decString bs = (case decNat bs of (n, bs) \<Rightarrow> (take n bs, drop n bs))"

fun decVal :: "nat \<Rightarrow> bytes \<Rightarrow> (int gval \<times> bytes) option"
and decVals :: "nat \<Rightarrow> nat \<Rightarrow> bytes \<Rightarrow> (int gval list \<times> bytes) option"
and decPairs :: "nat \<Rightarrow> nat \<Rightarrow> bytes \<Rightarrow> (int Document \<times> bytes) option" where
  "decVal (Suc n) (b # bs) =
     (if b = 0 then Some (GNil, bs)
      else if b = 1 then Some (GBool True, bs)
      else if b = 2 then Some (GBool False, bs)
      else if b = 3 then (case decInt bs of (x, bs) \<Rightarrow> Some (GFloat64 x, bs))
      else if b = 4 then (case decString bs of (s, bs) \<Rightarrow> Some (GString s, bs))
      else if b = 5 then (case decNat bs of (k, bs) \<Rightarrow> map_option (apfst GArr) (decVals n k bs))
      else if b = 6 then (case decNat bs of (k, bs) \<Rightarrow> map_option (apfst GMap) (decPairs n k bs))
      else None)"
| "decVal _ _ = None"
| "decVals (Suc n) (Suc k) bs = do { (v, bs) \<leftarrow> decVal n bs; (vs, bs) \<leftarrow> decVals n k bs; Some (v # vs, bs) }"
| "decVals (Suc n) 0 bs = Some ([], bs)"
| "decVals 0 _ _ = None"
| "decPairs (Suc n) (Suc k) bs = (case decString bs of (s, bs) \<Rightarrow>
     do { (v, bs) \<leftarrow> decVal n bs; (kvs, bs) \<leftarrow> decPairs n k bs; Some ((s, v) # kvs, bs) })"
| "decPairs (Suc n) 0 bs = Some ([], bs)"
| "decPairs 0 _ _ = None"

definition tagJson :: "int Json" where
  "tagJson = \<lparr>Marshal = (\<lambda>v. Inr (encVal (jsonNorm intFloats v))),
     Unmarshal = (\<lambda>data. case decVal (length data) data of Some (v, []) \<Rightarrow> Inr v | _ \<Rightarrow> Inl (lit ''invalid character'')),
     typeError = (\<lambda>_. lit ''json: cannot unmarshal'')\<rparr>"

section \<open>Its round trip\<close>

lemma decNat_enc [simp]: "decNat (encNat n @ bs) = (n, bs)"
  by (induction n) (simp_all add: encNat_def)

lemma decInt_enc [simp]: "decInt (encInt x @ bs) = (x, bs)"
  by (simp add: encInt_def)

lemma decString_enc [simp]: "decString (encNat (length s) @ s @ bs) = (s, bs)"
  by (simp add: decString_def)

lemma length_encNat [simp]: "length (encNat n) = Suc n"
  by (simp add: encNat_def)

lemma length_encVal: "0 < length (encVal v)"
  by (cases v) simp_all

text \<open>The values that come out of JSON.\<close>

fun plainVal :: "'f gval \<Rightarrow> bool" where
  "plainVal (GArr vs) = list_all plainVal vs"
| "plainVal (GMap kvs) = list_all plainVal (map snd kvs)"
| "plainVal (GFloat32 x) = False"
| "plainVal (GInt n) = False"
| "plainVal (GInt64 n) = False"
| "plainVal (GInt32 n) = False"
| "plainVal (GStrings ss) = False"
| "plainVal _ = True"

lemma plain_jsonNorm: "asciiVal v \<Longrightarrow> plainVal (jsonNorm F v)"
proof (induction v)
  case (GMap kvs)
  then show ?case by (force simp: list_all_iff)
qed (auto simp: list_all_iff)

lemma decVals_enc:
  assumes "\<And>v n rest. v \<in> set vs \<Longrightarrow> length (encVal v) \<le> n \<Longrightarrow> decVal n (encVal v @ rest) = Some (v, rest)"
    and "length (concat (map encVal vs)) < n"
  shows "decVals n (length vs) (concat (map encVal vs) @ rest) = Some (vs, rest)"
  using assms
proof (induction vs arbitrary: n)
  case Nil
  then show ?case by (cases n) simp_all
next
  case (Cons v vs)
  moreover obtain m where "n = Suc m" using Cons.prems(2) by (cases n) simp_all
  moreover have "length (concat (map encVal vs)) < m"
    using Cons.prems(2) length_encVal [of v] unfolding \<open>n = Suc m\<close> list.map concat.simps length_append by linarith
  moreover from this have "decVals m (length vs) (concat (map encVal vs) @ rest) = Some (vs, rest)"
    using Cons.prems(1) by (intro Cons.IH) auto
  ultimately show ?case by simp
qed

definition encPair :: "gostring \<times> int gval \<Rightarrow> bytes" where
  "encPair = (\<lambda>(k, v). encNat (length k) @ k @ encVal v)"

lemma decPairs_enc:
  assumes "\<And>v n rest. v \<in> snd ` set kvs \<Longrightarrow> length (encVal v) \<le> n \<Longrightarrow> decVal n (encVal v @ rest) = Some (v, rest)"
    and "length (concat (map encPair kvs)) < n"
  shows "decPairs n (length kvs) (concat (map encPair kvs) @ rest) = Some (kvs, rest)"
  using assms
proof (induction kvs arbitrary: n)
  case Nil
  then show ?case by (cases n) simp_all
next
  case (Cons kv kvs)
  moreover obtain k v where "kv = (k, v)" by fastforce
  moreover obtain m where "n = Suc m" using Cons.prems(2) by (cases n) simp_all
  moreover have "decPairs m (length kvs) (concat (map encPair kvs) @ rest) = Some (kvs, rest)"
    using Cons.prems \<open>n = Suc m\<close> \<open>kv = (k, v)\<close> by (intro Cons.IH) (auto simp: encPair_def)
  ultimately show ?case by (simp add: encPair_def)
qed

lemma decVal_enc: "plainVal v \<Longrightarrow> length (encVal v) \<le> n \<Longrightarrow> decVal n (encVal v @ rest) = Some (v, rest)"
proof (induction v arbitrary: n rest)
  case (GArr vs)
  moreover obtain m where "n = Suc m" using GArr.prems(2) by (cases n) simp_all
  moreover have "decVals m (length vs) (concat (map encVal vs) @ rest) = Some (vs, rest)"
    using GArr \<open>n = Suc m\<close> by (intro decVals_enc) (auto simp: list_all_iff)
  ultimately show ?case by simp
next
  case (GMap kvs)
  moreover obtain m where "n = Suc m" using GMap.prems(2) by (cases n) simp_all
  moreover have "decPairs m (length kvs) (concat (map encPair kvs) @ rest) = Some (kvs, rest)"
    using GMap \<open>n = Suc m\<close> by (intro decPairs_enc) (force simp: list_all_iff encPair_def [symmetric])+
  ultimately show ?case by (simp add: encPair_def [symmetric])
qed (case_tac [!] n, auto)

interpretation js: go_json intFloats tagJson
proof
  fix v :: "int gval" and data
  assume "asciiVal v" and "Marshal tagJson v = Inr data"
  then show "Unmarshal tagJson data = Inr (jsonNorm intFloats v)"
    using decVal_enc [OF plain_jsonNorm [of v intFloats], of _ "[]"] by (auto simp: tagJson_def)
qed

definition memDocs :: "(mem_db, int) DocStore" where
  "memDocs = \<lparr>docdb = [], indexes = []\<rparr>"

definition memDocEnv :: "time \<Rightarrow> (mem_db, mem_txn, int) DocEnv" where
  "memDocEnv now = \<lparr>deB = mem_badger, deF = intFloats, deJ = tagJson, deNow = now, deUUID = lit ''u1'', deVisit = id\<rparr>"

end
