(* ===== verification/DocSort.thy ===== *)
theory DocSort
  imports DocInstance "HOL-Library.Multiset"
begin

text \<open>
  \<open>sortResults\<close> of \<open>src/internal/db/helpers.go\<close> against the library's stable sort.
\<close>

section \<open>Bubble sort\<close>

lemma mset_bubble [simp]: "mset (bubble swap n xs) = mset xs"
  by (induction swap n xs rule: bubble.induct) auto

lemma mset_bubbles [simp]: "mset (bubbles swap n xs) = mset xs"
  by (induction swap n xs rule: bubbles.induct) auto

lemma filter_bubble:
  "(\<And>x y. swap x y \<Longrightarrow> \<not> (P x \<and> P y)) \<Longrightarrow> filter P (bubble swap n xs) = filter P xs"
  by (induction swap n xs rule: bubble.induct) auto

lemma filter_bubbles:
  "(\<And>x y. swap x y \<Longrightarrow> \<not> (P x \<and> P y)) \<Longrightarrow> filter P (bubbles swap n xs) = filter P xs"
  by (induction swap n xs rule: bubbles.induct) (simp_all add: filter_bubble)

text \<open>One round carries a largest element of the part it goes through to the end of that part.\<close>

lemma bubble_round:
  assumes total: "\<And>x y. swap x y \<Longrightarrow> le y x" and keep: "\<And>x y. \<not> swap x y \<Longrightarrow> le x y"
    and trans: "\<And>x y z. le x y \<Longrightarrow> le y z \<Longrightarrow> le x z"
  shows "length ys = Suc n \<Longrightarrow> \<exists>ys' m. bubble swap n (ys @ zs) = ys' @ m # zs \<and> length ys' = n \<and> (\<forall>y\<in>set ys'. le y m)"
proof (induction n arbitrary: ys)
  case 0
  then show ?case by (auto simp: length_Suc_conv intro!: exI [of _ "[]"])
next
  case (Suc n)
  then obtain x y r where ys: "ys = x # y # r" "length r = n" by (auto simp: length_Suc_conv)
  define a where "a = (if swap x y then y else x)"
  define b where "b = (if swap x y then x else y)"
  have ab: "le a b" "bubble swap (Suc n) (ys @ zs) = a # bubble swap n ((b # r) @ zs)"
    using total keep by (auto simp: a_def b_def ys)
  obtain ys' m where r: "bubble swap n ((b # r) @ zs) = ys' @ m # zs" "length ys' = n" "\<forall>y\<in>set ys'. le y m"
    using Suc.IH [of "b # r"] ys(2) by auto
  have "mset (b # r) = mset (ys' @ [m])" using arg_cong [OF r(1), of mset] by simp
  then have "b \<in> set (ys' @ [m])" by (metis list.set_intros(1) set_mset_mset)
  then have "le b m" using r(3) keep [of m m] total [of m m] by (cases "swap m m") auto
  then have "le a m" using ab(1) trans by blast
  with r ab show ?case by (intro exI [of _ "a # ys'"] exI [of _ m]) auto
qed

lemma bubbles_sorted:
  assumes total: "\<And>x y. swap x y \<Longrightarrow> le y x" and keep: "\<And>x y. \<not> swap x y \<Longrightarrow> le x y"
    and trans: "\<And>x y z. le x y \<Longrightarrow> le y z \<Longrightarrow> le x z"
  shows "length ys = n \<Longrightarrow> sorted_wrt le zs \<Longrightarrow> \<forall>y\<in>set ys. \<forall>z\<in>set zs. le y z \<Longrightarrow> sorted_wrt le (bubbles swap n (ys @ zs))"
proof (induction n arbitrary: ys zs)
  case (Suc n)
  obtain ys' m where r: "bubble swap n (ys @ zs) = ys' @ m # zs" "length ys' = n" "\<forall>y\<in>set ys'. le y m"
    using bubble_round [of swap le ys n zs] total keep trans Suc.prems(1) by blast
  have "mset ys = mset (ys' @ [m])" using arg_cong [OF r(1), of mset] by simp
  then have "set ys = insert m (set ys')" by (metis set_mset_mset list.simps(15) set_append Un_insert_right sup_bot.right_neutral list.set(1))
  with Suc.prems(2,3) r have "sorted_wrt le (bubbles swap n (ys' @ (m # zs)))"
    by (intro Suc.IH) auto
  then show ?case by (simp add: r(1))
qed simp

lemma bubbles_sort_key:
  fixes f :: "'d \<Rightarrow> 'k::linorder"
  shows "bubbles (\<lambda>x y. f y < f x) (length xs) xs = sort_key f xs"
proof -
  have "sorted_wrt (\<lambda>x y. f x \<le> f y) (bubbles (\<lambda>x y. f y < f x) (length xs) (xs @ []))"
    by (rule bubbles_sorted) auto
  then have "sorted (map f (bubbles (\<lambda>x y. f y < f x) (length xs) xs))" by (simp add: sorted_wrt_map)
  then show ?thesis by (intro properties_for_sort_key [symmetric] filter_bubbles) auto
qed

text \<open>Downwards, equal elements in their old order too.\<close>

lemma bubbles_sort_key_down:
  fixes f :: "'d \<Rightarrow> 'k::linorder"
  shows "bubbles (\<lambda>x y. f x < f y) (length xs) xs = rev (sort_key f (rev xs))"
proof -
  let ?ys = "bubbles (\<lambda>x y. f x < f y) (length xs) xs"
  have "sorted_wrt (\<lambda>x y. f y \<le> f x) (bubbles (\<lambda>x y. f x < f y) (length xs) (xs @ []))"
    by (rule bubbles_sorted) auto
  then have "sorted (map f (rev ?ys))" by (simp add: sorted_wrt_map sorted_wrt_rev rev_map [symmetric])
  moreover have "filter (\<lambda>x. f k = f x) ?ys = filter (\<lambda>x. f k = f x) xs" for k by (rule filter_bubbles) auto
  ultimately have "sort_key f (rev xs) = rev ?ys"
    by (intro properties_for_sort_key) (simp_all add: rev_filter [symmetric])
  then show ?thesis by simp
qed

text \<open>C16: the order of search results.  When comparing two numbers is comparing their places in a linear order,
  as it is for all floating-point numbers but NaN, \<open>sortResults\<close> is the stable sort by the number in the
  field, upwards or, for the direction desc, downwards; values that are no numbers count as 0.\<close>

theorem doc_sort_stable:
  fixes place :: "'f \<Rightarrow> 'k::linorder"
  assumes "\<And>x y. fLess F x y \<longleftrightarrow> place x < place y"
  defines "num \<equiv> (\<lambda>opt d. place (toFloat64 F (fieldOf (soField opt) d)))"
  shows "sortResults F opt docs =
    (if Direction opt = lit ''desc'' then rev (sort_key (num opt) (rev docs)) else sort_key (num opt) docs)"
proof -
  have "shouldSwap F opt = (if Direction opt = lit ''desc'' then (\<lambda>x y. num opt x < num opt y) else (\<lambda>x y. num opt y < num opt x))"
    by (simp add: fun_eq_iff shouldSwap_def Let_def lessThan_def greaterThan_def assms)
  then show ?thesis by (simp add: sortResults_def bubbles_sort_key bubbles_sort_key_down)
qed

theorem doc_sort_stable_witness:
  "sortResults intFloats \<lparr>soField = lit ''n'', Direction = lit ''desc''\<rparr>
     [[(lit ''n'', GFloat64 1)], [(lit ''n'', GInt 3), (lit ''a'', GNil)], [(lit ''n'', GString (lit ''9''))], [(lit ''n'', GFloat64 3)]] =
     [[(lit ''n'', GInt 3), (lit ''a'', GNil)], [(lit ''n'', GFloat64 3)], [(lit ''n'', GFloat64 1)], [(lit ''n'', GString (lit ''9''))]]"
proof -
  have "fLess intFloats x y \<longleftrightarrow> id x < id y" for x y by (simp add: intFloats_def)
  from doc_sort_stable [of intFloats id, OF this] show ?thesis by (simp add: fieldOf_def intFloats_def)
qed

end
