(* ===== verification/DocRefine.thy ===== *)
theory DocRefine
  imports DocSort
begin

text \<open>
  The document store as a map from keys to documents: what an insertion, an update and a deletion do to it,
  and what reading returns.
\<close>

section \<open>Keys\<close>

lemma makeKey_prefix: "makeKey c i = makeCollectionPrefix c @ i"
  by (simp add: makeKey_def makeCollectionPrefix_def)

lemma makeKey_inj: "clean c \<Longrightarrow> clean c' \<Longrightarrow> makeKey c i = makeKey c' j \<longleftrightarrow> c = c' \<and> i = j"
  unfolding makeKey_def clean_def by (auto simp: colon append_eq_append_conv2 append_eq_Cons_conv Cons_eq_append_conv)

lemma makeKey_not_metadata [simp]: "makeKey c i \<noteq> indexMetadataKey" "indexMetadataKey \<noteq> makeKey c i"
  by (simp_all add: makeKey_def indexMetadataKey_def lit_def)

text \<open>The keys of documents.  Two documents of collections without colons in their names have the same
  key only if they are the same document of the same collection.  Otherwise a colon moves between the two
  names: what is inserted into one collection is read from the other.\<close>

theorem doc_keys:
  "(clean c \<and> clean c' \<longrightarrow> (makeKey c i = makeKey c' j \<longleftrightarrow> c = c' \<and> i = j)) \<and>
   (i \<noteq> [] \<longrightarrow> c \<noteq> [] \<longrightarrow> DocStore_Get E ds c (x @ lit '':'' @ i) = DocStore_Get E ds (c @ lit '':'' @ x) i)"
  by (simp add: makeKey_inj) (simp add: DocStore_Get_def makeKey_def colon)

theorem doc_keys_witness:
  "makeKey (lit ''a'') (lit ''b:c'') = makeKey (lit ''a:b'') (lit ''c'') \<and>
   makeKey (lit ''a'') (lit ''b'') \<noteq> makeKey (lit ''ab'') (lit ''b'') \<and>
   DocStore_Get (memDocEnv 0) memDocs (lit ''a'') (lit ''b:c'') = DocStore_Get (memDocEnv 0) memDocs (lit ''a:b'') (lit ''c'')"
  using doc_keys [of "lit ''a''" "lit ''ab''" "lit ''b''" "lit ''b''"]
    doc_keys [of "lit ''a''" "lit ''a''" "lit ''c''" _ "memDocEnv 0" memDocs "lit ''b''"]
  by (simp add: clean_def lit_def makeKey_def)

section \<open>JSON\<close>

text \<open>A document as it comes back from the database.\<close>

definition jsonDoc :: "'f Floats \<Rightarrow> 'f Document \<Rightarrow> 'f Document" where
  "jsonDoc F doc = sort_key fst (map (\<lambda>(k, v). (k, jsonNorm F v)) doc)"

lemma map_of_sort_key:
  assumes "distinct (map fst kvs)"
  shows "map_of (sort_key fst kvs) = map_of kvs"
proof
  fix k
  have "distinct (map fst (sort_key fst kvs))"
    using assms by (metis mset_map mset_sort mset_eq_imp_distinct_iff)
  then show "map_of (sort_key fst kvs) k = map_of kvs k"
    using assms map_of_eq_None_iff [of "sort_key fst kvs" k] map_of_eq_None_iff [of kvs k]
    by (cases "map_of kvs k") (simp_all add: map_of_eq_Some_iff)
qed

lemma map_of_jsonDoc:
  assumes "distinct (map fst doc)"
  shows "map_of (jsonDoc F doc) k = map_option (jsonNorm F) (map_of doc k)"
proof -
  have "map fst (map (\<lambda>(k, v). (k, jsonNorm F v)) doc) = map fst doc" by auto
  then have "map_of (jsonDoc F doc) = map_of (map (\<lambda>(k, v). (k, jsonNorm F v)) doc)"
    unfolding jsonDoc_def using assms by (metis map_of_sort_key)
  then show ?thesis by (simp add: map_of_map)
qed

context go_json
begin

lemma unmarshalDoc_marshal:
  assumes "asciiVal (GMap doc)" and "Marshal J (GMap doc) = Inr data"
  shows "unmarshalDoc J data = Inr (jsonDoc F doc)"
  using unmarshal_marshal [OF assms] by (simp add: unmarshalDoc_def unmarshalMap_def jsonDoc_def)

end

section \<open>Storage\<close>

lemma DocStorage_Get_eq: "DocStorage_Get E d k = dbGet (deB E) d (deNow E) k"
  by (simp add: DocStorage_Get_def View_def dbGet_def)

lemma readDoc_now: "readDoc E d c i = (case dbGet (deB E) d (deNow E) (makeKey c i) of
    Inl _ \<Rightarrow> None | Inr data \<Rightarrow> (case unmarshalDoc (deJ E) data of Inl _ \<Rightarrow> None | Inr doc \<Rightarrow> Some doc))"
  by (simp add: readDoc_def DocStorage_Get_eq)

context badger_store
begin

lemma docUpdate_error: "deB E = B \<Longrightarrow> docUpdate E d fn = (d', Inl e) \<Longrightarrow> d' = d"
  unfolding docUpdate_def by (metis Update_error)

lemma DocStorage_Set_reads:
  assumes "deB E = B" and "DocStorage_Set E d k data = (d', Inr x)"
  shows "dbGet B d' u j = (if j = k then Inr data else dbGet B d u j)"
proof -
  have "installs B [k \<mapsto> Put (deNow E) data 0] d d'"
    using assms(2) unfolding DocStorage_Set_def docUpdate_def assms(1)
    by (elim Update_success) (auto intro!: txn_set txn_begin split: sum.splits)
  then show ?thesis by (auto intro: installs_clean installs_put)
qed

lemma DocStorage_Delete_reads:
  assumes "deB E = B" and "DocStorage_Delete E d k = (d', Inr x)"
  shows "dbGet B d' u j = (if j = k then Inl BadgerErrKeyNotFound else dbGet B d u j)"
proof -
  have "installs B [k \<mapsto> Del] d d'"
    using assms(2) unfolding DocStorage_Delete_def docUpdate_def assms(1)
    by (elim Update_success) (auto intro!: txn_del txn_begin split: sum.splits)
  then show ?thesis by (auto intro: installs_clean installs_del)
qed

end

lemma storage_errors:
  "badger_store (deB E) \<Longrightarrow> DocStorage_Set E d k data = (d', Inl e) \<Longrightarrow> d' = d"
  "badger_store (deB E) \<Longrightarrow> DocStorage_Delete E d k = (d', Inl e) \<Longrightarrow> d' = d"
  unfolding DocStorage_Set_def DocStorage_Delete_def by (metis badger_store.docUpdate_error)+

lemma updateIndexes_docdb: "updateIndexes ds c i doc = Some ds' \<Longrightarrow> docdb ds' = docdb ds"
  by (auto simp: updateIndexes_def changeIndexes_def split: option.splits)

lemma removeIndexes_docdb: "removeIndexes ds c i doc = Some ds' \<Longrightarrow> docdb ds' = docdb ds"
  by (auto simp: removeIndexes_def changeIndexes_def split: option.splits)

section \<open>The map of documents\<close>

definition docAt :: "('db, 'txn) badger \<Rightarrow> 'f Json \<Rightarrow> time \<Rightarrow> 'db \<Rightarrow> bytes \<rightharpoonup> 'f Document" where
  "docAt B J u d k = (case dbGet B d u k of
     Inl _ \<Rightarrow> None | Inr data \<Rightarrow> (case unmarshalDoc J data of Inl _ \<Rightarrow> None | Inr doc \<Rightarrow> Some doc))"

lemma readDoc_eq: "readDoc E d c i = docAt (deB E) (deJ E) (deNow E) d (makeKey c i)"
  by (simp add: readDoc_def DocStorage_Get_eq docAt_def)

lemma DocStore_Get_docAt:
  "DocStore_Get E ds c i = Inr doc \<longleftrightarrow> c \<noteq> [] \<and> i \<noteq> [] \<and> docAt (deB E) (deJ E) (deNow E) (docdb ds) (makeKey c i) = Some doc"
  by (auto simp: DocStore_Get_def docAt_def DocStorage_Get_eq split: sum.splits badger_err.splits)

lemma newDoc_id: "deUUID E \<noteq> [] \<Longrightarrow> newDoc E doc = (i, stored) \<Longrightarrow> i \<noteq> []"
  by (auto simp: newDoc_def Let_def split: option.splits if_splits)

lemma docAt_put:
  assumes "badger_store (deB E)" and "go_json (deF E) (deJ E)" and "asciiVal (GMap doc)"
    and "Marshal (deJ E) (GMap doc) = Inr data" and "DocStorage_Set E d k data = (d', Inr x)"
  shows "docAt (deB E) (deJ E) u d' = (docAt (deB E) (deJ E) u d)(k \<mapsto> jsonDoc (deF E) doc)"
  using badger_store.DocStorage_Set_reads [OF assms(1) refl assms(5)] go_json.unmarshalDoc_marshal [OF assms(2-4)]
  by (auto simp: docAt_def fun_eq_iff)

lemma Insert_cases:
  assumes "Insert E ds c doc = Some (ds', r)" and "badger_store (deB E)" and "newDoc E doc = (i, stored)"
  obtains (err) e where "r = Inl e" "ds' = ds"
  | (ok) data d where "c \<noteq> []" "r = Inr i" "Marshal (deJ E) (GMap stored) = Inr data"
      "DocStorage_Set E (docdb ds) (makeKey c i) data = (d, Inr ())" "updateIndexes (ds\<lparr>docdb := d\<rparr>) c i stored = Some ds'"
  using assms by (auto simp: Insert_def split: if_splits sum.splits prod.splits dest: storage_errors(1))

lemma Insert_effect:
  assumes "badger_store (deB E)" and "go_json (deF E) (deJ E)" and "newDoc E doc = (i, stored)" and "asciiVal (GMap stored)"
    and "Insert E ds c doc = Some (ds', Inr j)"
  shows "j = i \<and> c \<noteq> [] \<and>
    docAt (deB E) (deJ E) u (docdb ds') = (docAt (deB E) (deJ E) u (docdb ds))(makeKey c i \<mapsto> jsonDoc (deF E) stored)"
  using assms(5,1,3)
proof (cases rule: Insert_cases)
  case (ok data d)
  with docAt_put [OF assms(1,2,4) ok(3,4)] updateIndexes_docdb [OF ok(5)] show ?thesis by simp
qed simp

text \<open>C14: inserting a document.  \<open>Insert\<close> either fails and changes nothing, or returns the identifier, the one
  in the document if it has one and a new one otherwise, and from then on the document is read under it, as
  JSON gives it back, and every other document as before.\<close>

theorem doc_insert:
  assumes "badger_store (deB E)" and "go_json (deF E) (deJ E)" and "deUUID E \<noteq> []"
    and "newDoc E doc = (i, stored)" and "asciiVal (GMap stored)" and "Insert E ds c doc = Some (ds', r)"
  shows "(\<exists>e. r = Inl e \<and> ds' = ds) \<or>
    (r = Inr i \<and> (\<forall>u. DocStore_Get (E\<lparr>deNow := u\<rparr>) ds' c i = Inr (jsonDoc (deF E) stored)) \<and>
     (\<forall>u. docAt (deB E) (deJ E) u (docdb ds') = (docAt (deB E) (deJ E) u (docdb ds))(makeKey c i \<mapsto> jsonDoc (deF E) stored)))"
proof (cases r)
  case (Inl e)
  with Insert_cases [OF assms(6,1,4)] show ?thesis by auto
next
  case (Inr j)
  with Insert_effect [OF assms(1,2,4,5)] assms(6) newDoc_id [OF assms(3,4)] show ?thesis by (simp add: DocStore_Get_docAt)
qed

theorem doc_insert_witness:
  "\<exists>ds'. Insert (memDocEnv 5000000) memDocs (lit ''c'') [(lit ''a'', GInt 7)] = Some (ds', Inr (lit ''u1'')) \<and>
     DocStore_Get (memDocEnv 9) ds' (lit ''c'') (lit ''u1'') =
       Inr [(createdField, GFloat64 5), (idField, GString (lit ''u1'')), (updatedField, GFloat64 5), (lit ''a'', GFloat64 7)]"
proof -
  let ?E = "memDocEnv 5000000" and ?doc = "[(lit ''a'', GInt 7)] :: int Document"
  let ?s = "[(lit ''a'', GInt 7), (idField, GString (lit ''u1'')), (createdField, GInt64 5), (updatedField, GInt64 5)] :: int Document"
  have new: "newDoc ?E ?doc = (lit ''u1'', ?s)" by code_simp
  have asc: "asciiVal (GMap ?s)" by code_simp
  have js: "jsonDoc intFloats ?s = [(createdField, GFloat64 5), (idField, GString (lit ''u1'')), (updatedField, GFloat64 5), (lit ''a'', GFloat64 7)]"
    by code_simp
  have "map_option snd (Insert ?E memDocs (lit ''c'') ?doc) = Some (Inr (lit ''u1''))" by code_simp
  then obtain ds' where ins: "Insert ?E memDocs (lit ''c'') ?doc = Some (ds', Inr (lit ''u1''))" by auto
  have "DocStore_Get (?E\<lparr>deNow := 9\<rparr>) ds' (lit ''c'') (lit ''u1'') = Inr (jsonDoc intFloats ?s)"
    using doc_insert [OF _ _ _ new asc ins] mem.badger_store_axioms js.go_json_axioms by (simp add: memDocEnv_def lit_def)
  with ins js show ?thesis by (simp add: memDocEnv_def)
qed

section \<open>Updates\<close>

lemma asciiVal_GMap: "asciiVal (GMap doc) \<longleftrightarrow> distinct (map fst doc) \<and> (\<forall>(k, v)\<in>set doc. list_all (\<lambda>b. b < 128) k \<and> asciiVal v)"
  by (auto simp: list_all_iff)

lemma asciiVal_update:
  assumes "asciiVal (GMap doc)" and "list_all (\<lambda>b. b < 128) k" and "asciiVal v"
  shows "asciiVal (GMap (AList.update k v doc))"
proof -
  have "set (AList.update k v doc) \<subseteq> insert (k, v) (set doc)"
    by (induction doc) auto
  with assms show ?thesis unfolding asciiVal_GMap by (auto simp: distinct_update)
qed

lemma asciiVal_updates:
  "asciiVal (GMap doc) \<Longrightarrow> \<forall>(k, v)\<in>set kvs. list_all (\<lambda>b. b < 128) k \<and> asciiVal v \<Longrightarrow>
   asciiVal (GMap (fold (\<lambda>(k, v). AList.update k v) kvs doc))"
  by (induction kvs arbitrary: doc) (auto simp del: asciiVal.simps intro: asciiVal_update)

lemma asciiVal_delete: "asciiVal (GMap doc) \<Longrightarrow> asciiVal (GMap (AList.delete k doc))"
  unfolding asciiVal_GMap by (auto simp: AList.delete_eq distinct_map_filter)

lemma asciiVal_deletes: "asciiVal (GMap doc) \<Longrightarrow> asciiVal (GMap (fold AList.delete ks doc))"
  by (induction ks arbitrary: doc) (simp_all del: asciiVal.simps add: asciiVal_delete)

lemma map_of_updates:
  "distinct (map fst kvs) \<Longrightarrow>
   map_of (fold (\<lambda>(k, v). AList.update k v) kvs doc) j = (case map_of kvs j of Some v \<Rightarrow> Some v | None \<Rightarrow> map_of doc j)"
proof (induction kvs arbitrary: doc)
  case (Cons kv kvs)
  obtain k v where kv: "kv = (k, v)" by fastforce
  with Cons.prems have "map_of kvs k = None" by (simp add: map_of_eq_None_iff)
  with Cons kv show ?case by (auto simp: update_conv' split: option.split)
qed simp

lemma map_of_deletes: "map_of (fold AList.delete ks doc) j = (if j \<in> set ks then None else map_of doc j)"
  by (induction ks arbitrary: doc) (auto simp: delete_conv')

text \<open>What a merging update makes of a document, field by field.\<close>

definition merged :: "int64 \<Rightarrow> gostring list \<Rightarrow> 'f Document \<Rightarrow> 'f Document \<Rightarrow> gostring \<rightharpoonup> 'f gval" where
  "merged stamp unset kvs doc k =
     (if k \<in> set unset then None
      else if k = updatedField then Some (GInt64 stamp)
      else case map_of kvs k of Some v \<Rightarrow> Some v | None \<Rightarrow> map_of doc k)"

lemma applyUpdate_merge:
  assumes "Merge opts" and "uoSet opts = Some kvs" and "asciiVal (GMap kvs)" and "asciiVal (GMap doc)"
  obtains new where "applyUpdate now i opts doc = Some new" "asciiVal (GMap new)"
    "\<And>k. map_of new k = merged (UnixMilli now) (Unset opts) kvs doc k"
proof
  let ?doc = "fold (\<lambda>(k, v). AList.update k v) kvs doc"
  let ?new = "fold AList.delete (Unset opts) (AList.update updatedField (GInt64 (UnixMilli now)) ?doc)"
  show "applyUpdate now i opts doc = Some ?new" by (simp add: applyUpdate_def assms)
  have "asciiVal (GMap ?doc)" using assms(3,4) by (intro asciiVal_updates) (auto simp: asciiVal_GMap simp del: asciiVal.simps)
  then show "asciiVal (GMap ?new)"
    by (intro asciiVal_deletes asciiVal_update) (simp_all add: updatedField_def lit_def)
  show "map_of ?new k = merged (UnixMilli now) (Unset opts) kvs doc k" for k
    using assms(3) by (simp add: map_of_deletes map_of_updates merged_def update_conv')
qed

lemma Update_cases:
  assumes "DocStore_Update E ds c i opts = Some (ds', r)" and "badger_store (deB E)"
  obtains (err) e where "r = Inl e" "ds' = ds"
  | (ok) old new data d ds1 where "r = Inr ()" "DocStore_Get E ds c i = Inr old" "applyUpdate (deNow E) i opts old = Some new"
      "Marshal (deJ E) (GMap new) = Inr data" "DocStorage_Set E (docdb ds) (makeKey c i) data = (d, Inr ())"
      "removeIndexes (ds\<lparr>docdb := d\<rparr>) c i old = Some ds1" "updateIndexes ds1 c i new = Some ds'"
proof (cases "c = [] \<or> i = [] \<or> isl (DocStore_Get E ds c i)")
  case True
  with assms(1) show thesis by (auto simp: DocStore_Update_def split: if_splits sum.splits intro: err)
next
  case False
  then obtain old where old: "c \<noteq> []" "i \<noteq> []" "DocStore_Get E ds c i = Inr old" by (auto simp: isl_def split: sum.splits) (metis sum.exhaust)
  with assms(1) obtain new where new: "applyUpdate (deNow E) i opts old = Some new"
    by (cases "applyUpdate (deNow E) i opts old") (auto simp: DocStore_Update_def)
  obtain d x where set: "DocStorage_Set E (docdb ds) (makeKey c i) (projr (Marshal (deJ E) (GMap new))) = (d, x)" by fastforce
  show thesis
  proof (cases "Marshal (deJ E) (GMap new)"; cases x)
    fix data u assume "Marshal (deJ E) (GMap new) = Inr data" "x = Inr u"
    with assms(1) old new set show thesis
      by (auto simp: DocStore_Update_def bind_eq_Some_conv intro: ok)
  next
    fix data e assume *: "Marshal (deJ E) (GMap new) = Inr data" "x = Inl e"
    with set assms(2) have "d = docdb ds" by (auto dest: storage_errors(1))
    with assms(1) old new set * show thesis by (auto simp: DocStore_Update_def intro: err)
  qed (use assms old new in \<open>auto simp: DocStore_Update_def intro: err\<close>)
qed

text \<open>C15: updating a document.  A merging update that succeeds replaces exactly the given fields, stamps the
  document and removes the fields to unset, whichever they are, even \<open>_id\<close>; every other document stays.  One
  that fails changes nothing.\<close>

theorem doc_update:
  assumes "badger_store (deB E)" and "go_json (deF E) (deJ E)" and "DocStore_Update E ds c i opts = Some (ds', r)"
    and "Merge opts" and "uoSet opts = Some kvs" and "asciiVal (GMap kvs)"
    and "\<And>old. DocStore_Get E ds c i = Inr old \<Longrightarrow> asciiVal (GMap old)"
  shows "(\<exists>e. r = Inl e \<and> ds' = ds) \<or>
    (\<exists>old new. r = Inr () \<and> DocStore_Get E ds c i = Inr old \<and> (\<forall>u. DocStore_Get (E\<lparr>deNow := u\<rparr>) ds' c i = Inr new) \<and>
      (\<forall>k. map_of new k = map_option (jsonNorm (deF E)) (merged (UnixMilli (deNow E)) (Unset opts) kvs old k)) \<and>
      (\<forall>u. docAt (deB E) (deJ E) u (docdb ds') = (docAt (deB E) (deJ E) u (docdb ds))(makeKey c i \<mapsto> new)))"
  using assms(3,1)
proof (cases rule: Update_cases)
  case (ok old new data d ds1)
  obtain n where n: "applyUpdate (deNow E) i opts old = Some n" "asciiVal (GMap n)"
    "map_of n k = merged (UnixMilli (deNow E)) (Unset opts) kvs old k" for k
    using applyUpdate_merge [OF assms(4-6) assms(7) [OF ok(2)]] by metis
  with ok(3) have "asciiVal (GMap new)" "map_of new k = merged (UnixMilli (deNow E)) (Unset opts) kvs old k" for k by auto
  moreover have "map_of (jsonDoc (deF E) new) k = map_option (jsonNorm (deF E)) (map_of new k)" for k
    using \<open>asciiVal (GMap new)\<close> by (simp add: map_of_jsonDoc)
  moreover have "docdb ds' = d" using removeIndexes_docdb [OF ok(6)] updateIndexes_docdb [OF ok(7)] by simp
  ultimately show ?thesis
    using docAt_put [OF assms(1,2) _ ok(4,5)] ok(1,2) by (intro disjI2 exI [of _ old] exI [of _ "jsonDoc (deF E) new"]) (auto simp: DocStore_Get_docAt)
qed blast

definition memDocs1 :: "(mem_db, int) DocStore" where
  "memDocs1 = (case Insert (memDocEnv 5000000) memDocs (lit ''c'') [(idField, GString (lit ''i'')), (lit ''a'', GFloat64 7)] of
     Some (ds, _) \<Rightarrow> ds | None \<Rightarrow> memDocs)"

lemma memDocs1_get:
  "DocStore_Get (memDocEnv 9000000) memDocs1 (lit ''c'') (lit ''i'') =
     Inr [(createdField, GFloat64 5), (idField, GString (lit ''i'')), (updatedField, GFloat64 5), (lit ''a'', GFloat64 7)]"
  by code_simp

lemma memDocEnv_simps [simp]:
  "deB (memDocEnv u) = mem_badger" "deF (memDocEnv u) = intFloats" "deJ (memDocEnv u) = tagJson" "deNow (memDocEnv u) = u"
  "deUUID (memDocEnv u) = lit ''u1''" "(memDocEnv u)\<lparr>deNow := v\<rparr> = memDocEnv v"
  by (simp_all add: memDocEnv_def)

theorem doc_update_witness:
  "\<exists>ds' new. DocStore_Update (memDocEnv 9000000) memDocs1 (lit ''c'') (lit ''i'')
       \<lparr>uoSet = Some [(lit ''b'', GString (lit ''x''))], Unset = [idField], Merge = True\<rparr> = Some (ds', Inr ()) \<and>
     DocStore_Get (memDocEnv 11) ds' (lit ''c'') (lit ''i'') = Inr new \<and> map_of new idField = None \<and>
     map_of new (lit ''b'') = Some (GString (lit ''x'')) \<and> map_of new (lit ''a'') = Some (GFloat64 7)"
proof -
  let ?o = "\<lparr>uoSet = Some [(lit ''b'', GString (lit ''x''))], Unset = [idField], Merge = True\<rparr> :: int UpdateOptions"
  have "map_option snd (DocStore_Update (memDocEnv 9000000) memDocs1 (lit ''c'') (lit ''i'') ?o) = Some (Inr ())" by code_simp
  then obtain ds' where up: "DocStore_Update (memDocEnv 9000000) memDocs1 (lit ''c'') (lit ''i'') ?o = Some (ds', Inr ())" by auto
  have asc: "asciiVal (GMap [(lit ''b'', GString (lit ''x''))])"
    "asciiVal (GMap [(createdField, GFloat64 5), (idField, GString (lit ''i'')), (updatedField, GFloat64 5), (lit ''a'', GFloat64 7)])"
    by code_simp+
  obtain new where "DocStore_Get (memDocEnv 11) ds' (lit ''c'') (lit ''i'') = Inr new"
    "map_of new k = map_option (jsonNorm intFloats) (merged 9 [idField] [(lit ''b'', GString (lit ''x''))]
       [(createdField, GFloat64 5), (idField, GString (lit ''i'')), (updatedField, GFloat64 5), (lit ''a'', GFloat64 7)] k)" for k
    using doc_update [OF _ _ up, where kvs = "[(lit ''b'', GString (lit ''x''))]"] mem.badger_store_axioms js.go_json_axioms asc
    by (auto simp: memDocs1_get UnixMilli_def simp del: asciiVal.simps)
  with up show ?thesis
    by (intro exI [of _ ds'] exI [of _ new]) (simp add: merged_def idField_def updatedField_def createdField_def lit_def)
qed

text \<open>Deleting a document.  A deletion that succeeds removes the document and no other; one that fails, in
  particular that of a missing document, changes nothing.\<close>

theorem doc_delete:
  assumes "badger_store (deB E)" and "DocStore_Delete E ds c i = Some (ds', r)"
  shows "(\<exists>e. r = Inl e \<and> ds' = ds) \<or>
    (\<exists>doc. r = Inr () \<and> DocStore_Get E ds c i = Inr doc \<and>
      (\<forall>u. DocStore_Get (E\<lparr>deNow := u\<rparr>) ds' c i = Inl ErrDocumentNotFound) \<and>
      (\<forall>u. docAt (deB E) (deJ E) u (docdb ds') = (docAt (deB E) (deJ E) u (docdb ds))(makeKey c i := None)))"
proof (cases r)
  case (Inl e)
  with assms show ?thesis
    by (auto simp: DocStore_Delete_def split: if_splits sum.splits prod.splits dest: storage_errors(2))
next
  case (Inr x)
  then obtain doc d where del: "c \<noteq> []" "i \<noteq> []" "DocStore_Get E ds c i = Inr doc" "DocStorage_Delete E (docdb ds) (makeKey c i) = (d, Inr ())"
    "removeIndexes (ds\<lparr>docdb := d\<rparr>) c i doc = Some ds'"
    using assms(2) by (auto simp: DocStore_Delete_def split: if_splits sum.splits prod.splits)
  have "docdb ds' = d" using removeIndexes_docdb [OF del(5)] by simp
  with del Inr badger_store.DocStorage_Delete_reads [OF assms(1) refl del(4)] show ?thesis
    by (auto simp: docAt_def fun_eq_iff DocStore_Get_def DocStorage_Get_eq)
qed

theorem doc_delete_witness:
  "\<exists>ds'. DocStore_Delete (memDocEnv 9000000) memDocs1 (lit ''c'') (lit ''i'') = Some (ds', Inr ()) \<and>
     DocStore_Get (memDocEnv 11) ds' (lit ''c'') (lit ''i'') = Inl ErrDocumentNotFound"
proof -
  have "map_option snd (DocStore_Delete (memDocEnv 9000000) memDocs1 (lit ''c'') (lit ''i'')) = Some (Inr ())" by code_simp
  then obtain ds' where del: "DocStore_Delete (memDocEnv 9000000) memDocs1 (lit ''c'') (lit ''i'') = Some (ds', Inr ())" by auto
  with doc_delete [OF _ del] mem.badger_store_axioms show ?thesis by auto
qed

end
