(* ===== verification/DocFind.thy ===== *)
theory DocFind
  imports DocRefine
begin

text \<open>
  Searching: what \<open>Find\<close> returns by a scan, that it returns only stored documents that match, and what the
  indexes change about it.
\<close>

section \<open>Scanning\<close>

definition itemDoc :: "'f Json \<Rightarrow> bytes \<times> (badger_err + bytes) \<Rightarrow> 'f Document option" where
  "itemDoc J = (\<lambda>(k, r). case r of
     Inl _ \<Rightarrow> None | Inr data \<Rightarrow> (case unmarshalDoc J data of Inl _ \<Rightarrow> None | Inr doc \<Rightarrow> Some doc))"

lemma itemDoc_simps:
  "itemDoc J (k, Inl e) = None"
  "itemDoc J (k, Inr data) = (case unmarshalDoc J data of Inl _ \<Rightarrow> None | Inr doc \<Rightarrow> Some doc)"
  by (simp_all add: itemDoc_def)

lemma scanMatch_simps:
  "scanItems (scanMatch E fs) ((k, Inl e) # items) acc = Some (acc, Some (DocBadger e))"
  "scanItems (scanMatch E fs) ((k, Inr data) # items) acc = (case unmarshalDoc (deJ E) data of
     Inl e \<Rightarrow> Some (acc, Some (DocError e))
   | Inr doc \<Rightarrow> scanItems (scanMatch E fs) items (if matchesFilters (deF E) doc fs then acc @ [doc] else acc))"
  by (simp_all add: scanMatch_def split: sum.split)

lemma scanMatch_found:
  "scanItems (scanMatch E fs) items acc = Some (rs, None) \<Longrightarrow>
   rs = acc @ filter (\<lambda>doc. matchesFilters (deF E) doc fs) (List.map_filter (itemDoc (deJ E)) items)"
proof (induction items arbitrary: acc)
  case (Cons item items)
  obtain k r where "item = (k, r)" by fastforce
  with Cons show ?case
    by (cases r) (auto simp: scanMatch_simps itemDoc_simps List.map_filter_simps simp del: scanItems.simps(2)
        split: sum.splits if_splits dest!: Cons.IH)
qed (simp add: List.map_filter_simps)

lemma scanMatch_readable:
  "\<forall>item\<in>set items. itemDoc (deJ E) item \<noteq> None \<Longrightarrow> \<exists>rs. scanItems (scanMatch E fs) items acc = Some (rs, None)"
proof (induction items arbitrary: acc)
  case (Cons item items)
  then show ?case
    by (cases item) (auto simp: scanMatch_def itemDoc_def split: sum.splits)
qed simp

context badger_store
begin

lemma itemDoc_iterate:
  "item \<in> set (txnIterate B (NewTransaction B d) u p) \<Longrightarrow> prefix p (fst item) \<and> itemDoc J item = docAt B J u d (fst item)"
  by (cases item) (auto simp: mem_iterate itemDoc_def docAt_def dbGet_def)

lemma docAt_iterate:
  "prefix p k \<Longrightarrow> docAt B J u d k = Some doc \<Longrightarrow> \<exists>r. (k, r) \<in> set (txnIterate B (NewTransaction B d) u p)"
  by (auto simp: mem_iterate docAt_def dbGet_def split: sum.splits)

end

lemma set_map_filter: "set (List.map_filter f xs) = {y. \<exists>x\<in>set xs. f x = Some y}"
  by (force simp: List.map_filter_def)

lemma map_filter_map: "\<forall>x\<in>set xs. f x = Some (g x) \<Longrightarrow> List.map_filter f xs = map g xs"
  by (induction xs) (auto simp: List.map_filter_simps)

text \<open>C33: searching without an index.  When every document of the collection can be read and no index applies,
  \<open>Find\<close> returns the page asked for of the sorted list of the documents that match, which are looked at in
  the order of their keys.\<close>

theorem doc_find_scan:
  assumes "badger_store (deB E)" and "c \<noteq> []" and "tryUseIndexes ds c (Filters opts) = Some None"
    and "\<forall>k. prefix (makeCollectionPrefix c) k \<longrightarrow>
      dbGet (deB E) (docdb ds) (deNow E) k = Inl BadgerErrKeyNotFound \<or> docAt (deB E) (deJ E) (deNow E) (docdb ds) k \<noteq> None"
  shows "\<exists>ks. sorted_wrt (<) ks \<and>
    set ks = {k. prefix (makeCollectionPrefix c) k \<and> docAt (deB E) (deJ E) (deNow E) (docdb ds) k \<noteq> None} \<and>
    Find E ds c opts = Some (Inr (paginate (Skip opts) (Limit opts) (appended (sorted_by (deF E) (Sort opts)
      (filter (\<lambda>doc. matchesFilters (deF E) doc (Filters opts)) (map (\<lambda>k. the (docAt (deB E) (deJ E) (deNow E) (docdb ds) k)) ks))))))"
proof -
  let ?items = "txnIterate (deB E) (NewTransaction (deB E) (docdb ds)) (deNow E) (makeCollectionPrefix c)"
  let ?doc = "docAt (deB E) (deJ E) (deNow E) (docdb ds)"
  note it = badger_store.itemDoc_iterate [OF assms(1)]
  have readable: "?doc (fst item) \<noteq> None" if "item \<in> set ?items" for item
    using assms(4) that badger_store.mem_iterate [OF assms(1), of "fst item" "snd item"] it [OF that]
    by (metis (no_types, lifting) dbGet_def prod.collapse)
  then have all: "\<forall>item\<in>set ?items. itemDoc (deJ E) item \<noteq> None" using it by metis
  then obtain rs where rs: "scanItems (scanMatch E (Filters opts)) ?items [] = Some (rs, None)"
    using scanMatch_readable by blast
  have "\<forall>item\<in>set ?items. itemDoc (deJ E) item = Some (the (?doc (fst item)))" using all it by (metis option.collapse)
  then have "List.map_filter (itemDoc (deJ E)) ?items = map (\<lambda>k. the (?doc k)) (map fst ?items)"
    by (simp add: map_filter_map comp_def)
  then have "Find E ds c opts = Some (Inr (paginate (Skip opts) (Limit opts) (appended (sorted_by (deF E) (Sort opts)
      (filter (\<lambda>doc. matchesFilters (deF E) doc (Filters opts)) (map (\<lambda>k. the (?doc k)) (map fst ?items)))))))"
    using scanMatch_found [OF rs] assms(2,3) by (simp add: Find_def DocStorage_Scan_def View_def rs Let_def)
  moreover have "set (map fst ?items) = {k. prefix (makeCollectionPrefix c) k \<and> ?doc k \<noteq> None}"
  proof (intro equalityI subsetI)
    fix k assume "k \<in> {k. prefix (makeCollectionPrefix c) k \<and> ?doc k \<noteq> None}"
    then have "\<exists>r. (k, r) \<in> set ?items" using badger_store.docAt_iterate [OF assms(1)] by blast
    then show "k \<in> set (map fst ?items)" by force
  qed (use it readable in fastforce)
  ultimately show ?thesis using badger_store.iterate_sorted [OF assms(1)] by blast
qed

definition query1 :: "int FindOptions" where
  "query1 = QueryBuilder_Build (WhereGt (NewQueryBuilder (lit ''c'')) (lit ''a'') (GInt 3))"

definition doc1 :: "int Document" where
  "doc1 = [(createdField, GFloat64 5), (idField, GString (lit ''i'')), (updatedField, GFloat64 5), (lit ''a'', GFloat64 7)]"

lemma memDocs1_docs:
  "docAt mem_badger tagJson u (docdb memDocs1) k = (if k = makeKey (lit ''c'') (lit ''i'') then Some doc1 else None)"
  "k \<noteq> makeKey (lit ''c'') (lit ''i'') \<Longrightarrow> dbGet mem_badger (docdb memDocs1) u k = Inl BadgerErrKeyNotFound"
proof -
  let ?k = "makeKey (lit ''c'') (lit ''i'')"
  have keys: "map fst (docdb memDocs1) = [?k]" by code_simp
  have none: "dbGet mem_badger (docdb memDocs1) u k = Inl BadgerErrKeyNotFound" if "k \<noteq> ?k" for k
  proof -
    have "k \<notin> set (map fst (docdb memDocs1))" unfolding keys using that by simp
    then have "map_of (docdb memDocs1) k = None" by (simp add: map_of_eq_None_iff)
    then show ?thesis by (simp add: mem_eval)
  qed
  then show "k \<noteq> ?k \<Longrightarrow> dbGet mem_badger (docdb memDocs1) u k = Inl BadgerErrKeyNotFound" .
  have "map_option snd (map_of (docdb memDocs1) ?k) = Some None" by code_simp
  then have "dbGet mem_badger (docdb memDocs1) u ?k = dbGet mem_badger (docdb memDocs1) 0 ?k" by (auto simp: mem_eval)
  moreover have "docAt mem_badger tagJson 0 (docdb memDocs1) ?k = Some doc1" by code_simp
  ultimately show "docAt mem_badger tagJson u (docdb memDocs1) k = (if k = ?k then Some doc1 else None)"
    using none by (simp add: docAt_def)
qed

theorem doc_find_scan_witness:
  "\<exists>ks. set ks = {makeKey (lit ''c'') (lit ''i'')} \<and> sorted_wrt (<) ks \<and>
     Find (memDocEnv 9) memDocs1 (lit ''c'') query1 = Some (Inr (paginate 0 (- 1) (appended
       (filter (\<lambda>doc. matchesFilters intFloats doc (Filters query1)) (map (\<lambda>k. doc1) ks))))) \<and>
     Find (memDocEnv 9) memDocs1 (lit ''c'') query1 = Some (Inr (Some [doc1]))"
proof -
  have q: "tryUseIndexes memDocs1 (lit ''c'') (Filters query1) = Some None" by code_simp
  have pre: "prefix (makeCollectionPrefix (lit ''c'')) (makeKey (lit ''c'') (lit ''i''))" by (simp add: makeKey_prefix)
  then have set: "{k. prefix (makeCollectionPrefix (lit ''c'')) k \<and> docAt mem_badger tagJson 9 (docdb memDocs1) k \<noteq> None} = {makeKey (lit ''c'') (lit ''i'')}"
    by (auto simp: memDocs1_docs split: if_splits)
  have readable: "\<forall>k. prefix (makeCollectionPrefix (lit ''c'')) k \<longrightarrow>
      dbGet mem_badger (docdb memDocs1) 9 k = Inl BadgerErrKeyNotFound \<or> docAt mem_badger tagJson 9 (docdb memDocs1) k \<noteq> None"
    using memDocs1_docs(2) by (auto simp: memDocs1_docs(1))
  have c: "lit ''c'' \<noteq> []" by (simp add: lit_def)
  obtain ks where ks: "sorted_wrt (<) ks" "set ks = {makeKey (lit ''c'') (lit ''i'')}"
    "Find (memDocEnv 9) memDocs1 (lit ''c'') query1 = Some (Inr (paginate (Skip query1) (Limit query1) (appended (sorted_by intFloats (Sort query1)
       (filter (\<lambda>doc. matchesFilters intFloats doc (Filters query1)) (map (\<lambda>k. the (docAt mem_badger tagJson 9 (docdb memDocs1) k)) ks))))))"
    using doc_find_scan [of "memDocEnv 9" "lit ''c''" memDocs1 query1] mem.badger_store_axioms q readable set c
    by auto
  moreover have "Find (memDocEnv 9) memDocs1 (lit ''c'') query1 = Some (Inr (Some [doc1]))" by code_simp
  moreover have "map (\<lambda>k. the (docAt mem_badger tagJson 9 (docdb memDocs1) k)) ks = map (\<lambda>k. doc1) ks" using ks(2) by (simp add: memDocs1_docs)
  moreover have "Skip query1 = 0" "Limit query1 = - 1" "sorted_by intFloats (Sort query1) = (\<lambda>rs. rs)"
    by (simp_all add: query1_def QueryBuilder_Build_def WhereGt_def QueryBuilder_Where_def NewQueryBuilder_def sorted_by_def fun_eq_iff)
  ultimately show ?thesis by (intro exI [of _ ks]) simp
qed

section \<open>Everything returned matches\<close>

lemma elems_paginate: "set (elems (paginate skip limit rs)) \<subseteq> set (elems rs)"
  by (auto simp: paginate_def Let_def elems_def split: option.splits if_splits dest: in_set_dropD in_set_takeD)

lemma length_paginate: "0 <s limit \<Longrightarrow> length (elems (paginate skip limit rs)) \<le> nat (sint limit)"
  by (auto simp: paginate_def Let_def elems_def split: option.splits)

lemma set_sorted_by [simp]: "set (sorted_by F so rs) = set rs"
  by (auto simp: sorted_by_def sortResults_def simp flip: set_mset_mset split: option.splits)

lemma length_sorted_by [simp]: "length (sorted_by F so rs) = length rs"
  by (auto simp: sorted_by_def sortResults_def simp flip: size_mset split: option.splits)

lemma elems_appended [simp]: "elems (appended rs) = rs"
  by (simp add: elems_def appended_def)

text \<open>C34: what a search returns.  However it is carried out, every document returned is stored under a key of
  the collection and matches every filter, and there are at most as many as the limit, if it is positive.\<close>

theorem doc_find_sound:
  assumes "badger_store (deB E)" and "Find E ds c opts = Some (Inr rs)"
  shows "(\<forall>doc\<in>set (elems rs). matchesFilters (deF E) doc (Filters opts) \<and>
      (\<exists>k. prefix (makeCollectionPrefix c) k \<and> docAt (deB E) (deJ E) (deNow E) (docdb ds) k = Some doc)) \<and>
    (0 <s Limit opts \<longrightarrow> length (elems rs) \<le> nat (sint (Limit opts)))"
proof -
  define ok where "ok doc \<longleftrightarrow> matchesFilters (deF E) doc (Filters opts) \<and>
      (\<exists>k. prefix (makeCollectionPrefix c) k \<and> docAt (deB E) (deJ E) (deNow E) (docdb ds) k = Some doc)" for doc
  have fetched: "\<forall>doc\<in>set (fetchDocs E (docdb ds) c (Filters opts) ids). ok doc" for ids
    by (auto simp: fetchDocs_def set_map_filter readDoc_eq ok_def makeKey_prefix intro: prefixI)
  have scanned: "\<forall>doc\<in>set found. ok doc"
    if "DocStorage_Scan E (docdb ds) (makeCollectionPrefix c) (scanMatch E (Filters opts)) [] = Some (found, None)" for found
    using scanMatch_found [OF that [unfolded DocStorage_Scan_def View_def]] badger_store.itemDoc_iterate [OF assms(1), where J = "deJ E"]
    by (auto simp: set_map_filter ok_def) metis
  obtain found where "rs = None \<or> rs = paginate (Skip opts) (Limit opts) (appended (sorted_by (deF E) (Sort opts) found))" "\<forall>doc\<in>set found. ok doc"
    using assms(2) fetched scanned
    by (auto simp: Find_def Let_def bind_eq_Some_conv split: if_splits option.splits prod.splits) (metis list.set(1) empty_iff)+
  with elems_paginate [of "Skip opts" "Limit opts" "appended (sorted_by (deF E) (Sort opts) found)"] length_paginate
  show ?thesis by (fastforce simp: ok_def elems_def [of None])
qed

theorem doc_find_sound_witness:
  "Find (memDocEnv 9) memDocs1 (lit ''c'') query1 = Some (Inr (Some [doc1])) \<and> matchesFilters intFloats doc1 (Filters query1)"
proof -
  have "Find (memDocEnv 9) memDocs1 (lit ''c'') query1 = Some (Inr (Some [doc1]))" by code_simp
  with doc_find_sound [OF _ this] mem.badger_store_axioms show ?thesis by (simp add: elems_def)
qed

section \<open>Pages of an index\<close>

lemma sint_add_le: "0 \<le> sint a \<Longrightarrow> 0 \<le> sint b \<Longrightarrow> sint (a + b) \<le> sint a + sint b" for a b :: goint
  by (simp add: sint_word_ariths signed_take_bit_int_less_eq_self_iff)

lemma pageIds_returns: "0 \<le> sint skip \<Longrightarrow> pageIds skip limit ids \<noteq> None"
  by (simp add: pageIds_def Let_def)

lemma pageIds_length:
  assumes "0 \<le> sint skip" and "0 \<le> sint limit" and "pageIds skip limit ids = Some (Some page)"
  shows "int (length page) \<le> sint limit"
proof -
  have "\<not> limit <s 0" using assms(2) by (simp add: word_sless_alt)
  with assms(3) have "int (length page) \<le> max 0 (sint (skip + limit) - sint skip)"
    by (auto simp: pageIds_def Let_def split: if_splits)
  with sint_add_le [OF assms(1,2)] assms(2) show ?thesis by linarith
qed

lemma Find_indexed:
  assumes "c \<noteq> []" and "tryUseIndexes ds c (Filters opts) = Some (Some ids)"
  shows "Find E ds c opts = map_option (\<lambda>page. Inr (case page of None \<Rightarrow> None | Some ids \<Rightarrow>
      paginate (Skip opts) (Limit opts) (appended (sorted_by (deF E) (Sort opts) (fetchDocs E (docdb ds) c (Filters opts) ids)))))
    (pageIds (Skip opts) (Limit opts) ids)"
  using assms by (cases "pageIds (Skip opts) (Limit opts) ids") (simp_all add: Find_def Let_def)

lemma length_fetchDocs: "length (fetchDocs E d c fs ids) \<le> length ids"
  unfolding fetchDocs_def by (rule order_trans [OF length_filter_le]) (simp add: List.map_filter_def)

text \<open>C35: the pages of an indexed search.  The index is cut to the page asked for, and the page is cut again
  from the documents read: when an index applies, a limit of 0, the one that a request without a limit and
  the builders of updates and deletions use, finds nothing, and neither does any page but the first, whose
  start is at least its size.  A deletion by such a query deletes nothing.\<close>

theorem doc_index_pages:
  assumes "c \<noteq> []" and "tryUseIndexes ds c (Filters opts) = Some (Some ids)"
    and "0 \<le> sint (Limit opts)" and "sint (Limit opts) \<le> sint (Skip opts)"
  shows "(\<exists>rs. Find E ds c opts = Some (Inr rs) \<and> elems rs = []) \<and> DeleteMany E ds c opts = Some (ds, Inr 0)"
proof -
  have skip: "0 \<le> sint (Skip opts)" using assms(3,4) by simp
  obtain page where page: "pageIds (Skip opts) (Limit opts) ids = Some page" using pageIds_returns [OF skip] by blast
  have "elems (paginate (Skip opts) (Limit opts) (appended (sorted_by F (Sort opts) (fetchDocs E (docdb ds) c (Filters opts) is)))) = []"
    if "page = Some is" for F "is"
  proof -
    have "int (length is) \<le> sint (Limit opts)" using pageIds_length [OF skip assms(3)] page that by simp
    with length_fetchDocs [of E "docdb ds" c "Filters opts" "is"] assms(4)
    have n: "int (length (fetchDocs E (docdb ds) c (Filters opts) is)) \<le> sint (Skip opts)" by linarith
    show ?thesis
    proof (cases "0 <s Skip opts")
      case True
      with n show ?thesis by (simp add: paginate_def Let_def elems_def [of "Some []"])
    next
      case False
      then have "sint (Skip opts) \<le> 0" by (simp add: word_sless_alt)
      with n have "length (fetchDocs E (docdb ds) c (Filters opts) is) = 0" by linarith
      then have "fetchDocs E (docdb ds) c (Filters opts) is = []" by simp
      moreover have "sorted_by F (Sort opts) [] = []" by (simp add: sorted_by_def sortResults_def split: option.split)
      ultimately show ?thesis by (simp add: paginate_def Let_def appended_def elems_def)
    qed
  qed
  then have "\<exists>rs. Find E ds c opts = Some (Inr rs) \<and> elems rs = []"
    by (cases page) (simp_all add: Find_indexed [OF assms(1,2)] page elems_def [of None])
  moreover from this have "DeleteMany E ds c opts = Some (ds, Inr 0)" by (auto simp: DeleteMany_def)
  ultimately show ?thesis by blast
qed

definition memIndexed :: "(mem_db, int) DocStore" where
  "memIndexed = (case CreateIndex (memDocEnv 6000000) memDocs1 (lit ''c'') (lit ''a'') of Some (ds, _) \<Rightarrow> ds | None \<Rightarrow> memDocs1)"

definition deletion1 :: "int DeleteBuilder" where
  "deletion1 = DeleteBuilder_Where (NewDeleteBuilder (lit ''c'')) (lit ''a'') OpEq (GFloat64 7)"

theorem doc_index_pages_witness:
  "DeleteMany (memDocEnv 9) memIndexed (lit ''c'') (DeleteBuilder_Build deletion1) = Some (memIndexed, Inr 0) \<and>
   map_option snd (DeleteMany (memDocEnv 9) memDocs1 (lit ''c'') (DeleteBuilder_Build deletion1)) = Some (Inr 1)"
proof
  have "tryUseIndexes memIndexed (lit ''c'') (Filters (DeleteBuilder_Build deletion1)) = Some (Some [lit ''i''])" by code_simp
  from doc_index_pages [OF _ this, where E = "memDocEnv 9"]
  show "DeleteMany (memDocEnv 9) memIndexed (lit ''c'') (DeleteBuilder_Build deletion1) = Some (memIndexed, Inr 0)"
    by (simp add: DeleteBuilder_Build_def onlyFilters_def lit_def)
  show "map_option snd (DeleteMany (memDocEnv 9) memDocs1 (lit ''c'') (DeleteBuilder_Build deletion1)) = Some (Inr 1)" by code_simp
qed

section \<open>Indexes after a restart\<close>

definition emptyIndexes :: "('db, 'f) DocStore \<Rightarrow> bool" where
  "emptyIndexes ds \<longleftrightarrow> (\<forall>(c, coll)\<in>set (indexes ds). \<forall>(f, fi)\<in>set coll. fi = [])"

lemma New_emptyIndexes: "DocStore_New E opened = Inr ds \<Longrightarrow> emptyIndexes ds"
  by (auto simp: DocStore_New_def loadIndexMetadata_def emptyIndexes_def split: sum.splits option.splits badger_err.splits doc_err.splits)

lemma indexedIds_empty: "\<forall>(f, fi)\<in>set coll. fi = [] \<Longrightarrow> indexedIds coll fs = Some (Some ids) \<Longrightarrow> ids = []"
proof (induction fs)
  case (Cons q fs)
  then show ?case by (auto simp: idsOf_def split: if_splits option.splits dest!: map_of_SomeD)
qed simp

text \<open>Searching after a restart.  The fields that were indexed are remembered but not their entries: until
  the index is created again, every search that an index applies to finds nothing, whatever is stored.\<close>

theorem doc_restart_finds_nothing:
  assumes "DocStore_New E opened = Inr ds" and "c \<noteq> []" and "tryUseIndexes ds c (Filters opts) = Some (Some ids)"
    and "0 \<le> sint (Skip opts)"
  shows "Find E' ds c opts = Some (Inr None)"
proof -
  obtain coll where "map_of (indexes ds) c = Some coll" "indexedIds coll (Filters opts) = Some (Some ids)"
    using assms(3) by (auto simp: tryUseIndexes_def split: option.splits if_splits)
  then have "ids = []"
    using New_emptyIndexes [OF assms(1)] indexedIds_empty by (fastforce simp: emptyIndexes_def dest: map_of_SomeD)
  then show ?thesis using Find_indexed [OF assms(2,3)] assms(4) by (simp add: pageIds_def)
qed

theorem doc_restart_finds_nothing_witness:
  "\<exists>ds. DocStore_New (memDocEnv 8) (Inr (docdb memIndexed)) = Inr ds \<and>
     Find (memDocEnv 9) ds (lit ''c'') \<lparr>Filters = [\<lparr>Field = lit ''a'', Operator = lit ''eq'', qValue = GFloat64 7\<rparr>], Sort = None, Skip = 0, Limit = - 1, IndexName = []\<rparr> = Some (Inr None) \<and>
     Find (memDocEnv 9) memIndexed (lit ''c'') \<lparr>Filters = [\<lparr>Field = lit ''a'', Operator = lit ''eq'', qValue = GFloat64 7\<rparr>], Sort = None, Skip = 0, Limit = - 1, IndexName = []\<rparr> =
       Some (Inr (Some [doc1]))"
proof -
  let ?q = "\<lparr>Filters = [\<lparr>Field = lit ''a'', Operator = lit ''eq'', qValue = GFloat64 7\<rparr>], Sort = None, Skip = 0, Limit = - 1, IndexName = []\<rparr> :: int FindOptions"
  have "map_sum id indexes (DocStore_New (memDocEnv 8) (Inr (docdb memIndexed))) = Inr [(lit ''c'', [(lit ''a'', [])])]" by code_simp
  then obtain ds where ds: "DocStore_New (memDocEnv 8) (Inr (docdb memIndexed)) = Inr ds" "indexes ds = [(lit ''c'', [(lit ''a'', [])])]"
    by (cases "DocStore_New (memDocEnv 8) (Inr (docdb memIndexed))") auto
  have "tryUseIndexes ds (lit ''c'') (Filters ?q) = Some (Some [])" by (simp add: tryUseIndexes_def ds(2) idsOf_def)
  from doc_restart_finds_nothing [OF ds(1) _ this, where E' = "memDocEnv 9"]
  have "Find (memDocEnv 9) ds (lit ''c'') ?q = Some (Inr None)" by (simp add: lit_def)
  moreover have "Find (memDocEnv 9) memIndexed (lit ''c'') ?q = Some (Inr (Some [doc1]))" by code_simp
  ultimately show ?thesis using ds(1) by blast
qed

end
