(* ===== verification/DocIndex.thy ===== *)
theory DocIndex
  imports DocFind
begin

text \<open>
  The indexes against the documents: every history of insertions, updates, deletions and index operations
  keeps the indexes complete, so that an indexed search finds what a scan would find.
\<close>

section \<open>What the index operations do\<close>

definition indexIds :: "('db, 'f) DocStore \<Rightarrow> gostring \<Rightarrow> gostring \<Rightarrow> 'f gval \<Rightarrow> gostring list option" where
  "indexIds ds c f v = Option.bind (map_of (indexes ds) c) (\<lambda>coll. map_option (\<lambda>fi. idsOf fi v) (map_of coll f))"

lemma indexIds_docdb [simp]: "indexIds (ds\<lparr>docdb := d\<rparr>) = indexIds ds"
  by (simp add: indexIds_def fun_eq_iff)

lemma overFields_map_of:
  assumes "\<And>f fi x. g (f, fi) = Some x \<Longrightarrow> fst x = f" and "overFields g coll = Some coll'"
  shows "map_of coll' f = Option.bind (map_of coll f) (\<lambda>fi. map_option snd (g (f, fi))) \<and> (map_of coll f = Some fi \<longrightarrow> g (f, fi) \<noteq> None)"
  using assms(2)
proof (induction coll arbitrary: coll')
  case (Cons x coll)
  obtain f0 fi0 where x: "x = (f0, fi0)" by fastforce
  with Cons.prems obtain y ys where y: "g (f0, fi0) = Some y" "overFields g coll = Some ys" "coll' = y # ys"
    by (auto simp: bind_eq_Some_conv)
  obtain z where "y = (f0, z)" using assms(1) [OF y(1)] by (cases y) simp
  with Cons.IH [OF y(2)] y(1) show ?case unfolding y(3) x by auto
qed simp

lemma indexAdd_field: "indexAdd i doc (f, fi) = Some x \<Longrightarrow> fst x = f"
  by (auto simp: indexAdd_def split: option.splits if_splits)

lemma indexRemove_field: "indexRemove i doc (f, fi) = Some x \<Longrightarrow> fst x = f"
  by (auto simp: indexRemove_def Let_def split: option.splits if_splits)

lemma indexAdd_ids:
  "indexAdd i doc (f, fi) = Some (f', fi') \<Longrightarrow> idsOf fi' v = (if map_of doc f = Some v then idsOf fi v @ [i] else idsOf fi v)"
  by (auto simp: indexAdd_def idsOf_def update_conv' split: option.splits if_splits)

lemma indexRemove_ids:
  "indexRemove i doc (f, fi) = Some (f', fi') \<Longrightarrow>
   idsOf fi' v = (if map_of doc f = Some v then filter (\<lambda>j. j \<noteq> i) (idsOf fi v) else idsOf fi v)"
  by (auto simp: indexRemove_def idsOf_def Let_def update_conv' delete_conv' split: option.splits if_splits)

lemma changeIndexes_ids:
  assumes "\<And>f fi x. g (f, fi) = Some x \<Longrightarrow> fst x = f" and "changeIndexes g ds c = Some ds'"
    and "\<And>f fi f' fi' v. g (f, fi) = Some (f', fi') \<Longrightarrow> idsOf fi' v = h f v (idsOf fi v)"
  shows "indexIds ds' c' f v = (if c' = c then map_option (h f v) (indexIds ds c f v) else indexIds ds c' f v)"
proof (cases "map_of (indexes ds) c")
  case (Some coll)
  with assms(2) obtain coll' where coll': "overFields g coll = Some coll'" "ds' = ds\<lparr>indexes := AList.update c coll' (indexes ds)\<rparr>"
    by (auto simp: changeIndexes_def)
  have "map_option (\<lambda>fi. idsOf fi v) (map_of coll' f) = map_option (h f v) (map_option (\<lambda>fi. idsOf fi v) (map_of coll f))"
    using overFields_map_of [OF assms(1) coll'(1)] assms(3) by (cases "map_of coll f") fastforce+
  with coll'(2) Some show ?thesis by (simp add: indexIds_def update_conv')
qed (use assms(2) in \<open>auto simp: changeIndexes_def indexIds_def\<close>)

lemma updateIndexes_ids:
  "updateIndexes ds c i doc = Some ds' \<Longrightarrow> indexIds ds' c' f v =
    (if c' = c then map_option (\<lambda>ids. if map_of doc f = Some v then ids @ [i] else ids) (indexIds ds c f v) else indexIds ds c' f v)"
  unfolding updateIndexes_def
  by (rule changeIndexes_ids [where h = "\<lambda>f v ids. if map_of doc f = Some v then ids @ [i] else ids", OF indexAdd_field _ indexAdd_ids])

lemma removeIndexes_ids:
  "removeIndexes ds c i doc = Some ds' \<Longrightarrow> indexIds ds' c' f v =
    (if c' = c then map_option (\<lambda>ids. if map_of doc f = Some v then filter (\<lambda>j. j \<noteq> i) ids else ids) (indexIds ds c f v)
     else indexIds ds c' f v)"
  unfolding removeIndexes_def
  by (rule changeIndexes_ids [where h = "\<lambda>f v ids. if map_of doc f = Some v then filter (\<lambda>j. j \<noteq> i) ids else ids",
        OF indexRemove_field _ indexRemove_ids])

text \<open>Adding to an index panics unless the value can be a key.\<close>

lemma updateIndexes_hashable:
  assumes "updateIndexes ds c i doc = Some ds'" and "indexIds ds c f v = Some ids" and "map_of doc f = Some w"
  shows "hashable w"
proof -
  obtain coll fi where coll: "map_of (indexes ds) c = Some coll" "map_of coll f = Some fi"
    using assms(2) by (auto simp: indexIds_def bind_eq_Some_conv)
  with assms(1) obtain coll' where over: "overFields (indexAdd i doc) coll = Some coll'"
    by (auto simp: updateIndexes_def changeIndexes_def)
  have "\<And>f fi x. indexAdd i doc (f, fi) = Some x \<Longrightarrow> fst x = f" by (rule indexAdd_field)
  from overFields_map_of [of "indexAdd i doc" coll coll' f fi, OF this over] coll(2)
  have "indexAdd i doc (f, fi) \<noteq> None" by simp
  with assms(3) show ?thesis by (auto simp: indexAdd_def split: if_splits)
qed

section \<open>The invariant\<close>

text \<open>Every document of a collection whose name has no colon carries its identifier, and every index has it
  under the value of its field.  The two timestamps are left out: they are indexed as integers and come back
  from JSON as floating-point numbers.\<close>

definition stamps :: "gostring set" where
  "stamps = {createdField, updatedField}"

definition steady :: "('db, 'txn) badger \<Rightarrow> 'db \<Rightarrow> bool" where
  "steady B d \<longleftrightarrow> (\<forall>u k. dbGet B d u k = dbGet B d 0 k)"

definition goodDoc :: "gostring \<Rightarrow> 'f Document \<Rightarrow> bool" where
  "goodDoc i doc \<longleftrightarrow> idOf doc = Some i \<and> asciiVal (GMap doc) \<and> plainVal (GMap doc)"

definition docInv :: "('db, 'txn) badger \<Rightarrow> 'f Json \<Rightarrow> ('db, 'f) DocStore \<Rightarrow> bool" where
  "docInv B J ds \<longleftrightarrow> steady B (docdb ds) \<and>
     (\<forall>c i doc. clean c \<longrightarrow> docAt B J 0 (docdb ds) (makeKey c i) = Some doc \<longrightarrow> goodDoc i doc) \<and>
     (\<forall>c f v ids i doc. clean c \<longrightarrow> f \<notin> stamps \<longrightarrow> indexIds ds c f v = Some ids \<longrightarrow>
        docAt B J 0 (docdb ds) (makeKey c i) = Some doc \<longrightarrow> map_of doc f = Some v \<longrightarrow> i \<in> set ids)"

lemma docInvD:
  assumes "docInv B J ds"
  shows "steady B (docdb ds)" and "clean c \<Longrightarrow> docAt B J 0 (docdb ds) (makeKey c i) = Some doc \<Longrightarrow> goodDoc i doc"
    and "clean c \<Longrightarrow> f \<notin> stamps \<Longrightarrow> indexIds ds c f v = Some ids \<Longrightarrow> docAt B J 0 (docdb ds) (makeKey c i) = Some doc \<Longrightarrow>
      map_of doc f = Some v \<Longrightarrow> i \<in> set ids"
  using assms unfolding docInv_def by blast+

lemma docInv_change:
  assumes "docInv B J ds" and "clean c" and "steady B (docdb ds')"
    and docs: "\<And>k. docAt B J 0 (docdb ds') k = ((docAt B J 0 (docdb ds))(makeKey c i := new)) k"
    and good: "\<And>doc. new = Some doc \<Longrightarrow> goodDoc i doc"
    and others: "\<And>c' f v ids'. indexIds ds' c' f v = Some ids' \<Longrightarrow>
      \<exists>ids. indexIds ds c' f v = Some ids \<and> set ids - (if c' = c then {i} else {}) \<subseteq> set ids'"
    and added: "\<And>doc f v ids'. new = Some doc \<Longrightarrow> f \<notin> stamps \<Longrightarrow> indexIds ds' c f v = Some ids' \<Longrightarrow> map_of doc f = Some v \<Longrightarrow> i \<in> set ids'"
  shows "docInv B J ds'"
  unfolding docInv_def
proof (intro conjI allI impI)
  fix c' j doc assume *: "clean c'" "docAt B J 0 (docdb ds') (makeKey c' j) = Some doc"
  show "goodDoc j doc"
  proof (cases "c' = c \<and> j = i")
    case False
    with * docs docInvD(2) [OF assms(1)] show ?thesis by (simp add: makeKey_inj assms(2))
  qed (use * docs good in simp)
next
  fix c' f v ids' j doc
  assume *: "clean c'" "f \<notin> stamps" "indexIds ds' c' f v = Some ids'" "docAt B J 0 (docdb ds') (makeKey c' j) = Some doc" "map_of doc f = Some v"
  show "j \<in> set ids'"
  proof (cases "c' = c \<and> j = i")
    case False
    with * docs have "docAt B J 0 (docdb ds) (makeKey c' j) = Some doc" by (simp add: makeKey_inj assms(2))
    moreover obtain ids where ids: "indexIds ds c' f v = Some ids" "set ids - (if c' = c then {i} else {}) \<subseteq> set ids'"
      using others [OF *(3)] by blast
    ultimately have "j \<in> set ids" using docInvD(3) [OF assms(1) *(1,2) ids(1) _ *(5)] by blast
    with False ids(2) show ?thesis by (auto split: if_splits)
  qed (use * docs added in simp)
qed (rule assms(3))

section \<open>Changing documents\<close>

lemma jsonNorm_hashable: "plainVal v \<Longrightarrow> hashable v \<Longrightarrow> jsonNorm F v = v"
  by (cases v) simp_all

lemma jsonNorm_GMap: "jsonNorm F (GMap doc) = GMap (jsonDoc F doc)"
  by (simp add: jsonDoc_def)

lemma distinct_jsonDoc: "distinct (map fst doc) \<Longrightarrow> distinct (map fst (jsonDoc F doc))"
proof -
  have "map fst (map (\<lambda>(k, v). (k, jsonNorm F v)) doc) = map fst doc" by auto
  moreover have "mset (map fst (sort_key fst kvs)) = mset (map fst kvs)" for kvs :: "'a Document" by simp
  ultimately have "mset (map fst (jsonDoc F doc)) = mset (map fst doc)" by (simp only: jsonDoc_def)
  then show "distinct (map fst doc) \<Longrightarrow> ?thesis" using mset_eq_imp_distinct_iff by blast
qed

lemma ascii_jsonNorm: "asciiVal v \<Longrightarrow> asciiVal (jsonNorm F v)"
proof (induction v)
  case (GMap kvs)
  then have "\<forall>(k, v)\<in>set kvs. list_all (\<lambda>b. b < 128) k \<and> asciiVal (jsonNorm F v)"
    unfolding asciiVal_GMap by fastforce
  moreover have "distinct (map fst (jsonDoc F kvs))" using GMap.prems unfolding asciiVal_GMap by (intro distinct_jsonDoc) blast
  ultimately show ?case unfolding jsonNorm_GMap asciiVal_GMap by (auto simp: jsonDoc_def)
qed (auto simp: list_all_iff)

lemma goodDoc_json:
  assumes "asciiVal (GMap doc)" and "idOf doc = Some i"
  shows "goodDoc i (jsonDoc F doc)"
proof -
  have "map_of doc idField = Some (GString i)" using assms(2) by (simp add: idOf_def split: option.splits gval.splits)
  then have "idOf (jsonDoc F doc) = Some i" using assms(1) by (simp add: idOf_def map_of_jsonDoc)
  with ascii_jsonNorm [OF assms(1), of F] plain_jsonNorm [OF assms(1), of F] show ?thesis unfolding goodDoc_def jsonNorm_GMap by blast
qed

definition plainFields :: "'f Document \<Rightarrow> bool" where
  "plainFields doc \<longleftrightarrow> (\<forall>f v. map_of doc f = Some v \<longrightarrow> f \<notin> stamps \<longrightarrow> plainVal v)"

lemma docInv_put:
  assumes inv: "docInv B J ds" "clean c" and BJ: "badger_store B" "go_json F J" and E: "deB E = B" "deF E = F" "deJ E = J"
    and new: "asciiVal (GMap new)" "idOf new = Some i" "plainFields new"
    and set: "Marshal J (GMap new) = Inr data" "DocStorage_Set E (docdb ds) (makeKey c i) data = (d, Inr ())"
    and up: "updateIndexes ds1 c i new = Some ds'" "docdb ds1 = d"
    and others: "\<And>c' f v ids'. indexIds ds1 c' f v = Some ids' \<Longrightarrow>
      \<exists>ids. indexIds ds c' f v = Some ids \<and> set ids - (if c' = c then {i} else {}) \<subseteq> set ids'"
  shows "docInv B J ds'"
proof (rule docInv_change [OF inv, where i = i and new = "Some (jsonDoc F new)"])
  have d: "docdb ds' = d" using updateIndexes_docdb [OF up(1)] up(2) by simp
  show "steady B (docdb ds')"
    using docInvD(1) [OF inv(1)] badger_store.DocStorage_Set_reads [OF BJ(1) E(1) set(2)] by (simp add: steady_def d)
  show "docAt B J 0 (docdb ds') k = ((docAt B J 0 (docdb ds))(makeKey c i := Some (jsonDoc F new))) k" for k
    using docAt_put [of E new data "docdb ds" "makeKey c i" d "()"] BJ E new(1) set by (simp add: d)
  show "goodDoc i doc" if "Some (jsonDoc F new) = Some doc" for doc using goodDoc_json [OF new(1,2), of F] that by simp
  show "\<exists>ids. indexIds ds c' f v = Some ids \<and> set ids - (if c' = c then {i} else {}) \<subseteq> set ids'"
    if idx: "indexIds ds' c' f v = Some ids'" for c' f v ids'
  proof -
    obtain ids1 where "indexIds ds1 c' f v = Some ids1" "set ids1 \<subseteq> set ids'"
      using idx by (auto simp: updateIndexes_ids [OF up(1)] subset_insertI split: if_splits)
    with others show ?thesis by blast
  qed
  show "i \<in> set ids'" if *: "Some (jsonDoc F new) = Some doc" "f \<notin> stamps" "indexIds ds' c f v = Some ids'" "map_of doc f = Some v" for doc f v ids'
  proof -
    obtain ids1 where ids1: "indexIds ds1 c f v = Some ids1" "ids' = (if map_of new f = Some v then ids1 @ [i] else ids1)"
      using *(3) by (auto simp: updateIndexes_ids [OF up(1)])
    obtain w where w: "map_of new f = Some w" "v = jsonNorm F w"
      using *(1,4) new(1) by (auto simp: map_of_jsonDoc)
    have "hashable w" using updateIndexes_hashable [OF up(1) ids1(1) w(1)] .
    with w *(2) new(3) have "v = w" by (auto simp: plainFields_def intro: jsonNorm_hashable)
    with ids1 w show ?thesis by simp
  qed
qed

lemma others_refl: "indexIds ds c' f v = Some ids' \<Longrightarrow> \<exists>ids. indexIds ds c' f v = Some ids \<and> set ids - X \<subseteq> set ids'"
  by auto

lemma others_remove:
  "removeIndexes ds c i old = Some ds1 \<Longrightarrow> indexIds ds1 c' f v = Some ids' \<Longrightarrow>
   \<exists>ids. indexIds ds c' f v = Some ids \<and> set ids - (if c' = c then {i} else {}) \<subseteq> set ids'"
  by (auto simp: removeIndexes_ids split: if_splits)

lemma newDoc_good:
  assumes "newDoc E doc = (i, stored)" and "asciiVal (GMap doc)" and "plainVal (GMap doc)" and "list_all (\<lambda>b. b < 128) (deUUID E)"
  shows "asciiVal (GMap stored)" and "idOf stored = Some i" and "plainFields stored"
proof -
  let ?doc = "AList.update idField (GString i) doc" and ?t = "GInt64 (UnixMilli (deNow E))"
  have stored: "stored = AList.update updatedField ?t (AList.update createdField ?t ?doc)"
    using assms(1) by (auto simp: newDoc_def Let_def)
  have "list_all (\<lambda>b. b < 128) s" if "idOf doc = Some s" for s
  proof -
    have "(idField, GString s) \<in> set doc"
      using that by (auto simp: idOf_def split: option.splits gval.splits dest: map_of_SomeD)
    with assms(2) show ?thesis unfolding asciiVal_GMap by fastforce
  qed
  then have "list_all (\<lambda>b. b < 128) i"
    using assms(1,4) by (auto simp: newDoc_def Let_def split: option.splits if_splits)
  then show "asciiVal (GMap stored)"
    unfolding stored using assms(2) by (intro asciiVal_update) (simp_all add: idField_def createdField_def updatedField_def lit_def del: asciiVal.simps(4))
  show "idOf stored = Some i"
    by (simp add: stored idOf_def update_conv' idField_def createdField_def updatedField_def lit_def)
  show "plainFields stored"
    using assms(3) by (auto simp: stored plainFields_def update_conv' stamps_def list_all_iff split: if_splits dest!: map_of_SomeD)
qed

lemma plainVal_GMap: "plainVal (GMap doc) \<Longrightarrow> map_of doc f = Some v \<Longrightarrow> plainVal v"
  by (auto simp: list_all_iff dest!: map_of_SomeD)

lemma goodDoc_id: "goodDoc i doc \<Longrightarrow> list_all (\<lambda>b. b < 128) i"
proof -
  assume *: "goodDoc i doc"
  then have "(idField, GString i) \<in> set doc"
    by (auto simp: goodDoc_def idOf_def split: option.splits gval.splits dest: map_of_SomeD)
  with * show ?thesis unfolding goodDoc_def asciiVal_GMap by fastforce
qed

text \<open>The options of an update that keeps the identifier.\<close>

definition goodUpdate :: "'f UpdateOptions \<Rightarrow> bool" where
  "goodUpdate opts = (case uoSet opts of
     None \<Rightarrow> False
   | Some kvs \<Rightarrow> asciiVal (GMap kvs) \<and> plainVal (GMap kvs) \<and> idField \<notin> fst ` set kvs \<and> idField \<notin> set (Unset opts))"

lemma applyUpdate_good:
  assumes "goodDoc i old" and "goodUpdate opts" and "applyUpdate now i opts old = Some new"
  shows "asciiVal (GMap new) \<and> idOf new = Some i \<and> plainFields new"
proof -
  obtain kvs where kvs: "uoSet opts = Some kvs" "asciiVal (GMap kvs)" "plainVal (GMap kvs)" "map_of kvs idField = None" "idField \<notin> set (Unset opts)"
    using assms(2) by (auto simp: goodUpdate_def map_of_eq_None_iff simp del: asciiVal.simps plainVal.simps split: option.splits)
  define b where "b = (if Merge opts then fold (\<lambda>(k, v). AList.update k v) kvs old else AList.update idField (GString i) kvs)"
  have new: "new = fold AList.delete (Unset opts) (AList.update updatedField (GInt64 (UnixMilli now)) b)"
    using assms(3) kvs(1) by (auto simp: applyUpdate_def b_def)
  have dist: "distinct (map fst kvs)" using kvs(2) by simp
  have "asciiVal (GMap (fold (\<lambda>(k, v). AList.update k v) kvs old))"
    using asciiVal_updates [of old kvs] assms(1) kvs(2) [unfolded asciiVal_GMap] unfolding goodDoc_def by blast
  moreover have "asciiVal (GMap (AList.update idField (GString i) kvs))"
    using kvs(2) goodDoc_id [OF assms(1)] by (intro asciiVal_update) (simp_all add: idField_def lit_def del: asciiVal.simps(4))
  ultimately have "asciiVal (GMap b)" by (simp add: b_def del: asciiVal.simps)
  then have "asciiVal (GMap new)"
    unfolding new by (intro asciiVal_deletes asciiVal_update) (simp_all add: updatedField_def lit_def del: asciiVal.simps(4))
  moreover have "map_of b idField = Some (GString i)"
    using assms(1) kvs(4) dist by (auto simp: b_def map_of_updates update_conv' goodDoc_def idOf_def split: option.splits gval.splits)
  then have "idOf new = Some i"
    using kvs(5) by (simp add: new idOf_def map_of_deletes update_conv' idField_def updatedField_def lit_def)
  moreover have "plainVal v" if "map_of b f = Some v" for f v
    using that assms(1) kvs(3) dist
    by (auto simp: b_def map_of_updates update_conv' goodDoc_def simp del: plainVal.simps(2) split: if_splits option.splits intro: plainVal_GMap)
  then have "plainFields new"
    by (auto simp: plainFields_def new map_of_deletes update_conv' stamps_def split: if_splits)
  ultimately show ?thesis by blast
qed

lemma docAt_steady: "steady B d \<Longrightarrow> docAt B J u d k = docAt B J 0 d k"
  unfolding steady_def docAt_def by metis

section \<open>Changing indexes\<close>

lemma scanIndex_ids:
  assumes "scanItems (scanIndex E field) items fi = Some (fi', None)"
  shows "set (idsOf fi v) \<subseteq> set (idsOf fi' v) \<and>
    (\<forall>item\<in>set items. \<forall>doc i. itemDoc (deJ E) item = Some doc \<longrightarrow> idOf doc = Some i \<longrightarrow> map_of doc field = Some v \<longrightarrow> i \<in> set (idsOf fi' v))"
  using assms
proof (induction items arbitrary: fi)
  case (Cons item items)
  obtain k r where item: "item = (k, r)" by fastforce
  with Cons.prems obtain data fi1 where r: "r = Inr data" "scanIndex E field k data fi = Some (fi1, None)"
    "scanItems (scanIndex E field) items fi1 = Some (fi', None)"
    by (auto simp: bind_eq_Some_conv split: sum.splits option.splits)
  then obtain doc where doc: "itemDoc (deJ E) item = Some doc" "unmarshalDoc (deJ E) data = Inr doc"
    by (auto simp: scanIndex_def item itemDoc_simps split: sum.splits)
  have "set (idsOf fi v) \<subseteq> set (idsOf fi1 v) \<and> (\<forall>i. idOf doc = Some i \<longrightarrow> map_of doc field = Some v \<longrightarrow> i \<in> set (idsOf fi1 v))"
    using r(2) by (auto simp: scanIndex_def doc(2) indexAdd_ids split: option.splits)
  with Cons.IH [OF r(3)] doc(1) show ?case by auto
qed simp

lemma saveIndexMetadata_ok:
  assumes "badger_store (deB E)" and "saveIndexMetadata E ds = (ds', Inr ())"
  shows "indexIds ds' = indexIds ds" and "steady (deB E) (docdb ds) \<Longrightarrow> steady (deB E) (docdb ds')"
    and "docAt (deB E) J u (docdb ds') (makeKey c i) = docAt (deB E) J u (docdb ds) (makeKey c i)"
proof -
  obtain data d where d: "DocStorage_Set E (docdb ds) indexMetadataKey data = (d, Inr ())" "ds' = ds\<lparr>docdb := d\<rparr>"
    using assms(2) by (auto simp: saveIndexMetadata_def SetJSON_def Let_def apfst_def map_prod_def split: sum.splits prod.splits)
  note reads = badger_store.DocStorage_Set_reads [OF assms(1) refl d(1)]
  show "indexIds ds' = indexIds ds" by (simp add: d(2))
  show "steady (deB E) (docdb ds) \<Longrightarrow> steady (deB E) (docdb ds')" by (simp add: steady_def d(2) reads)
  show "docAt (deB E) J u (docdb ds') (makeKey c i) = docAt (deB E) J u (docdb ds) (makeKey c i)" by (simp add: docAt_def d(2) reads)
qed

lemma saveIndexMetadata_error: "badger_store (deB E) \<Longrightarrow> saveIndexMetadata E ds = (ds', Inl e) \<Longrightarrow> ds' = ds"
  by (auto simp: saveIndexMetadata_def SetJSON_def Let_def apfst_def map_prod_def split: sum.splits prod.splits dest: storage_errors(1))

lemma docInv_reindex:
  assumes "docInv B J ds" and "steady B (docdb ds')"
    and "\<And>c i. docAt B J 0 (docdb ds') (makeKey c i) = docAt B J 0 (docdb ds) (makeKey c i)"
    and "\<And>c f v ids' i doc. clean c \<Longrightarrow> f \<notin> stamps \<Longrightarrow> indexIds ds' c f v = Some ids' \<Longrightarrow>
      docAt B J 0 (docdb ds) (makeKey c i) = Some doc \<Longrightarrow> map_of doc f = Some v \<Longrightarrow> i \<in> set ids'"
  shows "docInv B J ds'"
  unfolding docInv_def assms(3) using assms(2,4) docInvD(2) [OF assms(1)] by blast

section \<open>Histories\<close>

definition theirs :: "('db, 'txn) badger \<Rightarrow> 'f Floats \<Rightarrow> 'f Json \<Rightarrow> ('db, 'txn, 'f) DocEnv \<Rightarrow> bool" where
  "theirs B F J E \<longleftrightarrow> deB E = B \<and> deF E = F \<and> deJ E = J"

text \<open>The operations, on collections without colons, with documents that were parsed from JSON.  An update
  that writes or removes \<open>_id\<close> is left out, and so is a creation of an index that fails.\<close>

inductive doc_step ::
  "('db, 'txn) badger \<Rightarrow> 'f Floats \<Rightarrow> 'f Json \<Rightarrow> ('db, 'f) DocStore \<Rightarrow> ('db, 'f) DocStore \<Rightarrow> bool" for B F J where
  step_insert: "theirs B F J E \<Longrightarrow> clean c \<Longrightarrow> list_all (\<lambda>b. b < 128) (deUUID E) \<Longrightarrow> asciiVal (GMap doc) \<Longrightarrow> plainVal (GMap doc) \<Longrightarrow>
    Insert E ds c doc = Some (ds', r) \<Longrightarrow> doc_step B F J ds ds'"
| step_update: "theirs B F J E \<Longrightarrow> clean c \<Longrightarrow> goodUpdate opts \<Longrightarrow> DocStore_Update E ds c i opts = Some (ds', r) \<Longrightarrow> doc_step B F J ds ds'"
| step_delete: "theirs B F J E \<Longrightarrow> clean c \<Longrightarrow> DocStore_Delete E ds c i = Some (ds', r) \<Longrightarrow> doc_step B F J ds ds'"
| step_create: "theirs B F J E \<Longrightarrow> CreateIndex E ds c f = Some (ds', Inr ()) \<Longrightarrow> doc_step B F J ds ds'"
| step_drop: "theirs B F J E \<Longrightarrow> DropIndex E ds c f = (ds', r) \<Longrightarrow> doc_step B F J ds ds'"

lemma docInv_delete:
  assumes inv: "docInv B J ds" "clean c" and "badger_store B" and "deB E = B"
    and "DocStore_Delete E ds c i = Some (ds', r)"
  shows "docInv B J ds'"
proof (cases r)
  case (Inl e)
  with assms(3-5) have "ds' = ds"
    by (auto simp: DocStore_Delete_def split: if_splits sum.splits prod.splits dest: storage_errors(2))
  with inv show ?thesis by simp
next
  case (Inr x)
  then obtain doc d where del: "DocStorage_Delete E (docdb ds) (makeKey c i) = (d, Inr ())" "removeIndexes (ds\<lparr>docdb := d\<rparr>) c i doc = Some ds'"
    using assms(5) by (auto simp: DocStore_Delete_def split: if_splits sum.splits prod.splits)
  note reads = badger_store.DocStorage_Delete_reads [OF assms(3,4) del(1)]
  have d: "docdb ds' = d" using removeIndexes_docdb [OF del(2)] by simp
  show ?thesis
  proof (rule docInv_change [OF inv, where i = i and new = None])
    show "steady B (docdb ds')" using docInvD(1) [OF inv(1)] by (simp add: steady_def d reads)
    show "docAt B J 0 (docdb ds') k = ((docAt B J 0 (docdb ds))(makeKey c i := None)) k" for k by (simp add: docAt_def d reads)
    show "\<exists>ids. indexIds ds c' f v = Some ids \<and> set ids - (if c' = c then {i} else {}) \<subseteq> set ids'"
      if "indexIds ds' c' f v = Some ids'" for c' f v ids'
      using others_remove [OF del(2) that] by simp
  qed simp_all
qed

lemma docInv_create:
  assumes "docInv B J ds" and "badger_store B" and "deB E = B" "deJ E = J" and "CreateIndex E ds c field = Some (ds', Inr ())"
  shows "docInv B J ds'"
proof -
  define coll where "coll = (case map_of (indexes ds) c of None \<Rightarrow> [] | Some coll \<Rightarrow> coll)"
  define fi where "fi = (case map_of coll field of None \<Rightarrow> [] | Some fi \<Rightarrow> fi)"
  let ?items = "txnIterate B (NewTransaction B (docdb ds)) (deNow E) (makeCollectionPrefix c)"
  obtain fi' where fi': "scanItems (scanIndex E field) ?items fi = Some (fi', None)"
    "saveIndexMetadata E (ds\<lparr>indexes := AList.update c (AList.update field fi' coll) (indexes ds)\<rparr>) = (ds', Inr ())"
    using assms(3,5) by (auto simp: CreateIndex_def DocStorage_Scan_def View_def Let_def bind_eq_Some_conv coll_def fi_def
        split: if_splits option.splits prod.splits)
  let ?ds = "ds\<lparr>indexes := AList.update c (AList.update field fi' coll) (indexes ds)\<rparr>"
  note saved = saveIndexMetadata_ok [of E, unfolded assms(3), OF assms(2) fi'(2)]
  have idx: "indexIds ds' c' f v = (if c' = c \<and> f = field then Some (idsOf fi' v) else indexIds ds c' f v)" for c' f v
    by (auto simp: saved(1) indexIds_def update_conv' coll_def split: option.splits)
  show ?thesis
  proof (rule docInv_reindex [OF assms(1)])
    show "steady B (docdb ds')" using saved(2) docInvD(1) [OF assms(1)] by simp
    show "docAt B J 0 (docdb ds') (makeKey c i) = docAt B J 0 (docdb ds) (makeKey c i)" for c i using saved(3) by simp
    fix c' f v ids' i doc
    assume *: "clean c'" "f \<notin> stamps" "indexIds ds' c' f v = Some ids'" "docAt B J 0 (docdb ds) (makeKey c' i) = Some doc" "map_of doc f = Some v"
    show "i \<in> set ids'"
    proof (cases "c' = c \<and> f = field")
      case True
      have at: "docAt B J (deNow E) (docdb ds) (makeKey c i) = Some doc" using *(4) True docAt_steady [OF docInvD(1) [OF assms(1)]] by metis
      then obtain r where item: "(makeKey c i, r) \<in> set ?items"
        using badger_store.docAt_iterate [OF assms(2)] by (metis makeKey_prefix prefixI)
      then have "itemDoc (deJ E) (makeKey c i, r) = Some doc"
        using badger_store.itemDoc_iterate [OF assms(2) item, of J] at assms(4) by simp
      moreover have "idOf doc = Some i" using docInvD(2) [OF assms(1) *(1,4)] by (simp add: goodDoc_def)
      ultimately have "i \<in> set (idsOf fi' v)" using scanIndex_ids [OF fi'(1), of v] item *(5) True by blast
      with *(3) True show ?thesis by (simp add: idx)
    qed (use * docInvD(3) [OF assms(1)] in \<open>auto simp: idx split: if_splits\<close>)
  qed
qed

lemma docInv_drop:
  assumes "docInv B J ds" and "badger_store B" and "deB E = B" and "DropIndex E ds c field = (ds', r)"
  shows "docInv B J ds'"
proof -
  define ds1 where "ds1 = (case map_of (indexes ds) c of None \<Rightarrow> ds
    | Some coll \<Rightarrow> ds\<lparr>indexes := AList.update c (AList.delete field coll) (indexes ds)\<rparr>)"
  have save: "saveIndexMetadata E ds1 = (ds', r)" using assms(4) by (simp add: DropIndex_def ds1_def split: option.splits)
  have idx: "indexIds ds1 c' f v = Some ids \<Longrightarrow> indexIds ds c' f v = Some ids" for c' f v ids
    by (auto simp: ds1_def indexIds_def update_conv' delete_conv' bind_eq_Some_conv split: option.splits if_splits)
  have "docdb ds1 = docdb ds" by (simp add: ds1_def split: option.splits)
  then have inv: "docInv B J ds1"
    using docInvD(1) [OF assms(1)] by (intro docInv_reindex [OF assms(1)]) (simp_all add: docInvD(3) [OF assms(1) _ _ idx])
  show ?thesis
  proof (cases r)
    case (Inl e)
    with saveIndexMetadata_error [of E ds1 ds' e] assms(2,3) save inv show ?thesis by simp
  next
    case (Inr x)
    with save have "saveIndexMetadata E ds1 = (ds', Inr ())" by simp
    note saved = saveIndexMetadata_ok [of E, unfolded assms(3), OF assms(2) this]
    show ?thesis
      using saved docInvD [OF inv] by (intro docInv_reindex [OF inv]) simp_all
  qed
qed

lemma doc_step_inv:
  assumes BJ: "badger_store B" "go_json F J" and "doc_step B F J ds ds'" and "docInv B J ds"
  shows "docInv B J ds'"
  using assms(3,4)
proof cases
  case (step_insert E c doc r)
  obtain i stored where new: "newDoc E doc = (i, stored)" by fastforce
  have E: "badger_store (deB E)" using BJ step_insert(1) by (simp add: theirs_def)
  from step_insert(6) E new show ?thesis
  proof (cases rule: Insert_cases)
    case (ok data d)
    then show ?thesis
      using docInv_put [OF assms(4) step_insert(2) BJ _ _ _ newDoc_good [OF new step_insert(4,5,3)] _ ok(4,5)] step_insert(1)
      by (simp add: theirs_def others_refl)
  qed (use assms(4) in simp)
next
  case (step_update E c opts i r)
  have E: "badger_store (deB E)" using BJ step_update(1) by (simp add: theirs_def)
  from step_update(4) E show ?thesis
  proof (cases rule: Update_cases)
    case (ok old new data d ds1)
    have "docAt B J 0 (docdb ds) (makeKey c i) = Some old"
      using ok(2) step_update(1) docAt_steady [OF docInvD(1) [OF assms(4)], of J "deNow E"] by (simp add: DocStore_Get_docAt theirs_def)
    then have "goodDoc i old" using docInvD(2) [OF assms(4) step_update(2)] by blast
    then have new: "asciiVal (GMap new)" "idOf new = Some i" "plainFields new"
      using applyUpdate_good [OF _ step_update(3) ok(3)] by blast+
    show ?thesis
      using docInv_put [OF assms(4) step_update(2) BJ _ _ _ new _ ok(5) ok(7)] step_update(1) ok(4) removeIndexes_docdb [OF ok(6)] others_remove [OF ok(6)]
      by (simp add: theirs_def)
  qed (use assms(4) in simp)
next
  case (step_delete E c i r)
  show ?thesis
    by (rule docInv_delete [OF assms(4) step_delete(2) BJ(1) _ step_delete(3)]) (use step_delete(1) in \<open>simp add: theirs_def\<close>)
next
  case (step_create E c f)
  show ?thesis
    by (rule docInv_create [OF assms(4) BJ(1) _ _ step_create(2)]) (use step_create(1) in \<open>simp_all add: theirs_def\<close>)
next
  case (step_drop E c f r)
  show ?thesis
    by (rule docInv_drop [OF assms(4) BJ(1) _ step_drop(2)]) (use step_drop(1) in \<open>simp add: theirs_def\<close>)
qed

section \<open>Indexed searches\<close>

text \<open>A new store on an empty database.\<close>

definition emptyStore :: "('db, 'txn) badger \<Rightarrow> ('db, 'f) DocStore \<Rightarrow> bool" where
  "emptyStore B ds \<longleftrightarrow> indexes ds = [] \<and> (\<forall>u k. dbGet B (docdb ds) u k = Inl BadgerErrKeyNotFound)"

lemma reachable_inv:
  assumes "badger_store B" "go_json F J" and "(doc_step B F J)\<^sup>*\<^sup>* ds0 ds" and "emptyStore B ds0"
  shows "docInv B J ds"
  using assms(3)
proof (induction rule: rtranclp_induct)
  case base
  then show ?case using assms(4) by (simp add: emptyStore_def docInv_def steady_def indexIds_def docAt_def)
qed (use doc_step_inv [OF assms(1,2)] in blast)

lemma indexedIds_filter:
  "indexedIds coll fs = Some (Some ids) \<Longrightarrow>
   \<exists>q\<in>set fs. Operator q = lit ''eq'' \<and> (\<exists>fi. map_of coll (Field q) = Some fi \<and> ids = idsOf fi (qValue q))"
  by (induction fs) (auto split: if_splits option.splits)

text \<open>An equality filter selects by the text of the value; it agrees with the index when among the stored
  values of the field only the filter's own value has its text.\<close>

definition plainQuery :: "('db, 'txn) badger \<Rightarrow> 'f Floats \<Rightarrow> 'f Json \<Rightarrow> 'db \<Rightarrow> gostring \<Rightarrow> 'f Query list \<Rightarrow> bool" where
  "plainQuery B F J d c fs \<longleftrightarrow> (\<forall>q\<in>set fs. Operator q = lit ''eq'' \<longrightarrow> Field q \<notin> stamps \<and>
     (\<forall>i doc v. docAt B J 0 d (makeKey c i) = Some doc \<longrightarrow> map_of doc (Field q) = Some v \<longrightarrow> equal F v (qValue q) \<longrightarrow> v = qValue q))"

lemma page_all: "limit <s 0 \<Longrightarrow> pageIds 0 limit ids = Some (if ids = [] then None else Some ids)"
  by (auto simp: pageIds_def Let_def)

lemma paginate_all: "limit <s 0 \<Longrightarrow> paginate 0 limit rs = rs"
  by (auto simp: paginate_def word_sless_alt)


definition query7 :: "int FindOptions" where
  "query7 = QueryBuilder_Build (WhereEq (NewQueryBuilder (lit ''c'')) (lit ''a'') (GFloat64 7))"

lemma memIndexed_reachable: "(doc_step mem_badger intFloats tagJson)\<^sup>*\<^sup>* memDocs memIndexed"
proof -
  have E: "theirs mem_badger intFloats tagJson (memDocEnv u)" for u by (simp add: theirs_def)
  have "map_option fst (Insert (memDocEnv 5000000) memDocs (lit ''c'') [(idField, GString (lit ''i'')), (lit ''a'', GFloat64 7)]) = Some memDocs1"
    by code_simp
  then obtain r where ins: "Insert (memDocEnv 5000000) memDocs (lit ''c'') [(idField, GString (lit ''i'')), (lit ''a'', GFloat64 7)] = Some (memDocs1, r)"
    by auto
  have good: "asciiVal (GMap [(idField, GString (lit ''i'')), (lit ''a'', GFloat64 7)])"
    "plainVal (GMap [(idField, GString (lit ''i'')), (lit ''a'', GFloat64 (7::int))])" by code_simp+
  have "doc_step mem_badger intFloats tagJson memDocs memDocs1"
    by (rule step_insert [OF E _ _ good(1,2) ins]) (simp_all add: clean_def lit_def)
  moreover have "CreateIndex (memDocEnv 6000000) memDocs1 (lit ''c'') (lit ''a'') = Some (memIndexed, Inr ())" by code_simp
  then have "doc_step mem_badger intFloats tagJson memDocs1 memIndexed" by (rule step_create [OF E])
  ultimately show ?thesis by (meson converse_rtranclp_into_rtranclp rtranclp.rtrancl_refl)
qed

lemma memIndexed_docs:
  assumes "docAt mem_badger tagJson 0 (docdb memIndexed) (makeKey (lit ''c'') i) = Some doc"
  shows "i = lit ''i'' \<and> doc = doc1"
proof -
  have keys: "map fst (docdb memIndexed) = [indexMetadataKey, makeKey (lit ''c'') (lit ''i'')]" by code_simp
  have "makeKey (lit ''c'') i \<in> set (map fst (docdb memIndexed))"
    using assms map_of_eq_None_iff [of "docdb memIndexed" "makeKey (lit ''c'') i"]
    by (cases "map_of (docdb memIndexed) (makeKey (lit ''c'') i)") (auto simp: docAt_def mem_eval)
  then have "i = lit ''i''" unfolding keys by (simp add: makeKey_prefix) (simp add: makeKey_prefix [symmetric])
  moreover have "docAt mem_badger tagJson 0 (docdb memIndexed) (makeKey (lit ''c'') (lit ''i'')) = Some doc1" by code_simp
  ultimately show ?thesis using assms by simp
qed


end
