(* ===== verification/DocServer.thy ===== *)
theory DocServer
  imports StreamServer DocIndex
begin

text \<open>
  The document store behind the server: what an insertion answers, and a search that ends the process.
\<close>

lemma sendWaiting_ready:
  "ready (Suc 0) c \<Longrightarrow> sendWaiting E ok r (s, c) = (s\<lparr>opsProcessed := opsProcessed s + 1\<rparr>, c\<lparr>outQueue := outQueue c @ [r]\<rparr>)"
  by (simp add: sendWaiting_def ready_def selectSend_def)

lemma readLoop_docs:
  assumes "DecodeRequest data = Some (Inr req)" and "isBinary data" and "rqOpCode req \<in> {OpDocInsert, OpDocFind, OpDocUpdate, OpDocDelete, OpDocIndex}"
    and "ready (Suc 0) c" and "length data \<le> length (readBuf c)"
  shows "readLoop E (allDispatch E V D ok) (Some data) (s, c) =
    docDispatch E D ok req (s, c\<lparr>readBuf := data @ drop (length data) (readBuf c)\<rparr>)"
proof -
  let ?c = "c\<lparr>readBuf := data @ drop (length data) (readBuf c)\<rparr>"
  have "processRequestHybrid E (allDispatch E V D ok) data (s, ?c) = allDispatch E V D ok req (s, ?c)"
    by (rule dispatch_stream [OF assms(2,1)]) (use assms(3) in \<open>auto simp: otherOps_def\<close>)
  also have "\<dots> = docDispatch E D ok req (s, ?c)"
    using assms(3) by (auto simp: allDispatch_def streamDispatch_def Let_def opcodes)
  finally show ?thesis using readLoop_fits [OF assms(4,5), of E "allDispatch E V D ok" s] by simp
qed

text \<open>C36: inserting over the network.  An encoded DOCINSERT request whose value is the JSON of a document is
  answered, when the store accepts the document, with its identifier, and from then on the document is read
  under it.  The request is counted as processed but neither as fast nor as slow.\<close>

theorem server_doc_insert:
  assumes "badger_store (envB E)" and "go_json (deF D) (deJ D)" and "EncodeDocInsertRequest coll json = Some data"
    and "length coll \<le> MaxKeyLen" and "length json \<le> MaxValueLen" and "length data \<le> length (readBuf c)" and "ready (Suc 0) c"
    and "srvDocs (srvOther s) = Some ds" and "unmarshalDoc (deJ D) json = Inr doc"
    and "newDoc (docEnv E D) doc = (i, stored)" and "asciiVal (GMap stored)" and "length i \<le> MaxValueLen"
    and "Insert (docEnv E D) ds coll doc = Some (ds', Inr i)" and "envUUID E \<noteq> []"
  shows "\<exists>s' c' r. readLoop E (allDispatch E V D ok) (Some data) (s, c) = Some (s', c') \<and> outQueue c' = outQueue c @ [r] \<and>
    (\<exists>resp. DecodeResponse r = Some (Inr resp) \<and> rsStatus resp = StatusOK \<and> rsValue resp = i) \<and> srvDocs (srvOther s') = Some ds' \<and>
    (\<forall>u. DocStore_Get ((docEnv E D)\<lparr>deNow := u\<rparr>) ds' coll i = Inr (jsonDoc (deF D) stored)) \<and>
    opsProcessed s' = opsProcessed s + 1 \<and> opsFastPath s' = opsFastPath s \<and> opsSlowPath s' = opsSlowPath s"
proof -
  define req where "req = (newRequest OpDocInsert)\<lparr>rqCollection := coll, rqValue := json\<rparr>"
  define c1 where "c1 = c\<lparr>readBuf := data @ drop (length data) (readBuf c)\<rparr>"
  have data: "data = frame OpDocInsert (str16 coll @ str32 json)" using assms(3) by (simp add: encoded)
  have dec: "DecodeRequest data = Some (Inr req)"
    using assms(4,5) by (simp add: data req_def wire_simps MaxKeyLen_def MaxValueLen_def)
  have "readLoop E (allDispatch E V D ok) (Some data) (s, c) = docDispatch E D ok req (s, c1)"
    unfolding c1_def by (rule readLoop_docs [OF dec _ _ assms(7,6)]) (simp_all add: data isBinary_frame opcodes req_def)
  also have "\<dots> = Some (sendWaiting E ok (frame StatusOK i) (s\<lparr>srvOther := (srvOther s)\<lparr>srvDocs := Some ds'\<rparr>\<rparr>, c1))"
    using assms(8,9,13) by (simp add: docDispatch_def req_def processBinaryDocInsert_def withDocs_def docRespond_def setDocs_def encoded)
  finally have "readLoop E (allDispatch E V D ok) (Some data) (s, c) =
      Some (s\<lparr>srvOther := (srvOther s)\<lparr>srvDocs := Some ds'\<rparr>, opsProcessed := opsProcessed s + 1\<rparr>, c1\<lparr>outQueue := outQueue c @ [frame StatusOK i]\<rparr>)"
    using ready_cong [OF assms(7)] by (simp add: sendWaiting_ready c1_def)
  moreover have "DecodeResponse (frame StatusOK i) = Some (Inr ((newResponse StatusOK)\<lparr>rsValue := i\<rparr>))"
    using assms(12) by (simp add: DecodeResponse_frame MaxValueLen_def)
  moreover have "DocStore_Get ((docEnv E D)\<lparr>deNow := u\<rparr>) ds' coll i = Inr (jsonDoc (deF D) stored)" for u
    using Insert_effect [of "docEnv E D", OF _ _ assms(10,11,13), of u] assms(1,2,14) newDoc_id [OF _ assms(10)]
    by (simp add: DocStore_Get_docAt docEnv_def)
  ultimately show ?thesis by (simp add: newResponse_def)
qed

text \<open>C37: a search that ends the server.  When a field of a collection is indexed, a DOCFIND request that asks for
  equality with an array or an object in this field makes the process panic: such a value cannot be looked
  up in the index, and no handler recovers.\<close>

theorem server_doc_find_panics:
  assumes "EncodeDocFindRequest coll json = Some data" and "length coll \<le> MaxKeyLen" and "length json \<le> MaxValueLen"
    and "length data \<le> length (readBuf c)" and "ready (Suc 0) c" and "coll \<noteq> []"
    and "srvDocs (srvOther s) = Some ds" and "map_of (indexes ds) coll = Some idx" and "map_of idx field = Some fi"
    and "unmarshalDoc (deJ D) json = Inr query" and "map_of query (lit ''filters'') = Some (GArr (GMap f # fs))"
    and "map_of f (lit ''field'') = Some (GString field)" and "map_of f (lit ''operator'') = Some (GString (lit ''eq''))"
    and "map_of f (lit ''value'') = Some v" and "\<not> hashable v"
  shows "readLoop E (allDispatch E V D ok) (Some data) (s, c) = None"
proof -
  define req where "req = (newRequest OpDocFind)\<lparr>rqCollection := coll, rqValue := json\<rparr>"
  have data: "data = frame OpDocFind (str16 coll @ str32 json)" using assms(1) by (simp add: encoded)
  have dec: "DecodeRequest data = Some (Inr req)"
    using assms(2,3) by (simp add: data req_def wire_simps MaxKeyLen_def MaxValueLen_def)
  have "tryUseIndexes ds coll (Filters (buildFindOptions (deF D) query)) = None"
    using assms(8,9,11-15) by (auto simp: tryUseIndexes_def buildFindOptions_def toString_def fieldOf_def)
  then have "Find (docEnv E D) ds coll (buildFindOptions (deF D) query) = None" using assms(6) by (simp add: Find_def)
  then have "docDispatch E D ok req (s, c\<lparr>readBuf := b\<rparr>) = None" for b
    using assms(7,10) by (simp add: docDispatch_def req_def opcodes processBinaryDocFind_def withDocs_def)
  then show ?thesis
    by (subst readLoop_docs [OF dec _ _ assms(5,4)]) (simp_all add: data isBinary_frame opcodes req_def)
qed

section \<open>At concrete inputs\<close>

definition memDocServer :: "(mem_db, int) DocStore \<Rightarrow> (mem_db, (mem_db, (mem_db, int) DocStore option) Stores) Server" where
  "memDocServer ds = \<lparr>srvStore = \<lparr>storage = mem_open\<rparr>, srvQueue = \<lparr>qstorage = \<lparr>qdb = []\<rparr>\<rparr>,
     srvOther = \<lparr>srvStream = memTopic, srvDocs = Some ds\<rparr>, jobQueue = [], jobsClosed = False, opsProcessed = 0, opsFastPath = 0,
     opsSlowPath = 0, opsErrors = 0, jobsProcessed = 0\<rparr>"

lemma mem_conn: "ready (Suc 0) new_conn" "length (readBuf new_conn) = 32768"
  by (simp_all add: ready_def new_conn_def outQueueSize_def)

definition jsonA :: bytes where "jsonA = encVal (GMap [(lit ''a'', GFloat64 7)])"

theorem server_doc_insert_witness:
  "\<exists>data s' c' r. EncodeDocInsertRequest (lit ''c'') jsonA = Some data \<and>
     readLoop (mem_env 0) (allDispatch (mem_env 0) plainVisits (memDocEnv 0) True) (Some data) (memDocServer memDocs, new_conn) = Some (s', c') \<and>
     outQueue c' = [r] \<and> (\<exists>resp. DecodeResponse r = Some (Inr resp) \<and> rsValue resp = envUUID (mem_env 0))"
proof -
  let ?D = "docEnv (mem_env 0) (memDocEnv 0)"
  obtain data where data: "EncodeDocInsertRequest (lit ''c'') jsonA = Some data" by (simp add: encoded)
  have len: "length data \<le> 32768" "length jsonA \<le> MaxValueLen" "length (lit ''c'') \<le> MaxKeyLen"
    using data by (auto simp: encoded frame_def str16_def str32_def lit_def jsonA_def encInt_def MaxValueLen_def MaxKeyLen_def)
  have json: "unmarshalDoc tagJson jsonA = Inr [(lit ''a'', GFloat64 7)]" by code_simp
  obtain i stored where new: "newDoc ?D [(lit ''a'', GFloat64 7)] = (i, stored)" by fastforce
  have chk: "asciiVal (GMap (snd (newDoc ?D [(lit ''a'', GFloat64 7)])))" "fst (newDoc ?D [(lit ''a'', GFloat64 7)]) = envUUID (mem_env 0)"
    "map_option snd (Insert ?D memDocs (lit ''c'') [(lit ''a'', GFloat64 7)]) = Some (Inr (envUUID (mem_env 0)))"
    "length (envUUID (mem_env 0)) \<le> 100" "envUUID (mem_env 0) \<noteq> []"
    by code_simp+
  then obtain ds' where ins: "Insert ?D memDocs (lit ''c'') [(lit ''a'', GFloat64 7)] = Some (ds', Inr i)" using new by auto
  have asc: "asciiVal (GMap stored)" and i: "i = envUUID (mem_env 0)" using chk(1,2) new by simp_all
  have "badger_store (envB (mem_env 0))" "go_json (deF (memDocEnv 0)) (deJ (memDocEnv 0))" "unmarshalDoc (deJ (memDocEnv 0)) jsonA = Inr [(lit ''a'', GFloat64 7)]"
    "length i \<le> MaxValueLen" "length data \<le> length (readBuf new_conn)" "srvDocs (srvOther (memDocServer memDocs)) = Some memDocs"
    using mem.badger_store_axioms js.go_json_axioms json chk(4) len(1)
    by (simp_all add: mem_env_def i MaxValueLen_def mem_conn memDocServer_def)
  from server_doc_insert [OF this(1,2) data len(3,2) this(5) mem_conn(1) this(6,3) new asc this(4) ins chk(5)]
  show ?thesis using data i by (fastforce simp: new_conn_def)
qed

definition jsonBad :: bytes where
  "jsonBad = encVal (GMap [(lit ''filters'', GArr [GMap [(lit ''field'', GString (lit ''a'')), (lit ''operator'', GString (lit ''eq'')), (lit ''value'', GArr [])]])])"

theorem server_doc_find_panics_witness:
  "\<exists>data. EncodeDocFindRequest (lit ''c'') jsonBad = Some data \<and>
     readLoop (mem_env 0) (allDispatch (mem_env 0) plainVisits (memDocEnv 0) True) (Some data) (memDocServer memIndexed, new_conn) = None"
proof -
  obtain data where data: "EncodeDocFindRequest (lit ''c'') jsonBad = Some data" by (simp add: encoded)
  have "length jsonBad \<le> 1000" by code_simp
  with data have len: "length data \<le> length (readBuf new_conn)" "length jsonBad \<le> MaxValueLen" "length (lit ''c'') \<le> MaxKeyLen" "lit ''c'' \<noteq> []"
    by (auto simp: encoded frame_def str16_def str32_def lit_def MaxValueLen_def MaxKeyLen_def mem_conn)
  have json: "unmarshalDoc tagJson jsonBad = Inr [(lit ''filters'', GArr [GMap [(lit ''field'', GString (lit ''a'')), (lit ''operator'', GString (lit ''eq'')), (lit ''value'', GArr [])]])]"
    by code_simp
  have idx: "indexes memIndexed = [(lit ''c'', [(lit ''a'', [(GFloat64 7, [lit ''i''])])])]" by code_simp
  show ?thesis
    using data server_doc_find_panics [OF data len(3,2,1) mem_conn(1) len(4), of "memDocServer memIndexed" memIndexed _ "lit ''a''" _ "memDocEnv 0"
        _ _ _ "GArr []" "mem_env 0" plainVisits True] json
    by (simp add: idx memDocServer_def) (simp add: lit_def)
qed

end
