(* ===== verification/NetPool.thy ===== *)
theory NetPool
  imports NetProtocol
begin

text \<open>
  The connections of the client and their pool, \<open>src/internal/net/connection.go\<close> and \<open>pool.go\<close>.  A socket
  is what of it the code can see: the bytes that have arrived and are not yet read.  A connection belongs to
  whoever took it from the pool; it is passed along with its state.  Addresses of sockets and TCP options are
  left out.
\<close>

section \<open>Connections\<close>

record ConnectionOptions =
  coAddress :: gostring
  coDialTimeout :: int
  coReadTimeout :: int
  coWriteTimeout :: int
  coBufferSize :: goint

definition goSecond :: int where "goSecond = 1000000000"

definition DefaultConnectionOptions :: "gostring \<Rightarrow> ConnectionOptions" where
  "DefaultConnectionOptions address = \<lparr>coAddress = address, coDialTimeout = 5 * goSecond, coReadTimeout = 10 * goSecond,
     coWriteTimeout = 10 * goSecond, coBufferSize = 65536\<rparr>"

text \<open>\<open>ncWriteErr\<close> is the error that a \<open>bufio.Writer\<close> keeps: after a failed write it reports this error
  again.\<close>

record NetConn =
  ncIn :: bytes
  ncWriteErr :: "gostring option"
  ncReadTimeout :: int
  ncWriteTimeout :: int
  ncClosed :: bool

text \<open>What the network does in a call: the errors of dialling, writing and closing, if any, the bytes that
  arrive in answer to what is written, before the reads of the call time out, and the error of a read that
  does not get its bytes.\<close>

record NetEnv =
  neDial :: "nat \<Rightarrow> gostring option"
  neWrite :: "gostring option"
  neReply :: "bytes \<Rightarrow> bytes"
  neRead :: gostring
  neClose :: "gostring option"

definition NewConnection :: "NetEnv \<Rightarrow> nat \<Rightarrow> ConnectionOptions option \<Rightarrow> gostring + NetConn" where
  "NewConnection E i opts =
     (case opts of
        None \<Rightarrow> Inl (lit ''options cannot be nil'')
      | Some opts \<Rightarrow>
          (case neDial E i of
             Some e \<Rightarrow> Inl (lit ''failed to connect to '' @ coAddress opts @ lit '': '' @ e)
           | None \<Rightarrow> Inr \<lparr>ncIn = [], ncWriteErr = None, ncReadTimeout = coReadTimeout opts, ncWriteTimeout = coWriteTimeout opts, ncClosed = False\<rparr>))"

definition Connection_Write :: "NetEnv \<Rightarrow> bytes \<Rightarrow> NetConn \<Rightarrow> NetConn \<times> (gostring + unit)" where
  "Connection_Write E data c =
     (if ncClosed c then (c, Inl (lit ''connection closed''))
      else case ncWriteErr c of
        Some e \<Rightarrow> (c, Inl e)
      | None \<Rightarrow>
          (case neWrite E of
             Some e \<Rightarrow> (c\<lparr>ncWriteErr := Some e\<rparr>, Inl e)
           | None \<Rightarrow> (c\<lparr>ncIn := ncIn c @ neReply E data\<rparr>, Inr ())))"

text \<open>\<open>io.ReadFull\<close> takes what there is before it fails.\<close>

definition Connection_Read :: "NetEnv \<Rightarrow> nat \<Rightarrow> NetConn \<Rightarrow> NetConn \<times> (gostring + bytes)" where
  "Connection_Read E n c =
     (if ncClosed c then (c, Inl (lit ''connection closed''))
      else if n \<le> length (ncIn c) then (c\<lparr>ncIn := drop n (ncIn c)\<rparr>, Inr (take n (ncIn c)))
      else (c\<lparr>ncIn := []\<rparr>, Inl (neRead E)))"

definition ReadHeader :: "NetEnv \<Rightarrow> NetConn \<Rightarrow> NetConn \<times> (gostring + byte \<times> uint32)" where
  "ReadHeader E c =
     (case Connection_Read E 5 c of
        (c, Inl e) \<Rightarrow> (c, Inl e)
      | (c, Inr header) \<Rightarrow> (c, Inr (header ! 0, rd32 (take 4 (drop 1 header)))))"

definition Connection_Close :: "NetEnv \<Rightarrow> NetConn \<Rightarrow> NetConn \<times> gostring option" where
  "Connection_Close E c = (if ncClosed c then (c, None) else (c\<lparr>ncClosed := True\<rparr>, neClose E))"

definition IsConnected :: "NetConn \<Rightarrow> bool" where
  "IsConnected c \<longleftrightarrow> \<not> ncClosed c"

section \<open>The pool\<close>

record PoolOptions =
  poAddress :: gostring
  poMinSize :: goint
  poMaxSize :: goint
  poDialTimeout :: int
  poReadTimeout :: int
  poWriteTimeout :: int
  poMaxIdleTime :: int
  poBufferSize :: goint

definition DefaultPoolOptions :: "gostring \<Rightarrow> PoolOptions" where
  "DefaultPoolOptions address = \<lparr>poAddress = address, poMinSize = 64, poMaxSize = 256, poDialTimeout = 5 * goSecond,
     poReadTimeout = 10 * goSecond, poWriteTimeout = 10 * goSecond, poMaxIdleTime = 300 * goSecond, poBufferSize = 65536\<rparr>"

text \<open>\<open>conns\<close> is a channel with room for \<open>cpMaxSize\<close> connections.\<close>

record ConnectionPool =
  cpOpts :: ConnectionOptions
  conns :: "NetConn list"
  cpClosed :: bool
  activeCount :: goint
  cpMinSize :: goint
  cpMaxSize :: goint
  cpMaxIdleTime :: int

text \<open>The error of closing a connection is ignored.\<close>

definition Pool_Close :: "NetEnv \<Rightarrow> ConnectionPool \<Rightarrow> ConnectionPool" where
  "Pool_Close E p = (if cpClosed p then p else p\<lparr>cpClosed := True, conns := []\<rparr>)"

text \<open>Dialling the first \<open>n\<close> connections; an error closes those that were made.\<close>

fun fillPool :: "NetEnv \<Rightarrow> nat \<Rightarrow> nat \<Rightarrow> ConnectionPool \<Rightarrow> gostring + ConnectionPool" where
  "fillPool E 0 i p = Inr p"
| "fillPool E (Suc n) i p =
     (case NewConnection E i (Some (cpOpts p)) of
        Inl e \<Rightarrow> Inl (lit ''failed to create initial connection: '' @ e)
      | Inr c \<Rightarrow> fillPool E n (Suc i) (p\<lparr>conns := conns p @ [c], activeCount := activeCount p + 1\<rparr>))"

definition NewConnectionPool :: "NetEnv \<Rightarrow> PoolOptions option \<Rightarrow> gostring + ConnectionPool" where
  "NewConnectionPool E opts =
     (case opts of
        None \<Rightarrow> Inl (lit ''options cannot be nil'')
      | Some opts \<Rightarrow>
          if poMinSize opts <s 0 \<or> poMaxSize opts <s poMinSize opts then Inl (lit ''invalid pool size configuration'')
          else fillPool E (nat (sint (poMinSize opts))) 0
            \<lparr>cpOpts = \<lparr>coAddress = poAddress opts, coDialTimeout = poDialTimeout opts, coReadTimeout = poReadTimeout opts,
                coWriteTimeout = poWriteTimeout opts, coBufferSize = poBufferSize opts\<rparr>,
             conns = [], cpClosed = False, activeCount = 0, cpMinSize = poMinSize opts, cpMaxSize = poMaxSize opts,
             cpMaxIdleTime = poMaxIdleTime opts\<rparr>)"

text \<open>\<open>Get\<close> returns a connection or an error, waits for the channel, or panics: a channel that was closed and
  is empty gives nil, and \<open>nil.IsConnected()\<close> locks a mutex at a nil address.\<close>

datatype got = Got NetConn | Refused gostring | Waiting | NilPanic

function createNewOrWait :: "NetEnv \<Rightarrow> ConnectionPool \<Rightarrow> ConnectionPool \<times> got" where
  "createNewOrWait E p =
     (if cpClosed p then (p, Refused (lit ''pool is closed''))
      else if activeCount p <s cpMaxSize p then
        (case NewConnection E 0 (Some (cpOpts p)) of
           Inl e \<Rightarrow> (p, Refused e)
         | Inr c \<Rightarrow> (p\<lparr>activeCount := activeCount p + 1\<rparr>, Got c))
      else case conns p of
        [] \<Rightarrow> (p, Waiting)
      | c # cs \<Rightarrow>
          if IsConnected c then (p\<lparr>conns := cs\<rparr>, Got c)
          else createNewOrWait E (p\<lparr>conns := cs, activeCount := activeCount p - 1\<rparr>))"
  by pat_completeness auto
termination by (relation "measure (\<lambda>(E, p). length (conns p))") auto

definition Pool_Get :: "NetEnv \<Rightarrow> ConnectionPool \<Rightarrow> ConnectionPool \<times> got" where
  "Pool_Get E p =
     (case conns p of
        [] \<Rightarrow> if cpClosed p then (p, NilPanic) else createNewOrWait E p
      | c # cs \<Rightarrow>
          if IsConnected c then (p\<lparr>conns := cs\<rparr>, Got c)
          else createNewOrWait E (p\<lparr>conns := cs, activeCount := activeCount p - 1\<rparr>))"

text \<open>Returning a connection.  Sending on a closed channel panics.\<close>

definition Pool_Put :: "NetEnv \<Rightarrow> NetConn option \<Rightarrow> ConnectionPool \<Rightarrow> ConnectionPool option" where
  "Pool_Put E conn p =
     (case conn of
        None \<Rightarrow> Some p
      | Some c \<Rightarrow>
          if \<not> IsConnected c then Some (p\<lparr>activeCount := activeCount p - 1\<rparr>)
          else if cpClosed p then None
          else if int (length (conns p)) < sint (cpMaxSize p) then Some (p\<lparr>conns := conns p @ [c]\<rparr>)
          else Some (p\<lparr>activeCount := activeCount p - 1\<rparr>))"

record PoolStats =
  ActiveCount :: goint
  AvailableCount :: nat
  psMaxSize :: goint
  psMinSize :: goint

definition Stats :: "ConnectionPool \<Rightarrow> PoolStats" where
  "Stats p = \<lparr>ActiveCount = activeCount p, AvailableCount = length (conns p), psMaxSize = cpMaxSize p, psMinSize = cpMinSize p\<rparr>"

end
