(* ===== verification/Client.thy ===== *)
theory Client
  imports NetPool DocStore
begin

text \<open>
  The Go client, \<open>src/clients/go\<close>.  A call takes a connection from the pool, writes one request, reads one
  response and returns the connection.  The clients of the four stores share one pool, which is the state of
  the model.
\<close>

section \<open>Calls\<close>

text \<open>A call returns, waits for a connection, or panics.\<close>

datatype 'a call = Returns "ConnectionPool \<times> (gostring + 'a)" | Blocks | Panics

text \<open>\<open>conn, err := c.pool.Get(); ...; defer c.pool.Put(conn)\<close>.  The body may panic too, as the encoders do.\<close>

definition withConn ::
  "NetEnv \<Rightarrow> ConnectionPool \<Rightarrow> (NetConn \<Rightarrow> (NetConn \<times> (gostring + 'a)) option) \<Rightarrow> 'a call" where
  "withConn E p body =
     (case Pool_Get E p of
        (p, Refused e) \<Rightarrow> Returns (p, Inl e)
      | (p, Waiting) \<Rightarrow> Blocks
      | (p, NilPanic) \<Rightarrow> Panics
      | (p, Got conn) \<Rightarrow>
          (case body conn of
             None \<Rightarrow> Panics
           | Some (conn, r) \<Rightarrow> (case Pool_Put E (Some conn) p of None \<Rightarrow> Panics | Some p \<Rightarrow> Returns (p, r))))"

text \<open>The next step on a connection, unless the last one failed.\<close>

definition andThen :: "NetConn \<times> (gostring + 'a) \<Rightarrow> ('a \<Rightarrow> NetConn \<Rightarrow> NetConn \<times> (gostring + 'b)) \<Rightarrow> NetConn \<times> (gostring + 'b)" where
  "andThen cr k = (case cr of (c, Inl e) \<Rightarrow> (c, Inl e) | (c, Inr a) \<Rightarrow> k a c)"

definition call ::
  "NetEnv \<Rightarrow> ConnectionPool \<Rightarrow> bytes option \<Rightarrow> (NetConn \<Rightarrow> NetConn \<times> (gostring + 'a)) \<Rightarrow> 'a call" where
  "call E p encoded rd = withConn E p (\<lambda>conn. map_option (\<lambda>request. andThen (Connection_Write E request conn) (\<lambda>_. rd)) encoded)"

section \<open>Responses\<close>

text \<open>An error response: its message, or a fixed text.\<close>

definition readFailure :: "NetEnv \<Rightarrow> uint32 \<Rightarrow> NetConn \<Rightarrow> NetConn \<times> (gostring + 'a)" where
  "readFailure E payloadLen c =
     (if 0 < payloadLen then andThen (Connection_Read E (unat payloadLen) c) (\<lambda>payload c. (c, Inl payload))
      else (c, Inl (lit ''operation failed'')))"

definition readOKResponse :: "NetEnv \<Rightarrow> NetConn \<Rightarrow> NetConn \<times> (gostring + unit)" where
  "readOKResponse E c = andThen (ReadHeader E c) (\<lambda>(status, payloadLen) c.
     if status \<noteq> StatusOK then readFailure E payloadLen c
     else if 0 < payloadLen then andThen (Connection_Read E (unat payloadLen) c) (\<lambda>_ c. (c, Inr ()))
     else (c, Inr ()))"

definition readValueResponse :: "NetEnv \<Rightarrow> NetConn \<Rightarrow> NetConn \<times> (gostring + bytes)" where
  "readValueResponse E c = andThen (ReadHeader E c) (\<lambda>(status, payloadLen) c.
     if status = StatusNotFound then (c, Inl (lit ''key not found''))
     else if status \<noteq> StatusOK then readFailure E payloadLen c
     else if payloadLen = 0 then (c, Inr [])
     else Connection_Read E (unat payloadLen) c)"

text \<open>The values of a multi-value payload; every read is within the bounds that were checked.\<close>

fun readValues :: "nat \<Rightarrow> gostring \<Rightarrow> bytes \<Rightarrow> nat \<Rightarrow> bytes list \<Rightarrow> gostring + bytes list" where
  "readValues 0 err payload pos vs = Inr vs"
| "readValues (Suc n) err payload pos vs =
     (if length payload < pos + 4 then Inl err
      else
        let valueLen = unat (rd32 (take 4 (drop pos payload)));
            pos = pos + 4
        in if length payload < pos + valueLen then Inl err
           else readValues n err payload (pos + valueLen) (vs @ [take valueLen (drop pos payload)]))"

definition parseMultiValue :: "bytes \<Rightarrow> gostring + bytes list" where
  "parseMultiValue payload = (let err = lit ''invalid multi-value response'' in
     if length payload < 2 then Inl err
     else readValues (unat (rd16 (take 2 payload))) err payload 2 [])"

definition readMultiValueResponse :: "NetEnv \<Rightarrow> NetConn \<Rightarrow> NetConn \<times> (gostring + bytes list)" where
  "readMultiValueResponse E c = andThen (ReadHeader E c) (\<lambda>(status, payloadLen) c.
     if status \<noteq> StatusMultiValue \<and> status \<noteq> StatusOK then readFailure E payloadLen c
     else if payloadLen = 0 then (c, Inr [])
     else andThen (Connection_Read E (unat payloadLen) c) (\<lambda>payload c. (c, parseMultiValue payload)))"

text \<open>\<open>if len(value) != 8 { return 0, err }; return int64(binary.BigEndian.Uint64(value)), nil\<close>\<close>

definition readInt64 :: "NetEnv \<Rightarrow> string \<Rightarrow> NetConn \<Rightarrow> NetConn \<times> (gostring + int64)" where
  "readInt64 E err c = andThen (readValueResponse E c) (\<lambda>val c.
     (c, if length val \<noteq> 8 then Inl (lit err) else Inr (rd64 val)))"

section \<open>Keys\<close>

definition KVClient_Set :: "NetEnv \<Rightarrow> ConnectionPool \<Rightarrow> gostring \<Rightarrow> bytes \<Rightarrow> unit call" where
  "KVClient_Set E p key val = call E p (EncodeSetRequest key val) (readOKResponse E)"

definition KVClient_Get :: "NetEnv \<Rightarrow> ConnectionPool \<Rightarrow> gostring \<Rightarrow> bytes call" where
  "KVClient_Get E p key = call E p (EncodeGetRequest key) (readValueResponse E)"

definition KVClient_Delete :: "NetEnv \<Rightarrow> ConnectionPool \<Rightarrow> gostring \<Rightarrow> unit call" where
  "KVClient_Delete E p key = call E p (EncodeDeleteRequest key) (readOKResponse E)"

text \<open>A response that is not a value is not read to its end.\<close>

definition KVClient_Exists :: "NetEnv \<Rightarrow> ConnectionPool \<Rightarrow> gostring \<Rightarrow> bool call" where
  "KVClient_Exists E p key = call E p (EncodeExistsRequest key) (\<lambda>c. andThen (ReadHeader E c) (\<lambda>(status, payloadLen) c.
     if status = StatusOK \<and> 0 < payloadLen
     then andThen (Connection_Read E (unat payloadLen) c) (\<lambda>payload c. (c, Inr (payload ! 0 = 1)))
     else (c, Inr False)))"

definition KVClient_Incr :: "NetEnv \<Rightarrow> ConnectionPool \<Rightarrow> gostring \<Rightarrow> int64 call" where
  "KVClient_Incr E p key = call E p (EncodeIncrRequest key) (readInt64 E ''invalid counter value'')"

definition KVClient_Decr :: "NetEnv \<Rightarrow> ConnectionPool \<Rightarrow> gostring \<Rightarrow> int64 call" where
  "KVClient_Decr E p key = call E p (EncodeDecrRequest key) (readInt64 E ''invalid counter value'')"

definition KVClient_MSet :: "NetEnv \<Rightarrow> ConnectionPool \<Rightarrow> gostring list \<Rightarrow> bytes list \<Rightarrow> unit call" where
  "KVClient_MSet E p ks vs =
     (if length ks \<noteq> length vs then Returns (p, Inl (lit ''keys and values length mismatch''))
      else call E p (EncodeMSetRequest ks vs) (readOKResponse E))"

definition KVClient_MGet :: "NetEnv \<Rightarrow> ConnectionPool \<Rightarrow> gostring list \<Rightarrow> bytes list call" where
  "KVClient_MGet E p ks = call E p (EncodeMGetRequest ks) (readMultiValueResponse E)"

definition KVClient_MDelete :: "NetEnv \<Rightarrow> ConnectionPool \<Rightarrow> gostring list \<Rightarrow> unit call" where
  "KVClient_MDelete E p ks = call E p (EncodeMDeleteRequest ks) (readOKResponse E)"

section \<open>Queues\<close>

definition QueueClient_Push :: "NetEnv \<Rightarrow> ConnectionPool \<Rightarrow> gostring \<Rightarrow> bytes \<Rightarrow> unit call" where
  "QueueClient_Push E p queue item = call E p (EncodeQPushRequest queue item) (readOKResponse E)"

definition QueueClient_Pop :: "NetEnv \<Rightarrow> ConnectionPool \<Rightarrow> gostring \<Rightarrow> bytes call" where
  "QueueClient_Pop E p queue = call E p (EncodeQPopRequest queue) (readValueResponse E)"

definition QueueClient_Peek :: "NetEnv \<Rightarrow> ConnectionPool \<Rightarrow> gostring \<Rightarrow> bytes call" where
  "QueueClient_Peek E p queue = call E p (EncodeQPeekRequest queue) (readValueResponse E)"

definition QueueClient_Len :: "NetEnv \<Rightarrow> ConnectionPool \<Rightarrow> gostring \<Rightarrow> int64 call" where
  "QueueClient_Len E p queue = call E p (EncodeQLenRequest queue) (readInt64 E ''invalid length value'')"

definition QueueClient_Clear :: "NetEnv \<Rightarrow> ConnectionPool \<Rightarrow> gostring \<Rightarrow> unit call" where
  "QueueClient_Clear E p queue = call E p (EncodeQClearRequest queue) (readOKResponse E)"

end
