(* ===== verification/ClientStores.thy ===== *)
theory ClientStores
  imports Client
begin

text \<open>
  The rest of the Go client: streams (\<open>src/clients/go/stream_client.go\<close>), documents with their builders
  (\<open>db_client.go\<close>) and the client itself (\<open>client.go\<close>).
\<close>

section \<open>Streams\<close>

record StreamMessage =
  smID :: uint64
  smTimestamp :: int64
  smKey :: gostring
  smValue :: bytes
  smPartition :: goint
  smOffset :: uint64

definition StreamClient_CreateTopic :: "NetEnv \<Rightarrow> ConnectionPool \<Rightarrow> gostring \<Rightarrow> goint \<Rightarrow> int64 \<Rightarrow> unit call" where
  "StreamClient_CreateTopic E p topic partitions retentionMs =
     call E p (EncodeSCreateTopicRequest topic partitions retentionMs) (readOKResponse E)"

definition StreamClient_Publish :: "NetEnv \<Rightarrow> ConnectionPool \<Rightarrow> gostring \<Rightarrow> goint \<Rightarrow> gostring \<Rightarrow> bytes \<Rightarrow> unit call" where
  "StreamClient_Publish E p topic part key val = call E p (EncodeSPublishRequest topic part key val) (readOKResponse E)"

definition StreamClient_Subscribe :: "NetEnv \<Rightarrow> ConnectionPool \<Rightarrow> gostring \<Rightarrow> gostring \<Rightarrow> gostring \<Rightarrow> unit call" where
  "StreamClient_Subscribe E p topic grp consumer = call E p (EncodeSSubscribeRequest topic grp consumer) (readOKResponse E)"

definition decodeStreamMessage :: "bytes \<Rightarrow> gostring + StreamMessage" where
  "decodeStreamMessage data = (let err = lit ''invalid message data'' in
     if length data < 18 then Inl err
     else
       let off = rd64 (take 8 data);
           timestamp = rd64 (take 8 (drop 8 data));
           keyLen = unat (rd16 (take 2 (drop 16 data)));
           pos = 18
       in if length data < pos + keyLen + 4 then Inl err
          else
            let key = take keyLen (drop pos data);
                pos = pos + keyLen;
                valLen = unat (rd32 (take 4 (drop pos data)));
                pos = pos + 4
            in if length data < pos + valLen then Inl err
               else Inr \<lparr>smID = 0, smTimestamp = timestamp, smKey = key, smValue = take valLen (drop pos data), smPartition = 0, smOffset = off\<rparr>)"

fun readMessages :: "nat \<Rightarrow> bytes \<Rightarrow> nat \<Rightarrow> StreamMessage list \<Rightarrow> gostring + StreamMessage list" where
  "readMessages 0 payload pos msgs = Inr msgs"
| "readMessages (Suc n) payload pos msgs = (let err = lit ''invalid response'' in
     if length payload < pos + 4 then Inl err
     else
       let valLen = unat (rd32 (take 4 (drop pos payload)));
           pos = pos + 4
       in if length payload < pos + valLen then Inl err
          else case decodeStreamMessage (take valLen (drop pos payload)) of
            Inl e \<Rightarrow> Inl e
          | Inr msg \<Rightarrow> readMessages n payload (pos + valLen) (msgs @ [msg\<lparr>smPartition := 0\<rparr>]))"

text \<open>The payload of an error is left unread.\<close>

definition readConsumed :: "NetEnv \<Rightarrow> NetConn \<Rightarrow> NetConn \<times> (gostring + StreamMessage list)" where
  "readConsumed E c = andThen (ReadHeader E c) (\<lambda>(status, payloadLen) c.
     if status \<noteq> StatusOK \<and> status \<noteq> StatusMultiValue then (c, Inl (lit (''server error: status '' @ dec (unat status))))
     else andThen (Connection_Read E (unat payloadLen) c) (\<lambda>payload c.
       (c, if status = StatusMultiValue
           then if length payload < 2 then Inl (lit ''invalid multi-value response'')
             else readMessages (unat (rd16 (take 2 payload))) payload 2 []
           else Inr [])))"

definition StreamClient_Consume :: "NetEnv \<Rightarrow> ConnectionPool \<Rightarrow> gostring \<Rightarrow> gostring \<Rightarrow> gostring \<Rightarrow> goint \<Rightarrow> StreamMessage list call" where
  "StreamClient_Consume E p topic grp consumer n = call E p (EncodeSConsumeRequest topic grp consumer n) (readConsumed E)"

definition StreamClient_Commit :: "NetEnv \<Rightarrow> ConnectionPool \<Rightarrow> gostring \<Rightarrow> gostring \<Rightarrow> goint \<Rightarrow> uint64 \<Rightarrow> unit call" where
  "StreamClient_Commit E p topic grp part off = call E p (EncodeSCommitRequest topic grp part off) (readOKResponse E)"

definition StreamClient_Unsubscribe :: "NetEnv \<Rightarrow> ConnectionPool \<Rightarrow> gostring \<Rightarrow> gostring \<Rightarrow> gostring \<Rightarrow> unit call" where
  "StreamClient_Unsubscribe E p topic grp consumer = call E p (EncodeSUnsubscribeRequest topic grp consumer) (readOKResponse E)"

section \<open>Documents\<close>

text \<open>A call whose request carries JSON, which is made after a connection was taken.\<close>

definition callJSON ::
  "NetEnv \<Rightarrow> 'f Json \<Rightarrow> ConnectionPool \<Rightarrow> string \<Rightarrow> 'f gval \<Rightarrow> (bytes \<Rightarrow> bytes option) \<Rightarrow>
   (NetConn \<Rightarrow> NetConn \<times> (gostring + 'a)) \<Rightarrow> 'a call" where
  "callJSON E J p what v encode rd = withConn E p (\<lambda>conn.
     case Marshal J v of
       Inl e \<Rightarrow> Some (conn, Inl (lit (''failed to marshal '' @ what @ '': '') @ e))
     | Inr data \<Rightarrow> map_option (\<lambda>request. andThen (Connection_Write E request conn) (\<lambda>_. rd)) (encode data))"

definition DBClient_Insert :: "NetEnv \<Rightarrow> 'f Json \<Rightarrow> ConnectionPool \<Rightarrow> gostring \<Rightarrow> 'f Document \<Rightarrow> gostring call" where
  "DBClient_Insert E J p collection doc =
     callJSON E J p ''document'' (GMap doc) (EncodeDocInsertRequest collection) (readValueResponse E)"

definition DBClient_CreateIndex :: "NetEnv \<Rightarrow> ConnectionPool \<Rightarrow> gostring \<Rightarrow> gostring \<Rightarrow> unit call" where
  "DBClient_CreateIndex E p collection field =
     call E p (EncodeDocIndexRequest collection field) (\<lambda>c. andThen (readValueResponse E c) (\<lambda>resp c.
       (c, if resp \<noteq> lit ''OK'' then Inl (lit ''index creation returned unexpected response: '' @ resp) else Inr ())))"

text \<open>\<open>[]map[string]interface{}\<close>: an element that is null is a nil map.\<close>

fun toDocs :: "'f gval list \<Rightarrow> 'f Document list option" where
  "toDocs [] = Some []"
| "toDocs (GMap doc # vs) = map_option ((#) doc) (toDocs vs)"
| "toDocs (GNil # vs) = map_option ((#) []) (toDocs vs)"
| "toDocs _ = None"

definition unmarshalDocs :: "'f Json \<Rightarrow> bytes \<Rightarrow> gostring + 'f Document list" where
  "unmarshalDocs J data =
     (case Unmarshal J data of
        Inl e \<Rightarrow> Inl e
      | Inr v \<Rightarrow>
          (case (case v of GArr vs \<Rightarrow> toDocs vs | GNil \<Rightarrow> Some [] | _ \<Rightarrow> None) of
             None \<Rightarrow> Inl (typeError J v)
           | Some docs \<Rightarrow> Inr docs))"

definition executeFind :: "NetEnv \<Rightarrow> 'f Json \<Rightarrow> ConnectionPool \<Rightarrow> gostring \<Rightarrow> 'f Document \<Rightarrow> 'f Document list call" where
  "executeFind E J p collection opts =
     callJSON E J p ''query options'' (GMap opts) (EncodeDocFindRequest collection)
       (\<lambda>c. andThen (readValueResponse E c) (\<lambda>resp c.
          (c, case unmarshalDocs J resp of Inl e \<Rightarrow> Inl (lit ''failed to unmarshal results: '' @ e) | Inr docs \<Rightarrow> Inr docs)))"

definition executeUpdate :: "NetEnv \<Rightarrow> 'f Json \<Rightarrow> ConnectionPool \<Rightarrow> gostring \<Rightarrow> 'f Document \<Rightarrow> unit call" where
  "executeUpdate E J p collection opts =
     callJSON E J p ''update options'' (GMap opts) (EncodeDocUpdateRequest collection) (readOKResponse E)"

definition executeDelete :: "NetEnv \<Rightarrow> 'f Json \<Rightarrow> ConnectionPool \<Rightarrow> gostring \<Rightarrow> 'f Document \<Rightarrow> unit call" where
  "executeDelete E J p collection opts =
     callJSON E J p ''delete options'' (GMap opts) (EncodeDocDeleteRequest collection) (readOKResponse E)"

section \<open>Builders\<close>

text \<open>They have the structure of those of \<open>src/internal/db\<close>, and their options are sent as JSON.  The client
  that a builder refers to is an argument of \<open>Exec\<close>.\<close>

record 'f ClientQuery =
  cqCollection :: gostring
  cqFilters :: "'f Query list"
  cqSort :: "SortOption option"
  cqSkip :: goint
  cqLimit :: goint

record 'f ClientUpdate =
  cuCollection :: gostring
  cuFilters :: "'f Query list"
  cuSetFields :: "'f Document"
  cuMerge :: bool

record 'f ClientDelete =
  cdCollection :: gostring
  cdFilters :: "'f Query list"

definition DBClient_Query :: "gostring \<Rightarrow> 'f ClientQuery" where
  "DBClient_Query collection = \<lparr>cqCollection = collection, cqFilters = [], cqSort = None, cqSkip = 0, cqLimit = - 1\<rparr>"

definition DBClient_Update :: "gostring \<Rightarrow> 'f ClientUpdate" where
  "DBClient_Update collection = \<lparr>cuCollection = collection, cuFilters = [], cuSetFields = [], cuMerge = True\<rparr>"

definition DBClient_Delete :: "gostring \<Rightarrow> 'f ClientDelete" where
  "DBClient_Delete collection = \<lparr>cdCollection = collection, cdFilters = []\<rparr>"

definition cqWhere :: "'f ClientQuery \<Rightarrow> gostring \<Rightarrow> gostring \<Rightarrow> 'f gval \<Rightarrow> 'f ClientQuery" where
  "cqWhere qb field operator val = qb\<lparr>cqFilters := cqFilters qb @ [\<lparr>Field = field, Operator = operator, qValue = val\<rparr>]\<rparr>"

definition cqOrderBy :: "'f ClientQuery \<Rightarrow> gostring \<Rightarrow> gostring \<Rightarrow> 'f ClientQuery" where
  "cqOrderBy qb field direction = qb\<lparr>cqSort := Some \<lparr>soField = field, Direction = direction\<rparr>\<rparr>"

definition cqSkipTo :: "'f ClientQuery \<Rightarrow> goint \<Rightarrow> 'f ClientQuery" where
  "cqSkipTo qb n = qb\<lparr>cqSkip := n\<rparr>"

definition cqTake :: "'f ClientQuery \<Rightarrow> goint \<Rightarrow> 'f ClientQuery" where
  "cqTake qb n = qb\<lparr>cqLimit := n\<rparr>"

definition cuWhere :: "'f ClientUpdate \<Rightarrow> gostring \<Rightarrow> gostring \<Rightarrow> 'f gval \<Rightarrow> 'f ClientUpdate" where
  "cuWhere ub field operator val = ub\<lparr>cuFilters := cuFilters ub @ [\<lparr>Field = field, Operator = operator, qValue = val\<rparr>]\<rparr>"

definition cuSet :: "'f ClientUpdate \<Rightarrow> gostring \<Rightarrow> 'f gval \<Rightarrow> 'f ClientUpdate" where
  "cuSet ub field val = ub\<lparr>cuSetFields := AList.update field val (cuSetFields ub)\<rparr>"

definition cdWhere :: "'f ClientDelete \<Rightarrow> gostring \<Rightarrow> gostring \<Rightarrow> 'f gval \<Rightarrow> 'f ClientDelete" where
  "cdWhere db field operator val = db\<lparr>cdFilters := cdFilters db @ [\<lparr>Field = field, Operator = operator, qValue = val\<rparr>]\<rparr>"

definition filterValue :: "'f Query \<Rightarrow> 'f gval" where
  "filterValue q = GMap [(lit ''field'', GString (Field q)), (lit ''operator'', GString (Operator q)), (lit ''value'', qValue q)]"

definition queryOptions :: "'f ClientQuery \<Rightarrow> 'f Document" where
  "queryOptions qb =
     [(lit ''filters'', GArr (map filterValue (cqFilters qb))), (lit ''skip'', GInt (cqSkip qb)), (lit ''limit'', GInt (cqLimit qb))] @
     (case cqSort qb of
        None \<Rightarrow> []
      | Some so \<Rightarrow> [(lit ''sort'', GMap [(lit ''field'', GString (soField so)), (lit ''direction'', GString (Direction so))])])"

definition ClientQuery_Exec :: "NetEnv \<Rightarrow> 'f Json \<Rightarrow> ConnectionPool \<Rightarrow> 'f ClientQuery \<Rightarrow> 'f Document list call" where
  "ClientQuery_Exec E J p qb = executeFind E J p (cqCollection qb) (queryOptions qb)"

definition updateOptions :: "'f ClientUpdate \<Rightarrow> 'f Document" where
  "updateOptions ub = [(lit ''filters'', GArr (map filterValue (cuFilters ub))), (lit ''set'', GMap (cuSetFields ub)), (lit ''merge'', GBool (cuMerge ub))]"

definition ClientUpdate_Exec :: "NetEnv \<Rightarrow> 'f Json \<Rightarrow> ConnectionPool \<Rightarrow> 'f ClientUpdate \<Rightarrow> unit call" where
  "ClientUpdate_Exec E J p ub = executeUpdate E J p (cuCollection ub) (updateOptions ub)"

definition deleteOptions :: "'f ClientDelete \<Rightarrow> 'f Document" where
  "deleteOptions db = [(lit ''filters'', GArr (map filterValue (cdFilters db)))]"

definition ClientDelete_Exec :: "NetEnv \<Rightarrow> 'f Json \<Rightarrow> ConnectionPool \<Rightarrow> 'f ClientDelete \<Rightarrow> unit call" where
  "ClientDelete_Exec E J p db = executeDelete E J p (cdCollection db) (deleteOptions db)"

section \<open>The client\<close>

record ClientOptions =
  clAddress :: gostring
  MinConnections :: goint
  MaxConnections :: goint
  clDialTimeout :: int
  clReadTimeout :: int
  clWriteTimeout :: int

definition DefaultOptions :: "gostring \<Rightarrow> ClientOptions" where
  "DefaultOptions address = \<lparr>clAddress = address, MinConnections = 16, MaxConnections = 256, clDialTimeout = 5 * goSecond,
     clReadTimeout = 30 * goSecond, clWriteTimeout = 30 * goSecond\<rparr>"

definition NewClient :: "NetEnv \<Rightarrow> ClientOptions option \<Rightarrow> gostring + ConnectionPool" where
  "NewClient E opts =
     (case opts of
        None \<Rightarrow> Inl (lit ''options cannot be nil'')
      | Some opts \<Rightarrow>
          if clAddress opts = [] then Inl (lit ''address is required'')
          else case NewConnectionPool E (Some \<lparr>poAddress = clAddress opts, poMinSize = MinConnections opts, poMaxSize = MaxConnections opts,
              poDialTimeout = clDialTimeout opts, poReadTimeout = clReadTimeout opts, poWriteTimeout = clWriteTimeout opts,
              poMaxIdleTime = 300 * goSecond, poBufferSize = 65536\<rparr>) of
            Inl e \<Rightarrow> Inl (lit ''failed to create connection pool: '' @ e)
          | Inr p \<Rightarrow> Inr p)"

definition Client_Publish :: "NetEnv \<Rightarrow> ConnectionPool \<Rightarrow> gostring \<Rightarrow> goint \<Rightarrow> gostring \<Rightarrow> bytes \<Rightarrow> unit call" where
  "Client_Publish E p topic part key val = StreamClient_Publish E p topic part key val"

definition Client_PublishBatch :: "NetEnv \<Rightarrow> ConnectionPool \<Rightarrow> gostring \<Rightarrow> BatchMessage list \<Rightarrow> unit call" where
  "Client_PublishBatch E p topic msgs = call E p (EncodeSPublishBatchRequest topic msgs) (readOKResponse E)"

definition Client_Close :: "NetEnv \<Rightarrow> ConnectionPool \<Rightarrow> ConnectionPool" where
  "Client_Close E p = Pool_Close E p"

definition Ping :: "NetEnv \<Rightarrow> ConnectionPool \<Rightarrow> unit call" where
  "Ping E p = withConn E p (\<lambda>conn. Some (conn, Inr ()))"

end
