(* ===== verification/ClientProps.thy ===== *)
theory ClientProps
  imports ServerRuns ClientStores
begin

text \<open>
  The pool over every history of calls, and the client against the server.
\<close>

section \<open>The pool\<close>

declare createNewOrWait.simps [simp del]

lemma sint_succ: "a <s b \<Longrightarrow> sint (a + 1) = sint a + 1" for a b :: goint
proof -
  assume "a <s b"
  then have "sint a < sint b" by (simp add: word_sless_alt)
  moreover have "sint b < 2 ^ 63" "- (2 ^ 63) \<le> sint a" using sint_lt [of b] sint_ge [of a] by simp_all
  ultimately show ?thesis by (simp add: sint_word_ariths signed_take_bit_int_eq_self)
qed

lemma sint_pred: "0 < sint a \<Longrightarrow> sint (a - 1) = sint a - 1" for a :: goint
  using sint_lt [of a] by (simp add: sint_word_ariths signed_take_bit_int_eq_self)

text \<open>A pool and the number of connections taken from it and not yet returned.\<close>

inductive pool_step :: "ConnectionPool \<times> nat \<Rightarrow> ConnectionPool \<times> nat \<Rightarrow> bool" where
  pool_got: "Pool_Get E p = (p', Got c) \<Longrightarrow> pool_step (p, n) (p', Suc n)"
| pool_not: "Pool_Get E p = (p', r) \<Longrightarrow> (\<And>c. r \<noteq> Got c) \<Longrightarrow> pool_step (p, n) (p', n)"
| pool_put: "Pool_Put E (Some c) p = Some p' \<Longrightarrow> pool_step (p, Suc n) (p', n)"

definition poolInv :: "goint \<Rightarrow> ConnectionPool \<times> nat \<Rightarrow> bool" where
  "poolInv m = (\<lambda>(p, n). \<not> cpClosed p \<and> cpMaxSize p = m \<and> sint (activeCount p) = int (length (conns p)) + int n \<and>
     sint (activeCount p) \<le> sint m)"

lemma createNewOrWait_inv:
  "poolInv m (p, n) \<Longrightarrow> createNewOrWait E p = (p', r) \<Longrightarrow> poolInv m (p', case r of Got c \<Rightarrow> Suc n | _ \<Rightarrow> n)"
proof (induction E p rule: createNewOrWait.induct)
  case (1 E p)
  show ?case
  proof (cases "activeCount p <s cpMaxSize p")
    case True
    with 1(2,3) sint_succ [OF True] show ?thesis
      by (auto simp: createNewOrWait.simps [of E p] poolInv_def word_sless_alt split: sum.splits)
  next
    case False
    show ?thesis
    proof (cases "conns p")
      case Nil
      with 1(2,3) False show ?thesis by (auto simp: createNewOrWait.simps [of E p] poolInv_def)
    next
      case (Cons c cs)
      show ?thesis
      proof (cases "IsConnected c")
        case True
        with 1(2,3) False Cons show ?thesis by (auto simp: createNewOrWait.simps [of E p] poolInv_def)
      next
        case dead: False
        let ?p = "p\<lparr>conns := cs, activeCount := activeCount p - 1\<rparr>"
        have "poolInv m (?p, n)" using 1(2) Cons sint_pred [of "activeCount p"] by (auto simp: poolInv_def)
        moreover have "createNewOrWait E ?p = (p', r)"
          using 1(2,3) False Cons dead by (simp add: createNewOrWait.simps [of E p] poolInv_def)
        ultimately show ?thesis using 1(1) [OF _ False Cons dead] 1(2) by (simp add: poolInv_def)
      qed
    qed
  qed
qed

lemma Pool_Get_inv:
  assumes "poolInv m (p, n)" and "Pool_Get E p = (p', r)"
  shows "poolInv m (p', case r of Got c \<Rightarrow> Suc n | _ \<Rightarrow> n)"
proof (cases "conns p")
  case Nil
  with assms have "createNewOrWait E p = (p', r)" by (simp add: Pool_Get_def poolInv_def)
  with createNewOrWait_inv [OF assms(1)] show ?thesis by blast
next
  case (Cons c cs)
  show ?thesis
  proof (cases "IsConnected c")
    case True
    with assms Cons show ?thesis by (auto simp: Pool_Get_def poolInv_def)
  next
    case False
    have "poolInv m (p\<lparr>conns := cs, activeCount := activeCount p - 1\<rparr>, n)"
      using assms(1) Cons sint_pred [of "activeCount p"] by (auto simp: poolInv_def)
    from createNewOrWait_inv [OF this] show ?thesis using assms(2) Cons False by (simp add: Pool_Get_def)
  qed
qed

lemma Pool_Put_inv:
  assumes "poolInv m (p, Suc n)" and "Pool_Put E (Some c) p = Some p'"
  shows "poolInv m (p', n)"
proof -
  have "int (length (conns p)) < sint (cpMaxSize p)" "sint (activeCount p - 1) = sint (activeCount p) - 1"
    using assms(1) sint_pred [of "activeCount p"] by (auto simp: poolInv_def)
  with assms show ?thesis by (auto simp: Pool_Put_def poolInv_def split: if_splits)
qed

lemma pool_step_inv: "pool_step pn pn' \<Longrightarrow> poolInv m pn \<Longrightarrow> poolInv m pn'"
proof (induction rule: pool_step.induct)
  case (pool_not E p p' r n)
  with Pool_Get_inv [of m p n E p' r] show ?case by (cases r) auto
qed (auto dest: Pool_Get_inv intro: Pool_Put_inv)

lemma fillPool_inv:
  "fillPool E k i p = Inr p' \<Longrightarrow> poolInv m (p, 0) \<Longrightarrow> int (length (conns p) + k) \<le> sint m \<Longrightarrow> poolInv m (p', 0)"
proof (induction E k i p rule: fillPool.induct)
  case (2 E n i p)
  have "activeCount p <s m" using 2(3,4) by (simp add: poolInv_def word_sless_alt)
  from sint_succ [OF this] 2 show ?case by (auto simp: poolInv_def split: sum.splits)
qed simp

text \<open>C39: the pool keeps count.  Through every history of \<open>Get\<close> and \<open>Put\<close> on a new pool, in which only taken
  connections are returned, the count of active connections is that of the waiting and the taken ones
  together and does not exceed the maximum; in particular, a connection is never closed because the pool
  is full.\<close>

theorem pool_counts:
  assumes "NewConnectionPool E (Some opts) = Inr p0" and "pool_step\<^sup>*\<^sup>* (p0, 0) (p, n)"
  shows "sint (activeCount p) = int (length (conns p)) + int n \<and> sint (activeCount p) \<le> sint (poMaxSize opts) \<and>
    (0 < n \<longrightarrow> IsConnected c \<longrightarrow> Pool_Put E' (Some c) p = Some (p\<lparr>conns := conns p @ [c]\<rparr>))"
proof -
  have "poolInv (poMaxSize opts) (p0, 0)"
    using assms(1) by (auto simp: NewConnectionPool_def word_sless_alt poolInv_def split: if_splits
        dest!: fillPool_inv [where m = "poMaxSize opts"])
  with assms(2) have "poolInv (poMaxSize opts) (p, n)"
    by (induction rule: rtranclp_induct2) (auto intro: pool_step_inv)
  then show ?thesis by (auto simp: poolInv_def Pool_Put_def)
qed

text \<open>The pool after \<open>Close\<close>.  Taking a connection from a closed pool panics instead of reporting that the
  pool is closed, and so does returning one that was in use when the pool was closed.\<close>

theorem pool_closed_panics:
  "\<not> cpClosed p \<longrightarrow> snd (Pool_Get E (Pool_Close E' p)) = NilPanic \<and> (IsConnected c \<longrightarrow> Pool_Put E (Some c) (Pool_Close E' p) = None)"
  by (simp add: Pool_Get_def Pool_Close_def Pool_Put_def)

definition quietNet :: NetEnv where
  "quietNet = \<lparr>neDial = (\<lambda>_. None), neWrite = None, neReply = (\<lambda>_. []), neRead = lit ''EOF'', neClose = None\<rparr>"

definition onePool :: PoolOptions where
  "onePool = (DefaultPoolOptions (lit ''x''))\<lparr>poMinSize := 1, poMaxSize := 1\<rparr>"

definition newConn :: NetConn where
  "newConn = \<lparr>ncIn = [], ncWriteErr = None, ncReadTimeout = 10 * goSecond, ncWriteTimeout = 10 * goSecond, ncClosed = False\<rparr>"

definition memPool :: ConnectionPool where
  "memPool = \<lparr>cpOpts = \<lparr>coAddress = lit ''x'', coDialTimeout = 5 * goSecond, coReadTimeout = 10 * goSecond,
       coWriteTimeout = 10 * goSecond, coBufferSize = 65536\<rparr>,
     conns = [newConn], cpClosed = False, activeCount = 1, cpMinSize = 1, cpMaxSize = 1, cpMaxIdleTime = 300 * goSecond\<rparr>"

lemma memPool_new: "NewConnectionPool quietNet (Some onePool) = Inr memPool"
  by code_simp

theorem pool_counts_witness:
  "\<exists>p. pool_step\<^sup>*\<^sup>* (memPool, 0) (p, 1) \<and> sint (activeCount p) = int (length (conns p)) + 1 \<and>
     Pool_Put quietNet (Some newConn) p = Some (p\<lparr>conns := conns p @ [newConn]\<rparr>)"
proof -
  have get: "Pool_Get quietNet memPool = (memPool\<lparr>conns := []\<rparr>, Got newConn)"
    by (simp add: Pool_Get_def memPool_def newConn_def IsConnected_def)
  have "pool_step\<^sup>*\<^sup>* (memPool, 0) (memPool\<lparr>conns := []\<rparr>, 1)"
    using pool_got [OF get, of 0] by (simp add: r_into_rtranclp)
  with pool_counts [OF memPool_new this, of newConn quietNet] show ?thesis
    by (intro exI [of _ "memPool\<lparr>conns := []\<rparr>"]) (simp add: IsConnected_def newConn_def)
qed

theorem pool_closed_panics_witness:
  "snd (Pool_Get quietNet (Pool_Close quietNet memPool)) = NilPanic \<and> Pool_Put quietNet (Some newConn) (Pool_Close quietNet memPool) = None"
  using pool_closed_panics [of memPool quietNet quietNet newConn] by (simp add: memPool_def newConn_def IsConnected_def)

section \<open>One exchange\<close>

definition fresh :: "NetConn \<Rightarrow> bool" where
  "fresh c \<longleftrightarrow> \<not> ncClosed c \<and> ncWriteErr c = None \<and> ncIn c = []"

definition idle :: "ConnectionPool \<Rightarrow> NetConn \<Rightarrow> NetConn list \<Rightarrow> bool" where
  "idle p c cs \<longleftrightarrow> conns p = c # cs \<and> \<not> cpClosed p \<and> int (length cs) < sint (cpMaxSize p) \<and> fresh c"

lemma call_idle:
  assumes "idle p c cs" and "neWrite E = None" and "rd (c\<lparr>ncIn := neReply E req\<rparr>) = (c', r)" and "IsConnected c'"
  shows "call E p (Some req) rd = Returns (p\<lparr>conns := cs @ [c']\<rparr>, r)"
  using assms
  by (simp add: call_def withConn_def Pool_Get_def idle_def fresh_def IsConnected_def Connection_Write_def andThen_def Pool_Put_def)

lemma ReadHeader_frame:
  "\<not> ncClosed c \<Longrightarrow> ReadHeader E (c\<lparr>ncIn := frame st pl @ rest\<rparr>) = (c\<lparr>ncIn := pl @ rest\<rparr>, Inr (st, word_of_nat (length pl)))"
  by (simp add: ReadHeader_def Connection_Read_def frame_def)

lemma Connection_Read_frame: "\<not> ncClosed c \<Longrightarrow> Connection_Read E (length pl) (c\<lparr>ncIn := pl @ rest\<rparr>) = (c\<lparr>ncIn := rest\<rparr>, Inr pl)"
  by (simp add: Connection_Read_def)

lemma payload_len: "length pl < 2 ^ 32 \<Longrightarrow> (0 < (word_of_nat (length pl) :: uint32) \<longleftrightarrow> pl \<noteq> []) \<and>
    ((word_of_nat (length pl) :: uint32) = 0 \<longleftrightarrow> pl = []) \<and> unat (word_of_nat (length pl) :: uint32) = length pl"
  by (auto simp: word_less_nat_alt unat_of_nat word_unat_eq_iff)

definition errText :: "bytes \<Rightarrow> gostring" where
  "errText e = (if e = [] then lit ''operation failed'' else e)"

lemma read_frames:
  assumes "\<not> ncClosed c" and "length pl < 2 ^ 32"
  shows "readOKResponse E (c\<lparr>ncIn := frame StatusOK pl @ rest\<rparr>) = (c\<lparr>ncIn := rest\<rparr>, Inr ())"
    and "readOKResponse E (c\<lparr>ncIn := frame StatusError pl @ rest\<rparr>) = (c\<lparr>ncIn := rest\<rparr>, Inl (errText pl))"
    and "readValueResponse E (c\<lparr>ncIn := frame StatusOK pl @ rest\<rparr>) = (c\<lparr>ncIn := rest\<rparr>, Inr pl)"
    and "readValueResponse E (c\<lparr>ncIn := frame StatusError pl @ rest\<rparr>) = (c\<lparr>ncIn := rest\<rparr>, Inl (errText pl))"
  using assms payload_len [OF assms(2)]
  by (simp_all add: readOKResponse_def readValueResponse_def readFailure_def andThen_def ReadHeader_frame Connection_Read_frame
      errText_def statuses)

text \<open>What a connection of the server answers to bytes that arrive at once, and its state after that.\<close>

definition serverReply ::
  "('db, 'txn) Env \<Rightarrow> (Request \<Rightarrow> ('db, 'ext) st \<Rightarrow> ('db, 'ext) st option) \<Rightarrow> ('db, 'ext) st \<Rightarrow> bytes \<Rightarrow> bytes" where
  "serverReply E other st data = (case readLoop E other (Some data) st of
     None \<Rightarrow> [] | Some st' \<Rightarrow> concat (drop (length (outQueue (snd st))) (outQueue (snd st'))))"

definition serverAfter ::
  "('db, 'txn) Env \<Rightarrow> (Request \<Rightarrow> ('db, 'ext) st \<Rightarrow> ('db, 'ext) st option) \<Rightarrow> ('db, 'ext) st \<Rightarrow> bytes \<Rightarrow> ('db, 'ext) st" where
  "serverAfter E other st data = (case readLoop E other (Some data) st of None \<Rightarrow> st | Some st' \<Rightarrow> st')"

lemma server_answered:
  assumes "readLoop E other (Some data) (s, c) = Some (answered E' r (s', c\<lparr>readBuf := b\<rparr>))"
  shows "serverReply E other (s, c) data = r" and "serverAfter E other (s, c) data = answered E' r (s', c\<lparr>readBuf := b\<rparr>)"
  by (simp_all add: serverReply_def serverAfter_def assms)

lemmas read_frame = read_frames [where rest = "[]", simplified]

lemma fresh_in: "fresh c \<Longrightarrow> c\<lparr>ncIn := []\<rparr> = c" "fresh c \<Longrightarrow> \<not> ncClosed c" "fresh c \<Longrightarrow> IsConnected c"
  by (simp_all add: fresh_def IsConnected_def)

lemma idle_alone: "idle p c [] \<Longrightarrow> p\<lparr>conns := [c]\<rparr> = p" "idle p c cs \<Longrightarrow> fresh c"
  by (simp_all add: idle_def)

text \<open>A client, the protocol, the server and the store together.  When the network delivers what the server
  answers, a \<open>Set\<close> of the client returns the error that the store reported, and the store is unchanged, or
  it succeeds, and a \<open>Get\<close> of the same key over the same connection returns the value.  Either way the
  connection goes back into the pool with nothing unread.\<close>

theorem client_set_get:
  assumes "badger_store (envB E)" and "envB E' = envB E" and "idle p c []" and "ready 2 sc"
    and "length key < 65534" and "length val \<le> MaxValueLen" and "EncodeSetRequest key val = Some req" and "EncodeGetRequest key = Some req'"
    and "length req \<le> length (readBuf sc)" and "length req' \<le> length (readBuf sc)"
    and "neWrite N = None" and "neReply N = serverReply E other (s, sc)"
    and "neWrite N' = None" and "neReply N' = serverReply E' other (serverAfter E other (s, sc) req)"
    and "KVStore_Set (envB E) (envNow E) (srvStore s) key val 0 = (k, r)" and "\<forall>e. r = Inl e \<longrightarrow> length (kvText e) < 2 ^ 32"
  shows "case r of
      Inl e \<Rightarrow> KVClient_Set N p key val = Returns (p, Inl (errText (kvText e))) \<and> srvStore (fst (serverAfter E other (s, sc) req)) = srvStore s
    | Inr _ \<Rightarrow> KVClient_Set N p key val = Returns (p, Inr ()) \<and> KVClient_Get N' p key = Returns (p, Inr val)"
proof -
  let ?b = "req @ drop (length req) (readBuf sc)" and ?r = "case r of Inl e \<Rightarrow> frame StatusError (kvText e) | Inr _ \<Rightarrow> frame StatusOK []"
  have one: "readLoop E other (Some req) (s, sc) = Some (answered E ?r (s\<lparr>srvStore := k\<rparr>, sc\<lparr>readBuf := ?b\<rparr>))"
    using readLoop_set [OF assms(7) _ assms(6,9) ready_le [OF assms(4)], of E other s] assms(5) by (simp add: assms(15) MaxKeyLen_def)
  note after = server_answered [OF one] and c = fresh_in [OF idle_alone(2) [OF assms(3)]]
  show ?thesis
  proof (cases r)
    case (Inl e)
    have "KVClient_Set N p key val = Returns (p\<lparr>conns := [] @ [c]\<rparr>, Inl (errText (kvText e)))"
      unfolding KVClient_Set_def assms(7)
      by (rule call_idle [OF assms(3,11)]) (use assms(16) c in \<open>simp_all add: assms(12) after(1) Inl read_frame\<close>)
    moreover have "k = srvStore s" using KVStore_Set_cases(1) [OF assms(1)] assms(15) Inl by blast
    ultimately show ?thesis by (simp add: Inl after(2) idle_alone(1) [OF assms(3)])
  next
    case (Inr u)
    have "KVClient_Set N p key val = Returns (p\<lparr>conns := [] @ [c]\<rparr>, Inr ())"
      unfolding KVClient_Set_def assms(7)
      by (rule call_idle [OF assms(3,11)]) (use c in \<open>simp_all add: assms(12) after(1) Inr read_frame\<close>)
    moreover have get: "KVStore_Get (envB E) (envNow E') k key = Inr val"
      using KVStore_Set_cases(2) [OF assms(1)] assms(15) Inr by simp
    let ?st = "serverAfter E other (s, sc) req"
    have "ready (Suc 0) (snd ?st)" "length req' \<le> length (readBuf (snd ?st))"
      using assms(4,9,10) by (simp_all add: after(2) ready_def)
    from readLoop_get [OF assms(8,5) this(2,1), of E' other "fst ?st"] get assms(2)
    have "serverReply E' other ?st req' = frame StatusOK val" by (simp add: serverReply_def after(2))
    then have "KVClient_Get N' p key = Returns (p\<lparr>conns := [] @ [c]\<rparr>, Inr val)"
      unfolding KVClient_Get_def assms(8)
      by (intro call_idle [OF assms(3,13)]) (use c assms(6) in \<open>simp_all add: assms(14) read_frame MaxValueLen_def\<close>)
    ultimately show ?thesis by (simp add: Inr idle_alone(1) [OF assms(3)])
  qed
qed

lemma unknown_header:
  assumes "\<not> ncClosed c" and "length rest < 2 ^ 30"
  shows "readValueResponse E (c\<lparr>ncIn := lit ''unknown opcode'' @ rest\<rparr>) = (c\<lparr>ncIn := []\<rparr>, Inl (neRead E))"
proof -
  have l: "take 4 (drop 1 (take 5 (lit ''unknown opcode'' @ rest))) = [110, 107, 110, 111]" "lit ''unknown opcode'' ! 0 = 117"
    by (simp_all add: lit_def)
  have "rd32 [110, 107, 110, 111] = 1852534383" by code_simp
  then have "ReadHeader E (c\<lparr>ncIn := lit ''unknown opcode'' @ rest\<rparr>) =
      (c\<lparr>ncIn := drop 5 (lit ''unknown opcode'') @ rest\<rparr>, Inr (117, 1852534383))"
    using assms(1) l by (simp add: ReadHeader_def Connection_Read_def)
  then show ?thesis
    using assms by (simp add: readValueResponse_def andThen_def readFailure_def statuses Connection_Read_def)
qed

text \<open>C38: \<open>Exists\<close> spoils its connection.  The server has no handler for EXISTS and answers with an error.  The
  client reports that the key does not exist, whatever is stored, and puts the connection back with the
  message of the error unread: the next \<open>Get\<close> over it takes this text for a header and fails, unless more
  than a gigabyte arrives.\<close>

theorem client_exists_spoils:
  assumes "idle p c []" and "ready (Suc 0) sc" and "length key < 65534" and "EncodeExistsRequest key = Some req"
    and "length req \<le> length (readBuf sc)" and "neWrite N = None" and "neReply N = serverReply E other (s, sc)"
    and "neWrite N' = None" and "\<forall>data. length (neReply N' data) < 2 ^ 30" and "length key' < 65534"
  shows "KVClient_Exists N p key = Returns (p\<lparr>conns := [c\<lparr>ncIn := lit ''unknown opcode''\<rparr>]\<rparr>, Inr False) \<and>
    (\<exists>p'. KVClient_Get N' (p\<lparr>conns := [c\<lparr>ncIn := lit ''unknown opcode''\<rparr>]\<rparr>) key' = Returns (p', Inl (neRead N')))"
proof -
  let ?c = "c\<lparr>ncIn := lit ''unknown opcode''\<rparr>"
  have req: "req = frame OpExists (str16 key)" using assms(4) by (simp add: encoded simple_encoders)
  have "DecodeRequest req = Some (Inr ((newRequest OpExists)\<lparr>rqKey := key\<rparr>))"
    using assms(3) by (simp add: req wire_simps simpleOps_def)
  moreover have "isBinary req" by (simp add: req isBinary_frame opcodes)
  ultimately have "readLoop E other (Some req) (s, sc) = Some (s\<lparr>opsErrors := opsErrors s + 1\<rparr>,
      sc\<lparr>readBuf := req @ drop (length req) (readBuf sc), outQueue := outQueue sc @ [frame StatusError (lit ''unknown opcode'')]\<rparr>)"
    using readLoop_fits [OF assms(2,5), of E other s] ready_cong [OF assms(2)]
    by (simp add: hybrid_frame(6) sendBinaryError_ready countError_def)
  then have reply: "serverReply E other (s, sc) req = frame StatusError (lit ''unknown opcode'')" by (simp add: serverReply_def)
  have c: "\<not> ncClosed c" using assms(1) by (simp add: idle_def fresh_def)
  have "KVClient_Exists N p key = Returns (p\<lparr>conns := [] @ [?c]\<rparr>, Inr False)"
    unfolding KVClient_Exists_def assms(4)
    by (rule call_idle [OF assms(1,6)])
      (use c ReadHeader_frame [of c N StatusError "lit ''unknown opcode''" "[]"] in
        \<open>simp_all add: assms(7) reply andThen_def statuses IsConnected_def\<close>)
  moreover have "\<exists>p'. KVClient_Get N' (p\<lparr>conns := [?c]\<rparr>) key' = Returns (p', Inl (neRead N'))"
  proof -
    obtain req' where "EncodeGetRequest key' = Some req'" by (simp add: encoded simple_encoders)
    moreover have "readValueResponse N' (?c\<lparr>ncIn := lit ''unknown opcode'' @ neReply N' req'\<rparr>) = (c\<lparr>ncIn := []\<rparr>, Inl (neRead N'))"
      using unknown_header [of c "neReply N' req'" N'] c assms(9) by simp
    ultimately show ?thesis
      using assms(1,8) by (simp add: KVClient_Get_def call_def withConn_def Pool_Get_def idle_def fresh_def IsConnected_def
          Connection_Write_def andThen_def [of "(_, Inr ())"] Pool_Put_def)
  qed
  ultimately show ?thesis by simp
qed

section \<open>At concrete inputs\<close>

lemma memPool_idle: "idle memPool newConn []"
  by (simp add: idle_def memPool_def newConn_def fresh_def)

lemma mem_ready: "ready 2 new_conn" "ready (Suc 0) new_conn" "length (readBuf new_conn) = 32768"
  by (simp_all add: ready_def new_conn_def outQueueSize_def)

definition answering :: "(mem_db, 'ext) st \<Rightarrow> NetEnv" where
  "answering st = quietNet\<lparr>neReply := serverReply (mem_env 0) (\<lambda>_. Some) st\<rparr>"

theorem client_set_get_witness:
  "\<exists>req. EncodeSetRequest [107] [7] = Some req \<and>
     KVClient_Set (answering (mem_server, new_conn)) memPool [107] [7] = Returns (memPool, Inr ()) \<and>
     KVClient_Get (answering (serverAfter (mem_env 0) (\<lambda>_. Some) (mem_server, new_conn) req)) memPool [107] = Returns (memPool, Inr [7])"
proof -
  obtain req req' where req: "EncodeSetRequest [107] [7] = Some req" "EncodeGetRequest [107] = Some req'"
    by (simp add: encoded simple_encoders)
  have len: "length req \<le> 32768" "length req' \<le> 32768"
    using req by (auto simp: encoded simple_encoders frame_def str16_def str32_def)
  have "snd (KVStore_Set mem_badger 0 (srvStore mem_server) [107] [7] 0) = Inr ()" by code_simp
  then obtain k where k: "KVStore_Set (envB (mem_env 0)) (envNow (mem_env 0)) (srvStore mem_server) [107] [7] 0 = (k, Inr ())"
    by (cases "KVStore_Set mem_badger 0 (srvStore mem_server) [107] [7] 0") (simp add: mem_env_def)
  let ?N = "answering (mem_server, new_conn)" and ?N' = "answering (serverAfter (mem_env 0) (\<lambda>_. Some) (mem_server, new_conn) req)"
  have "KVClient_Set ?N memPool [107] [7] = Returns (memPool, Inr ()) \<and> KVClient_Get ?N' memPool [107] = Returns (memPool, Inr [7])"
    using client_set_get [OF _ _ memPool_idle mem_ready(1) _ _ req _ _ _ _ _ _ k, where E' = "mem_env 0" and other = "\<lambda>_. Some" and N = ?N and N' = ?N'] mem.badger_store_axioms len
    by (simp add: mem_ready(3) answering_def quietNet_def MaxValueLen_def mem_env_def)
  with req(1) show ?thesis by blast
qed

theorem client_exists_spoils_witness:
  "KVClient_Exists (answering (mem_server, new_conn)) memPool [107] = Returns (memPool\<lparr>conns := [newConn\<lparr>ncIn := lit ''unknown opcode''\<rparr>]\<rparr>, Inr False) \<and>
   (\<exists>p'. KVClient_Get quietNet (memPool\<lparr>conns := [newConn\<lparr>ncIn := lit ''unknown opcode''\<rparr>]\<rparr>) [107] = Returns (p', Inl (lit ''EOF'')))"
proof -
  obtain req where req: "EncodeExistsRequest [107] = Some req" by (simp add: encoded simple_encoders)
  then have "length req \<le> length (readBuf new_conn)" by (auto simp: encoded simple_encoders frame_def str16_def mem_ready(3))
  from client_exists_spoils [OF memPool_idle mem_ready(2) _ req this, of "answering (mem_server, new_conn)" "mem_env 0" "\<lambda>_. Some" mem_server quietNet "[107]"]
  show ?thesis by (simp add: answering_def quietNet_def)
qed

end
