(* ===== verification/ClientRuns.thy ===== *)
theory ClientRuns
  imports ClientProps
begin

text \<open>
  Histories of a client.  What the client of keys needs from whoever answers it is the locale \<open>kv_service\<close>: a turn
  takes the bytes of a request and gives those of the response.  From its laws alone, any sequence of calls
  behaves like a map; the server of \<open>Server\<close> over its store meets them.
\<close>

section \<open>Calls against a service\<close>

datatype kvop = OSet gostring bytes | OGet gostring | ODelete gostring

datatype kvres = Done "gostring + unit" | Value "gostring + bytes"

text \<open>The bytes that a call sends.\<close>

fun requestOf :: "kvop \<Rightarrow> bytes option" where
  "requestOf (OSet key val) = EncodeSetRequest key val"
| "requestOf (OGet key) = EncodeGetRequest key"
| "requestOf (ODelete key) = EncodeDeleteRequest key"

fun callOf :: "NetEnv \<Rightarrow> ConnectionPool \<Rightarrow> kvop \<Rightarrow> kvres call" where
  "callOf N p (OSet key val) = (case KVClient_Set N p key val of Returns (p, r) \<Rightarrow> Returns (p, Inr (Done r)) | Blocks \<Rightarrow> Blocks | Panics \<Rightarrow> Panics)"
| "callOf N p (OGet key) = (case KVClient_Get N p key of Returns (p, r) \<Rightarrow> Returns (p, Inr (Value r)) | Blocks \<Rightarrow> Blocks | Panics \<Rightarrow> Panics)"
| "callOf N p (ODelete key) = (case KVClient_Delete N p key of Returns (p, r) \<Rightarrow> Returns (p, Inr (Done r)) | Blocks \<Rightarrow> Blocks | Panics \<Rightarrow> Panics)"

text \<open>A network on which every write arrives and is answered by the service in its state.\<close>

definition answeredBy :: "('s \<Rightarrow> bytes \<Rightarrow> 's \<times> bytes) \<Rightarrow> 's \<Rightarrow> NetEnv" where
  "answeredBy serve s = quietNet\<lparr>neReply := (\<lambda>data. snd (serve s data))\<rparr>"

text \<open>A history of calls; \<open>None\<close> when a call blocks or panics.\<close>

fun clientRun :: "('s \<Rightarrow> bytes \<Rightarrow> 's \<times> bytes) \<Rightarrow> kvop list \<Rightarrow> 's \<Rightarrow> ConnectionPool \<Rightarrow> ('s \<times> ConnectionPool \<times> kvres list) option" where
  "clientRun serve [] s p = Some (s, p, [])"
| "clientRun serve (op # ops) s p =
     (case (requestOf op, callOf (answeredBy serve s) p op) of
        (Some req, Returns (p, Inr r)) \<Rightarrow>
          map_option (\<lambda>(s, p, rs). (s, p, r # rs)) (clientRun serve ops (fst (serve s req)) p)
      | _ \<Rightarrow> None)"

text \<open>The specification: results that a map gives, where a change may also fail without effect.\<close>

fun mapRun :: "(gostring \<rightharpoonup> bytes) \<Rightarrow> kvop list \<Rightarrow> kvres list \<Rightarrow> (gostring \<rightharpoonup> bytes) option" where
  "mapRun m [] [] = Some m"
| "mapRun m (OSet key val # ops) (Done (Inr _) # rs) = mapRun (m(key \<mapsto> val)) ops rs"
| "mapRun m (OSet key val # ops) (Done (Inl _) # rs) = mapRun m ops rs"
| "mapRun m (ODelete key # ops) (Done (Inr _) # rs) = mapRun (m(key := None)) ops rs"
| "mapRun m (ODelete key # ops) (Done (Inl _) # rs) = mapRun m ops rs"
| "mapRun m (OGet key # ops) (Value r # rs) =
     (if r = (case m key of Some v \<Rightarrow> Inr v | None \<Rightarrow> Inl (lit ''key not found'')) then mapRun m ops rs else None)"
| "mapRun m _ _ = None"

section \<open>The interface\<close>

text \<open>An answer to a change, and to a question.\<close>

definition changed :: "bytes \<Rightarrow> bool \<Rightarrow> bool" where
  "changed r ok \<longleftrightarrow> (if ok then r = frame StatusOK [] else (\<exists>e. length e < 2 ^ 32 \<and> r = frame StatusError e))"

locale kv_service =
  fixes serve :: "'s \<Rightarrow> bytes \<Rightarrow> 's \<times> bytes"
    and holds :: "'s \<Rightarrow> (gostring \<rightharpoonup> bytes) \<Rightarrow> bool"
    and fits :: "kvop \<Rightarrow> bool"
  assumes serves_set: "holds s m \<Longrightarrow> fits (OSet key val) \<Longrightarrow> requestOf (OSet key val) = Some req \<Longrightarrow>
      \<exists>ok. changed (snd (serve s req)) ok \<and> holds (fst (serve s req)) (if ok then m(key \<mapsto> val) else m)"
    and serves_delete: "holds s m \<Longrightarrow> fits (ODelete key) \<Longrightarrow> requestOf (ODelete key) = Some req \<Longrightarrow>
      \<exists>ok. changed (snd (serve s req)) ok \<and> holds (fst (serve s req)) (if ok then m(key := None) else m)"
    and serves_get: "holds s m \<Longrightarrow> fits (OGet key) \<Longrightarrow> requestOf (OGet key) = Some req \<Longrightarrow>
      snd (serve s req) = (case m key of Some v \<Rightarrow> frame StatusOK v | None \<Rightarrow> frame StatusError (lit ''key not found'')) \<and>
      (\<forall>v. m key = Some v \<longrightarrow> length v < 2 ^ 32) \<and> holds (fst (serve s req)) m"
begin

lemma changed_call:
  assumes "idle p c []" and "changed (snd (serve s req)) ok"
  shows "\<exists>r. call (answeredBy serve s) p (Some req) (readOKResponse (answeredBy serve s)) = Returns (p, r) \<and> (ok \<longleftrightarrow> r = Inr ())"
proof -
  note c = fresh_in [OF idle_alone(2) [OF assms(1)]]
  let ?N = "answeredBy serve s"
  have "\<exists>r. readOKResponse ?N (c\<lparr>ncIn := neReply ?N req\<rparr>) = (c, r) \<and> (ok \<longleftrightarrow> r = Inr ())"
    using assms(2) c by (auto simp: changed_def answeredBy_def read_frame split: if_splits)
  then obtain r where "readOKResponse ?N (c\<lparr>ncIn := neReply ?N req\<rparr>) = (c, r)" "ok \<longleftrightarrow> r = Inr ()" by blast
  with call_idle [OF assms(1), of ?N "readOKResponse ?N" req c r] c(3) idle_alone(1) [OF assms(1)] show ?thesis
    by (auto simp: answeredBy_def quietNet_def)
qed

lemma get_call:
  assumes "idle p c []" and "snd (serve s req) = (case v of Some v \<Rightarrow> frame StatusOK v | None \<Rightarrow> frame StatusError (lit ''key not found''))"
    and "\<forall>x. v = Some x \<longrightarrow> length x < 2 ^ 32"
  shows "call (answeredBy serve s) p (Some req) (readValueResponse (answeredBy serve s)) =
    Returns (p, case v of Some v \<Rightarrow> Inr v | None \<Rightarrow> Inl (lit ''key not found''))"
proof -
  note c = fresh_in [OF idle_alone(2) [OF assms(1)]]
  let ?N = "answeredBy serve s"
  have "readValueResponse ?N (c\<lparr>ncIn := neReply ?N req\<rparr>) = (c, case v of Some v \<Rightarrow> Inr v | None \<Rightarrow> Inl (lit ''key not found''))"
    using assms(2,3) c by (cases v) (auto simp: answeredBy_def read_frame errText_def lit_def)
  with call_idle [OF assms(1), of ?N "readValueResponse ?N" req c] c(3) idle_alone(1) [OF assms(1)] show ?thesis
    by (auto simp: answeredBy_def quietNet_def)
qed

lemma run_refines:
  assumes "holds s m" and "idle p c []" and "list_all fits ops"
  shows "\<exists>s' rs m'. clientRun serve ops s p = Some (s', p, rs) \<and> mapRun m ops rs = Some m' \<and> holds s' m'"
  using assms(1,3)
proof (induction ops arbitrary: s m)
  case (Cons op ops)
  then have fit: "fits op" and rest: "list_all fits ops" by simp_all
  obtain req where req: "requestOf op = Some req" by (cases op) (simp_all add: encoded simple_encoders)
  let ?s = "fst (serve s req)"
  have "\<exists>r m'. callOf (answeredBy serve s) p op = Returns (p, Inr r) \<and> holds ?s m' \<and> (\<forall>ops rs. mapRun m (op # ops) (r # rs) = mapRun m' ops rs)"
  proof (cases op)
    case (OSet key val)
    from serves_set [OF Cons.prems(1), of key val req] fit req obtain ok where
      ok: "changed (snd (serve s req)) ok" "holds ?s (if ok then m(key \<mapsto> val) else m)" by (auto simp: OSet)
    from changed_call [OF assms(2) ok(1)] obtain r where r: "call (answeredBy serve s) p (Some req) (readOKResponse (answeredBy serve s)) = Returns (p, r)"
      "ok \<longleftrightarrow> r = Inr ()" by blast
    with ok(2) req show ?thesis
      by (intro exI [of _ "Done r"] exI [of _ "if ok then m(key \<mapsto> val) else m"]) (cases r; simp add: OSet KVClient_Set_def)
  next
    case (ODelete key)
    from serves_delete [OF Cons.prems(1), of key req] fit req obtain ok where
      ok: "changed (snd (serve s req)) ok" "holds ?s (if ok then m(key := None) else m)" by (auto simp: ODelete)
    from changed_call [OF assms(2) ok(1)] obtain r where r: "call (answeredBy serve s) p (Some req) (readOKResponse (answeredBy serve s)) = Returns (p, r)"
      "ok \<longleftrightarrow> r = Inr ()" by blast
    with ok(2) req show ?thesis
      by (intro exI [of _ "Done r"] exI [of _ "if ok then m(key := None) else m"]) (cases r; simp add: ODelete KVClient_Delete_def)
  next
    case (OGet key)
    from serves_get [OF Cons.prems(1), of key req] fit req
    have get: "snd (serve s req) = (case m key of Some v \<Rightarrow> frame StatusOK v | None \<Rightarrow> frame StatusError (lit ''key not found''))"
      "\<forall>v. m key = Some v \<longrightarrow> length v < 2 ^ 32" "holds ?s m" by (simp_all add: OGet)
    from get_call [OF assms(2) get(1,2)] get(3) req show ?thesis
      by (intro exI [of _ "Value (case m key of Some v \<Rightarrow> Inr v | None \<Rightarrow> Inl (lit ''key not found''))"] exI [of _ m]) (simp add: OGet KVClient_Get_def)
  qed
  then obtain r m' where step: "callOf (answeredBy serve s) p op = Returns (p, Inr r)" "holds ?s m'"
    "\<And>ops rs. mapRun m (op # ops) (r # rs) = mapRun m' ops rs" by blast
  from Cons.IH [OF step(2) rest] step(1,3) req show ?case by fastforce
qed auto

end

section \<open>The server as a service\<close>

lemma readLoop_del:
  assumes "EncodeDeleteRequest key = Some data" and "length key < 65534"
    and "length data \<le> length (readBuf c)" and "ready (Suc 0) c"
  shows "readLoop E other (Some data) (s, c) =
    (case KVStore_Delete (envB E) (srvStore s) key of (k, r) \<Rightarrow>
       Some (answered E (case r of Inl e \<Rightarrow> frame StatusError (kvText e) | Inr _ \<Rightarrow> frame StatusOK [])
         (s\<lparr>srvStore := k\<rparr>, c\<lparr>readBuf := data @ drop (length data) (readBuf c)\<rparr>)))"
proof -
  have data: "data = frame OpDel (str16 key)" using assms(1) by (simp add: encoded simple_encoders)
  have "DecodeRequest data = Some (Inr ((newRequest OpDel)\<lparr>rqKey := key\<rparr>))"
    using assms(2) by (simp add: data wire_simps simpleOps_def)
  moreover have "isBinary data" by (simp add: data isBinary_frame opcodes)
  ultimately show ?thesis
    using assms(3,4)
    by (simp add: readLoop_fits hybrid_frame processBinaryDel_def onStore_def respondKV_ready encoded ready_cong split: prod.splits sum.splits)
qed

text \<open>A turn of the server on one connection: a request is read and all responses are written.  The environment of
  the requests, with the clock, is a sequence.\<close>

definition serverTurn ::
  "(nat \<Rightarrow> ('db, 'txn) Env) \<Rightarrow> (Request \<Rightarrow> ('db, 'ext) st \<Rightarrow> ('db, 'ext) st option) \<Rightarrow> ('db, 'ext) st \<times> nat \<Rightarrow> bytes \<Rightarrow>
   (('db, 'ext) st \<times> nat) \<times> bytes" where
  "serverTurn envs other = (\<lambda>(st, n) data.
     case readLoop (envs n) other (Some data) st of
       None \<Rightarrow> ((st, Suc n), [])
     | Some (s, c) \<Rightarrow> (((s, c\<lparr>outQueue := []\<rparr>), Suc n), concat (outQueue c)))"

definition serverHolds :: "('db, 'txn) badger \<Rightarrow> ('db, 'ext) st \<times> nat \<Rightarrow> (gostring \<rightharpoonup> bytes) \<Rightarrow> bool" where
  "serverHolds B = (\<lambda>((s, c), n) m. outQueue c = [] \<and> \<not> ctxDone c \<and> length (readBuf c) = 32768 \<and> (\<forall>v \<in> ran m. length v < 2 ^ 32) \<and>
     (\<forall>u key. key \<noteq> [] \<longrightarrow> KVStore_Get B u (srvStore s) key = (case m key of Some v \<Rightarrow> Inr v | None \<Rightarrow> Inl ErrKeyNotFound)))"

fun keyOf :: "kvop \<Rightarrow> gostring" where
  "keyOf (OSet key val) = key" | "keyOf (OGet key) = key" | "keyOf (ODelete key) = key"

text \<open>A request fits into the buffer of a connection.\<close>

definition fitsServer :: "kvop \<Rightarrow> bool" where
  "fitsServer op \<longleftrightarrow> keyOf op \<noteq> [] \<and> length (keyOf op) < 65534 \<and> length (the (requestOf op)) \<le> 32768"

text \<open>Badger's messages fit into a response.\<close>

definition shortErrors :: "('db, 'txn) badger \<Rightarrow> bool" where
  "shortErrors B \<longleftrightarrow> (\<forall>u k key val e. snd (KVStore_Set B u k key val 0) = Inl e \<longrightarrow> length (kvText e) < 2 ^ 32) \<and>
     (\<forall>k key e. snd (KVStore_Delete B k key) = Inl e \<longrightarrow> length (kvText e) < 2 ^ 32)"

lemma KVStore_Delete_reads:
  assumes "badger_store B" and "KVStore_Delete B k key = (k', Inr ())"
  shows "KVStore_Get B u k' key = Inl ErrKeyNotFound \<and> (j \<noteq> key \<longrightarrow> KVStore_Get B u k' j = KVStore_Get B u k j)"
proof -
  obtain s r where "Delete B (storage k) key = (s, r)" by fastforce
  with assms(2) badger_store.delete_reads [OF assms(1), of "storage k" key s u j] show ?thesis
    by (auto simp: KVStore_Delete_def onStorage_def KVStore_Get_def)
qed

lemma serverTurn_answered:
  assumes "readLoop (envs n) other (Some data) (s, c) = Some (answered E r (s', c\<lparr>readBuf := b\<rparr>))" and "outQueue c = []"
  shows "snd (serverTurn envs other ((s, c), n) data) = r"
    and "\<exists>s1 c1. fst (serverTurn envs other ((s, c), n) data) = ((s1, c1), Suc n) \<and> srvStore s1 = srvStore s' \<and> outQueue c1 = [] \<and>
      ctxDone c1 = ctxDone c \<and> readBuf c1 = b"
  using assms by (simp_all add: serverTurn_def answered_def)

locale kv_server = badger_store B for B :: "('db, 'txn) badger" +
  fixes envs :: "nat \<Rightarrow> ('db, 'txn) Env"
    and other :: "Request \<Rightarrow> ('db, 'ext) st \<Rightarrow> ('db, 'ext) st option"
  assumes one_store: "envB (envs n) = B" and short: "shortErrors B"
begin

lemma store_served:
  assumes "serverHolds B ((s, c), n) m" and "length req \<le> 32768"
    and "readLoop (envs n) other (Some req) (s, c) = Some (answered (envs n) r (s\<lparr>srvStore := k\<rparr>, c\<lparr>readBuf := req @ drop (length req) (readBuf c)\<rparr>))"
    and "\<And>u key. key \<noteq> [] \<Longrightarrow> KVStore_Get B u k key = (case m' key of Some v \<Rightarrow> Inr v | None \<Rightarrow> Inl ErrKeyNotFound)" and "\<forall>v \<in> ran m'. length v < 2 ^ 32"
  shows "snd (serverTurn envs other ((s, c), n) req) = r \<and> serverHolds B (fst (serverTurn envs other ((s, c), n) req)) m'"
proof -
  have c: "outQueue c = []" "\<not> ctxDone c" "length (readBuf c) = 32768" using assms(1) by (simp_all add: serverHolds_def)
  from serverTurn_answered(2) [of envs n, OF assms(3) c(1)] obtain s1 c1 where st: "fst (serverTurn envs other ((s, c), n) req) = ((s1, c1), Suc n)"
    "srvStore s1 = k" "outQueue c1 = []" "\<not> ctxDone c1" "readBuf c1 = req @ drop (length req) (readBuf c)" using c(2) by auto
  with c(3) assms(2,4,5) serverTurn_answered(1) [of envs n, OF assms(3) c(1)] show ?thesis by (simp add: serverHolds_def)
qed

lemma set_served:
  assumes "serverHolds B st m" and "fitsServer (OSet key val)" and "requestOf (OSet key val) = Some req"
  shows "\<exists>ok. changed (snd (serverTurn envs other st req)) ok \<and> serverHolds B (fst (serverTurn envs other st req)) (if ok then m(key \<mapsto> val) else m)"
proof -
  obtain s c n where st: "st = ((s, c), n)" by (metis prod.exhaust)
  have c: "ready (Suc 0) c" "length req \<le> length (readBuf c)" "length req \<le> 32768" "length (readBuf c) = 32768"
    using assms by (simp_all add: st serverHolds_def fitsServer_def ready_def outQueueSize_def)
  have enc: "EncodeSetRequest key val = Some req" using assms(3) by simp
  then have "length val < length req" by (auto simp: encoded frame_def str32_def)
  then have lens: "length key \<le> MaxKeyLen" "length val \<le> MaxValueLen" using assms(2) c(3) by (simp_all add: fitsServer_def MaxKeyLen_def MaxValueLen_def)
  obtain k r where set: "KVStore_Set B (envNow (envs n)) (srvStore s) key val 0 = (k, r)" by fastforce
  note run = readLoop_set [OF enc lens c(2,1), of "envs n" other s, unfolded one_store set prod.case]
  show ?thesis
  proof (cases r)
    case (Inl e)
    then have "k = srvStore s" using KVStore_errors(1) [OF badger_store_axioms] set by blast
    moreover have "length (kvText e) < 2 ^ 32" using short set Inl unfolding shortErrors_def by (metis snd_conv)
    ultimately show ?thesis
      using store_served [OF assms(1) [unfolded st] c(3) run, of m] assms(1) Inl
      by (intro exI [of _ False]) (auto simp: changed_def st serverHolds_def)
  next
    case (Inr u)
    then have set': "KVStore_Set B (envNow (envs n)) (srvStore s) key val 0 = (k, Inr ())" using set by simp
    have "KVStore_Get B v k j = (case (m(key \<mapsto> val)) j of Some v \<Rightarrow> Inr v | None \<Rightarrow> Inl ErrKeyNotFound)" if "j \<noteq> []" for v j
      using KVStore_Set_reads [OF badger_store_axioms set', of v j] assms(1) that by (auto simp: st serverHolds_def)
    moreover have "\<forall>v \<in> ran (m(key \<mapsto> val)). length v < 2 ^ 32"
      using assms(1) lens(2) by (auto simp: st serverHolds_def ran_def MaxValueLen_def)
    ultimately show ?thesis
      using store_served [OF assms(1) [unfolded st] c(3) run, of "m(key \<mapsto> val)"] Inr
      by (intro exI [of _ True]) (simp add: changed_def st)
  qed
qed

lemma delete_served:
  assumes "serverHolds B st m" and "fitsServer (ODelete key)" and "requestOf (ODelete key) = Some req"
  shows "\<exists>ok. changed (snd (serverTurn envs other st req)) ok \<and> serverHolds B (fst (serverTurn envs other st req)) (if ok then m(key := None) else m)"
proof -
  obtain s c n where st: "st = ((s, c), n)" by (metis prod.exhaust)
  have c: "ready (Suc 0) c" "length req \<le> length (readBuf c)" "length req \<le> 32768" "length key < 65534"
    using assms by (simp_all add: st serverHolds_def fitsServer_def ready_def outQueueSize_def)
  obtain k r where del: "KVStore_Delete B (srvStore s) key = (k, r)" by fastforce
  note run = readLoop_del [OF assms(3) [unfolded requestOf.simps] c(4,2,1), of "envs n" other s, unfolded one_store del prod.case]
  show ?thesis
  proof (cases r)
    case (Inl e)
    then have "k = srvStore s" using KVStore_errors(2) [OF badger_store_axioms] del by blast
    moreover have "length (kvText e) < 2 ^ 32" using short del Inl unfolding shortErrors_def by (metis snd_conv)
    ultimately show ?thesis
      using store_served [OF assms(1) [unfolded st] c(3) run, of m] assms(1) Inl
      by (intro exI [of _ False]) (auto simp: changed_def st serverHolds_def)
  next
    case (Inr u)
    then have del': "KVStore_Delete B (srvStore s) key = (k, Inr ())" using del by simp
    have "KVStore_Get B v k j = (case (m(key := None)) j of Some v \<Rightarrow> Inr v | None \<Rightarrow> Inl ErrKeyNotFound)" if "j \<noteq> []" for v j
      using KVStore_Delete_reads [OF badger_store_axioms del', of v j] assms(1) that by (auto simp: st serverHolds_def)
    moreover have "\<forall>v \<in> ran (m(key := None)). length v < 2 ^ 32"
      using assms(1) by (auto simp: st serverHolds_def ran_def)
    ultimately show ?thesis
      using store_served [OF assms(1) [unfolded st] c(3) run, of "m(key := None)"] Inr
      by (intro exI [of _ True]) (simp add: changed_def st)
  qed
qed

lemma get_served:
  assumes "serverHolds B st m" and "fitsServer (OGet key)" and "requestOf (OGet key) = Some req"
  shows "snd (serverTurn envs other st req) = (case m key of Some v \<Rightarrow> frame StatusOK v | None \<Rightarrow> frame StatusError (lit ''key not found'')) \<and>
    (\<forall>v. m key = Some v \<longrightarrow> length v < 2 ^ 32) \<and> serverHolds B (fst (serverTurn envs other st req)) m"
proof -
  obtain s c n where st: "st = ((s, c), n)" by (metis prod.exhaust)
  have c: "ready (Suc 0) c" "length req \<le> length (readBuf c)" "length req \<le> 32768" "length key < 65534" "key \<noteq> []"
    using assms by (simp_all add: st serverHolds_def fitsServer_def ready_def outQueueSize_def)
  have get: "KVStore_Get B (envNow (envs n)) (srvStore s) key = (case m key of Some v \<Rightarrow> Inr v | None \<Rightarrow> Inl ErrKeyNotFound)"
    using assms(1) c(5) by (simp add: st serverHolds_def)
  note run = readLoop_get [OF assms(3) [unfolded requestOf.simps] c(4,2,1), of "envs n" other s, unfolded one_store get]
  have "(case (case m key of Some v \<Rightarrow> Inr v | None \<Rightarrow> Inl ErrKeyNotFound) of Inl e \<Rightarrow> frame StatusError (kvText e) | Inr v \<Rightarrow> frame StatusOK v) =
      (case m key of Some v \<Rightarrow> frame StatusOK v | None \<Rightarrow> frame StatusError (lit ''key not found''))"
    by (simp add: kvText_def split: option.split)
  with run have "readLoop (envs n) other (Some req) (s, c) = Some (answered (envs n)
      (case m key of Some v \<Rightarrow> frame StatusOK v | None \<Rightarrow> frame StatusError (lit ''key not found''))
      (s\<lparr>srvStore := srvStore s\<rparr>, c\<lparr>readBuf := req @ drop (length req) (readBuf c)\<rparr>))" by simp
  from store_served [OF assms(1) [unfolded st] c(3) this, of m] assms(1) show ?thesis
    by (auto simp: st serverHolds_def ran_def)
qed

end

sublocale kv_server \<subseteq> service: kv_service "serverTurn envs other" "serverHolds B" fitsServer
  by unfold_locales (use set_served delete_served get_served in blast)+

context kv_server
begin

lemmas client_run = service.run_refines

end

text \<open>C2: client, protocol, server and store are a map.  Any sequence of calls \<open>Set\<close>, \<open>Get\<close> and \<open>Delete\<close> of the Go
  client over one connection, whose requests fit the server's buffer, is answered without blocking or panicking
  and with the results that a map gives, where a change that Badger refuses is reported as an error and has no
  effect; and the connection goes back to the pool as it was.\<close>

theorem client_refines_map:
  fixes other :: "Request \<Rightarrow> ('db, 'ext) st \<Rightarrow> ('db, 'ext) st option"
  assumes "badger_store B" and "\<forall>n. envB (envs n) = B" and "shortErrors B" and "serverHolds B st m" and "idle p c []" and "list_all fitsServer ops"
  shows "\<exists>st' rs m'. clientRun (serverTurn envs other) ops st p = Some (st', p, rs) \<and> mapRun m ops rs = Some m' \<and> serverHolds B st' m'"
proof -
  have "kv_server B envs" using assms(1-3) by (simp add: kv_server_def kv_server_axioms_def)
  from kv_server.client_run [OF this assms(4-6)] show ?thesis .
qed

section \<open>At concrete inputs\<close>

lemma mem_short: "shortErrors mem_badger"
proof -
  have "length (kvText e) < 2 ^ 32" if "snd (KVStore_Set mem_badger u k key val 0) = Inl e" for u k key val e
    using that by (auto simp: KVStore_Set_def onStorage_def Set_def kvUpdate_def mem_eval kvText_def split: if_splits)
  moreover have "length (kvText e) < 2 ^ 32" if "snd (KVStore_Delete mem_badger k key) = Inl e" for k key e
    using that by (auto simp: KVStore_Delete_def onStorage_def Delete_def kvUpdate_def mem_eval kvText_def split: if_splits)
  ultimately show ?thesis by (simp add: shortErrors_def)
qed

interpretation mem_service: kv_server mem_badger "\<lambda>_. mem_env 0" other for other
  by unfold_locales (simp_all add: mem_short)

lemma mem_holds: "serverHolds mem_badger ((mem_server, new_conn), 0) Map.empty"
  by (simp add: serverHolds_def new_conn_def mem_server_def mem_open_def KVStore_Get_def Get_def mem_eval)

theorem client_refines_map_witness:
  "\<exists>st' rs m'. clientRun (serverTurn (\<lambda>_. mem_env 0) (\<lambda>_. Some)) [OSet [107] [7], OGet [107], ODelete [107], OGet [107]]
      ((mem_server, new_conn), 0) memPool = Some (st', memPool, rs) \<and>
    mapRun Map.empty [OSet [107] [7], OGet [107], ODelete [107], OGet [107]] rs = Some m'"
proof -
  have "list_all fitsServer [OSet [107] [7], OGet [107], ODelete [107], OGet [107]]"
    by (simp add: fitsServer_def encoded simple_encoders frame_def str16_def str32_def)
  from client_refines_map [OF mem.badger_store_axioms _ mem_short mem_holds memPool_idle this, of "\<lambda>_. mem_env 0" "\<lambda>_. Some"]
  show ?thesis by auto
qed

end
