(* ===== verification/ServerConns.thy ===== *)
theory ServerConns
  imports ServerRuns
begin

text \<open>
  The server with all its connections: \<open>NewServerWithWorkers\<close>, \<open>Start\<close>, \<open>handleConnection\<close>, \<open>Stop\<close> and \<open>Stats\<close> of
  \<open>src/internal/server/server.go\<close>.  The theories before this one treat a connection together with the server; here
  connections come and go and the buffers they read into are taken from a pool and given back, so a buffer is an
  address in a memory (\<open>hBufs\<close>), and whoever holds a slice of it reads what it holds at that time.
\<close>

section \<open>State\<close>

text \<open>A connection as \<open>handleConnection\<close> made it, with its two buffers; \<open>csOpen\<close> until \<open>handleConnection\<close> returns.  The
  object stays as long as a job refers to it.\<close>

record ConnSlot =
  csConn :: Connection
  csRead :: nat
  csWrite :: nat
  csOpen :: bool

text \<open>\<open>hOwners\<close> has the connection of every job of \<open>jobQueue\<close>, the field \<open>conn\<close> of the jobs.\<close>

record ('db, 'ext) Host =
  hServer :: "('db, 'ext) Server"
  hConns :: "uint64 \<rightharpoonup> ConnSlot"
  hOwners :: "uint64 list"
  hBufs :: "nat \<Rightarrow> bytes"
  hNext :: nat
  bufferPool :: "nat list"
  connCounter :: uint64
  activeConns :: int64
  hWorkers :: goint
  hDone :: bool

definition DefaultWorkerPoolSize :: goint where "DefaultWorkerPoolSize = 64"

definition NewWorkerPool :: "goint \<Rightarrow> ('db, 'ext) Host \<Rightarrow> ('db, 'ext) Host" where
  "NewWorkerPool numWorkers h = h\<lparr>hWorkers := numWorkers\<rparr>"

text \<open>The error is that of \<open>net.Listen\<close>, if any.\<close>

definition NewServerWithWorkers ::
  "gostring option \<Rightarrow> 'db KVStore \<Rightarrow> 'db Queue \<Rightarrow> 'ext \<Rightarrow> goint \<Rightarrow> gostring + ('db, 'ext) Host" where
  "NewServerWithWorkers listenErr store q other workerCount =
     (case listenErr of
        Some e \<Rightarrow> Inl (lit ''failed to listen: '' @ e)
      | None \<Rightarrow> Inr (NewWorkerPool workerCount
          \<lparr>hServer = \<lparr>srvStore = store, srvQueue = q, srvOther = other, jobQueue = [], jobsClosed = False, opsProcessed = 0,
             opsFastPath = 0, opsSlowPath = 0, opsErrors = 0, jobsProcessed = 0\<rparr>,
           hConns = Map.empty, hOwners = [], hBufs = (\<lambda>_. []), hNext = 0, bufferPool = [], connCounter = 0, activeConns = 0,
           hWorkers = 0, hDone = False\<rparr>))"

definition NewServer :: "gostring option \<Rightarrow> 'db KVStore \<Rightarrow> 'db Queue \<Rightarrow> 'ext \<Rightarrow> gostring + ('db, 'ext) Host" where
  "NewServer listenErr store q other = NewServerWithWorkers listenErr store q other DefaultWorkerPoolSize"

section \<open>Connections\<close>

text \<open>\<open>bufferPool.Get()\<close>: one of the buffers that were put back, or a new one; \<open>sync.Pool\<close> chooses.\<close>

definition getBuffer :: "nat option \<Rightarrow> ('db, 'ext) Host \<Rightarrow> ('db, 'ext) Host \<times> nat" where
  "getBuffer pick h =
     (case pick of
        Some i \<Rightarrow>
          if i < length (bufferPool h) then (h\<lparr>bufferPool := take i (bufferPool h) @ drop (Suc i) (bufferPool h)\<rparr>, bufferPool h ! i)
          else (h\<lparr>hBufs := (hBufs h)(hNext h := replicate 32768 0), hNext := Suc (hNext h)\<rparr>, hNext h)
      | None \<Rightarrow> (h\<lparr>hBufs := (hBufs h)(hNext h := replicate 32768 0), hNext := Suc (hNext h)\<rparr>, hNext h))"

text \<open>\<open>handleConnection\<close> up to the start of the loops; the context of a connection is derived from that of the
  server.\<close>

definition handleConnection :: "nat option \<Rightarrow> nat option \<Rightarrow> ('db, 'ext) Host \<Rightarrow> ('db, 'ext) Host" where
  "handleConnection pickR pickW h =
     (let connID = connCounter h + 1;
          h = h\<lparr>connCounter := connID, activeConns := activeConns h + 1\<rparr>
      in case getBuffer pickR h of (h, r) \<Rightarrow>
        (case getBuffer pickW h of (h, w) \<Rightarrow>
           h\<lparr>hConns := (hConns h)(connID \<mapsto>
             \<lparr>csConn = \<lparr>readBuf = [], outQueue = [], ctxDone = hDone h, connOps = 0, avgLatency = 0\<rparr>, csRead = r, csWrite = w, csOpen = True\<rparr>)\<rparr>))"

text \<open>The deferred calls, after both loops have ended.\<close>

definition endConnection :: "uint64 \<Rightarrow> ('db, 'ext) Host \<Rightarrow> ('db, 'ext) Host" where
  "endConnection i h =
     (case hConns h i of
        None \<Rightarrow> h
      | Some slot \<Rightarrow> h\<lparr>hConns := (hConns h)(i \<mapsto> slot\<lparr>csConn := (csConn slot)\<lparr>ctxDone := True\<rparr>, csOpen := False\<rparr>),
          bufferPool := bufferPool h @ [csRead slot, csWrite slot], activeConns := activeConns h - 1\<rparr>)"

text \<open>A connection with what its buffer holds, and a step of it on the server.\<close>

definition loadConn :: "('db, 'ext) Host \<Rightarrow> ConnSlot \<Rightarrow> Connection" where
  "loadConn h slot = (csConn slot)\<lparr>readBuf := hBufs h (csRead slot)\<rparr>"

definition saveConn :: "uint64 \<Rightarrow> ConnSlot \<Rightarrow> ('db, 'ext) st \<Rightarrow> ('db, 'ext) Host \<Rightarrow> ('db, 'ext) Host" where
  "saveConn i slot = (\<lambda>(s, c) h. h\<lparr>hServer := s, hConns := (hConns h)(i \<mapsto> slot\<lparr>csConn := c\<lparr>readBuf := []\<rparr>\<rparr>),
     hBufs := (hBufs h)(csRead slot := readBuf c)\<rparr>)"

text \<open>\<open>conn.readLoop()\<close>, one turn; the jobs it adds are of this connection.\<close>

definition readTurn ::
  "('db, 'txn) Env \<Rightarrow> (Request \<Rightarrow> ('db, 'ext) st \<Rightarrow> ('db, 'ext) st option) \<Rightarrow> bytes option \<Rightarrow> uint64 \<Rightarrow> ('db, 'ext) Host \<Rightarrow>
   ('db, 'ext) Host option" where
  "readTurn E other input i h =
     (case hConns h i of
        None \<Rightarrow> Some h
      | Some slot \<Rightarrow>
          map_option (\<lambda>st. let h' = saveConn i slot st h in
              h'\<lparr>hOwners := hOwners h @ replicate (length (jobQueue (fst st)) - length (jobQueue (hServer h))) i\<rparr>)
            (readLoop E other input (hServer h, loadConn h slot)))"

definition writeTurn :: "('db, 'txn) Env \<Rightarrow> bool \<Rightarrow> uint64 \<Rightarrow> ('db, 'ext) Host \<Rightarrow> ('db, 'ext) Host" where
  "writeTurn E ok i h =
     (case hConns h i of
        None \<Rightarrow> h
      | Some slot \<Rightarrow> saveConn i slot (hServer h, fst (writeLoop E ok (loadConn h slot))) h)"

text \<open>A worker takes the next job, with the connection it refers to.\<close>

definition workTurn :: "('db, 'txn) Env \<Rightarrow> ('db, 'ext) Host \<Rightarrow> ('db, 'ext) Host option" where
  "workTurn E h =
     (case hOwners h of
        [] \<Rightarrow> Some h
      | i # rest \<Rightarrow>
          (case hConns h i of
             None \<Rightarrow> Some h
           | Some slot \<Rightarrow> map_option (\<lambda>st. (saveConn i slot st h)\<lparr>hOwners := rest\<rparr>) (worker E (hServer h, loadConn h slot))))"

text \<open>One turn of the loop of \<open>Start\<close>: \<open>Accept\<close> fails, and the loop ends if the server was stopped, or the new
  connection is handled.  The flag says whether the loop goes on.\<close>

definition Start :: "(nat option \<times> nat option) option \<Rightarrow> ('db, 'ext) Host \<Rightarrow> ('db, 'ext) Host \<times> bool" where
  "Start accepted h =
     (case accepted of
        None \<Rightarrow> (h, \<not> hDone h)
      | Some (pickR, pickW) \<Rightarrow> (handleConnection pickR pickW h, True))"

definition cancelAll :: "('db, 'ext) Host \<Rightarrow> ('db, 'ext) Host" where
  "cancelAll h = h\<lparr>hDone := True, hConns := (\<lambda>i. map_option (\<lambda>slot. slot\<lparr>csConn := (csConn slot)\<lparr>ctxDone := True\<rparr>\<rparr>) (hConns h i))\<rparr>"

fun drainHost :: "('db, 'txn) Env \<Rightarrow> nat \<Rightarrow> ('db, 'ext) Host \<Rightarrow> ('db, 'ext) Host option" where
  "drainHost E 0 h = Some h"
| "drainHost E (Suc n) h = Option.bind (workTurn E h) (drainHost E n)"

definition StopAll :: "('db, 'txn) Env \<Rightarrow> ('db, 'ext) Host \<Rightarrow> ('db, 'ext) Host option" where
  "StopAll E h =
     (let h = cancelAll h in
      if jobsClosed (hServer h) then None
      else drainHost E (length (hOwners h)) (h\<lparr>hServer := (hServer h)\<lparr>jobsClosed := True\<rparr>\<rparr>))"

record ServerStats =
  active_connections :: int64
  ops_processed :: uint64
  ops_fast_path :: uint64
  ops_slow_path :: uint64
  ops_errors :: uint64
  worker_pool_size :: goint
  jobs_processed :: uint64
  job_queue_len :: nat
  job_queue_cap :: nat

text \<open>The number of workers that are busy is left out: a worker's job is one step here.\<close>

definition ServerStats_of :: "('db, 'ext) Host \<Rightarrow> ServerStats" where
  "ServerStats_of h = (let s = hServer h in
     \<lparr>active_connections = activeConns h, ops_processed = opsProcessed s, ops_fast_path = opsFastPath s, ops_slow_path = opsSlowPath s,
      ops_errors = opsErrors s, worker_pool_size = hWorkers h, jobs_processed = jobsProcessed s,
      job_queue_len = length (jobQueue s), job_queue_cap = DefaultJobQueueSize\<rparr>)"

section \<open>What a turn does to the jobs and the buffer\<close>

text \<open>Requests only add jobs, and nothing but a read writes to the buffer: the second instance of the locale.\<close>

definition jobsGrow :: "Job list \<Rightarrow> bytes \<Rightarrow> ('db, 'ext) st \<Rightarrow> bool" where
  "jobsGrow js b = (\<lambda>(s, c). prefix js (jobQueue s) \<and> readBuf c = b)"

interpretation grow: server_state "jobsGrow js b" for js b
  by unfold_locales (auto simp: jobsGrow_def)

lemma readLoop_grows:
  assumes "readLoop E other input (s, c) = Some (s', c')" and "\<And>js b req st. jobsGrow js b st \<Longrightarrow> pred_option (jobsGrow js b) (other req st)"
  shows "prefix (jobQueue s) (jobQueue s')"
proof (cases "ctxDone c \<or> input = None")
  case True
  with assms(1) show ?thesis by (auto simp: readLoop_def split: if_splits)
next
  case False
  then obtain data b where run: "processRequestHybrid E other data (s, c\<lparr>readBuf := b\<rparr>) = Some (s', c')"
    using assms(1) by (auto simp: readLoop_def Let_def)
  have "pred_option (jobsGrow (jobQueue s) b) (processRequestHybrid E other data (s, c\<lparr>readBuf := b\<rparr>))"
    by (rule grow.hybrid_keeps [OF _ assms(2)]) (simp_all add: jobsGrow_def)
  with run show ?thesis by (simp add: jobsGrow_def)
qed

lemma worker_buffer: "worker E (s, c) = Some (s', c') \<Longrightarrow> readBuf c' = readBuf c"
proof (cases "jobQueue s")
  case (Cons job jobs)
  assume w: "worker E (s, c) = Some (s', c')"
  then obtain st r where job: "processJob E job (s\<lparr>jobQueue := jobs\<rparr>, c) = Some (st, r)"
    and st: "(s', c') = selectSend E r st (\<lambda>(s, c). (s\<lparr>jobsProcessed := jobsProcessed s + 1\<rparr>, c)) id"
    using Cons by (auto simp: worker_def)
  have "jobsGrow [] (readBuf c) st"
    using grow.processJob_keeps [of "[]" "readBuf c" "(s\<lparr>jobQueue := jobs\<rparr>, c)" E job] job by (simp add: jobsGrow_def)
  then have "jobsGrow [] (readBuf c) (s', c')"
    unfolding st by (rule grow.selectSend_keeps) (auto simp: jobsGrow_def)
  then show ?thesis by (simp add: jobsGrow_def)
qed (simp add: worker_def)

section \<open>The invariant of the connections\<close>

text \<open>The buffers of the open connections.\<close>

definition bufs :: "(uint64 \<rightharpoonup> ConnSlot) \<Rightarrow> uint64 \<rightharpoonup> nat \<times> nat" where
  "bufs m i = Option.bind (m i) (\<lambda>slot. if csOpen slot then Some (csRead slot, csWrite slot) else None)"

definition used :: "(uint64 \<rightharpoonup> nat \<times> nat) \<Rightarrow> nat set" where
  "used u = (\<Union>(r, w) \<in> ran u. {r, w})"

definition apart :: "(uint64 \<rightharpoonup> nat \<times> nat) \<Rightarrow> bool" where
  "apart u \<longleftrightarrow> (\<forall>i r w. u i = Some (r, w) \<longrightarrow> r \<noteq> w \<and> (\<forall>j r' w'. u j = Some (r', w') \<longrightarrow> j \<noteq> i \<longrightarrow> {r, w} \<inter> {r', w'} = {}))"

definition poolOK :: "nat set \<Rightarrow> ('db, 'ext) Host \<Rightarrow> bool" where
  "poolOK U h \<longleftrightarrow> distinct (bufferPool h) \<and> set (bufferPool h) \<union> U \<subseteq> {..<hNext h} \<and> U \<inter> set (bufferPool h) = {} \<and>
     (\<forall>a < hNext h. length (hBufs h a) = 32768)"

definition srvOK :: "('db, 'ext) Server \<Rightarrow> bool" where
  "srvOK s \<longleftrightarrow> length (jobQueue s) \<le> DefaultJobQueueSize \<and> list_all jobOK (jobQueue s) \<and> opsProcessed s = opsFastPath s + opsSlowPath s"

definition slotOK :: "('db, 'ext) Host \<Rightarrow> ConnSlot \<Rightarrow> bool" where
  "slotOK h slot \<longleftrightarrow> length (outQueue (csConn slot)) \<le> outQueueSize \<and> csRead slot < hNext h"

definition hostInv :: "('db, 'ext) Host \<Rightarrow> bool" where
  "hostInv h \<longleftrightarrow> srvOK (hServer h) \<and> length (hOwners h) = length (jobQueue (hServer h)) \<and> set (hOwners h) \<subseteq> dom (hConns h) \<and>
     (\<forall>slot \<in> ran (hConns h). slotOK h slot) \<and> apart (bufs (hConns h)) \<and> poolOK (used (bufs (hConns h))) h"

lemma connInv_split: "connInv 32768 (s, c) \<longleftrightarrow> srvOK s \<and> length (outQueue c) \<le> outQueueSize \<and> length (readBuf c) = 32768"
  by (auto simp: connInv_def srvOK_def)

lemma loaded_inv: "hostInv h \<Longrightarrow> hConns h i = Some slot \<Longrightarrow> connInv 32768 (hServer h, loadConn h slot)"
  by (auto simp: hostInv_def connInv_split loadConn_def slotOK_def poolOK_def ranI)

lemma bufs_same: "m i = Some slot \<Longrightarrow> bufs (m(i \<mapsto> slot\<lparr>csConn := c\<rparr>)) = bufs m"
  by (auto simp: bufs_def fun_eq_iff)

lemma bufs_new: "csOpen slot \<Longrightarrow> bufs (m(i \<mapsto> slot)) = (bufs m)(i \<mapsto> (csRead slot, csWrite slot))"
  and bufs_end: "\<not> csOpen slot \<Longrightarrow> bufs (m(i \<mapsto> slot)) = (bufs m)(i := None)"
  by (auto simp: bufs_def fun_eq_iff)

lemma used_upd: "used (u(i \<mapsto> (r, w))) \<subseteq> insert r (insert w (used u))" "used (u(i := None)) \<subseteq> used u"
  by (auto simp: used_def ran_def split: if_splits)

lemma usedI: "u i = Some (r, w) \<Longrightarrow> r \<in> used u \<and> w \<in> used u"
  by (force simp: used_def ran_def)

lemma apart_new: "apart u \<Longrightarrow> r \<noteq> w \<Longrightarrow> r \<notin> used u \<Longrightarrow> w \<notin> used u \<Longrightarrow> apart (u(i \<mapsto> (r, w)))"
  by (auto simp: apart_def dest: usedI)

lemma apart_end: "apart u \<Longrightarrow> apart (u(i := None))"
  by (auto simp: apart_def)

lemma used_end:
  assumes "apart u" and "u i = Some (r, w)"
  shows "used (u(i := None)) \<inter> {r, w} = {}"
  using assms unfolding apart_def used_def ran_def by (auto split: if_splits; blast)

lemma poolOK_mono: "poolOK U h \<Longrightarrow> V \<subseteq> U \<Longrightarrow> poolOK V h"
  by (auto simp: poolOK_def)

lemma getBuffer_pool:
  assumes "getBuffer pick h = (h', a)" and "poolOK U h"
  shows "poolOK (insert a U) h' \<and> a \<notin> U \<and> hNext h \<le> hNext h' \<and> hServer h' = hServer h \<and> hConns h' = hConns h \<and> hOwners h' = hOwners h"
proof -
  have fresh: "poolOK (insert (hNext h) U) (h\<lparr>hBufs := (hBufs h)(hNext h := replicate 32768 0), hNext := Suc (hNext h)\<rparr>) \<and> hNext h \<notin> U"
    using assms(2) by (auto simp: poolOK_def less_Suc_eq)
  show ?thesis
  proof (cases "\<exists>i. pick = Some i \<and> i < length (bufferPool h)")
    case True
    then obtain i where i: "pick = Some i" "i < length (bufferPool h)" by blast
    let ?rest = "take i (bufferPool h) @ drop (Suc i) (bufferPool h)"
    have pool: "bufferPool h = take i (bufferPool h) @ bufferPool h ! i # drop (Suc i) (bufferPool h)"
      using i(2) by (rule id_take_nth_drop)
    have "distinct (bufferPool h)" using assms(2) by (simp add: poolOK_def)
    then have "distinct ?rest \<and> bufferPool h ! i \<notin> set ?rest" by (subst (asm) pool) auto
    moreover have "set (bufferPool h) = insert (bufferPool h ! i) (set ?rest)" by (subst pool) auto
    ultimately show ?thesis using assms i by (auto simp: getBuffer_def poolOK_def)
  next
    case False
    with assms(1) have "h' = h\<lparr>hBufs := (hBufs h)(hNext h := replicate 32768 0), hNext := Suc (hNext h)\<rparr> \<and> a = hNext h"
      by (auto simp: getBuffer_def split: option.splits if_splits)
    with fresh show ?thesis by auto
  qed
qed

lemma save_inv:
  assumes "hostInv h" and "hConns h i = Some slot" and "connInv 32768 (s, c)" and "length os = length (jobQueue s)" and "set os \<subseteq> dom (hConns h)"
  shows "hostInv ((saveConn i slot (s, c) h)\<lparr>hOwners := os\<rparr>)"
proof -
  have "csRead slot < hNext h" using assms(1,2) by (auto simp: hostInv_def slotOK_def ranI)
  then have "poolOK U (saveConn i slot (s, c) h) = poolOK U h" if "poolOK U h" for U
    using that assms(3) by (auto simp: poolOK_def saveConn_def connInv_split)
  with assms show ?thesis
    by (auto simp: hostInv_def saveConn_def connInv_split slotOK_def poolOK_def bufs_same ran_def split: if_splits)
qed

inductive host_step ::
  "('db, 'txn) Env set \<Rightarrow> (Request \<Rightarrow> ('db, 'ext) st \<Rightarrow> ('db, 'ext) st option) \<Rightarrow> ('db, 'ext) Host \<Rightarrow> ('db, 'ext) Host \<Rightarrow> bool"
  for envs other where
  host_accept: "Start accepted h = (h', go) \<Longrightarrow> host_step envs other h h'"
| host_read: "E \<in> envs \<Longrightarrow> hConns h i = Some slot \<Longrightarrow> csOpen slot \<Longrightarrow> readTurn E other input i h = Some h' \<Longrightarrow> host_step envs other h h'"
| host_write: "E \<in> envs \<Longrightarrow> hConns h i = Some slot \<Longrightarrow> csOpen slot \<Longrightarrow> writeTurn E ok i h = h' \<Longrightarrow> host_step envs other h h'"
| host_work: "E \<in> envs \<Longrightarrow> workTurn E h = Some h' \<Longrightarrow> host_step envs other h h'"
| host_end: "hConns h i = Some slot \<Longrightarrow> csOpen slot \<Longrightarrow> ctxDone (csConn slot) \<Longrightarrow> host_step envs other h (endConnection i h)"

lemma handle_inv: "hostInv h \<Longrightarrow> hostInv (handleConnection pickR pickW h)"
proof -
  assume inv: "hostInv h"
  let ?h = "h\<lparr>connCounter := connCounter h + 1, activeConns := activeConns h + 1\<rparr>" and ?u = "used (bufs (hConns h))"
  obtain h1 r h2 w where get: "getBuffer pickR ?h = (h1, r)" "getBuffer pickW h1 = (h2, w)" by fastforce
  have "poolOK ?u ?h" using inv by (simp add: hostInv_def poolOK_def)
  note r = getBuffer_pool [OF get(1) this] and w = getBuffer_pool [OF get(2) conjunct1 [OF getBuffer_pool [OF get(1) this]]]
  have "apart ((bufs (hConns h))(connCounter h + 1 \<mapsto> (r, w)))"
    using inv r w by (intro apart_new) (auto simp: hostInv_def)
  moreover have "poolOK (used ((bufs (hConns h))(connCounter h + 1 \<mapsto> (r, w)))) h2"
    using poolOK_mono [OF conjunct1 [OF w]] used_upd(1) by (metis insert_commute)
  moreover have "slotOK h2 slot" if "slot \<in> ran (hConns h)" for slot
    using that inv r w by (auto simp: hostInv_def slotOK_def)
  moreover have "r < hNext h2" using conjunct1 [OF w] by (auto simp: poolOK_def)
  ultimately show ?thesis
    using inv r w by (auto simp: hostInv_def handleConnection_def Let_def get bufs_new ran_def slotOK_def poolOK_def outQueueSize_def
        split: if_splits)
qed

lemma end_inv:
  assumes "hostInv h" and "hConns h i = Some slot" and "csOpen slot"
  shows "hostInv (endConnection i h)"
proof -
  let ?u = "bufs (hConns h)"
  have u: "?u i = Some (csRead slot, csWrite slot)" using assms(2,3) by (simp add: bufs_def)
  have a: "apart ?u" and p: "poolOK (used ?u) h" using assms(1) by (simp_all add: hostInv_def)
  have "csRead slot \<noteq> csWrite slot" using a u by (auto simp: apart_def)
  then have "poolOK (used (?u(i := None))) (endConnection i h)"
    using p usedI [of ?u i, OF u] used_end [OF a u] used_upd(2) [of ?u i] assms(2) by (auto simp: poolOK_def endConnection_def)
  with assms apart_end [OF a, of i] show ?thesis
    by (auto simp: hostInv_def endConnection_def bufs_end slotOK_def ran_def split: if_splits)
qed

lemma read_inv:
  assumes "hostInv h" and "hConns h i = Some slot" and "readTurn E other input i h = Some h'"
    and "\<And>req st. connInv 32768 st \<Longrightarrow> keepsInv 32768 (other req st)" and "\<And>js b req st. jobsGrow js b st \<Longrightarrow> pred_option (jobsGrow js b) (other req st)"
  shows "hostInv h'"
proof -
  obtain s c where run: "readLoop E other input (hServer h, loadConn h slot) = Some (s, c)"
    and h': "h' = (saveConn i slot (s, c) h)\<lparr>hOwners := hOwners h @ replicate (length (jobQueue s) - length (jobQueue (hServer h))) i\<rparr>"
    using assms(2,3) by (auto simp: readTurn_def)
  have "keepsInv 32768 (readLoop E other input (hServer h, loadConn h slot))"
    by (rule connInv_read [OF loaded_inv [OF assms(1,2)]]) (rule assms(4))
  then have "connInv 32768 (s, c)" using run by simp
  moreover have "length (jobQueue (hServer h)) \<le> length (jobQueue s)" using readLoop_grows [OF run assms(5)] by (rule prefix_length_le)
  ultimately show ?thesis unfolding h' using assms(1,2) by (intro save_inv) (auto simp: hostInv_def)
qed

lemma work_inv:
  assumes "hostInv h"
  shows "\<exists>h'. workTurn E h = Some h' \<and> hostInv h' \<and> jobQueue (hServer h') = tl (jobQueue (hServer h)) \<and>
    jobsClosed (hServer h') = jobsClosed (hServer h)"
proof (cases "hOwners h")
  case Nil
  with assms show ?thesis by (auto simp: workTurn_def hostInv_def)
next
  case (Cons i rest)
  then obtain slot where slot: "hConns h i = Some slot" using assms by (auto simp: hostInv_def)
  obtain job jobs where jobs: "jobQueue (hServer h) = job # jobs"
    using assms Cons by (cases "jobQueue (hServer h)") (auto simp: hostInv_def)
  have "jobOK job" using assms jobs by (simp add: hostInv_def srvOK_def)
  then obtain s c where w: "worker E (hServer h, loadConn h slot) = Some (s, c)" "jobQueue s = jobs" "jobsClosed s = jobsClosed (hServer h)"
    using worker_takes [of "(hServer h, loadConn h slot)" job jobs E] jobs by auto
  have "connInv 32768 (s, c)" using connInv_worker [OF loaded_inv [OF assms slot], of E] w(1) by simp
  then have "hostInv ((saveConn i slot (s, c) h)\<lparr>hOwners := rest\<rparr>)"
    using assms Cons jobs w(2) by (intro save_inv [OF assms slot]) (auto simp: hostInv_def)
  with Cons slot w jobs show ?thesis by (auto simp: workTurn_def saveConn_def)
qed

lemma write_inv:
  assumes "hostInv h" and "hConns h i = Some slot"
  shows "hostInv (writeTurn E ok i h)"
proof -
  let ?c = "fst (writeLoop E ok (loadConn h slot))"
  have "connInv 32768 (hServer h, ?c)"
    using loaded_inv [OF assms] by (auto simp: connInv_def writeLoop_def split: list.split)
  from save_inv [OF assms this, of "hOwners h"] assms show ?thesis
    by (simp add: writeTurn_def saveConn_def hostInv_def)
qed

lemma host_step_inv:
  assumes "host_step envs other h h'" and "hostInv h"
    and "\<And>req st. connInv 32768 st \<Longrightarrow> keepsInv 32768 (other req st)" and "\<And>js b req st. jobsGrow js b st \<Longrightarrow> pred_option (jobsGrow js b) (other req st)"
  shows "hostInv h'"
  using assms(1)
proof cases
  case (host_accept accepted go)
  with assms(2) handle_inv [OF assms(2)] show ?thesis by (auto simp: Start_def split: option.splits)
next
  case (host_read E i slot input)
  with read_inv [OF assms(2) host_read(2,4) assms(3,4)] show ?thesis by blast
next
  case (host_work E)
  with work_inv [OF assms(2), of E] show ?thesis by auto
qed (use assms(2) write_inv end_inv in blast)+

lemma new_inv: "NewServerWithWorkers None store q other n = Inr h \<Longrightarrow> hostInv h"
  by (auto simp: NewServerWithWorkers_def NewWorkerPool_def hostInv_def srvOK_def bufs_def used_def ran_def apart_def poolOK_def DefaultJobQueueSize_def)


section \<open>Stopping\<close>

lemma cancel_inv: "hostInv h \<Longrightarrow> hostInv (cancelAll h)"
proof -
  assume inv: "hostInv h"
  have "bufs (hConns (cancelAll h)) = bufs (hConns h)"
    by (auto simp: cancelAll_def bufs_def fun_eq_iff split: bind_splits option.splits)
  moreover have "dom (hConns (cancelAll h)) = dom (hConns h)" by (auto simp: cancelAll_def dom_def)
  ultimately show ?thesis using inv by (auto simp: hostInv_def cancelAll_def slotOK_def poolOK_def ran_def)
qed

lemma drainHost_empties:
  "hostInv h \<Longrightarrow> length (jobQueue (hServer h)) = n \<Longrightarrow>
   \<exists>h'. drainHost E n h = Some h' \<and> hostInv h' \<and> jobQueue (hServer h') = [] \<and> jobsClosed (hServer h') = jobsClosed (hServer h)"
proof (induction n arbitrary: h)
  case (Suc n)
  from work_inv [OF Suc.prems(1), of E] obtain h1 where h1: "workTurn E h = Some h1" "hostInv h1"
    "jobQueue (hServer h1) = tl (jobQueue (hServer h))" "jobsClosed (hServer h1) = jobsClosed (hServer h)" by blast
  with Suc.prems(2) have "length (jobQueue (hServer h1)) = n" by simp
  from Suc.IH [OF h1(2) this] h1(1,4) show ?case by auto
qed auto


section \<open>A buffer outlives its connection\<close>

lemma turn_saved:
  assumes "hConns h i = Some slot" and "readLoop E other input (hServer h, loadConn h slot) = Some (s, c)"
  shows "readTurn E other input i h =
    Some ((saveConn i slot (s, c) h)\<lparr>hOwners := hOwners h @ replicate (length (jobQueue s) - length (jobQueue (hServer h))) i\<rparr>)"
  using assms by (simp add: readTurn_def)

lemma saveConn_simps [simp]:
  "hServer (saveConn i slot (s, c) h) = s" "hConns (saveConn i slot (s, c) h) = (hConns h)(i \<mapsto> slot\<lparr>csConn := c\<lparr>readBuf := []\<rparr>\<rparr>)"
  "hBufs (saveConn i slot (s, c) h) = (hBufs h)(csRead slot := readBuf c)" "bufferPool (saveConn i slot st h) = bufferPool h"
  "hNext (saveConn i slot st h) = hNext h" "connCounter (saveConn i slot st h) = connCounter h" "hDone (saveConn i slot st h) = hDone h"
  "hOwners (saveConn i slot st h) = hOwners h"
  by (simp_all add: saveConn_def split: prod.splits)

text \<open>One job is queued, a SET of a connection whose buffer is at the address \<open>r\<close>.\<close>

definition pending :: "gostring \<Rightarrow> bytes \<Rightarrow> uint64 \<Rightarrow> nat \<Rightarrow> ('db, 'ext) Host \<Rightarrow> bool" where
  "pending key val i r h \<longleftrightarrow> hOwners h = [i] \<and> (\<exists>slot. hConns h i = Some slot \<and> csRead slot = r) \<and>
     jobQueue (hServer h) = [\<lparr>jobCmd = lit ''SET'', jobKey = key, jobValue = (5 + length key, 5 + length key + length val), jobKeys = [], jobValues = []\<rparr>]"

text \<open>What does not change while connections only read.\<close>

definition sameHost :: "('db, 'ext) Host \<Rightarrow> ('db, 'ext) Host \<Rightarrow> bool" where
  "sameHost h h' \<longleftrightarrow> bufferPool h' = bufferPool h \<and> hNext h' = hNext h \<and> connCounter h' = connCounter h \<and> hDone h' = hDone h"

lemma pending_set:
  assumes "hConns h i = Some slot" and "hOwners h = []" and "jobQueue (hServer h) = []" and "\<not> jobsClosed (hServer h)"
    and "ready (Suc 0) (csConn slot)" and "FastPathThreshold <s avgLatency (csConn slot)"
    and "textWord key" and "textWord val" and "length (setText key val) \<le> length (hBufs h (csRead slot))"
  shows "\<exists>h'. readTurn E other (Some (setText key val)) i h = Some h' \<and> pending key val i (csRead slot) h' \<and> sameHost h h' \<and>
    length (hBufs h' (csRead slot)) = length (hBufs h (csRead slot))"
proof -
  let ?c = "loadConn h slot"
  have "readBuf ?c = hBufs h (csRead slot)" "ready (Suc 0) ?c" "avgLatency ?c = avgLatency (csConn slot)"
    using assms(5) by (simp_all add: loadConn_def ready_def)
  with assms obtain s c where run: "readLoop E other (Some (setText key val)) (hServer h, ?c) = Some (s, c)" "length (readBuf c) = length (readBuf ?c)"
      "jobQueue s = [\<lparr>jobCmd = lit ''SET'', jobKey = key, jobValue = (5 + length key, 5 + length key + length val), jobKeys = [], jobValues = []\<rparr>]"
    by (simp add: readLoop_setText processSlowPath_def enqueueJob_def ready_def DefaultJobQueueSize_def Let_def)
  from turn_saved [OF assms(1) run(1)] run(2,3) assms(2,3) show ?thesis
    by (simp add: pending_def sameHost_def loadConn_def)
qed

lemma pending_gone:
  assumes "pending key val i r h"
  shows "\<exists>h'. readTurn E other None i h = Some h' \<and> pending key val i r h' \<and> sameHost h h' \<and> hBufs h' r = hBufs h r"
proof -
  obtain slot where slot: "hConns h i = Some slot" "csRead slot = r" using assms by (auto simp: pending_def)
  obtain c where run: "readLoop E other None (hServer h, loadConn h slot) = Some (hServer h, c)" "readBuf c = hBufs h r"
    using slot(2) by (cases "ctxDone (loadConn h slot)") (auto simp: readLoop_def loadConn_def)
  from turn_saved [OF slot(1) run(1)] run(2) assms slot show ?thesis
    by (simp add: pending_def sameHost_def)
qed

text \<open>The next connection takes the buffer of the one that ended.\<close>

lemma pending_reuse:
  assumes "pending key val i r h" and "connCounter h + 1 \<noteq> i" and "r < hNext h" and "\<not> hDone h"
  defines "h' \<equiv> handleConnection (Some (length (bufferPool h))) None (endConnection i h)"
  shows "pending key val i r h' \<and> hBufs h' r = hBufs h r \<and>
    (\<exists>slot. hConns h' (connCounter h + 1) = Some slot \<and> csRead slot = r \<and> ready (Suc 0) (csConn slot))"
proof -
  obtain slot where slot: "hConns h i = Some slot" "csRead slot = r" using assms(1) by (auto simp: pending_def)
  let ?h = "endConnection i h" and ?n = "length (bufferPool h)"
  have e: "bufferPool ?h = bufferPool h @ [r, csWrite slot]" "connCounter ?h = connCounter h" "hNext ?h = hNext h" "hBufs ?h = hBufs h"
      "hServer ?h = hServer h" "hOwners ?h = hOwners h" "hDone ?h = hDone h"
      "hConns ?h = (hConns h)(i \<mapsto> slot\<lparr>csConn := (csConn slot)\<lparr>ctxDone := True\<rparr>, csOpen := False\<rparr>)"
    using slot by (simp_all add: endConnection_def)
  have "h' = ?h\<lparr>connCounter := connCounter h + 1, activeConns := activeConns ?h + 1, bufferPool := bufferPool h @ [csWrite slot],
      hBufs := (hBufs h)(hNext h := replicate 32768 0), hNext := Suc (hNext h),
      hConns := (hConns ?h)(connCounter h + 1 \<mapsto>
        \<lparr>csConn = \<lparr>readBuf = [], outQueue = [], ctxDone = hDone h, connOps = 0, avgLatency = 0\<rparr>, csRead = r, csWrite = hNext h, csOpen = True\<rparr>)\<rparr>"
    by (simp add: h'_def handleConnection_def Let_def getBuffer_def e nth_append)
  then show ?thesis using assms(1-4) slot by (simp add: pending_def e ready_def outQueueSize_def)
qed

lemma pending_other:
  assumes "pending key val i r h" and "hConns h j = Some slot" and "csRead slot = r" and "ready (Suc 0) (csConn slot)" and "j \<noteq> i"
    and "EncodeSetRequest key' val' = Some req" and "length key' \<le> MaxKeyLen" and "length val' \<le> MaxValueLen" and "length req \<le> length (hBufs h r)"
  shows "\<exists>h'. readTurn E other (Some req) j h = Some h' \<and> pending key val i r h' \<and> hBufs h' r = req @ drop (length req) (hBufs h r)"
proof -
  let ?c = "loadConn h slot"
  have c: "readBuf ?c = hBufs h r" "ready (Suc 0) ?c" using assms(3,4) by (simp_all add: loadConn_def ready_def)
  obtain s' c' where run: "readLoop E other (Some req) (hServer h, ?c) = Some (s', c')" "jobQueue s' = jobQueue (hServer h)"
      "readBuf c' = req @ drop (length req) (hBufs h r)"
    using readLoop_set [OF assms(6-8) _ c(2), of E other "hServer h"] c(1) assms(9)
    by (cases "KVStore_Set (envB E) (envNow E) (srvStore (hServer h)) key' val' 0") (auto simp: answered_def)
  from turn_saved [OF assms(2) run(1)] run(2,3) assms(1,3,5) show ?thesis
    by (simp add: pending_def)
qed

lemma pending_work:
  assumes "pending key val i r h"
  shows "\<exists>h'. workTurn E h = Some h' \<and> srvStore (hServer h') =
    fst (KVStore_Set (envB E) (envNow E) (srvStore (hServer h)) key (take (length val) (drop (5 + length key) (hBufs h r))) 0)"
proof -
  obtain slot where slot: "hConns h i = Some slot" "csRead slot = r" using assms by (auto simp: pending_def)
  let ?job = "\<lparr>jobCmd = lit ''SET'', jobKey = key, jobValue = (5 + length key, 5 + length key + length val), jobKeys = [], jobValues = []\<rparr>"
  have "jobQueue (hServer h) = [?job]" using assms by (simp add: pending_def)
  from worker_set [OF this, of E "loadConn h slot"]
  obtain s c where w: "worker E (hServer h, loadConn h slot) = Some (s, c)" "srvStore s =
      fst (KVStore_Set (envB E) (envNow E) (srvStore (hServer h)) key (take (length val) (drop (5 + length key) (hBufs h r))) 0)"
    using slot(2) by (auto simp: deref_def loadConn_def)
  with slot assms show ?thesis by (simp add: workTurn_def pending_def)
qed

text \<open>C18: a value of another client.  A client on a slow connection sends \<open>SET key val\<close> in the text protocol and goes
  away before a worker takes the job.  The buffer goes back to the pool, the next connection gets it, and its
  client sends a SET of its own.  The worker then stores bytes of the second client's request under the key of
  the first.\<close>

theorem server_buffer_reuse:
  fixes E1 E2 E3 E4 :: "('db, 'txn) Env"
  assumes "hostInv h" and "hConns h i = Some slot" and "connCounter h + 1 \<noteq> i" and "hOwners h = []" and "\<not> hDone h" and "\<not> jobsClosed (hServer h)"
    and "ready 1 (csConn slot)" and "FastPathThreshold <s avgLatency (csConn slot)"
    and "textWord key" and "textWord val" and "length (setText key val) \<le> 32768"
    and "EncodeSetRequest key' val' = Some req" and "length key' \<le> MaxKeyLen" and "length val' \<le> MaxValueLen" and "length req \<le> 32768"
    and "5 + length key + length val \<le> length req"
  shows "\<exists>h1 h2 h3 h4. readTurn E1 other (Some (setText key val)) i h = Some h1 \<and> readTurn E2 other None i h1 = Some h2 \<and>
    readTurn E3 other (Some req) (connCounter h + 1) (handleConnection (Some (length (bufferPool h))) None (endConnection i h2)) = Some h3 \<and>
    workTurn E4 h3 = Some h4 \<and>
    srvStore (hServer h4) = fst (KVStore_Set (envB E4) (envNow E4) (srvStore (hServer h3)) key (take (length val) (drop (5 + length key) req)) 0)"
proof -
  let ?r = "csRead slot"
  have r: "?r < hNext h" "length (hBufs h ?r) = 32768" "jobQueue (hServer h) = []"
    using assms(1,2,4) by (auto simp: hostInv_def slotOK_def poolOK_def ranI)
  obtain h1 where h1: "readTurn E1 other (Some (setText key val)) i h = Some h1" "pending key val i ?r h1" "sameHost h h1" "length (hBufs h1 ?r) = 32768"
    using pending_set [OF assms(2,4) r(3) assms(6) _ assms(8-10), of E1 other] assms(7,11) r(2) by auto
  obtain h2 where h2: "readTurn E2 other None i h1 = Some h2" "pending key val i ?r h2" "sameHost h1 h2" "hBufs h2 ?r = hBufs h1 ?r"
    using pending_gone [OF h1(2)] by blast
  let ?h = "handleConnection (Some (length (bufferPool h))) None (endConnection i h2)"
  have same: "bufferPool h2 = bufferPool h" "hNext h2 = hNext h" "connCounter h2 = connCounter h" "hDone h2 = hDone h"
    using h1(3) h2(3) by (simp_all add: sameHost_def)
  obtain slot' where new: "pending key val i ?r ?h" "hBufs ?h ?r = hBufs h2 ?r" "hConns ?h (connCounter h + 1) = Some slot'" "csRead slot' = ?r"
      "ready (Suc 0) (csConn slot')"
    using pending_reuse [OF h2(2)] assms(3,5) r(1) unfolding same by blast
  obtain h3 where h3: "readTurn E3 other (Some req) (connCounter h + 1) ?h = Some h3" "pending key val i ?r h3" "hBufs h3 ?r = req @ drop (length req) (hBufs ?h ?r)"
    using pending_other [OF new(1,3,4,5) assms(3,12-14)] new(2) h1(4) h2(4) assms(15) by metis
  have "take (length val) (drop (5 + length key) (hBufs h3 ?r)) = take (length val) (drop (5 + length key) req)"
    using assms(16) by (simp add: h3(3))
  with pending_work [OF h3(2), of E4] h1(1) h2(1) h3(1) show ?thesis by metis
qed

section \<open>At concrete inputs\<close>

definition memHost :: "(mem_db, unit) Host" where
  "memHost = projr (NewServerWithWorkers None (srvStore mem_server) (srvQueue mem_server) () 4)"

lemma memHost_new: "NewServerWithWorkers None (srvStore mem_server) (srvQueue mem_server) () 4 = Inr memHost"
  by (simp add: memHost_def NewServerWithWorkers_def)

text \<open>Two connections, and one that is slow.\<close>

definition memHost1 :: "(mem_db, unit) Host" where "memHost1 = handleConnection None None memHost"

definition slowSlot :: ConnSlot where
  "slowSlot = \<lparr>csConn = \<lparr>readBuf = [], outQueue = [], ctxDone = False, connOps = 0, avgLatency = 200000\<rparr>, csRead = 0, csWrite = 1, csOpen = True\<rparr>"

definition slowHost :: "(mem_db, unit) Host" where
  "slowHost = memHost1\<lparr>hConns := [1 \<mapsto> slowSlot]\<rparr>"

lemma memHost1_conns: "hConns memHost1 = [1 \<mapsto> slowSlot\<lparr>csConn := (csConn slowSlot)\<lparr>avgLatency := 0\<rparr>\<rparr>]"
    "connCounter memHost1 = 1" "hServer memHost1 = hServer memHost" "hOwners memHost1 = []" "bufferPool memHost1 = []" "\<not> hDone memHost1" "hNext memHost1 = 2"
  by (simp_all add: memHost1_def memHost_def NewServerWithWorkers_def NewWorkerPool_def handleConnection_def getBuffer_def Let_def slowSlot_def)

lemma slowHost_inv: "hostInv slowHost"
proof -
  let ?slot = "slowSlot\<lparr>csConn := (csConn slowSlot)\<lparr>avgLatency := 0\<rparr>\<rparr>"
  have inv: "hostInv memHost1" unfolding memHost1_def by (rule handle_inv [OF new_inv [OF memHost_new]])
  have "bufs (hConns slowHost) = bufs (hConns memHost1)"
    using bufs_same [of "hConns memHost1" 1 ?slot "csConn slowSlot"] by (simp add: memHost1_conns slowHost_def slowSlot_def)
  with inv show ?thesis by (auto simp: hostInv_def slowHost_def slowSlot_def slotOK_def poolOK_def memHost1_conns(1) ran_def split: if_splits)
qed

lemma slowHost_simps:
  "hConns slowHost 1 = Some slowSlot" "hOwners slowHost = []" "\<not> hDone slowHost" "\<not> jobsClosed (hServer slowHost)"
  "ready 1 (csConn slowSlot)" "FastPathThreshold <s avgLatency (csConn slowSlot)" "connCounter slowHost = 1" "bufferPool slowHost = []"
  by (simp_all add: slowHost_def memHost1_conns memHost_def NewServerWithWorkers_def NewWorkerPool_def)
    (simp_all add: slowSlot_def ready_def outQueueSize_def FastPathThreshold_def word_sless_alt)



theorem server_buffer_reuse_witness:
  "\<exists>req h1 h2 h3 h4. EncodeSetRequest [107] [1, 2, 3, 4] = Some req \<and> readTurn (mem_env 0) (\<lambda>_. Some) (Some (lit ''SET k vw'' @ crlf)) 1 slowHost = Some h1 \<and>
     readTurn (mem_env 0) (\<lambda>_. Some) None 1 h1 = Some h2 \<and>
     readTurn (mem_env 0) (\<lambda>_. Some) (Some req) 2 (handleConnection (Some 0) None (endConnection 1 h2)) = Some h3 \<and> workTurn (mem_env 0) h3 = Some h4 \<and>
     srvStore (hServer h4) = fst (KVStore_Set mem_badger 0 (srvStore (hServer h3)) (lit ''k'') (take 2 (drop 6 req)) 0)"
proof -
  obtain req where req: "EncodeSetRequest [107] [1, 2, 3, 4] = Some req" by (simp add: encoded)
  then have len: "length req = 16" by (auto simp: encoded frame_def str16_def str32_def)
  have t: "setText (lit ''k'') (lit ''vw'') = lit ''SET k vw'' @ crlf" "textWord (lit ''k'')" "textWord (lit ''vw'')" by code_simp+
  have "length (setText (lit ''k'') (lit ''vw'')) \<le> 32768" by (simp add: setText_def crlf_def)
  moreover have "length [107 :: byte] \<le> MaxKeyLen" "length [1, 2, 3, 4 :: byte] \<le> MaxValueLen" by (simp_all add: MaxKeyLen_def MaxValueLen_def)
  ultimately have * : "\<exists>h1 h2 h3 h4. readTurn (mem_env 0) (\<lambda>_. Some) (Some (lit ''SET k vw'' @ crlf)) 1 slowHost = Some h1 \<and>
     readTurn (mem_env 0) (\<lambda>_. Some) None 1 h1 = Some h2 \<and>
     readTurn (mem_env 0) (\<lambda>_. Some) (Some req) (1 + 1) (handleConnection (Some 0) None (endConnection 1 h2)) = Some h3 \<and> workTurn (mem_env 0) h3 = Some h4 \<and>
     srvStore (hServer h4) = fst (KVStore_Set mem_badger 0 (srvStore (hServer h3)) (lit ''k'') (take (length (lit ''vw'')) (drop (5 + length (lit ''k'')) req)) 0)"
    using server_buffer_reuse [OF slowHost_inv slowHost_simps(1) _ slowHost_simps(2-6) t(2,3) _ req, of "mem_env 0" "\<lambda>_. Some" "mem_env 0" "mem_env 0" "mem_env 0"] len
    unfolding t(1) by (simp add: slowHost_simps mem_env_def)
  show ?thesis using * req by (simp add: numeral_2_eq_2)
qed

end
