(* ===== verification/HttpApi.thy ===== *)
theory HttpApi
  imports Server
begin

text \<open>
  The HTTP interface, \<open>src/internal/server/http_api.go\<close>: the routes, the handlers of keys and queues and the
  CORS headers.  A response is its status, its headers and the value that is encoded as its body.  Decoding the
  body of a request into a struct is a parameter, one function for each struct (\<open>HttpJson\<close>); a path is one that
  \<open>net/http\<close> does not redirect.
\<close>

section \<open>Requests and responses\<close>

record SetRequest =
  srKey :: gostring
  srValue :: gostring
  srTTL :: goint

record UpdateRequest =
  urKey :: gostring
  urValue :: gostring
  urTTL :: goint

record PushRequest =
  prQueue :: gostring
  prMessage :: gostring

text \<open>\<open>json.NewDecoder(r.Body).Decode(&req)\<close> for each type of \<open>req\<close>; structs with one string are that
  string.\<close>

record HttpJson =
  decodeSet :: "bytes \<Rightarrow> SetRequest option"
  decodeUpdate :: "bytes \<Rightarrow> UpdateRequest option"
  decodeDelete :: "bytes \<Rightarrow> gostring option"
  decodePush :: "bytes \<Rightarrow> PushRequest option"
  decodePop :: "bytes \<Rightarrow> gostring option"
  decodeCreateQueue :: "bytes \<Rightarrow> gostring option"
  decodeDeleteQueue :: "bytes \<Rightarrow> gostring option"

record HttpRequest =
  hrMethod :: gostring
  hrPath :: gostring
  hrKey :: gostring
  hrBody :: bytes

record KVItem =
  kiKey :: gostring
  kiValue :: gostring
  kiSize :: int64

datatype HttpBody =
    ErrorResponse gostring
  | StatusText gostring
  | StatusResponse gostring gostring gostring
  | KVListResponse "KVItem list" nat
  | GetResponse gostring gostring
  | QueueListResponse "(gostring \<times> nat) list" nat
  | PopResponse gostring
  | PlainText gostring

record HttpResponse =
  rsStatus :: nat
  rsHeaders :: "(gostring \<times> gostring) list"
  rsBody :: "HttpBody option"

definition contentJSON :: "gostring \<times> gostring" where
  "contentJSON = (lit ''Content-Type'', lit ''application/json'')"

definition respond :: "nat \<Rightarrow> HttpBody \<Rightarrow> HttpResponse" where
  "respond status body = \<lparr>rsStatus = status, rsHeaders = [contentJSON], rsBody = Some body\<rparr>"

definition writeError :: "string \<Rightarrow> nat \<Rightarrow> HttpResponse" where
  "writeError msg statusCode = respond statusCode (ErrorResponse (lit msg))"

definition methodNotAllowed :: HttpResponse where
  "methodNotAllowed = writeError ''Method not allowed'' 405"

definition success :: HttpBody where
  "success = StatusText (lit ''success'')"

text \<open>What the environment decides: Badger, the clock and its text, the next identifier, the order in which a map
  is visited, and whether a value that is empty comes out of Badger as nil.\<close>

record ('db, 'txn) HttpEnv =
  heB :: "('db, 'txn) badger"
  heNow :: time
  heTime :: gostring
  heUUID :: gostring
  heVisit :: "(gostring \<rightharpoonup> bytes) \<Rightarrow> gostring list"
  heNil :: bool

text \<open>The server that both interfaces share; its queues are also those that \<open>hs.queue\<close> points to.\<close>

record ('db, 'ext) HTTPServer =
  hsServer :: "('db, 'ext) Server"
  hsNodeID :: gostring
  hsAddr :: gostring

definition NewHTTPServer :: "('db, 'ext) Server \<Rightarrow> gostring \<Rightarrow> gostring \<Rightarrow> ('db, 'ext) HTTPServer" where
  "NewHTTPServer server nodeID addr = \<lparr>hsServer = server, hsNodeID = nodeID, hsAddr = addr\<rparr>"

definition isNil :: "('db, 'txn) HttpEnv \<Rightarrow> bytes \<Rightarrow> bool" where
  "isNil E v \<longleftrightarrow> v = [] \<and> heNil E"

definition strContains :: "'a list \<Rightarrow> 'a list \<Rightarrow> bool" where
  "strContains s sub \<longleftrightarrow> list_ex (prefix sub) (suffixes s)"

section \<open>Health and status\<close>

definition handleHealth :: "('db, 'ext) HTTPServer \<Rightarrow> ('db, 'ext) HTTPServer \<times> HttpResponse" where
  "handleHealth hs = (hs, respond 200 (StatusText (lit ''ok'')))"

definition handleStatus :: "('db, 'txn) HttpEnv \<Rightarrow> ('db, 'ext) HTTPServer \<Rightarrow> ('db, 'ext) HTTPServer \<times> HttpResponse" where
  "handleStatus E hs = (hs, respond 200 (StatusResponse (hsNodeID hs) (lit ''running'') (heTime E)))"

section \<open>Keys\<close>

definition httpStore :: "('db, 'ext) HTTPServer \<Rightarrow> 'db KVStore" where
  "httpStore hs = srvStore (hsServer hs)"

definition withStore :: "('db, 'ext) HTTPServer \<Rightarrow> 'db KVStore \<Rightarrow> ('db, 'ext) HTTPServer" where
  "withStore hs k = hs\<lparr>hsServer := (hsServer hs)\<lparr>srvStore := k\<rparr>\<rparr>"

definition handleKVKeys ::
  "('db, 'txn) HttpEnv \<Rightarrow> HttpRequest \<Rightarrow> ('db, 'ext) HTTPServer \<Rightarrow> ('db, 'ext) HTTPServer \<times> HttpResponse" where
  "handleKVKeys E r hs =
     (if hrMethod r \<noteq> lit ''GET'' then (hs, methodNotAllowed)
      else case KVStore_ScanKeysWithValues (heB E) (heNow E) (httpStore hs) [] 100 of
        Inl e \<Rightarrow> (hs, writeError (''Failed to scan keys: '' @ kv_errmsg e) 500)
      | Inr kvPairs \<Rightarrow>
          let items = map (\<lambda>key. let val = the (kvPairs key) in
                \<lparr>kiKey = key, kiValue = val, kiSize = word_of_nat (length val)\<rparr>) (heVisit E kvPairs)
          in (hs, respond 200 (KVListResponse items (length items))))"

definition handleKVGet ::
  "('db, 'txn) HttpEnv \<Rightarrow> HttpRequest \<Rightarrow> ('db, 'ext) HTTPServer \<Rightarrow> ('db, 'ext) HTTPServer \<times> HttpResponse" where
  "handleKVGet E r hs =
     (if hrMethod r \<noteq> lit ''GET'' then (hs, methodNotAllowed)
      else if hrKey r = [] then (hs, writeError ''key parameter is required'' 400)
      else case KVStore_Get (heB E) (heNow E) (httpStore hs) (hrKey r) of
        Inl e \<Rightarrow> (hs, if strContains (kv_errmsg e) ''not found'' then writeError ''Key not found'' 404 else writeError (kv_errmsg e) 500)
      | Inr val \<Rightarrow>
          if isNil E val then (hs, writeError ''Key not found'' 404)
          else (hs, respond 200 (GetResponse (hrKey r) val)))"

text \<open>\<open>time.Duration(ttl) * time.Second\<close>, in 64 bits.\<close>

definition ttlDuration :: "goint \<Rightarrow> duration" where
  "ttlDuration reqTTL = sint ((if 0 <s reqTTL then reqTTL else 0) * 1000000000)"

definition handleKVSet ::
  "('db, 'txn) HttpEnv \<Rightarrow> HttpJson \<Rightarrow> HttpRequest \<Rightarrow> ('db, 'ext) HTTPServer \<Rightarrow> ('db, 'ext) HTTPServer \<times> HttpResponse" where
  "handleKVSet E J r hs =
     (if hrMethod r \<noteq> lit ''POST'' then (hs, methodNotAllowed)
      else case decodeSet J (hrBody r) of
        None \<Rightarrow> (hs, writeError ''Invalid request body'' 400)
      | Some req \<Rightarrow>
          if srKey req = [] \<or> srValue req = [] then (hs, writeError ''key and value are required'' 400)
          else case KVStore_Set (heB E) (heNow E) (httpStore hs) (srKey req) (srValue req) (ttlDuration (srTTL req)) of
            (k, Inl e) \<Rightarrow> (withStore hs k, writeError (kv_errmsg e) 500)
          | (k, Inr _) \<Rightarrow> (withStore hs k, respond 201 success))"

definition handleKVDelete ::
  "('db, 'txn) HttpEnv \<Rightarrow> HttpJson \<Rightarrow> HttpRequest \<Rightarrow> ('db, 'ext) HTTPServer \<Rightarrow> ('db, 'ext) HTTPServer \<times> HttpResponse" where
  "handleKVDelete E J r hs =
     (if hrMethod r \<noteq> lit ''POST'' \<and> hrMethod r \<noteq> lit ''DELETE'' then (hs, methodNotAllowed)
      else case decodeDelete J (hrBody r) of
        None \<Rightarrow> (hs, writeError ''Invalid request body'' 400)
      | Some key \<Rightarrow>
          if key = [] then (hs, writeError ''key is required'' 400)
          else case KVStore_Delete (heB E) (httpStore hs) key of
            (k, Inl e) \<Rightarrow> (withStore hs k, writeError (kv_errmsg e) 500)
          | (k, Inr _) \<Rightarrow> (withStore hs k, respond 200 success))"

definition handleKVUpdate ::
  "('db, 'txn) HttpEnv \<Rightarrow> HttpJson \<Rightarrow> HttpRequest \<Rightarrow> ('db, 'ext) HTTPServer \<Rightarrow> ('db, 'ext) HTTPServer \<times> HttpResponse" where
  "handleKVUpdate E J r hs =
     (if hrMethod r \<noteq> lit ''POST'' \<and> hrMethod r \<noteq> lit ''PUT'' then (hs, methodNotAllowed)
      else case decodeUpdate J (hrBody r) of
        None \<Rightarrow> (hs, writeError ''Invalid request body'' 400)
      | Some req \<Rightarrow>
          if urKey req = [] \<or> urValue req = [] then (hs, writeError ''key and value are required'' 400)
          else case KVStore_Get (heB E) (heNow E) (httpStore hs) (urKey req) of
            Inl _ \<Rightarrow> (hs, writeError ''Key does not exist'' 404)
          | Inr _ \<Rightarrow>
              (case KVStore_Set (heB E) (heNow E) (httpStore hs) (urKey req) (urValue req) (ttlDuration (urTTL req)) of
                 (k, Inl e) \<Rightarrow> (withStore hs k, writeError (kv_errmsg e) 500)
               | (k, Inr _) \<Rightarrow> (withStore hs k, respond 200 success)))"

section \<open>Queues\<close>

definition httpQueue :: "('db, 'ext) HTTPServer \<Rightarrow> 'db Queue" where
  "httpQueue hs = srvQueue (hsServer hs)"

definition withQueue :: "('db, 'ext) HTTPServer \<Rightarrow> 'db Queue \<Rightarrow> ('db, 'ext) HTTPServer" where
  "withQueue hs q = hs\<lparr>hsServer := (hsServer hs)\<lparr>srvQueue := q\<rparr>\<rparr>"

definition handleQueuesGet :: "HttpRequest \<Rightarrow> ('db, 'ext) HTTPServer \<Rightarrow> ('db, 'ext) HTTPServer \<times> HttpResponse" where
  "handleQueuesGet r hs =
     (if hrMethod r \<noteq> lit ''GET'' then (hs, methodNotAllowed) else (hs, respond 200 (QueueListResponse [] 0)))"

text \<open>\<open>None\<close> is a panic in \<open>Push\<close>, which does not occur (\<open>PushMessage_total\<close>).\<close>

definition handleQueuePush ::
  "('db, 'txn) HttpEnv \<Rightarrow> HttpJson \<Rightarrow> HttpRequest \<Rightarrow> ('db, 'ext) HTTPServer \<Rightarrow> (('db, 'ext) HTTPServer \<times> HttpResponse) option" where
  "handleQueuePush E J r hs =
     (if hrMethod r \<noteq> lit ''POST'' then Some (hs, methodNotAllowed)
      else case decodePush J (hrBody r) of
        None \<Rightarrow> Some (hs, writeError ''Invalid request body'' 400)
      | Some req \<Rightarrow>
          if prQueue req = [] \<or> prMessage req = [] then Some (hs, writeError ''queue and message are required'' 400)
          else map_option (\<lambda>(q, res). (withQueue hs q, case res of
              Inl e \<Rightarrow> writeError (queue_errmsg e) 500
            | Inr _ \<Rightarrow> respond 201 success))
            (Queue_Push (heB E) (heNow E) (heUUID E) (httpQueue hs) (prQueue req) (prMessage req)))"

definition handleQueuePop ::
  "('db, 'txn) HttpEnv \<Rightarrow> HttpJson \<Rightarrow> HttpRequest \<Rightarrow> ('db, 'ext) HTTPServer \<Rightarrow> ('db, 'ext) HTTPServer \<times> HttpResponse" where
  "handleQueuePop E J r hs =
     (if hrMethod r \<noteq> lit ''POST'' then (hs, methodNotAllowed)
      else case decodePop J (hrBody r) of
        None \<Rightarrow> (hs, writeError ''Invalid request body'' 400)
      | Some queue \<Rightarrow>
          if queue = [] then (hs, writeError ''queue is required'' 400)
          else case Queue_Pop (heB E) (heNow E) (httpQueue hs) queue of
            (q, Inl e) \<Rightarrow> (withQueue hs q, writeError (queue_errmsg e) 500)
          | (q, Inr msg) \<Rightarrow>
              (withQueue hs q, if isNil E msg then writeError ''Queue is empty'' 404 else respond 200 (PopResponse msg)))"

text \<open>Creating and deleting a queue change nothing.\<close>

definition handleQueueCreate ::
  "HttpJson \<Rightarrow> HttpRequest \<Rightarrow> ('db, 'ext) HTTPServer \<Rightarrow> ('db, 'ext) HTTPServer \<times> HttpResponse" where
  "handleQueueCreate J r hs =
     (if hrMethod r \<noteq> lit ''POST'' then (hs, methodNotAllowed)
      else case decodeCreateQueue J (hrBody r) of
        None \<Rightarrow> (hs, writeError ''Invalid request body'' 400)
      | Some name \<Rightarrow> if name = [] then (hs, writeError ''name is required'' 400) else (hs, respond 200 success))"

definition handleQueueDelete ::
  "HttpJson \<Rightarrow> HttpRequest \<Rightarrow> ('db, 'ext) HTTPServer \<Rightarrow> ('db, 'ext) HTTPServer \<times> HttpResponse" where
  "handleQueueDelete J r hs =
     (if hrMethod r \<noteq> lit ''POST'' then (hs, methodNotAllowed)
      else case decodeDeleteQueue J (hrBody r) of
        None \<Rightarrow> (hs, writeError ''Invalid request body'' 400)
      | Some name \<Rightarrow> if name = [] then (hs, writeError ''name is required'' 400) else (hs, respond 200 success))"

section \<open>Routes\<close>

text \<open>\<open>hs.router\<close> after \<open>registerRoutes\<close>; a path without a route is answered by \<open>net/http\<close>.\<close>

definition registerRoutes ::
  "('db, 'txn) HttpEnv \<Rightarrow> HttpJson \<Rightarrow> HttpRequest \<Rightarrow> ('db, 'ext) HTTPServer \<Rightarrow> (('db, 'ext) HTTPServer \<times> HttpResponse) option" where
  "registerRoutes E J r hs =
     (let path = hrPath r in
      if path = lit ''/health'' then Some (handleHealth hs)
      else if path = lit ''/status'' then Some (handleStatus E hs)
      else if path = lit ''/kv/keys'' then Some (handleKVKeys E r hs)
      else if path = lit ''/kv/get'' then Some (handleKVGet E r hs)
      else if path = lit ''/kv/set'' then Some (handleKVSet E J r hs)
      else if path = lit ''/kv/delete'' then Some (handleKVDelete E J r hs)
      else if path = lit ''/kv/update'' then Some (handleKVUpdate E J r hs)
      else if path = lit ''/queues'' then Some (handleQueuesGet r hs)
      else if path = lit ''/queues/push'' then handleQueuePush E J r hs
      else if path = lit ''/queues/pop'' then Some (handleQueuePop E J r hs)
      else if path = lit ''/queues/create'' then Some (handleQueueCreate J r hs)
      else if path = lit ''/queues/delete'' then Some (handleQueueDelete J r hs)
      else Some (hs, \<lparr>rsStatus = 404, rsHeaders = [], rsBody = Some (PlainText (lit ''404 page not found''))\<rparr>))"

definition corsHeaders :: "(gostring \<times> gostring) list" where
  "corsHeaders =
     [(lit ''Access-Control-Allow-Origin'', lit ''*''),
      (lit ''Access-Control-Allow-Methods'', lit ''GET, POST, PUT, DELETE, OPTIONS''),
      (lit ''Access-Control-Allow-Headers'', lit ''Content-Type, Authorization'')]"

definition corsMiddleware ::
  "(HttpRequest \<Rightarrow> 's \<Rightarrow> ('s \<times> HttpResponse) option) \<Rightarrow> HttpRequest \<Rightarrow> 's \<Rightarrow> ('s \<times> HttpResponse) option" where
  "corsMiddleware handler r s =
     (if hrMethod r = lit ''OPTIONS'' then Some (s, \<lparr>rsStatus = 200, rsHeaders = corsHeaders, rsBody = None\<rparr>)
      else map_option (\<lambda>(s, resp). (s, resp\<lparr>rsHeaders := corsHeaders @ rsHeaders resp\<rparr>)) (handler r s))"

text \<open>What the server that \<open>Start\<close> runs does with a request.\<close>

definition serveHTTP ::
  "('db, 'txn) HttpEnv \<Rightarrow> HttpJson \<Rightarrow> HttpRequest \<Rightarrow> ('db, 'ext) HTTPServer \<Rightarrow> (('db, 'ext) HTTPServer \<times> HttpResponse) option" where
  "serveHTTP E J = corsMiddleware (registerRoutes E J)"

end
