(* ===== verification/HttpProps.thy ===== *)
theory HttpProps
  imports HttpApi ServerProps
begin

text \<open>
  What the HTTP interface promises: values that are set are read back until they expire, an error changes nothing,
  and which requests do not do what their names say.
\<close>

section \<open>Requests\<close>

definition postTo :: "string \<Rightarrow> bytes \<Rightarrow> HttpRequest" where
  "postTo path body = \<lparr>hrMethod = lit ''POST'', hrPath = lit path, hrKey = [], hrBody = body\<rparr>"

definition getValue :: "gostring \<Rightarrow> HttpRequest" where
  "getValue key = \<lparr>hrMethod = lit ''GET'', hrPath = lit ''/kv/get'', hrKey = key, hrBody = []\<rparr>"

text \<open>A response with the headers that every response carries.\<close>

definition cors :: "HttpResponse \<Rightarrow> HttpResponse" where
  "cors resp = resp\<lparr>rsHeaders := corsHeaders @ rsHeaders resp\<rparr>"

lemma lit_eq [simp]: "lit a = lit b \<longleftrightarrow> a = b"
  using inj_lit by (auto simp: inj_def)

lemma request_simps [simp]:
  "hrMethod (postTo path body) = lit ''POST''" "hrPath (postTo path body) = lit path" "hrBody (postTo path body) = body"
  "hrMethod (getValue key) = lit ''GET''" "hrPath (getValue key) = lit ''/kv/get''" "hrKey (getValue key) = key"
  by (simp_all add: postTo_def getValue_def)

lemmas http_routes = serveHTTP_def corsMiddleware_def registerRoutes_def

lemma serve_set: "serveHTTP E J (postTo ''/kv/set'' body) hs = Some (apsnd cors (handleKVSet E J (postTo ''/kv/set'' body) hs))"
  by (simp add: http_routes apsnd_def map_prod_def cors_def split: prod.splits)

lemma serve_get: "serveHTTP E J (getValue key) hs = Some (apsnd cors (handleKVGet E (getValue key) hs))"
  by (simp add: http_routes apsnd_def map_prod_def cors_def split: prod.splits)

lemma serve_push: "serveHTTP E J (postTo ''/queues/push'' body) hs = map_option (apsnd cors) (handleQueuePush E J (postTo ''/queues/push'' body) hs)"
  by (simp add: http_routes apsnd_def map_prod_def cors_def split_def)

lemma serve_pop: "serveHTTP E J (postTo ''/queues/pop'' body) hs = Some (apsnd cors (handleQueuePop E J (postTo ''/queues/pop'' body) hs))"
  by (simp add: http_routes apsnd_def map_prod_def cors_def split: prod.splits)

section \<open>Keys\<close>

lemma httpStore_simps [simp]: "httpStore (withStore hs k) = k" "withStore hs (httpStore hs) = hs"
  by (simp_all add: httpStore_def withStore_def)

lemma not_found [simp]: "strContains ''key not found'' ''not found''"
  by code_simp

lemma handleKVGet_eq:
  "key \<noteq> [] \<Longrightarrow> handleKVGet E (getValue key) hs = (hs, case KVStore_Get (heB E) (heNow E) (httpStore hs) key of
     Inl e \<Rightarrow> if strContains (kv_errmsg e) ''not found'' then writeError ''Key not found'' 404 else writeError (kv_errmsg e) 500
   | Inr val \<Rightarrow> if isNil E val then writeError ''Key not found'' 404 else respond 200 (GetResponse key val))"
  by (simp add: handleKVGet_def split: sum.splits)

text \<open>C19: keys over HTTP.  A request to set a key is answered with the error of the store, and nothing has changed,
  or with 201.  In the second case a request for the key is answered with the value, for ever or until a second
  before the lifetime that was asked for has passed, and with 404 from then on, and a request for any other key
  is answered as before.\<close>

theorem http_set_get:
  assumes "badger_store (heB E)" and "heB E' = heB E" and "decodeSet J body = Some req" and "srKey req \<noteq> []" and "srValue req \<noteq> []"
    and "serveHTTP E J (postTo ''/kv/set'' body) hs = Some (hs', resp)" and "ttl = ttlDuration (srTTL req)"
  shows "(\<exists>e. resp = cors (writeError (kv_errmsg e) 500) \<and> hs' = hs) \<or>
    resp = cors (respond 201 success) \<and>
    (ttl \<le> 0 \<or> heNow E \<le> heNow E' \<and> heNow E' + second \<le> heNow E + ttl \<longrightarrow>
       serveHTTP E' J (getValue (srKey req)) hs' = Some (hs', cors (respond 200 (GetResponse (srKey req) (srValue req))))) \<and>
    (0 < ttl \<and> heNow E + ttl \<le> heNow E' \<longrightarrow>
       serveHTTP E' J (getValue (srKey req)) hs' = Some (hs', cors (writeError ''Key not found'' 404))) \<and>
    (key \<noteq> [] \<and> key \<noteq> srKey req \<longrightarrow>
       map_option snd (serveHTTP E' J (getValue key) hs') = map_option snd (serveHTTP E' J (getValue key) hs))"
proof -
  obtain k r where set: "KVStore_Set (heB E) (heNow E) (httpStore hs) (srKey req) (srValue req) ttl = (k, r)" by fastforce
  have step: "hs' = withStore hs k \<and> resp = cors (case r of Inl e \<Rightarrow> writeError (kv_errmsg e) 500 | Inr _ \<Rightarrow> respond 201 success)"
    using assms(3-7) set by (auto simp: serve_set handleKVSet_def split: sum.splits)
  show ?thesis
  proof (cases r)
    case (Inl e)
    then have "k = httpStore hs" using KVStore_errors(1) [OF assms(1)] set by blast
    with step Inl show ?thesis by auto
  next
    case (Inr u)
    with set have "KVStore_Set (heB E) (heNow E) (httpStore hs) (srKey req) (srValue req) ttl = (k, Inr ())" by simp
    note reads = KVStore_Set_reads [OF assms(1) this, of "heNow E'" key]
    show ?thesis
      by (intro disjI2 conjI impI) (use reads step Inr assms(2,4,5) in \<open>auto simp: serve_get handleKVGet_eq isNil_def\<close>)
  qed
qed

section \<open>Errors\<close>

lemma map_sum_Inl: "map_sum id f r = Inl e \<longleftrightarrow> r = Inl e"
  by (cases r) auto

lemma Update_unchanged: "badger_store B \<Longrightarrow> UpdateP B f d fn = Some (d', Inl e) \<Longrightarrow> d' = d"
  by (auto simp: UpdateP_def dest: badger_store.Update_error)

lemma Queue_errors:
  assumes "badger_store B"
  shows "Queue_Push B now uuid q name val = Some (q', Inl e) \<Longrightarrow> q' = q"
    and "Queue_Pop B now q name = (q', Inl e') \<Longrightarrow> q' = q"
proof -
  have push: "s' = s" if "PushMessage B now uuid s name val = Some (s', Inl e)" for s s'
    using that by (auto simp: PushMessage_def qUpdateP_def Let_def map_sum_Inl split: if_splits dest!: Update_unchanged [OF assms])
  show "q' = q" if "Queue_Push B now uuid q name val = Some (q', Inl e)"
    using that by (auto simp: Queue_Push_def onQueue_def map_sum_Inl dest!: push)
  show "q' = q" if "Queue_Pop B now q name = (q', Inl e')"
    using that badger_store.qUpdate_error [OF assms, of "qstorage q" "popBody B now name"]
    by (cases "Pop B now (qstorage q) name") (auto simp: Queue_Pop_def onQueue_def Pop_def split: if_splits)
qed

lemma withQueue_same [simp]: "withQueue hs (httpQueue hs) = hs"
  by (simp add: httpQueue_def withQueue_def)

lemma status_simps [simp]: "rsStatus (respond n b) = n" "rsStatus (writeError m n) = n" "rsStatus methodNotAllowed = 405"
    "rsStatus (cors resp) = rsStatus resp"
  by (simp_all add: respond_def writeError_def methodNotAllowed_def cors_def)

lemma Queue_Push_returns: "Queue_Push B now uuid q name val \<noteq> None"
  using PushMessage_total by (simp add: Queue_Push_def)

text \<open>What a handler of the HTTP interface leaves as it was when it reports an error.\<close>

definition errorKeeps :: "'s \<Rightarrow> 's \<times> HttpResponse \<Rightarrow> bool" where
  "errorKeeps hs res \<longleftrightarrow> (400 \<le> rsStatus (snd res) \<longrightarrow> fst res = hs)"

lemma http_handlers_keep:
  assumes "badger_store (heB E)"
  shows "errorKeeps hs (handleKVKeys E r hs)" "errorKeeps hs (handleKVGet E r hs)" "errorKeeps hs (handleKVSet E J r hs)"
    "errorKeeps hs (handleKVDelete E J r hs)" "errorKeeps hs (handleKVUpdate E J r hs)"
    "handleQueuePush E J r hs = Some res \<Longrightarrow> errorKeeps hs res"
proof -
  note errors = KVStore_errors [OF assms]
  show "errorKeeps hs (handleKVKeys E r hs)" "errorKeeps hs (handleKVGet E r hs)"
    by (auto simp: errorKeeps_def handleKVKeys_def handleKVGet_def Let_def split: sum.split)
  show "errorKeeps hs (handleKVSet E J r hs)"
    by (auto simp: errorKeeps_def handleKVSet_def dest: errors(1) split: option.split prod.split sum.split)
  show "errorKeeps hs (handleKVDelete E J r hs)"
    by (auto simp: errorKeeps_def handleKVDelete_def dest: errors(2) split: option.split prod.split sum.split)
  show "errorKeeps hs (handleKVUpdate E J r hs)"
    by (auto simp: errorKeeps_def handleKVUpdate_def dest: errors(1) split: option.split prod.split sum.split)
  show "handleQueuePush E J r hs = Some res \<Longrightarrow> errorKeeps hs res"
    by (auto simp: errorKeeps_def handleQueuePush_def dest!: Queue_errors(1) [OF assms] split: option.splits if_splits) (auto split: sum.splits dest!: Queue_errors(1) [OF assms])
qed

lemma pop_keeps:
  assumes "badger_store (heB E)"
  shows "errorKeeps hs (handleQueuePop E J r hs) \<or>
    heNil E \<and> rsStatus (snd (handleQueuePop E J r hs)) = 404 \<and> (\<exists>queue q. Queue_Pop (heB E) (heNow E) (httpQueue hs) queue = (q, Inr []))"
proof (cases "hrMethod r = lit ''POST''")
  case post: True
  show ?thesis
  proof (cases "decodePop J (hrBody r)")
    case (Some queue)
    obtain q res where pop: "Queue_Pop (heB E) (heNow E) (httpQueue hs) queue = (q, res)" by fastforce
    show ?thesis
    proof (cases res)
      case (Inl e)
      with pop Queue_errors(2) [OF assms] have "q = httpQueue hs" by blast
      with post Some pop Inl show ?thesis by (simp add: errorKeeps_def handleQueuePop_def)
    next
      case (Inr msg)
      with post Some pop show ?thesis by (cases "isNil E msg") (auto simp: errorKeeps_def handleQueuePop_def isNil_def)
    qed
  qed (simp add: errorKeeps_def handleQueuePop_def)
qed (simp add: errorKeeps_def handleQueuePop_def)

lemma other_handlers_keep:
  "errorKeeps hs (handleHealth hs)" "errorKeeps hs (handleStatus E hs)" "errorKeeps hs (handleQueuesGet r hs)"
  "errorKeeps hs (handleQueueCreate J r hs)" "errorKeeps hs (handleQueueDelete J r hs)"
  by (auto simp: errorKeeps_def handleHealth_def handleStatus_def handleQueuesGet_def handleQueueCreate_def handleQueueDelete_def
      split: option.splits)

lemma registerRoutes_returns: "\<exists>res. registerRoutes E J r hs = Some res"
  using Queue_Push_returns by (auto simp: registerRoutes_def handleQueuePush_def Let_def split: option.splits)

text \<open>C40: every HTTP request is answered, no handler panics, and a request that is answered with an error has changed
  nothing, with one exception: when Badger returns an empty value as nil, a pop from a queue removes an empty item
  and reports that the queue is empty.\<close>

theorem http_errors:
  assumes "badger_store (heB E)"
  shows "\<exists>hs' resp. serveHTTP E J r hs = Some (hs', resp) \<and>
    (400 \<le> rsStatus resp \<longrightarrow> hs' = hs \<or>
       heNil E \<and> hrPath r = lit ''/queues/pop'' \<and> rsStatus resp = 404 \<and> (\<exists>queue q. Queue_Pop (heB E) (heNow E) (httpQueue hs) queue = (q, Inr [])))"
proof (cases "hrMethod r = lit ''OPTIONS''")
  case True
  then show ?thesis by (simp add: serveHTTP_def corsMiddleware_def)
next
  case False
  obtain hs' resp where route: "registerRoutes E J r hs = Some (hs', resp)" using registerRoutes_returns by fast
  then have serve: "serveHTTP E J r hs = Some (hs', cors resp)"
    using False by (simp add: serveHTTP_def corsMiddleware_def cors_def)
  have "errorKeeps hs (hs', resp) \<or> hrPath r = lit ''/queues/pop'' \<and> handleQueuePop E J r hs = (hs', resp)"
    using route http_handlers_keep(1,2) [OF assms, where hs = hs and r = r] http_handlers_keep(3-6) [OF assms, where hs = hs and r = r and J = J]
      other_handlers_keep(1) [where hs = hs] other_handlers_keep(2) [where hs = hs and E = E] other_handlers_keep(3) [where hs = hs and r = r] other_handlers_keep(4,5) [where hs = hs and J = J and r = r]
    by (auto simp: registerRoutes_def Let_def split: if_splits) (simp add: errorKeeps_def)
  with serve pop_keeps [OF assms, of hs J r] show ?thesis by (auto simp: errorKeeps_def)
qed

section \<open>Requests that do not do what they are for\<close>

text \<open>A message that is pushed over HTTP cannot be popped over HTTP.  On a queue without legacy items, a push that
  is answered with 201 is followed by pops that are answered with 500 and change nothing; the answer 404 for an
  empty queue is not given.\<close>

theorem http_push_pop:
  assumes "badger_store (heB E)" and "heB E' = heB E" and "queueRep (heB E) (qstorage (httpQueue hs)) Q n"
    and "decodePush J body = Some req" and "Q (prQueue req) = []" and "decodePop J body' = Some (prQueue req)"
    and "serveHTTP E J (postTo ''/queues/push'' body) hs = Some (hs', resp)" and "rsStatus resp = 201"
  shows "serveHTTP E' J (postTo ''/queues/pop'' body') hs' = Some (hs', cors (writeError ''queue is empty'' 500))"
proof -
  obtain res where h: "handleQueuePush E J (postTo ''/queues/push'' body) hs = Some (hs', res)" "rsStatus res = 201"
    using assms(7,8) by (auto simp: serve_push)
  have req: "prQueue req \<noteq> [] \<and> prMessage req \<noteq> []"
  proof (rule ccontr)
    assume "\<not> ?thesis"
    then have "res = writeError ''queue and message are required'' 400" using h(1) assms(4) by (auto simp: handleQueuePush_def)
    with h(2) show False by simp
  qed
  obtain q r where q: "Queue_Push (heB E) (heNow E) (heUUID E) (httpQueue hs) (prQueue req) (prMessage req) = Some (q, r)"
    using Queue_Push_returns by fastforce
  with h req assms(4) have hs': "hs' = withQueue hs q" "res = (case r of Inl e \<Rightarrow> writeError (queue_errmsg e) 500 | Inr _ \<Rightarrow> respond 201 success)"
    by (simp_all add: handleQueuePush_def)
  with h(2) have "r = Inr ()" by (cases r) auto
  with q have push: "Queue_Push (heB E) (heNow E) (heUUID E) (httpQueue hs) (prQueue req) (prMessage req) = Some (q, Inr ())" by simp
  have "Queue_Pop (heB E) (heNow E') q (prQueue req) = (q, Inl ErrQueueEmpty)"
    using push_invisible [OF assms(1,3,5) push] by blast
  moreover have "httpQueue (withQueue hs q) = q" "withQueue (withQueue hs q) q = withQueue hs q"
    by (simp_all add: httpQueue_def withQueue_def)
  ultimately show ?thesis using assms(2,6) req hs'(1) by (simp add: serve_pop handleQueuePop_def)
qed

text \<open>A lifetime within the range of a \<open>time.Duration\<close> is kept; a longer one wraps around and may be negative, which
  the store takes for no lifetime at all.\<close>

lemma ttlDuration_exact: "0 < sint t \<Longrightarrow> sint t \<le> 9223372036 \<Longrightarrow> ttlDuration t = sint t * 1000000000"
  by (simp add: ttlDuration_def word_sless_alt sint_word_ariths signed_take_bit_int_eq_self)

lemma ttlDuration_wraps: "ttlDuration 9223372037 < 0"
  by code_simp

section \<open>At concrete inputs\<close>

definition httpEnv :: "time \<Rightarrow> (mem_db, mem_txn) HttpEnv" where
  "httpEnv now = \<lparr>heB = mem_badger, heNow = now, heTime = [], heUUID = [97], heVisit = (\<lambda>_. []), heNil = True\<rparr>"

definition fixedJson :: HttpJson where
  "fixedJson = \<lparr>decodeSet = (\<lambda>_. Some \<lparr>srKey = [107], srValue = [7], srTTL = 5\<rparr>), decodeUpdate = (\<lambda>_. None), decodeDelete = (\<lambda>_. None),
     decodePush = (\<lambda>_. Some \<lparr>prQueue = [113], prMessage = [1, 2]\<rparr>), decodePop = (\<lambda>_. Some [113]), decodeCreateQueue = (\<lambda>_. None),
     decodeDeleteQueue = (\<lambda>_. None)\<rparr>"

definition memHttp :: "(mem_db, unit) HTTPServer" where
  "memHttp = NewHTTPServer mem_server [] []"

lemma mem_http [simp]:
  "heB (httpEnv now) = mem_badger" "heNow (httpEnv now) = now" "decodeSet fixedJson body = Some \<lparr>srKey = [107], srValue = [7], srTTL = 5\<rparr>"
  "decodePush fixedJson body = Some \<lparr>prQueue = [113], prMessage = [1, 2]\<rparr>" "decodePop fixedJson body = Some [113]"
  by (simp_all add: httpEnv_def fixedJson_def)

lemma mem_served:
  assumes "map_option (rsStatus \<circ> snd) (serveHTTP E J r hs) = Some n"
  obtains hs' resp where "serveHTTP E J r hs = Some (hs', resp)" and "rsStatus resp = n"
  using assms by (cases "serveHTTP E J r hs") auto

theorem http_set_get_witness:
  "\<exists>hs'. serveHTTP (httpEnv 0) fixedJson (postTo ''/kv/set'' []) memHttp = Some (hs', cors (respond 201 success)) \<and>
     serveHTTP (httpEnv (4 * second)) fixedJson (getValue [107]) hs' = Some (hs', cors (respond 200 (GetResponse [107] [7]))) \<and>
     serveHTTP (httpEnv (5 * second)) fixedJson (getValue [107]) hs' = Some (hs', cors (writeError ''Key not found'' 404))"
proof -
  have "map_option (rsStatus \<circ> snd) (serveHTTP (httpEnv 0) fixedJson (postTo ''/kv/set'' []) memHttp) = Some 201" by code_simp
  then obtain hs' resp where set: "serveHTTP (httpEnv 0) fixedJson (postTo ''/kv/set'' []) memHttp = Some (hs', resp)" "rsStatus resp = 201"
    by (rule mem_served)
  have ttl: "ttlDuration (srTTL \<lparr>srKey = [107], srValue = [7], srTTL = 5\<rparr>) = 5 * second" by code_simp
  note * = http_set_get [OF _ _ _ _ _ set(1) refl, where req = "\<lparr>srKey = [107], srValue = [7], srTTL = 5\<rparr>", unfolded ttl]
  have "resp \<noteq> cors (writeError m 500)" for m using set(2) by auto
  then show ?thesis
    using set * [of "httpEnv (4 * second)" "[]"] * [of "httpEnv (5 * second)" "[]"] mem.badger_store_axioms
    by (auto simp: second_def)
qed

theorem http_errors_witness:
  "\<exists>resp. serveHTTP (httpEnv 0) fixedJson (postTo ''/kv/get'' []) memHttp = Some (memHttp, resp) \<and> rsStatus resp = 405"
proof -
  have "map_option (rsStatus \<circ> snd) (serveHTTP (httpEnv 0) fixedJson (postTo ''/kv/get'' []) memHttp) = Some 405" by code_simp
  then obtain hs' resp where get: "serveHTTP (httpEnv 0) fixedJson (postTo ''/kv/get'' []) memHttp = Some (hs', resp)" "rsStatus resp = 405"
    by (rule mem_served)
  with http_errors [of "httpEnv 0" fixedJson "postTo ''/kv/get'' []" memHttp] mem.badger_store_axioms show ?thesis
    by simp
qed

theorem http_push_pop_witness:
  "\<exists>hs' resp. serveHTTP (httpEnv 0) fixedJson (postTo ''/queues/push'' []) memHttp = Some (hs', resp) \<and> rsStatus resp = 201 \<and>
     serveHTTP (httpEnv 1) fixedJson (postTo ''/queues/pop'' []) hs' = Some (hs', cors (writeError ''queue is empty'' 500))"
proof -
  have "map_option (rsStatus \<circ> snd) (serveHTTP (httpEnv 0) fixedJson (postTo ''/queues/push'' []) memHttp) = Some 201" by code_simp
  then obtain hs' resp where push: "serveHTTP (httpEnv 0) fixedJson (postTo ''/queues/push'' []) memHttp = Some (hs', resp)" "rsStatus resp = 201"
    by (rule mem_served)
  have "queueRep mem_badger (qstorage (httpQueue memHttp)) (\<lambda>_. []) 0"
    using mem.queueRep_fresh [of "[]"] by (simp add: memHttp_def NewHTTPServer_def httpQueue_def mem_server_def mem_eval)
  with http_push_pop [OF _ _ _ _ _ _ push, of "httpEnv 1" "\<lambda>_. []" 0 "\<lparr>prQueue = [113], prMessage = [1, 2]\<rparr>" "[]"] push mem.badger_store_axioms show ?thesis
    by simp
qed

end
