(* ===== verification/Cli.thy ===== *)
theory Cli
  imports ServerProps
begin

text \<open>
  The command-line program, \<open>src/cmd/flincli/main.go\<close>: a process opens the store, does one operation and closes it.
  What it prints is a value of \<open>printed\<close>, not its text.  The database on disk is the argument and the result of
  a process; \<open>os.Exit\<close> ends it without the deferred \<open>Close\<close>.  The benchmark is left out.
\<close>

section \<open>The program\<close>

datatype printed =
    Banner
  | UsageText
  | UsageOf string
  | UnknownCommand gostring
  | ErrorLine gostring
  | InvalidTTL gostring
  | SetLine gostring
  | SetTTLLine gostring duration
  | ValueLine bytes
  | DeletedLine gostring
  | ExistsLine gostring
  | MissingLine gostring
  | BenchmarkRuns

text \<open>What a process leaves: its exit code, what it printed and the database.\<close>

record 'db process =
  exitCode :: nat
  printout :: "printed list"
  disk :: 'db

text \<open>\<open>openErr\<close> is the error of opening the database, \<open>mkdirErr\<close> that of making its directory.\<close>

record ('db, 'txn) CliEnv =
  ceB :: "('db, 'txn) badger"
  ceNow :: time
  mkdirErr :: "gostring option"
  openErr :: "badger_err option"

definition getStore :: "('db, 'txn) CliEnv \<Rightarrow> 'db \<Rightarrow> gostring + 'db KVStore" where
  "getStore E d =
     (case mkdirErr E of
        Some e \<Rightarrow> Inl (lit ''failed to create data directory: '' @ e)
      | None \<Rightarrow>
          (case KVStore_New (case openErr E of None \<Rightarrow> Inr d | Some e \<Rightarrow> Inl e) of
             Inl e \<Rightarrow> Inl (kvText (KVBadger e))
           | Inr store \<Rightarrow> Inr store))"

text \<open>\<open>fmt.Printf("Error: %v\n", err); os.Exit(1)\<close>, and the end of \<open>main\<close>, which closes the store.\<close>

definition failWith :: "printed \<Rightarrow> 'db \<Rightarrow> 'db process" where
  "failWith line d = \<lparr>exitCode = 1, printout = [line], disk = d\<rparr>"

definition finish :: "('db, 'txn) CliEnv \<Rightarrow> printed \<Rightarrow> 'db KVStore \<Rightarrow> 'db process" where
  "finish E line store = \<lparr>exitCode = 0, printout = [line], disk = kvdb (storage (fst (KVStore_Close (ceB E) store)))\<rparr>"

definition diskOf :: "'db KVStore \<Rightarrow> 'db" where
  "diskOf store = kvdb (storage store)"

text \<open>\<open>strconv.Atoi\<close>: an optional sign and decimal digits, within 64 bits.\<close>

definition digitVal :: "byte \<Rightarrow> nat option" where
  "digitVal b = (if 48 \<le> b \<and> b \<le> 57 then Some (unat b - 48) else None)"

fun digitsVal :: "nat \<Rightarrow> bytes \<Rightarrow> nat option" where
  "digitsVal n [] = Some n"
| "digitsVal n (b # bs) = (case digitVal b of None \<Rightarrow> None | Some d \<Rightarrow> digitsVal (10 * n + d) bs)"

definition Atoi :: "gostring \<Rightarrow> gostring + goint" where
  "Atoi s =
     (let neg = (s \<noteq> [] \<and> hd s = 45); digits = (if s \<noteq> [] \<and> (hd s = 45 \<or> hd s = 43) then tl s else s);
          bad = (\<lambda>why. Inl (lit ''strconv.Atoi: parsing '' @ [34] @ s @ [34] @ lit why))
      in case (if digits = [] then None else digitsVal 0 digits) of
           None \<Rightarrow> bad '': invalid syntax''
         | Some n \<Rightarrow>
             if (if neg then n \<le> 2 ^ 63 else n < 2 ^ 63) then Inr (if neg then - word_of_nat n else word_of_nat n)
             else bad '': value out of range'')"

definition runSet :: "('db, 'txn) CliEnv \<Rightarrow> gostring \<Rightarrow> gostring \<Rightarrow> gostring list \<Rightarrow> 'db \<Rightarrow> 'db process" where
  "runSet E key val args d =
     (case getStore E d of
        Inl e \<Rightarrow> failWith (ErrorLine e) d
      | Inr store \<Rightarrow>
          (case (case args of [] \<Rightarrow> Inr 0 | a # _ \<Rightarrow> map_sum id (\<lambda>seconds. sint (seconds * 1000000000)) (Atoi a)) of
             Inl e \<Rightarrow> failWith (InvalidTTL e) (diskOf store)
           | Inr ttl \<Rightarrow>
               (case KVStore_Set (ceB E) (ceNow E) store key val ttl of
                  (store, Inl e) \<Rightarrow> failWith (ErrorLine (kvText e)) (diskOf store)
                | (store, Inr _) \<Rightarrow> finish E (if 0 < ttl then SetTTLLine key ttl else SetLine key) store)))"

definition runGet :: "('db, 'txn) CliEnv \<Rightarrow> gostring \<Rightarrow> 'db \<Rightarrow> 'db process" where
  "runGet E key d =
     (case getStore E d of
        Inl e \<Rightarrow> failWith (ErrorLine e) d
      | Inr store \<Rightarrow>
          (case KVStore_Get (ceB E) (ceNow E) store key of
             Inl e \<Rightarrow> failWith (ErrorLine (kvText e)) (diskOf store)
           | Inr val \<Rightarrow> finish E (ValueLine val) store))"

definition runDelete :: "('db, 'txn) CliEnv \<Rightarrow> gostring \<Rightarrow> 'db \<Rightarrow> 'db process" where
  "runDelete E key d =
     (case getStore E d of
        Inl e \<Rightarrow> failWith (ErrorLine e) d
      | Inr store \<Rightarrow>
          (case KVStore_Delete (ceB E) store key of
             (store, Inl e) \<Rightarrow> failWith (ErrorLine (kvText e)) (diskOf store)
           | (store, Inr _) \<Rightarrow> finish E (DeletedLine key) store))"

definition runExists :: "('db, 'txn) CliEnv \<Rightarrow> gostring \<Rightarrow> 'db \<Rightarrow> 'db process" where
  "runExists E key d =
     (case getStore E d of
        Inl e \<Rightarrow> failWith (ErrorLine e) d
      | Inr store \<Rightarrow>
          (case KVStore_Exists (ceB E) (ceNow E) store key of
             Inl e \<Rightarrow> failWith (ErrorLine (kvText e)) (diskOf store)
           | Inr ok \<Rightarrow> finish E (if ok then ExistsLine key else MissingLine key) store))"

text \<open>\<open>args\<close> is \<open>os.Args[1:]\<close>.\<close>

definition cliMain :: "('db, 'txn) CliEnv \<Rightarrow> gostring list \<Rightarrow> 'db \<Rightarrow> 'db process" where
  "cliMain E args d =
     (case args of
        [] \<Rightarrow> failWith UsageText d
      | command # rest \<Rightarrow>
          if command \<in> {lit ''version'', lit ''-v'', lit ''--version''} then \<lparr>exitCode = 0, printout = [Banner], disk = d\<rparr>
          else if command \<in> {lit ''benchmark'', lit ''bench''} then \<lparr>exitCode = 0, printout = [BenchmarkRuns], disk = d\<rparr>
          else if command = lit ''set'' then
            (case rest of key # val # extra \<Rightarrow> runSet E key val extra d | _ \<Rightarrow> failWith (UsageOf ''flin set <key> <value> [ttl_seconds]'') d)
          else if command = lit ''get'' then
            (case rest of key # _ \<Rightarrow> runGet E key d | _ \<Rightarrow> failWith (UsageOf ''flin get <key>'') d)
          else if command \<in> {lit ''delete'', lit ''del''} then
            (case rest of key # _ \<Rightarrow> runDelete E key d | _ \<Rightarrow> failWith (UsageOf ''flin delete <key>'') d)
          else if command = lit ''exists'' then
            (case rest of key # _ \<Rightarrow> runExists E key d | _ \<Rightarrow> failWith (UsageOf ''flin exists <key>'') d)
          else if command \<in> {lit ''help'', lit ''-h'', lit ''--help''} then \<lparr>exitCode = 0, printout = [UsageText], disk = d\<rparr>
          else \<lparr>exitCode = 1, printout = [UnknownCommand command, UsageText], disk = d\<rparr>)"

section \<open>Properties\<close>

text \<open>A database that was closed reads, when it is opened again, as before.\<close>

definition durable :: "('db, 'txn) badger \<Rightarrow> bool" where
  "durable B \<longleftrightarrow> (\<forall>d u k. dbGet B (fst (dbClose B d)) u k = dbGet B d u k)"

text \<open>A store that a process opened.\<close>

lemma getStore_opened: "getStore E d = Inr store \<Longrightarrow> store = \<lparr>storage = \<lparr>kvdb = d, closed = False\<rparr>\<rparr>"
  by (auto simp: getStore_def KVStore_New_def NewKVStorage_def split: option.splits sum.splits)

lemma finish_disk: "\<not> closed (storage store) \<Longrightarrow> disk (finish E line store) = fst (dbClose (ceB E) (diskOf store))"
  by (simp add: finish_def KVStore_Close_def Close_def onStorage_def diskOf_def split: prod.split option.split)

lemma reopened_reads:
  assumes "durable B" and "\<not> closed (storage store)"
  shows "KVStore_Get B u \<lparr>storage = \<lparr>kvdb = fst (dbClose B (diskOf store)), closed = False\<rparr>\<rparr> key = KVStore_Get B u store key"
  using assms by (cases "key = []") (simp_all add: KVStore_Get_def Get_open diskOf_def durable_def, simp add: Get_def)

definition failKeeps :: "'db \<Rightarrow> 'db process \<Rightarrow> bool" where
  "failKeeps d pr \<longleftrightarrow> (exitCode pr \<noteq> 0 \<longrightarrow> disk pr = d)"

lemma failKeeps_rules:
  "failKeeps d (failWith line d)" "failKeeps d \<lparr>exitCode = n, printout = ls, disk = d\<rparr>" "failKeeps d (finish E line store)"
  "(b \<Longrightarrow> failKeeps d x) \<Longrightarrow> (\<not> b \<Longrightarrow> failKeeps d y) \<Longrightarrow> failKeeps d (if b then x else y)"
  by (simp_all add: failKeeps_def failWith_def finish_def)

text \<open>A process that fails has changed nothing.\<close>

theorem cli_errors:
  assumes "badger_store (ceB E)"
  shows "exitCode (cliMain E args d) \<noteq> 0 \<longrightarrow> disk (cliMain E args d) = d"
proof -
  have set: "failKeeps d (runSet E key val extra d)" for key val extra
    by (auto simp: runSet_def diskOf_def failKeeps_rules split: sum.split prod.split dest!: getStore_opened KVStore_errors(1) [OF assms])
  have del: "failKeeps d (runDelete E key d)" for key
    by (auto simp: runDelete_def diskOf_def failKeeps_rules split: sum.split prod.split dest!: getStore_opened KVStore_errors(2) [OF assms])
  have get: "failKeeps d (runGet E key d)" for key
    by (auto simp: runGet_def diskOf_def failKeeps_rules split: sum.split dest!: getStore_opened)
  have exs: "failKeeps d (runExists E key d)" for key
    by (auto simp: runExists_def diskOf_def failKeeps_rules split: sum.split dest!: getStore_opened)
  have "failKeeps d (cliMain E args d)"
  proof (cases args)
    case (Cons command rest)
    have "failKeeps d (case rest of key # val # extra \<Rightarrow> runSet E key val extra d | _ \<Rightarrow> failWith line d)" for line
      by (simp add: set failKeeps_rules split: list.split)
    moreover have "failKeeps d (case rest of key # _ \<Rightarrow> f key | _ \<Rightarrow> failWith line d)" if "\<And>key. failKeeps d (f key)" for f line
      using that by (simp add: failKeeps_rules split: list.split)
    ultimately show ?thesis
      unfolding cliMain_def Cons list.case by (intro failKeeps_rules) (simp_all add: get del exs)
  qed (simp add: cliMain_def failKeeps_rules)
  then show ?thesis by (simp add: failKeeps_def)
qed

text \<open>One process sets a key and ends with code 0; a later process prints the value, and one that asks for a key that
  a process deleted fails.\<close>

lemma runSet_done:
  assumes "badger_store (ceB E)" and "exitCode (runSet E key val [] d) = 0"
  obtains store where "disk (runSet E key val [] d) = fst (dbClose (ceB E) (diskOf store))" and "\<not> closed (storage store)"
    and "\<And>u. KVStore_Get (ceB E) u store key = Inr val"
proof -
  let ?s = "\<lparr>storage = \<lparr>kvdb = d, closed = False\<rparr>\<rparr>"
  have open_store: "getStore E d = Inr ?s"
    using assms(2) getStore_opened [of E d] by (cases "getStore E d") (auto simp: runSet_def failWith_def)
  obtain store r where set: "KVStore_Set (ceB E) (ceNow E) ?s key val 0 = (store, r)" by fastforce
  with assms(2) open_store have r: "r = Inr ()" by (cases r) (simp_all add: runSet_def failWith_def)
  then have "Set (ceB E) (ceNow E) (storage ?s) key val 0 = (storage store, Inr ())"
    using set by (cases "Set (ceB E) (ceNow E) (storage ?s) key val 0") (auto simp: KVStore_Set_def onStorage_def)
  then have "\<not> closed (storage store)" using badger_store.Set_success [OF assms(1)] by fastforce
  moreover from this have "disk (runSet E key val [] d) = fst (dbClose (ceB E) (diskOf store))"
    using set r open_store finish_disk [of store] by (simp add: runSet_def)
  moreover have "KVStore_Get (ceB E) u store key = Inr val" for u
    using KVStore_Set_reads [OF assms(1) set [unfolded r]] by simp
  ultimately show ?thesis using that by blast
qed

theorem cli_set_get:
  assumes "badger_store (ceB E)" and "durable (ceB E)" and "exitCode (cliMain E [lit ''set'', key, val] d) = 0"
    and "ceB E' = ceB E" and "mkdirErr E' = None" and "openErr E' = None"
  shows "exitCode (cliMain E' [lit ''get'', key] (disk (cliMain E [lit ''set'', key, val] d))) = 0 \<and>
    printout (cliMain E' [lit ''get'', key] (disk (cliMain E [lit ''set'', key, val] d))) = [ValueLine val]"
proof -
  have main: "cliMain E [lit ''set'', key, val] d = runSet E key val [] d" "cliMain E' [lit ''get'', key] d' = runGet E' key d'" for d'
    by (simp_all add: cliMain_def inj_lit)
  from assms(3) have "exitCode (runSet E key val [] d) = 0" by (simp add: main)
  then obtain store where s: "disk (runSet E key val [] d) = fst (dbClose (ceB E) (diskOf store))" "\<not> closed (storage store)"
    "\<And>u. KVStore_Get (ceB E) u store key = Inr val" using runSet_done [OF assms(1)] by blast
  have "KVStore_Get (ceB E) (ceNow E') \<lparr>storage = \<lparr>kvdb = fst (dbClose (ceB E) (diskOf store)), closed = False\<rparr>\<rparr> key = Inr val"
    using reopened_reads [OF assms(2) s(2)] s(3) by simp
  then show ?thesis
    using assms(4-6) by (simp add: main s(1) runGet_def getStore_def KVStore_New_def NewKVStorage_def finish_def)
qed

definition memCli :: "(mem_db, mem_txn) CliEnv" where
  "memCli = \<lparr>ceB = mem_badger, ceNow = 0, mkdirErr = None, openErr = None\<rparr>"

theorem cli_set_get_witness:
  "printout (cliMain memCli [lit ''get'', lit ''k''] (disk (cliMain memCli [lit ''set'', lit ''k'', lit ''v''] []))) = [ValueLine (lit ''v'')]"
proof -
  have "exitCode (cliMain memCli [lit ''set'', lit ''k'', lit ''v''] []) = 0" by code_simp
  then show ?thesis
    using cli_set_get [of memCli "lit ''k''" "lit ''v''" "[]" memCli] mem.badger_store_axioms by (simp add: memCli_def durable_def mem_eval)
qed

end
