(* ===== verification/Spec2Isabelle.thy ===== *)
theory Spec2Isabelle
  imports NetRoundtrip PkgProtocol KVProps QueueCodec QueueFifo QueueAPI DocServer ClientRuns ServerConns HttpProps Cli
begin

text \<open>
  A verification development for Flin, a server that offers a key-value store, queues, streams and a
  document store over one binary protocol, written in Go over the embedded store BadgerDB.

  \<^bold>\<open>The program.\<close>  A client (\<open>src/clients/go\<close>) encodes requests with the protocol of
  \<open>src/internal/net/protocol.go\<close> and sends them over a connection; the server
  (\<open>src/internal/server\<close>) decodes them and calls one of the stores: \<open>src/internal/kv\<close> (keys,
  counters, scans, batches), \<open>src/internal/queue\<close> (a legacy FIFO queue and messages with
  acknowledgement), \<open>src/internal/stream\<close> (topics with partitions and consumer groups) and
  \<open>src/internal/db\<close> (documents).  Each store keeps its data in a Badger database of its own, under
  textual keys, and every operation is one Badger transaction.

  \<^bold>\<open>How code is modelled.\<close>  Go functions are HOL functions of the same name; a method takes its
  receiver's state and returns it updated with the result.  Structs are records (a field name that two
  structs share carries a prefix), enumerations and error values are datatypes, integers keep their width
  as words, strings and byte slices are lists of bytes.  An error is the left of a sum; a run-time panic
  is \<open>None\<close> of an \<open>option\<close> around the result, so that a theorem \<open>f x = Some r\<close> says that the
  code does not panic.  The clock (\<open>now\<close>, nanoseconds, read once per operation), the identifiers
  \<open>uuid.New()\<close> returns and the order in which a Go map is visited are arguments.  Loops are
  structurally recursive functions or have a termination proof; nothing runs on fuel.

  \<^bold>\<open>Badger\<close> is not part of the repository.  \<open>Badger\<close> models what the code uses of it as a record of
  operations over unknown types, and states Badger's documented behaviour as the locale
  \<open>badger_store\<close>: a transaction reads its snapshot and its own writes, a commit that succeeds
  installs exactly them, a failed one nothing, entries expire with their TTL, iteration is by byte order.
  \<open>mem_badger\<close> is an executable store that meets the locale (\<open>interpretation mem\<close>); every theorem
  that assumes \<open>badger_store B\<close> is applied to it once.  \<open>badger_reliable\<close> extends the contract: no
  write inside a transaction fails.  It is needed only for the expiry scan, which goes on after a failed
  write.

  \<^bold>\<open>The theories.\<close>

  \<^item> \<open>Prelude\<close>: Go's values, slices with their panics, \<open>encoding/binary\<close>, the cursor with which
    encoders fill a buffer, the reads of the decoders, decimal formats; the collections
    \<open>cursor_simps\<close>, \<open>read_simps\<close> and \<open>key_simps\<close>.
  \<^item> \<open>NetProtocol\<close>, \<open>NetDecode\<close>: every operation code, encoder and decoder of
    \<open>src/internal/net/protocol.go\<close>.  \<open>NetRoundtrip\<close>: decoding inverts encoding for every kind of
    request and response within the format's limits; the exact set of inputs on which
    \<open>DecodeRequest\<close> panics (sums computed in 16 and 32 bits wrap around); bytes after the first frame
    are ignored; a batch publish cannot be decoded.
  \<^item> \<open>PkgProtocol\<close>: the copy \<open>src/pkg/protocol/binary.go\<close>, on which inputs the two copies agree, and where
    they misread each other.
  \<^item> \<open>KV\<close>: \<open>src/internal/kv/storage.go\<close>.  \<open>KVStore\<close>: the interface \<open>StorageBackend\<close> as a locale
    with the laws of its single-key operations, a \<open>sublocale\<close> for the Badger-backed storage, and the
    API of \<open>kv.go\<close>.  \<open>KVProps\<close>: what \<open>Get\<close> returns after \<open>Set\<close> (with TTL), \<open>Delete\<close>,
    \<open>Incr\<close>, \<open>Decr\<close>, \<open>BatchSet\<close> and \<open>BatchDelete\<close>, with the frame of each; scans are sorted,
    complete, and consistent with each other; the chunked \<open>BatchGet\<close> equals single reads; errors and a
    closed storage change nothing; interleaved increments are lost.
  \<^item> \<open>Queue\<close>: \<open>src/internal/queue/storage.go\<close> (legacy queue, keys, stored formats).
    \<open>QueueCodec\<close>: the formats round-trip; short data panics.  \<open>QueueFifo\<close>: the locale
    \<open>fifo_store\<close> and its \<open>sublocale\<close> for the legacy queue, a refinement of one list per queue name.
  \<^item> \<open>QueueAck\<close>: \<open>storage_ack.go\<close>.  \<open>QueueMessages\<close>: the relation \<open>msgRep\<close> between the stored
    entries and a map of messages, kept by the writes.  \<open>QueueOps\<close>: each operation as a transition of
    that map, by a calculus of outcomes.  \<open>QueueRuns\<close>: the state machine \<open>mstep\<close>, the locale
    \<open>message_store\<close> with what follows for histories, and its \<open>sublocale\<close> for the storage.
    \<open>QueueProps\<close>: the resulting properties, and duplicate delivery by concurrent transactions.
    \<open>QueueAPI\<close>: \<open>queue.go\<close> and \<open>worker.go\<close>, with theorems about the configuration, the worker,
    and that \<open>Push\<close> of the API does not feed its \<open>Pop\<close>.

  \<^item> \<open>Server\<close>: the request processing of \<open>src/internal/server\<close> for one connection: dispatch,
    handlers of keys and queues, the text protocol, fast and slow path, workers, the connection's loops,
    \<open>Stop\<close>.  A value of a text command is a slice of the read buffer, so that what a worker stores is
    what the buffer holds when it runs.  \<open>ServerProps\<close>: set and get over the wire, exactly which
    requests panic, which are misread or refused.  \<open>ServerRuns\<close>: the invariant over every interleaving
    of readers, writers and workers; \<open>Stop\<close> drains the jobs.  The locale \<open>server_state\<close> says what a predicate
    on the state has to keep for every handler to keep it; it is interpreted for this invariant and for the
    growth of the job queue.  \<open>ServerConns\<close>: all connections of a server, with the buffers they take from a pool
    and give back: open connections never share one, but a queued job can outlive the connection whose buffer it
    reads.  \<open>HttpApi\<close>: the HTTP interface of \<open>http_api.go\<close>.  \<open>HttpProps\<close>: keys over HTTP, errors that change
    nothing, and a push that no pop sees.
  \<^item> \<open>Stream\<close>: the storage of \<open>src/internal/stream\<close> (\<open>storage.go\<close>, \<open>storage_atomic.go\<close>,
    \<open>storage_batch.go\<close>).  \<open>StreamAPI\<close>: \<open>stream.go\<close> and \<open>stream_helpers.go\<close>.  A buffered message
    refers to its value; \<open>seLoad\<close> reads it at the time of the flush.  \<open>StreamLog\<close>: the relation
    \<open>streamRep\<close> between the database with the write buffer over it and one log per partition; the order
    of the keys is the order of the offsets.  \<open>StreamProps\<close>: the locale \<open>partition_log\<close>, what follows
    for a consumer that polls, and its \<open>sublocale\<close> for the storage; failing flushes and restarts.
    \<open>StreamGroups\<close>: the assignment of partitions, and the invariant of the consumer groups over all
    operations.  \<open>StreamConsume\<close>: publishing, consuming, committing.  \<open>StreamRetain\<close>: retention.
    \<open>StreamHandlers\<close>: the server's handlers for streams.  \<open>StreamServer\<close>: what a publish request stores
    and what a consume response carries.

  \<^item> \<open>DocValues\<close>: the values of \<open>src/internal/db\<close>, its filters and its sort (\<open>types.go\<close>,
    \<open>helpers.go\<close>).  An \<open>interface{}\<close> is a value with its type; floating-point numbers and
    \<open>encoding/json\<close> are parameters, and \<open>go_json\<close> states that unmarshalling inverts marshalling up to
    the types of numbers.  \<open>DocStore\<close>: \<open>storage.go\<close> and the indexes of \<open>db.go\<close>.  \<open>DocOps\<close>: the
    operations of \<open>db.go\<close>.  \<open>DocQuery\<close>: the builders of \<open>query.go\<close>.  \<open>DocHandlers\<close>: the handlers of
    \<open>src/internal/server/db_handlers.go\<close>.  \<open>DocInstance\<close>: an executable instance of \<open>go_json\<close>.
    \<open>DocSort\<close>: the bubble sort is the stable sort.  \<open>DocRefine\<close>: the store as a map from keys to
    documents, and what each operation does to it.  \<open>DocFind\<close>: what a search returns, by a scan and by an
    index, and what is lost after a restart.  \<open>DocIndex\<close>: every history keeps the indexes complete, so
    that an indexed search finds what matches.  \<open>DocServer\<close>: documents behind the server.

  \<^item> \<open>NetPool\<close>: connections and their pool, \<open>src/internal/net/connection.go\<close> and \<open>pool.go\<close>.  What the network
    does in a call (errors, the bytes that arrive) is the record \<open>NetEnv\<close>; a connection keeps the bytes that
    arrived and are unread, so that a call can find what an earlier one left behind.  \<open>Client\<close>: the calls,
    responses, keys and queues of the Go client (\<open>src/clients/go\<close>).  \<open>ClientStores\<close>: its streams, documents
    and builders.  \<open>ClientProps\<close>: the pool over all histories, and the client against the model of the server
    (\<open>serverReply\<close>), from \<open>KVClient.Set\<close> down to the store and back.  \<open>ClientRuns\<close>: the locale \<open>kv_service\<close>, what
    the client of keys needs from whoever answers it, under which any history of its calls refines a map, and its
    \<open>sublocale\<close> for the server.
  \<^item> \<open>Cli\<close>: the command-line program \<open>src/cmd/flincli\<close>, whose processes open the store, do one operation and close it:
    what one sets another prints, and one that fails changes nothing.

  This theory holds a property that spans the interfaces: what one sets over HTTP the Go client reads.

  \<^bold>\<open>Bounds.\<close>  The theorems about formats ask for lengths within the 16- and 32-bit length fields;
  queue positions are 64-bit, delivery counts 32-bit and offsets signed 64-bit, so histories are shorter than
  \<open>2 ^ 64\<close>, \<open>2 ^ 32\<close> and \<open>2 ^ 63\<close> steps.  Names of acknowledged queues, of topics and, for the
  indexes, of collections are without a colon, the separator of the keys: with one, the prefix scans also match
  other queues, topics and collections.  Documents are in ASCII where they go through JSON, which replaces
  bytes that are not UTF-8.

  \<^bold>\<open>Not modelled.\<close>  Start-up code, sockets and their options, the ClusterKit hooks, logging, Badger's options and
  its background collection, the main program of the server, the TypeScript front ends and the benchmarks: they hold no
  logic of the stores.  JSON and the network are parameters.
\<close>

section \<open>Across the interfaces\<close>

text \<open>C20: the two interfaces of the server share one store.  A key that was set over HTTP, without a lifetime and
  answered with 201, is read by the Go client over the binary protocol.\<close>

theorem http_set_client_get:
  assumes "badger_store (heB E)" and "envB E' = heB E" and "decodeSet J body = Some req" and "srKey req \<noteq> []" and "srValue req \<noteq> []"
    and "ttlDuration (srTTL req) \<le> 0" and "length (srKey req) < 65534" and "length (srValue req) < 2 ^ 32"
    and "serveHTTP E J (postTo ''/kv/set'' body) hs = Some (hs', resp)" and "rsStatus resp = 201"
    and "EncodeGetRequest (srKey req) = Some data" and "length data \<le> length (readBuf sc)" and "ready (Suc 0) sc"
    and "idle p c []" and "neWrite N = None" and "neReply N = serverReply E' other (hsServer hs', sc)"
  shows "KVClient_Get N p (srKey req) = Returns (p, Inr (srValue req))"
proof -
  obtain k r where set: "KVStore_Set (heB E) (heNow E) (httpStore hs) (srKey req) (srValue req) (ttlDuration (srTTL req)) = (k, r)"
    by fastforce
  have step: "hs' = withStore hs k" "resp = cors (case r of Inl e \<Rightarrow> writeError (kv_errmsg e) 500 | Inr _ \<Rightarrow> respond 201 success)"
    using assms(3-5,9) set by (auto simp: serve_set handleKVSet_def split: sum.splits)
  with assms(10) have "r = Inr ()" by (cases r) auto
  with set have "KVStore_Set (heB E) (heNow E) (httpStore hs) (srKey req) (srValue req) (ttlDuration (srTTL req)) = (k, Inr ())" by simp
  from KVStore_Set_reads [OF assms(1) this, of "envNow E'"] assms(6)
  have get: "KVStore_Get (heB E) (envNow E') k (srKey req) = Inr (srValue req)" by blast
  have "srvStore (hsServer hs') = k" using step(1) by (simp add: withStore_def)
  with get readLoop_get [OF assms(11,7,12,13), of E' other "hsServer hs'"]
  have reply: "serverReply E' other (hsServer hs', sc) data = frame StatusOK (srValue req)"
    by (simp add: assms(2) serverReply_def)
  note c = fresh_in [OF idle_alone(2) [OF assms(14)]]
  have "KVClient_Get N p (srKey req) = Returns (p\<lparr>conns := [] @ [c]\<rparr>, Inr (srValue req))"
    unfolding KVClient_Get_def assms(11)
    by (rule call_idle [OF assms(14,15)]) (use c assms(8) in \<open>simp_all add: assms(16) reply read_frame\<close>)
  then show ?thesis by (simp add: idle_alone(1) [OF assms(14)])
qed

definition plainJson :: HttpJson where
  "plainJson = fixedJson\<lparr>decodeSet := (\<lambda>_. Some \<lparr>srKey = [107], srValue = [7], srTTL = 0\<rparr>)\<rparr>"

theorem http_set_client_get_witness:
  "\<exists>hs' resp. serveHTTP (httpEnv 0) plainJson (postTo ''/kv/set'' []) memHttp = Some (hs', resp) \<and>
     KVClient_Get (answering (hsServer hs', new_conn)) memPool [107] = Returns (memPool, Inr [7])"
proof -
  have "map_option (rsStatus \<circ> snd) (serveHTTP (httpEnv 0) plainJson (postTo ''/kv/set'' []) memHttp) = Some 201" by code_simp
  then obtain hs' resp where set: "serveHTTP (httpEnv 0) plainJson (postTo ''/kv/set'' []) memHttp = Some (hs', resp)" "rsStatus resp = 201"
    by (rule mem_served)
  obtain data where data: "EncodeGetRequest [107] = Some data" by (simp add: encoded simple_encoders)
  then have len: "length data \<le> length (readBuf new_conn)" by (auto simp: encoded simple_encoders frame_def str16_def mem_ready(3))
  have json: "decodeSet plainJson [] = Some \<lparr>srKey = [107], srValue = [7], srTTL = 0\<rparr>" by (simp add: plainJson_def)
  have "ttlDuration 0 \<le> 0" by code_simp
  with http_set_client_get [OF _ _ json _ _ _ _ _ set _ len mem_ready(2) memPool_idle, of "mem_env 0" "answering (hsServer hs', new_conn)" "\<lambda>_. Some"]
    data mem.badger_store_axioms set(1)
  show ?thesis by (auto simp: answering_def quietNet_def)
qed

end
